(* ===== verification/Prelude.thy ===== *)
theory Prelude
  imports Main "HOL-Library.Word"
begin

text \<open>
  The generic layer shared by every component of the LocalStack model: Python's exceptions as
  values of a sum type, the string operations of Python that the sources use (over
  \<open>string\<close>, that is code points 0 to 255), insertion-ordered dictionaries, and the
  collections of rewrite rules the component proofs use. Nothing here is specific to a component.
\<close>

subsection \<open>Rule collections\<close>

named_theorems dict_simps \<open>laws of insertion-ordered dictionaries\<close>
named_theorems str_simps \<open>laws of the string operations\<close>

subsection \<open>Python exceptions as values\<close>

text \<open>
  The builtin exceptions the modelled code raises or catches. A user-defined exception carries
  its class name and its message.
\<close>

datatype exn =
    TypeError
  | ValueError
  | AttributeError
  | KeyError
  | IndexError
  | OverflowError
  | OSError
  | UnicodeError
  | AssertionError
  | RuntimeError
  | TimeoutError
  | NotImplementedError
  | NameError
  | RecursionError
  | UserError string string

text \<open>A computation that may raise: \<open>Inl e\<close> raises \<open>e\<close>, \<open>Inr x\<close> returns \<open>x\<close>.\<close>

type_synonym 'a result = "exn + 'a"

definition bind_r :: "'e + 'a \<Rightarrow> ('a \<Rightarrow> 'e + 'b) \<Rightarrow> 'e + 'b" where
  "bind_r m f = (case m of Inl e \<Rightarrow> Inl e | Inr x \<Rightarrow> f x)"

lemma bind_r_simps [simp]:
  "bind_r (Inl e) f = Inl e"
  "bind_r (Inr x) f = f x"
  by (simp_all add: bind_r_def)

lemma bind_r_eq_Inr:
  "bind_r m f = Inr y \<longleftrightarrow> (\<exists>x. m = Inr x \<and> f x = Inr y)"
  by (cases m) simp_all

lemma bind_r_eq_Inl:
  "bind_r m f = Inl e \<longleftrightarrow> m = Inl e \<or> (\<exists>x. m = Inr x \<and> f x = Inl e)"
  by (cases m) simp_all

lemma bind_r_cong [fundef_cong]:
  "m = m' \<Longrightarrow> (\<And>x. m' = Inr x \<Longrightarrow> f x = f' x) \<Longrightarrow> bind_r m f = bind_r m' f'"
  by (cases m') simp_all

text \<open>A loop over a list whose body may raise: the first exception ends it.\<close>

fun map_r :: "('a \<Rightarrow> 'e + 'b) \<Rightarrow> 'a list \<Rightarrow> 'e + 'b list" where
  "map_r f [] = Inr []"
| "map_r f (x # xs) = bind_r (f x) (\<lambda>y. bind_r (map_r f xs) (\<lambda>ys. Inr (y # ys)))"

lemma map_r_cong [fundef_cong]:
  "xs = ys \<Longrightarrow> (\<And>x. x \<in> set ys \<Longrightarrow> f x = g x) \<Longrightarrow> map_r f xs = map_r g ys"
  by (induction xs arbitrary: ys) auto

lemma map_r_Inr [simp]: "map_r (\<lambda>x. Inr (f x)) xs = Inr (map f xs)"
  by (induction xs) simp_all

lemma map_r_all_Inr:
  "(\<And>x. x \<in> set xs \<Longrightarrow> f x = Inr (g x)) \<Longrightarrow> map_r f xs = Inr (map g xs)"
  by (induction xs) simp_all

lemma map_r_list_all2:
  "list_all2 (\<lambda>x y. \<exists>z. f x = Inr z \<and> P z y) xs ys \<Longrightarrow> \<exists>zs. map_r f xs = Inr zs \<and> list_all2 P zs ys"
  by (induction rule: list_all2_induct) (force simp: list_all2_Cons2)+

fun filter_r :: "('a \<Rightarrow> 'e + bool) \<Rightarrow> 'a list \<Rightarrow> 'e + 'a list" where
  "filter_r p [] = Inr []"
| "filter_r p (x # xs) =
     bind_r (p x) (\<lambda>b. bind_r (filter_r p xs) (\<lambda>ys. Inr (if b then x # ys else ys)))"

lemma filter_r_subset: "filter_r p xs = Inr ys \<Longrightarrow> set ys \<subseteq> set xs \<and> (\<forall>y \<in> set ys. p y = Inr True)"
  by (induction xs arbitrary: ys) (auto simp: bind_r_eq_Inr split: if_splits)

lemma length_map_r: "map_r f xs = Inr ys \<Longrightarrow> length ys = length xs"
  by (induction xs arbitrary: ys) (auto simp: bind_r_eq_Inr)

subsection \<open>Stateful computations\<close>

text \<open>A computation over a state that may raise; an exception keeps the changes made before it.\<close>

type_synonym ('s, 'a) prog = "'s \<Rightarrow> 'a result \<times> 's"

definition return_s :: "'a \<Rightarrow> ('s, 'a) prog" where
  "return_s x s = (Inr x, s)"

definition raise_s :: "exn \<Rightarrow> ('s, 'a) prog" where
  "raise_s e s = (Inl e, s)"

definition bind_s :: "('s, 'a) prog \<Rightarrow> ('a \<Rightarrow> ('s, 'b) prog) \<Rightarrow> ('s, 'b) prog" where
  "bind_s m f s = (case m s of (Inl e, s') \<Rightarrow> (Inl e, s') | (Inr x, s') \<Rightarrow> f x s')"

definition when_s :: "bool \<Rightarrow> ('s, unit) prog \<Rightarrow> ('s, unit) prog" where
  "when_s b m = (if b then m else return_s ())"

lemma prog_simps [simp]:
  "return_s x s = (Inr x, s)"
  "raise_s e s = (Inl e, s)"
  "when_s True m = m"
  "when_s False m = return_s ()"
  by (simp_all add: return_s_def raise_s_def when_s_def)

lemma bind_s_Inr [simp]: "m s = (Inr x, s') \<Longrightarrow> bind_s m f s = f x s'"
  by (simp add: bind_s_def)

lemma bind_s_Inl [simp]: "m s = (Inl e, s') \<Longrightarrow> bind_s m f s = (Inl e, s')"
  by (simp add: bind_s_def)

lemma bind_s_result:
  "bind_s m f s = (Inr y, s'') \<longleftrightarrow> (\<exists>x s'. m s = (Inr x, s') \<and> f x s' = (Inr y, s''))"
  by (auto simp: bind_s_def split: prod.splits sum.splits)

subsection \<open>Strings\<close>

text \<open>\<open>s.startswith(p)\<close>, \<open>p in s\<close> and \<open>s.split(c)\<close> for a one-character separator.\<close>

fun starts_with :: "'a list \<Rightarrow> 'a list \<Rightarrow> bool" where
  "starts_with [] s = True"
| "starts_with (p # ps) [] = False"
| "starts_with (p # ps) (c # s) = (p = c \<and> starts_with ps s)"

fun contains_sub :: "'a list \<Rightarrow> 'a list \<Rightarrow> bool" where
  "contains_sub p [] = (p = [])"
| "contains_sub p (c # s) = (starts_with p (c # s) \<or> contains_sub p s)"

fun split_on :: "'a \<Rightarrow> 'a list \<Rightarrow> 'a list list" where
  "split_on d [] = [[]]"
| "split_on d (c # s) =
     (if c = d then [] # split_on d s
      else (case split_on d s of [] \<Rightarrow> [[c]] | w # ws \<Rightarrow> (c # w) # ws))"

text \<open>\<open>sep.join(parts)\<close>.\<close>

fun join_with :: "'a list \<Rightarrow> 'a list list \<Rightarrow> 'a list" where
  "join_with sep [] = []"
| "join_with sep [w] = w"
| "join_with sep (w # v # ws) = w @ sep @ join_with sep (v # ws)"

lemma starts_with_iff [str_simps]: "starts_with p s \<longleftrightarrow> (\<exists>t. s = p @ t)"
  by (induction p s rule: starts_with.induct) auto

lemma starts_with_append [simp]: "starts_with p (p @ t)"
  by (simp add: starts_with_iff)

lemma contains_single [simp]: "contains_sub [d] s \<longleftrightarrow> d \<in> set s"
  by (induction s) auto

lemma split_on_nonempty [simp]: "split_on d s \<noteq> []"
  by (induction s) (auto split: list.splits)

lemma split_on_no_sep [simp]: "d \<notin> set s \<Longrightarrow> split_on d s = [s]"
  by (induction s) auto

lemma split_on_append_sep [str_simps]:
  "d \<notin> set s \<Longrightarrow> split_on d (s @ d # t) = s # split_on d t"
  by (induction s) auto

lemma join_split_on [str_simps]: "join_with [d] (split_on d s) = s"
proof (induction s)
  case Nil
  then show ?case by simp
next
  case (Cons c s)
  obtain w ws where w: "split_on d s = w # ws"
    by (cases "split_on d s") auto
  from Cons w show ?case
    by (cases ws) auto
qed

lemma join_with_Cons:
  "ws \<noteq> [] \<Longrightarrow> join_with sep (w # ws) = w @ sep @ join_with sep ws"
  by (cases ws) simp_all

lemma split_join_on:
  "ws \<noteq> [] \<Longrightarrow> (\<And>w. w \<in> set ws \<Longrightarrow> d \<notin> set w) \<Longrightarrow> split_on d (join_with [d] ws) = ws"
proof (induction ws)
  case Nil
  then show ?case by simp
next
  case (Cons w ws)
  then show ?case
    by (cases ws) (auto simp: split_on_append_sep)
qed

text \<open>\<open>str.lower\<close> and \<open>str.strip\<close> on the code points 0 to 255.\<close>

definition lower_char :: "char \<Rightarrow> char" where
  "lower_char c = (let n = of_char c :: nat in
     if (65 \<le> n \<and> n \<le> 90) \<or> (192 \<le> n \<and> n \<le> 222 \<and> n \<noteq> 215) then char_of (n + 32) else c)"

definition lower :: "string \<Rightarrow> string" where
  "lower s = map lower_char s"

definition is_space :: "char \<Rightarrow> bool" where
  "is_space c = (let n = of_char c :: nat in
     (9 \<le> n \<and> n \<le> 13) \<or> (28 \<le> n \<and> n \<le> 32) \<or> n = 133 \<or> n = 160)"

definition strip :: "string \<Rightarrow> string" where
  "strip s = rev (dropWhile is_space (rev (dropWhile is_space s)))"

definition is_digit :: "char \<Rightarrow> bool" where
  "is_digit c = (let n = of_char c :: nat in 48 \<le> n \<and> n \<le> 57)"

text \<open>\<open>s.split(None, 1)\<close> and \<open>s.split()\<close>: words are separated by runs of whitespace.\<close>

definition split_ws_once :: "string \<Rightarrow> string list" where
  "split_ws_once s =
     (let s' = dropWhile is_space s;
          w = takeWhile (\<lambda>c. \<not> is_space c) s';
          r = dropWhile is_space (dropWhile (\<lambda>c. \<not> is_space c) s')
      in if w = [] then [] else if r = [] then [w] else [w, r])"

fun split_ws :: "string \<Rightarrow> string list" where
  "split_ws [] = []"
| "split_ws (c # s) =
     (if is_space c then split_ws s
      else if s = [] \<or> is_space (hd s) then [c] # split_ws s
      else (case split_ws s of [] \<Rightarrow> [[c]] | w # ws \<Rightarrow> (c # w) # ws))"

text \<open>\<open>s.rpartition(d)\<close>: the parts before and after the last \<open>d\<close>.\<close>

definition rpartition :: "'a \<Rightarrow> 'a list \<Rightarrow> 'a list \<times> 'a list \<times> 'a list" where
  "rpartition d s =
     (if d \<in> set s
      then (rev (tl (dropWhile (\<lambda>c. c \<noteq> d) (rev s))), [d], rev (takeWhile (\<lambda>c. c \<noteq> d) (rev s)))
      else ([], [], s))"

text \<open>\<open>s.split(d, 1)\<close> where \<open>d\<close> occurs: the parts around the first \<open>d\<close>.\<close>

definition split_once :: "'a \<Rightarrow> 'a list \<Rightarrow> 'a list \<times> 'a list" where
  "split_once d s = (takeWhile (\<lambda>c. c \<noteq> d) s, tl (dropWhile (\<lambda>c. c \<noteq> d) s))"

lemma split_once_append [str_simps]:
  "d \<notin> set s \<Longrightarrow> split_once d (s @ d # t) = (s, t)"
  by (induction s) (auto simp: split_once_def)

lemma rpartition_append [str_simps]:
  assumes "d \<notin> set t"
  shows "rpartition d (s @ d # t) = (s, [d], t)"
proof -
  have tw: "takeWhile (\<lambda>c. c \<noteq> d) (rev t @ d # rev s) = rev t"
    using assms by (subst takeWhile_append2) auto
  have dw: "dropWhile (\<lambda>c. c \<noteq> d) (rev t @ d # rev s) = d # rev s"
    using assms by (subst dropWhile_append2) auto
  show ?thesis by (simp add: rpartition_def tw dw)
qed

subsection \<open>Insertion-ordered dictionaries\<close>

text \<open>
  A Python \<open>dict\<close> keeps its keys in insertion order: assigning to a key that is present
  replaces the value in place, assigning to a new key appends, deleting removes the entry.
  Keys of a well-formed dictionary are distinct.
\<close>

type_synonym ('k, 'v) dict = "('k \<times> 'v) list"

abbreviation dict_get :: "('k, 'v) dict \<Rightarrow> 'k \<Rightarrow> 'v option" where
  "dict_get d k \<equiv> map_of d k"

fun dict_set :: "'k \<Rightarrow> 'v \<Rightarrow> ('k, 'v) dict \<Rightarrow> ('k, 'v) dict" where
  "dict_set k v [] = [(k, v)]"
| "dict_set k v ((k', v') # d) = (if k' = k then (k', v) # d else (k', v') # dict_set k v d)"

definition dict_del :: "'k \<Rightarrow> ('k, 'v) dict \<Rightarrow> ('k, 'v) dict" where
  "dict_del k d = filter (\<lambda>(k', _). k' \<noteq> k) d"

abbreviation dict_keys :: "('k, 'v) dict \<Rightarrow> 'k list" where
  "dict_keys d \<equiv> map fst d"

abbreviation dict_values :: "('k, 'v) dict \<Rightarrow> 'v list" where
  "dict_values d \<equiv> map snd d"

definition dict_update :: "('k, 'v) dict \<Rightarrow> ('k, 'v) dict \<Rightarrow> ('k, 'v) dict" where
  "dict_update d e = fold (\<lambda>(k, v). dict_set k v) e d"

definition wf_dict :: "('k, 'v) dict \<Rightarrow> bool" where
  "wf_dict d \<longleftrightarrow> distinct (dict_keys d)"

lemma dict_get_set [dict_simps]:
  "dict_get (dict_set k v d) k' = (if k' = k then Some v else dict_get d k')"
  by (induction d) auto

lemma dict_get_del [dict_simps]:
  "dict_get (dict_del k d) k' = (if k' = k then None else dict_get d k')"
  by (induction d) (auto simp: dict_del_def)

lemma dict_set_set [dict_simps]: "dict_set k v (dict_set k w d) = dict_set k v d"
  by (induction d) auto

lemma dict_keys_set [dict_simps]:
  "dict_keys (dict_set k v d) = (if k \<in> set (dict_keys d) then dict_keys d else dict_keys d @ [k])"
  by (induction d) force+

lemma dict_keys_del [dict_simps]:
  "dict_keys (dict_del k d) = filter (\<lambda>k'. k' \<noteq> k) (dict_keys d)"
  by (induction d) (auto simp: dict_del_def)

lemma dict_set_new [dict_simps]: "k \<notin> set (dict_keys d) \<Longrightarrow> dict_set k v d = d @ [(k, v)]"
  by (induction d) auto

lemma wf_dict_Nil [simp, intro]: "wf_dict []"
  by (simp add: wf_dict_def)

lemma wf_dict_set [simp, intro]: "wf_dict d \<Longrightarrow> wf_dict (dict_set k v d)"
  by (simp add: wf_dict_def dict_simps)

lemma wf_dict_del [simp, intro]: "wf_dict d \<Longrightarrow> wf_dict (dict_del k d)"
  by (simp add: wf_dict_def dict_simps)

lemma dict_get_None [dict_simps]: "dict_get d k = None \<longleftrightarrow> k \<notin> set (dict_keys d)"
  by (simp add: map_of_eq_None_iff)

lemma dict_get_update [dict_simps]:
  "dict_get (dict_update d e) k = (case dict_get (rev e) k of None \<Rightarrow> dict_get d k | Some v \<Rightarrow> Some v)"
proof (induction e arbitrary: d)
  case Nil
  then show ?case by (simp add: dict_update_def)
next
  case (Cons kv e)
  obtain k' v' where kv: "kv = (k', v')" by (cases kv)
  have "dict_update d (kv # e) = dict_update (dict_set k' v' d) e"
    by (simp add: dict_update_def kv)
  then show ?case
    by (simp add: Cons.IH kv dict_get_set map_add_def split: option.splits)
qed

lemma wf_dict_update [simp, intro]: "wf_dict d \<Longrightarrow> wf_dict (dict_update d e)"
proof (induction e arbitrary: d)
  case Nil
  then show ?case by (simp add: dict_update_def)
next
  case (Cons kv e)
  obtain k v where kv: "kv = (k, v)" by (cases kv)
  have "wf_dict (dict_update (dict_set k v d) e)"
    using Cons by blast
  then show ?case by (simp add: dict_update_def kv)
qed

subsection \<open>Collections of headers\<close>

text \<open>
  Header collections compare names after mapping them to lower case. \<open>headers[n] = v\<close> replaces the
  first entry of the name and drops the others, or appends.
\<close>

definition ci_get :: "('k \<Rightarrow> 'k) \<Rightarrow> ('k \<times> 'v) list \<Rightarrow> 'k \<Rightarrow> 'v option" where
  "ci_get low hs n = map_of (map (\<lambda>(k, v). (low k, v)) hs) (low n)"

definition ci_del :: "('k \<Rightarrow> 'k) \<Rightarrow> 'k \<Rightarrow> ('k \<times> 'v) list \<Rightarrow> ('k \<times> 'v) list" where
  "ci_del low n hs = filter (\<lambda>(k, v). low k \<noteq> low n) hs"

fun ci_set :: "('k \<Rightarrow> 'k) \<Rightarrow> 'k \<Rightarrow> 'v \<Rightarrow> ('k \<times> 'v) list \<Rightarrow> ('k \<times> 'v) list" where
  "ci_set low n v [] = [(n, v)]"
| "ci_set low n v ((k, w) # hs) = (if low k = low n then (n, v) # ci_del low n hs else (k, w) # ci_set low n v hs)"

definition ci_default :: "('k \<Rightarrow> 'k) \<Rightarrow> 'k \<Rightarrow> 'v \<Rightarrow> ('k \<times> 'v) list \<Rightarrow> ('k \<times> 'v) list" where
  "ci_default low n v hs = (if ci_get low hs n = None then ci_set low n v hs else hs)"

lemma ci_get_Nil [simp]: "ci_get low [] n = None"
  by (simp add: ci_get_def)

lemma ci_get_del: "ci_get low (ci_del low n hs) m = (if low m = low n then None else ci_get low hs m)"
  by (induction hs) (auto simp: ci_get_def ci_del_def)

lemma ci_get_set: "ci_get low (ci_set low n v hs) m = (if low m = low n then Some v else ci_get low hs m)"
proof (induction hs)
  case (Cons kw hs)
  then show ?case
    using ci_get_del [of low n hs m] by (cases kw) (auto simp: ci_get_def)
qed (simp add: ci_get_def)

lemma ci_get_default:
  "ci_get low (ci_default low n v hs) m = (if low m = low n \<and> ci_get low hs n = None then Some v else ci_get low hs m)"
  by (auto simp: ci_default_def ci_get_set)

end
