(* ===== verification/Floats.thy ===== *)
theory Floats
  imports Prelude
begin

text \<open>
  The floating point numbers the CBOR codec moves around. A Python \<open>float\<close> is its IEEE 754
  binary64 bit pattern; conversions between the widths, the true division of integers and the
  multiplication the timestamp code performs are exact fractions rounded half to even. The second
  part models the three \<open>datetime\<close> operations of the codec: \<open>timestamp()\<close>,
  \<open>fromtimestamp(_, tz=UTC)\<close> and the millisecond truncation between them.
\<close>

subsection \<open>Magnitudes and rounding\<close>

text \<open>
  A binary format has \<open>mb\<close> stored mantissa bits and a least exponent \<open>-em\<close>. A magnitude
  (the bit pattern without its sign) denotes \<open>m * 2 ^ (s - em)\<close> for the pair \<open>(m, s)\<close> of
  \<open>mag_parts\<close>.
\<close>

fun bit_length :: "nat \<Rightarrow> nat" where
  "bit_length n = (if n = 0 then 0 else Suc (bit_length (n div 2)))"

declare bit_length.simps [simp del]

definition round_half_even :: "nat \<Rightarrow> nat \<Rightarrow> nat" where
  "round_half_even a d =
     (let q = a div d; r = a mod d
      in if 2 * r < d \<or> (2 * r = d \<and> even q) then q else q + 1)"

definition mag_parts :: "nat \<Rightarrow> nat \<Rightarrow> nat \<times> nat" where
  "mag_parts mb b =
     (let e = b div 2 ^ mb; m = b mod 2 ^ mb
      in if e = 0 then (m, 0) else (m + 2 ^ mb, e - 1))"

text \<open>The magnitude nearest to \<open>a / d\<close>; it may lie past the largest finite one.\<close>

definition round_mag :: "nat \<Rightarrow> nat \<Rightarrow> nat \<Rightarrow> nat \<Rightarrow> nat" where
  "round_mag mb em a d =
     (let a' = a * 2 ^ em;
          e0 = bit_length (a' div d);
          s = e0 - Suc mb
      in s * 2 ^ mb + round_half_even a' (d * 2 ^ s))"

text \<open>The fraction a magnitude denotes.\<close>

definition mag_frac :: "nat \<Rightarrow> nat \<Rightarrow> nat \<Rightarrow> nat \<times> nat" where
  "mag_frac mb em b = (let (m, s) = mag_parts mb b in (m * 2 ^ s, 2 ^ em))"

lemma bit_length_0 [simp]: "bit_length 0 = 0"
  by (simp add: bit_length.simps)

lemma bit_length_double: "0 < n \<Longrightarrow> bit_length (2 * n) = Suc (bit_length n)"
  by (subst bit_length.simps) simp

lemma bit_length_mult_pow: "0 < n \<Longrightarrow> bit_length (n * 2 ^ s) = bit_length n + s"
proof (induction s)
  case 0
  then show ?case by simp
next
  case (Suc s)
  have "bit_length (n * 2 ^ Suc s) = bit_length (2 * (n * 2 ^ s))"
    by (simp add: mult.left_commute)
  also have "\<dots> = Suc (bit_length (n * 2 ^ s))"
    using Suc.prems by (simp add: bit_length_double)
  finally show ?case using Suc by simp
qed

lemma bit_length_le: "n < 2 ^ k \<Longrightarrow> bit_length n \<le> k"
proof (induction k arbitrary: n)
  case 0
  then show ?case by simp
next
  case (Suc k)
  show ?case
  proof (cases "n = 0")
    case False
    have "n div 2 < 2 ^ k" using Suc.prems by (simp add: less_mult_imp_div_less mult.commute)
    then have "bit_length (n div 2) \<le> k" by (rule Suc.IH)
    with False show ?thesis by (subst bit_length.simps) simp
  qed simp
qed

lemma bit_length_ge: "2 ^ k \<le> n \<Longrightarrow> k < bit_length n"
proof (induction k arbitrary: n)
  case 0
  then show ?case by (subst bit_length.simps) simp
next
  case (Suc k)
  have "2 ^ k \<le> n div 2" using Suc.prems by (simp add: less_eq_div_iff_mult_less_eq)
  then have "k < bit_length (n div 2)" by (rule Suc.IH)
  moreover have "n \<noteq> 0"
    using Suc.prems by (metis le_zero_eq power_eq_0_iff zero_neq_numeral)
  ultimately show ?case by (subst bit_length.simps) simp
qed

lemma round_half_even_exact: "0 < d \<Longrightarrow> round_half_even (q * d) d = q"
  by (simp add: round_half_even_def)

text \<open>
  Rounding \<open>m * 2 ^ s\<close> units in the last place, with \<open>m\<close> below the mantissa bound, loses
  nothing: the rounded magnitude denotes the same number.
\<close>

lemma round_mag_exact:
  assumes "m < 2 ^ Suc mb" and "0 < m"
  shows "mag_frac mb em (round_mag mb em (m * 2 ^ s) (2 ^ em)) = (m * 2 ^ s, 2 ^ em)"
proof -
  define s' where "s' = bit_length m + s - Suc mb"
  have bl: "bit_length m \<le> Suc mb" using assms by (simp add: bit_length_le)
  have a: "m * 2 ^ s * 2 ^ em div 2 ^ em = m * 2 ^ s" by simp
  have s'_le: "s' \<le> s" using bl by (simp add: s'_def)
  define m' where "m' = m * 2 ^ (s - s')"
  have m': "m' * 2 ^ s' = m * 2 ^ s"
    using s'_le by (simp add: m'_def power_add [symmetric])
  have unit: "m * 2 ^ s * 2 ^ em = m' * (2 ^ em * 2 ^ s')"
    using m' by (metis mult.assoc mult.commute)
  have r: "round_half_even (m * 2 ^ s * 2 ^ em) (2 ^ em * 2 ^ s') = m'"
    unfolding unit by (rule round_half_even_exact) simp
  have eq: "round_mag mb em (m * 2 ^ s) (2 ^ em) = s' * 2 ^ mb + m'"
    using assms by (simp add: round_mag_def Let_def a bit_length_mult_pow s'_def [symmetric] r)
  have blm': "bit_length m' = bit_length m + (s - s')"
    using assms by (simp add: m'_def bit_length_mult_pow)
  have m'_lt: "m' < 2 ^ Suc mb"
  proof (rule ccontr)
    assume "\<not> m' < 2 ^ Suc mb"
    then have "Suc mb < bit_length m'" by (intro bit_length_ge) simp
    with blm' bl show False by (simp add: s'_def)
  qed
  show ?thesis
  proof (cases "s' = 0")
    case True
    show ?thesis
    proof (cases "m' < 2 ^ mb")
      case True
      with \<open>s' = 0\<close> eq m' show ?thesis by (simp add: mag_frac_def mag_parts_def)
    next
      case False
      then have d: "m' div 2 ^ mb = 1" and md: "m' mod 2 ^ mb = m' - 2 ^ mb"
        using m'_lt by (simp_all add: div_nat_eqI le_mod_geq)
      from False \<open>s' = 0\<close> eq m' d md show ?thesis
        by (simp add: mag_frac_def mag_parts_def Let_def)
    qed
  next
    case False
    then have "bit_length m' = Suc mb" using blm' s'_le by (simp add: s'_def)
    then have "2 ^ mb \<le> m'"
      using bit_length_le [of m' mb] by (rule_tac ccontr) simp
    then obtain r where r: "m' = 2 ^ mb + r" by (metis le_Suc_ex)
    with m'_lt have rlt: "r < 2 ^ mb" by simp
    have sum: "s' * 2 ^ mb + m' = r + (Suc s') * 2 ^ mb" by (simp add: r)
    have "(r + Suc s' * 2 ^ mb) div 2 ^ mb = Suc s'"
      using rlt by (intro div_nat_eqI) simp_all
    moreover have "(r + Suc s' * 2 ^ mb) mod 2 ^ mb = r"
      using rlt by (metis mod_mult_self1 mod_less)
    ultimately have "(s' * 2 ^ mb + m') div 2 ^ mb = Suc s'" and "(s' * 2 ^ mb + m') mod 2 ^ mb = r"
      unfolding sum by simp_all
    with eq m' r show ?thesis by (simp add: mag_frac_def mag_parts_def add.commute)
  qed
qed

text \<open>The fraction may be scaled, and the value of a magnitude rounds to the magnitude itself.\<close>

lemma round_half_even_scale:
  assumes "0 < c"
  shows "round_half_even (a * c) (d * c) = round_half_even a d"
proof -
  have "2 * (a mod d * c) < d * c \<longleftrightarrow> 2 * (a mod d) < d"
    using assms by (metis mult.assoc mult_less_cancel2)
  moreover have "2 * (a mod d * c) = d * c \<longleftrightarrow> 2 * (a mod d) = d"
    using assms by (metis mult.assoc mult_cancel2 less_numeral_extra(3))
  ultimately show ?thesis
    using assms by (simp add: round_half_even_def Let_def mult_mod_left [symmetric])
qed

lemma round_mag_scale:
  assumes "0 < c"
  shows "round_mag mb em (a * c) (d * c) = round_mag mb em a d"
proof -
  have n: "a * c * 2 ^ em = a * 2 ^ em * c" by simp
  have q: "a * c * 2 ^ em div (d * c) = a * 2 ^ em div d"
    unfolding n using assms by simp
  have r: "round_half_even (a * c * 2 ^ em) (d * c * 2 ^ s) = round_half_even (a * 2 ^ em) (d * 2 ^ s)" for s
    using round_half_even_scale [OF assms, of "a * 2 ^ em" "d * 2 ^ s"] by (simp add: ac_simps)
  show ?thesis unfolding round_mag_def Let_def q r ..
qed

lemma round_mag_mag_frac:
  "(case mag_frac mb em b of (a, d) \<Rightarrow> round_mag mb em a d) = b"
proof (cases "b div 2 ^ mb = 0")
  case True
  then have b: "b < 2 ^ mb" by (simp add: div_eq_0_iff)
  then have bl: "bit_length b \<le> mb" by (rule bit_length_le)
  have "round_half_even (b * 2 ^ em) (2 ^ em) = b" by (rule round_half_even_exact) simp
  with b bl show ?thesis by (simp add: mag_frac_def mag_parts_def round_mag_def)
next
  case False
  define m where "m = b mod 2 ^ mb + 2 ^ mb"
  obtain e where e: "b div 2 ^ mb = Suc e" using False by (cases "b div 2 ^ mb") auto
  have m_lt: "m < 2 ^ Suc mb" by (simp add: m_def)
  then have "bit_length m \<le> Suc mb" by (rule bit_length_le)
  moreover have "mb < bit_length m" by (rule bit_length_ge) (simp add: m_def)
  ultimately have bl: "bit_length m = Suc mb" by simp
  have blm: "bit_length (m * 2 ^ e) = Suc mb + e"
    using bl bit_length_mult_pow [of m e] by (simp add: m_def)
  have r: "round_half_even (m * 2 ^ e * 2 ^ em) (2 ^ em * 2 ^ e) = m"
    using round_half_even_exact [of "2 ^ em * 2 ^ e" m] by (simp add: ac_simps)
  have "b = Suc e * 2 ^ mb + b mod 2 ^ mb" by (metis e div_mult_mod_eq)
  then have "e * 2 ^ mb + m = b" by (simp add: m_def)
  moreover have "mag_frac mb em b = (m * 2 ^ e, 2 ^ em)"
    by (simp add: mag_frac_def mag_parts_def Let_def e m_def)
  ultimately show ?thesis
    by (simp add: round_mag_def Let_def blm r)
qed

lemma round_mag_0: "0 < d \<Longrightarrow> round_mag mb em 0 d = 0"
  by (simp add: round_mag_def round_half_even_def)

subsection \<open>Bit patterns\<close>

text \<open>
  The three interchange formats as unsigned words. A magnitude at or above \<open>inf_mag\<close> is an
  infinity (equal) or a NaN (above).
\<close>

definition f64_inf_mag :: nat where "f64_inf_mag = 2047 * 2 ^ 52"
definition f32_inf_mag :: nat where "f32_inf_mag = 255 * 2 ^ 23"
definition f16_inf_mag :: nat where "f16_inf_mag = 31 * 2 ^ 10"

definition f64_neg :: "64 word \<Rightarrow> bool" where "f64_neg w = (2 ^ 63 \<le> unat w)"
definition f64_mag :: "64 word \<Rightarrow> nat" where "f64_mag w = unat w mod 2 ^ 63"

definition f64_make :: "bool \<Rightarrow> nat \<Rightarrow> 64 word" where
  "f64_make sg b = word_of_nat ((if sg then 2 ^ 63 else 0) + b)"

definition f64_is_nan :: "64 word \<Rightarrow> bool" where "f64_is_nan w = (f64_inf_mag < f64_mag w)"
definition f64_is_inf :: "64 word \<Rightarrow> bool" where "f64_is_inf w = (f64_mag w = f64_inf_mag)"
definition f64_finite :: "64 word \<Rightarrow> bool" where "f64_finite w = (f64_mag w < f64_inf_mag)"

definition f64_pos_inf :: "64 word" where "f64_pos_inf = f64_make False f64_inf_mag"
definition f64_neg_inf :: "64 word" where "f64_neg_inf = f64_make True f64_inf_mag"

text \<open>The quiet NaN that unpacking a half-precision NaN yields; \<open>sg\<close> is its sign.\<close>

definition f64_nan :: "bool \<Rightarrow> 64 word" where "f64_nan sg = f64_make sg (f64_inf_mag + 2 ^ 51)"

text \<open>\<open>struct.unpack\<close> with the formats \<open>>e\<close> and \<open>>f\<close>.\<close>

definition unpack_e :: "16 word \<Rightarrow> 64 word" where
  "unpack_e w =
     (let sg = 2 ^ 15 \<le> unat w; b = unat w mod 2 ^ 15
      in if b < f16_inf_mag then (case mag_frac 10 24 b of (a, d) \<Rightarrow> f64_make sg (round_mag 52 1074 a d))
         else if b = f16_inf_mag then f64_make sg f64_inf_mag
         else f64_nan sg)"

definition unpack_f :: "32 word \<Rightarrow> 64 word" where
  "unpack_f w =
     (let sg = 2 ^ 31 \<le> unat w; b = unat w mod 2 ^ 31
      in if b < f32_inf_mag then (case mag_frac 23 149 b of (a, d) \<Rightarrow> f64_make sg (round_mag 52 1074 a d))
         else if b = f32_inf_mag then f64_make sg f64_inf_mag
         else f64_make sg (f64_inf_mag + (2 ^ 22 + b mod 2 ^ 22) * 2 ^ 29))"

text \<open>\<open>struct.pack\<close> with the format \<open>>f\<close>, on a finite number.\<close>

definition pack_f :: "64 word \<Rightarrow> 32 word result" where
  "pack_f w =
     (case mag_frac 52 1074 (f64_mag w) of (a, d) \<Rightarrow>
        let b = round_mag 23 149 a d
        in if f32_inf_mag \<le> b then Inl OverflowError
           else Inr (word_of_nat ((if f64_neg w then 2 ^ 31 else 0) + b)))"

text \<open>\<open>float(n)\<close> of an integer.\<close>

definition int_to_f64 :: "int \<Rightarrow> 64 word result" where
  "int_to_f64 n =
     (let b = round_mag 52 1074 (nat \<bar>n\<bar>) 1
      in if f64_inf_mag \<le> b then Inl OverflowError else Inr (f64_make (n < 0) b))"

lemma f64_make_simps:
  assumes "b < 2 ^ 63"
  shows "f64_neg (f64_make sg b) = sg" and "f64_mag (f64_make sg b) = b"
proof -
  have "(if sg then 2 ^ 63 else 0) + b < 2 ^ LENGTH(64)" using assms by simp
  then have u: "unat (f64_make sg b) = (if sg then 2 ^ 63 else 0) + b"
    unfolding f64_make_def by (simp only: unsigned_of_nat take_bit_nat_eq_self of_nat_id)
  show "f64_neg (f64_make sg b) = sg" "f64_mag (f64_make sg b) = b"
    using assms by (simp_all add: f64_neg_def f64_mag_def u)
qed

lemma f64_make_parts: "f64_make (f64_neg w) (f64_mag w) = w"
proof -
  have "(if f64_neg w then 2 ^ 63 else 0) + f64_mag w = unat w"
  proof (cases "f64_neg w")
    case True
    have "unat w < 2 ^ 64" using unsigned_less [of w] by simp
    moreover have "2 ^ 63 \<le> unat w" using True by (simp add: f64_neg_def)
    ultimately show ?thesis using True by (simp add: f64_mag_def le_mod_geq)
  next
    case False
    then show ?thesis by (simp add: f64_mag_def f64_neg_def)
  qed
  then show ?thesis by (simp add: f64_make_def)
qed

lemma less_pow_bit_length: "n < 2 ^ bit_length n"
proof (induction n rule: less_induct)
  case (less n)
  show ?case
  proof (cases "n = 0")
    case False
    then have "n div 2 < 2 ^ bit_length (n div 2)" using less by simp
    then have "n < 2 * 2 ^ bit_length (n div 2)" by (simp add: div_less_iff_less_mult)
    with False show ?thesis by (subst bit_length.simps) simp
  qed simp
qed

lemma round_mag_bound:
  assumes "0 < d" and "a * 2 ^ em div d < 2 ^ k"
  shows "round_mag mb em a d \<le> (k - Suc mb) * 2 ^ mb + 2 ^ Suc mb"
proof -
  define q where "q = a * 2 ^ em div d"
  define s where "s = bit_length q - Suc mb"
  have s: "s \<le> k - Suc mb" using bit_length_le [of q k] assms by (simp add: s_def q_def diff_le_mono)
  have "bit_length q \<le> Suc mb + s" by (simp add: s_def)
  then have "(2::nat) ^ bit_length q \<le> 2 ^ (Suc mb + s)" by (rule power_increasing) simp
  with less_pow_bit_length [of q] have "q < 2 ^ (Suc mb + s)" by (rule less_le_trans)
  then have "q div 2 ^ s < 2 ^ Suc mb"
    by (simp add: less_mult_imp_div_less power_add)
  moreover have "a * 2 ^ em div (d * 2 ^ s) = q div 2 ^ s"
    by (simp add: q_def div_mult2_eq)
  ultimately have "round_half_even (a * 2 ^ em) (d * 2 ^ s) \<le> 2 ^ Suc mb"
    by (simp add: round_half_even_def Let_def)
  moreover have "s * 2 ^ mb \<le> (k - Suc mb) * 2 ^ mb" using s by simp
  ultimately show ?thesis
    unfolding round_mag_def Let_def q_def [symmetric] s_def [symmetric] by linarith
qed

subsection \<open>Timestamps\<close>

text \<open>
  An aware \<open>datetime\<close> is its number of microseconds since the epoch. \<open>timestamp()\<close>
  divides it by \<open>10 ^ 6\<close>, correctly rounded.
\<close>

definition datetime_timestamp :: "int \<Rightarrow> 64 word" where
  "datetime_timestamp us = f64_make (us < 0) (round_mag 52 1074 (nat \<bar>us\<bar>) (10 ^ 6))"

text \<open>\<open>int(x * 1000)\<close> of a float, and \<open>n / 1000\<close> of an integer.\<close>

definition float_millis :: "64 word \<Rightarrow> int result" where
  "float_millis x =
     (if f64_is_nan x then Inl ValueError
      else if f64_is_inf x then Inl OverflowError
      else case mag_frac 52 1074 (f64_mag x) of (a, d) \<Rightarrow>
        let p = round_mag 52 1074 (a * 1000) d
        in if f64_inf_mag \<le> p then Inl OverflowError
           else case mag_frac 52 1074 p of (a', d') \<Rightarrow>
             Inr (if f64_neg x then - int (a' div d') else int (a' div d')))"

definition millis_to_seconds :: "int \<Rightarrow> 64 word" where
  "millis_to_seconds n = f64_make (n < 0) (round_mag 52 1074 (nat \<bar>n\<bar>) 1000)"

text \<open>
  \<open>datetime.fromtimestamp(x, tz=UTC)\<close> of a finite float: whole seconds plus the fraction
  rounded to microseconds, half to even. The C function fails in three ways: seconds that do not
  fit \<open>time_t\<close>, a year that does not fit a C \<open>int\<close>, a year outside 1 to 9999.
\<close>

definition datetime_of_seconds :: "64 word \<Rightarrow> int result" where
  "datetime_of_seconds x =
     (case mag_frac 52 1074 (f64_mag x) of (a, d) \<Rightarrow>
        let whole = a div d;
            us = (case mag_frac 52 1074 (round_mag 52 1074 (a mod d * 10 ^ 6) d) of
                    (a', d') \<Rightarrow> round_half_even a' d');
            total = (if f64_neg x then - 1 else 1) * int (whole * 10 ^ 6 + us);
            sec = total div 10 ^ 6
        in if sec < - (2 ^ 63) \<or> 2 ^ 63 \<le> sec then Inl OverflowError
           else if sec < - 67768040609740800 \<or> 67768036191676799 < sec then Inl OSError
           else if sec < - 62135596800 \<or> 253402300799 < sec then Inl ValueError
           else Inr total)"

text \<open>
  A whole number of seconds survives the three conversions: every intermediate value is an
  integer below \<open>2 ^ 53\<close>.
\<close>

lemma mag_frac_small_int:
  assumes "k < 2 ^ 53"
  shows "mag_frac 52 1074 (round_mag 52 1074 k 1) = (k * 2 ^ 1074, 2 ^ 1074)"
    and "round_mag 52 1074 k 1 < f64_inf_mag"
proof -
  show "mag_frac 52 1074 (round_mag 52 1074 k 1) = (k * 2 ^ 1074, 2 ^ 1074)"
  proof (cases "k = 0")
    case True
    then show ?thesis by (simp add: round_mag_0 mag_frac_def mag_parts_def)
  next
    case False
    have "round_mag 52 1074 k 1 = round_mag 52 1074 (k * 2 ^ 1074) (1 * 2 ^ 1074)"
      by (rule round_mag_scale [symmetric]) simp
    moreover have "mag_frac 52 1074 (round_mag 52 1074 (k * 2 ^ 1074) (2 ^ 1074)) = (k * 2 ^ 1074, 2 ^ 1074)"
      by (rule round_mag_exact) (use assms False in simp_all)
    ultimately show ?thesis by simp
  qed
  have "k * 2 ^ 1074 < 2 ^ 53 * 2 ^ 1074" using assms by (intro mult_strict_right_mono) simp_all
  then have "k * 2 ^ 1074 div 1 < 2 ^ (53 + 1074)" by (simp only: power_add div_by_1)
  then have "round_mag 52 1074 k 1 \<le> (53 + 1074 - Suc 52) * 2 ^ 52 + 2 ^ Suc 52"
    by (intro round_mag_bound) simp_all
  then show "round_mag 52 1074 k 1 < f64_inf_mag" by (simp add: f64_inf_mag_def)
qed

lemma f64_make_small_int:
  assumes "k < 2 ^ 53"
  shows "f64_mag (f64_make sg (round_mag 52 1074 k 1)) = round_mag 52 1074 k 1"
    and "f64_neg (f64_make sg (round_mag 52 1074 k 1)) = sg"
    and "f64_finite (f64_make sg (round_mag 52 1074 k 1))"
proof -
  have "round_mag 52 1074 k 1 < 2 ^ 63"
    using mag_frac_small_int(2) [OF assms] by (simp add: f64_inf_mag_def)
  from f64_make_simps [OF this] mag_frac_small_int(2) [OF assms]
  show "f64_mag (f64_make sg (round_mag 52 1074 k 1)) = round_mag 52 1074 k 1"
    "f64_neg (f64_make sg (round_mag 52 1074 k 1)) = sg"
    "f64_finite (f64_make sg (round_mag 52 1074 k 1))"
    by (simp_all add: f64_finite_def)
qed

lemma round_mag_div_int: "0 < c \<Longrightarrow> round_mag mb em (k * c) c = round_mag mb em k 1"
  using round_mag_scale [of c mb em k 1] by simp

lemma datetime_timestamp_seconds:
  "datetime_timestamp (10 ^ 6 * k) = f64_make (k < 0) (round_mag 52 1074 (nat \<bar>k\<bar>) 1)"
proof -
  have "nat \<bar>10 ^ 6 * k\<bar> = nat \<bar>k\<bar> * 10 ^ 6" by (simp add: abs_mult nat_mult_distrib)
  moreover have "10 ^ 6 * k < 0 \<longleftrightarrow> k < 0" by simp
  ultimately show ?thesis
    unfolding datetime_timestamp_def using round_mag_div_int [of "10 ^ 6" 52 1074 "nat \<bar>k\<bar>"] by simp
qed

lemma float_millis_seconds:
  assumes "\<bar>k\<bar> < 2 ^ 40"
  shows "float_millis (f64_make (k < 0) (round_mag 52 1074 (nat \<bar>k\<bar>) 1)) = Inr (1000 * k)"
proof -
  let ?n = "nat \<bar>k\<bar>"
  have n: "?n < 2 ^ 53" and n1000: "?n * 1000 < 2 ^ 53" using assms by simp_all
  have p: "round_mag 52 1074 (?n * 2 ^ 1074 * 1000) (2 ^ 1074) = round_mag 52 1074 (?n * 1000) 1"
    using round_mag_div_int [of "2 ^ 1074" 52 1074 "?n * 1000"] by (simp only: ac_simps) simp
  have fin: "\<not> f64_is_nan x" "\<not> f64_is_inf x" if "f64_finite x" for x
    using that by (simp_all add: f64_finite_def f64_is_nan_def f64_is_inf_def)
  have dv: "?n * 1000 * 2 ^ 1074 div 2 ^ 1074 = ?n * 1000" by (rule nonzero_mult_div_cancel_right) simp
  show ?thesis
    unfolding float_millis_def if_not_P [OF fin(1) [OF f64_make_small_int(3) [OF n]]]
      if_not_P [OF fin(2) [OF f64_make_small_int(3) [OF n]]]
      f64_make_small_int(1,2) [OF n] mag_frac_small_int(1) [OF n] prod.case p Let_def
      mag_frac_small_int(1) [OF n1000] dv
    using mag_frac_small_int(2) [OF n1000] by (auto simp: not_le)
qed

lemma millis_to_seconds_int:
  "millis_to_seconds (1000 * k) = f64_make (k < 0) (round_mag 52 1074 (nat \<bar>k\<bar>) 1)"
proof -
  have "nat \<bar>1000 * k\<bar> = nat \<bar>k\<bar> * 1000" by (simp add: abs_mult nat_mult_distrib)
  then show ?thesis
    unfolding millis_to_seconds_def using round_mag_div_int [of 1000 52 1074 "nat \<bar>k\<bar>"] by simp
qed

lemma datetime_of_seconds_int:
  assumes "- 62135596800 \<le> k" and "k \<le> 253402300799"
  shows "datetime_of_seconds (f64_make (k < 0) (round_mag 52 1074 (nat \<bar>k\<bar>) 1)) = Inr (10 ^ 6 * k)"
proof -
  let ?n = "nat \<bar>k\<bar>"
  have n: "?n < 2 ^ 53" using assms by simp
  have dv: "?n * 2 ^ 1074 div 2 ^ 1074 = ?n" and md: "?n * 2 ^ 1074 mod 2 ^ 1074 = 0"
    by (rule nonzero_mult_div_cancel_right) (simp, rule mod_mult_self2_is_0)
  have us: "(case mag_frac 52 1074 (round_mag 52 1074 (0 * 10 ^ 6) (2 ^ 1074)) of
               (a', d') \<Rightarrow> round_half_even a' d') = 0"
    by (simp add: round_mag_0 mag_frac_def mag_parts_def round_half_even_def)
  have total: "(if k < 0 then - 1 else 1) * int (?n * 10 ^ 6 + 0) = 10 ^ 6 * k" by simp
  have sec: "10 ^ 6 * k div 10 ^ 6 = k" by simp
  show ?thesis
    unfolding datetime_of_seconds_def f64_make_small_int(1,2) [OF n] mag_frac_small_int(1) [OF n]
      prod.case dv md us total sec Let_def
    using assms by simp
qed

end
