(* ===== verification/Utf8.thy ===== *)
theory Utf8
  imports Prelude
begin

text \<open>
  Unicode strings, byte strings and the two codecs between integers, strings and bytes that the
  protocol code uses: \<open>int.to_bytes\<close>/\<open>int.from_bytes\<close> (big endian) and the strict
  UTF-8 codec of \<open>str.encode\<close>/\<open>bytes.decode\<close>. The last part proves both round trips.
\<close>

subsection \<open>Strings and bytes\<close>

text \<open>A Python \<open>str\<close> is a list of code points; \<open>cp\<close> gives the value of an ASCII literal.\<close>

type_synonym ustr = "nat list"
type_synonym bytes = "8 word list"

definition byte :: "nat \<Rightarrow> 8 word" where
  "byte n = word_of_nat n"

definition cp :: "string \<Rightarrow> ustr" where
  "cp s = map of_char s"

lemma cp_simps [simp]: "cp [] = []" "cp (c # s) = of_char c # cp s"
  by (simp_all add: cp_def)

lemma cp_inject [simp]: "cp s = cp t \<longleftrightarrow> s = t"
proof -
  have "inj (map (of_char :: char \<Rightarrow> nat))" by (intro inj_mapI) (simp add: inj_def)
  then show ?thesis unfolding cp_def by (simp add: inj_eq)
qed

definition ustr_lower :: "ustr \<Rightarrow> ustr" where
  "ustr_lower s = map (\<lambda>c. if 65 \<le> c \<and> c \<le> 90 then c + 32 else c) s"

subsection \<open>Big-endian integers\<close>

definition from_bytes :: "bytes \<Rightarrow> nat" where
  "from_bytes bs = foldl (\<lambda>a b. a * 256 + unat b) 0 bs"

fun be_bytes :: "nat \<Rightarrow> nat \<Rightarrow> bytes" where
  "be_bytes 0 n = []"
| "be_bytes (Suc k) n = byte (n div 256 ^ k mod 256) # be_bytes k n"

definition to_bytes :: "nat \<Rightarrow> nat \<Rightarrow> bytes result" where
  "to_bytes k n = (if n < 256 ^ k then Inr (be_bytes k n) else Inl OverflowError)"

lemma length_be_bytes [simp]: "length (be_bytes k n) = k"
  by (induction k) simp_all

lemma unat_byte [simp]: "unat (byte (n mod 256)) = n mod 256"
  by (simp add: byte_def unsigned_of_nat take_bit_eq_mod)

lemma unat_byte_small [simp]: "n < 256 \<Longrightarrow> unat (byte n) = n"
  by (simp add: byte_def unsigned_of_nat take_bit_eq_mod)

lemma unat_byte_less: "unat (b :: 8 word) < 256"
  using unsigned_less [of b] by simp

lemma from_bytes_Nil [simp]: "from_bytes [] = 0"
  by (simp add: from_bytes_def)

lemma foldl_be_bytes:
  "foldl (\<lambda>a b. a * 256 + unat b) a (be_bytes k n) = a * 256 ^ k + n mod 256 ^ k"
proof (induction k arbitrary: a)
  case 0
  then show ?case by simp
next
  case (Suc k)
  have "foldl (\<lambda>a b. a * 256 + unat b) a (be_bytes (Suc k) n)
      = (a * 256 + n div 256 ^ k mod 256) * 256 ^ k + n mod 256 ^ k"
    by (simp add: Suc.IH)
  also have "\<dots> = a * 256 ^ Suc k + (256 ^ k * (n div 256 ^ k mod 256) + n mod 256 ^ k)"
    by (simp add: algebra_simps)
  also have "256 ^ k * (n div 256 ^ k mod 256) + n mod 256 ^ k = n mod 256 ^ Suc k"
    using mod_mult2_eq [of n "256 ^ k" 256] by (simp add: mult.commute)
  finally show ?case .
qed

lemma from_be_bytes [simp]: "n < 256 ^ k \<Longrightarrow> from_bytes (be_bytes k n) = n"
  unfolding from_bytes_def foldl_be_bytes by simp

lemma from_bytes_single [simp]: "from_bytes [b] = unat b"
  by (simp add: from_bytes_def)

lemma from_bytes_less: "from_bytes bs < 256 ^ length bs"
proof -
  have "foldl (\<lambda>a b. a * 256 + unat (b :: 8 word)) a bs < (a + 1) * 256 ^ length bs" for a
  proof (induction bs arbitrary: a)
    case Nil
    then show ?case by simp
  next
    case (Cons b bs)
    have "a * 256 + unat b + 1 \<le> (a + 1) * 256" using unat_byte_less [of b] by simp
    then have "(a * 256 + unat b + 1) * 256 ^ length bs \<le> (a + 1) * 256 * 256 ^ length bs"
      by (rule mult_right_mono) simp
    moreover have "(a + 1) * 256 * 256 ^ length bs = (a + 1) * 256 ^ length (b # bs)"
      by (simp only: list.size power_Suc add_Suc_right add_0_right mult.assoc)
    ultimately show ?case using Cons.IH [of "a * 256 + unat b"] unfolding foldl_Cons by linarith
  qed
  from this [of 0] show ?thesis by (simp add: from_bytes_def)
qed

text \<open>Words as big-endian bytes, the payloads of \<open>struct.pack\<close> and \<open>struct.unpack\<close>.\<close>

lemma word_be_bytes:
  fixes w :: "'a :: len word"
  assumes "2 ^ LENGTH('a) \<le> (256 :: nat) ^ k"
  shows "word_of_nat (from_bytes (be_bytes k (unat w))) = w"
proof -
  have "unat w < 2 ^ LENGTH('a)" by (rule unsigned_less)
  then have "unat w < 256 ^ k" using assms by (rule less_le_trans)
  then show ?thesis by simp
qed

subsection \<open>UTF-8\<close>

definition is_scalar :: "nat \<Rightarrow> bool" where
  "is_scalar c = (c < 1114112 \<and> \<not> (55296 \<le> c \<and> c \<le> 57343))"

definition utf8_char :: "nat \<Rightarrow> bytes" where
  "utf8_char c =
     (if c < 128 then [byte c]
      else if c < 2048 then [byte (192 + c div 64), byte (128 + c mod 64)]
      else if c < 65536 then
        [byte (224 + c div 4096), byte (128 + c div 64 mod 64), byte (128 + c mod 64)]
      else [byte (240 + c div 262144), byte (128 + c div 4096 mod 64),
            byte (128 + c div 64 mod 64), byte (128 + c mod 64)])"

text \<open>\<open>s.encode("utf-8")\<close>: a surrogate cannot be encoded.\<close>

fun utf8_encode :: "ustr \<Rightarrow> bytes result" where
  "utf8_encode [] = Inr []"
| "utf8_encode (c # cs) =
     (if is_scalar c then bind_r (utf8_encode cs) (\<lambda>bs. Inr (utf8_char c @ bs)) else Inl UnicodeError)"

definition is_cont :: "8 word \<Rightarrow> bool" where
  "is_cont b = (unat b div 64 = 2)"

text \<open>
  \<open>bs.decode("utf-8")\<close>: overlong forms, surrogates, values past \<open>0x10FFFF\<close> and truncated
  sequences are errors.
\<close>

definition utf8_first :: "8 word \<Rightarrow> bytes \<Rightarrow> (nat \<times> bytes) option" where
  "utf8_first b bs =
     (let n = unat b in
      if n < 128 then Some (n, bs)
      else if 192 \<le> n \<and> n < 224 then
        (case bs of
           b1 # bs' \<Rightarrow>
             let c = (n - 192) * 64 + unat b1 mod 64
             in if is_cont b1 \<and> 128 \<le> c then Some (c, bs') else None
         | _ \<Rightarrow> None)
      else if 224 \<le> n \<and> n < 240 then
        (case bs of
           b1 # b2 # bs' \<Rightarrow>
             let c = (n - 224) * 4096 + unat b1 mod 64 * 64 + unat b2 mod 64
             in if is_cont b1 \<and> is_cont b2 \<and> 2048 \<le> c \<and> is_scalar c then Some (c, bs') else None
         | _ \<Rightarrow> None)
      else if 240 \<le> n \<and> n < 248 then
        (case bs of
           b1 # b2 # b3 # bs' \<Rightarrow>
             let c = (n - 240) * 262144 + unat b1 mod 64 * 4096 + unat b2 mod 64 * 64 + unat b3 mod 64
             in if is_cont b1 \<and> is_cont b2 \<and> is_cont b3 \<and> 65536 \<le> c \<and> is_scalar c
                then Some (c, bs') else None
         | _ \<Rightarrow> None)
      else None)"

lemma utf8_first_length: "utf8_first b bs = Some (c, bs') \<Longrightarrow> length bs' \<le> length bs"
  unfolding utf8_first_def Let_def
  by (elim option.discI | split if_splits list.splits | auto)+

function utf8_decode :: "bytes \<Rightarrow> ustr result" where
  "utf8_decode [] = Inr []"
| "utf8_decode (b # bs) =
     (case utf8_first b bs of
        None \<Rightarrow> Inl UnicodeError
      | Some (c, bs') \<Rightarrow> bind_r (utf8_decode bs') (\<lambda>cs. Inr (c # cs)))"
  by pat_completeness auto
termination utf8_decode
  by (relation "measure length") (auto dest: utf8_first_length)

lemma utf8_decode_error: "utf8_decode bs = Inl e \<Longrightarrow> e = UnicodeError"
  by (induction bs rule: utf8_decode.induct)
    (auto simp: bind_r_eq_Inl split: option.splits)

lemma is_cont_byte [simp]: "is_cont (byte (128 + n mod 64))"
proof -
  have "unat (byte (128 + n mod 64)) = 128 + n mod 64"
    by (rule unat_byte_small) (use mod_less_divisor [of 64 n] in linarith)
  then show ?thesis by (simp add: is_cont_def div_nat_eqI)
qed

lemma cont_mod [simp]: "(128 + n mod 64) mod 64 = n mod (64 :: nat)"
  by (simp add: mod_add_eq [symmetric, of 128])

lemma utf8_first_char:
  assumes "is_scalar c"
  shows "\<exists>b bs'. utf8_char c = b # bs' \<and> utf8_first b (bs' @ bs) = Some (c, bs)"
proof -
  consider "c < 128" | "128 \<le> c" "c < 2048" | "2048 \<le> c" "c < 65536" | "65536 \<le> c" "c < 1114112"
    using assms by (force simp: is_scalar_def not_le)
  then show ?thesis
  proof cases
    case 1
    then show ?thesis by (simp add: utf8_char_def utf8_first_def)
  next
    case 2
    then have d: "c div 64 < 32" by (simp add: div_less_iff_less_mult)
    have u: "unat (byte (192 + c div 64)) = 192 + c div 64"
      using d by (intro unat_byte_small) simp
    have "c div 64 * 64 + c mod 64 = c" by simp
    with 2 d show ?thesis by (simp add: utf8_char_def utf8_first_def u Let_def div_less_iff_less_mult)
  next
    case 3
    then have d: "c div 4096 < 16" by (simp add: div_less_iff_less_mult)
    have u: "unat (byte (224 + c div 4096)) = 224 + c div 4096"
      using d by (intro unat_byte_small) simp
    have "c div 64 = 64 * (c div 4096) + c div 64 mod 64" by (simp add: div_mult2_eq [of c 64 64, simplified])
    then have "c div 4096 * 4096 + c div 64 mod 64 * 64 + c mod 64 = c"
      using div_mult_mod_eq [of c 64] by linarith
    with 3 d assms show ?thesis by (simp add: utf8_char_def utf8_first_def u Let_def div_less_iff_less_mult)
  next
    case 4
    then have d: "c div 262144 < 5" by (simp add: div_less_iff_less_mult)
    have u: "unat (byte (240 + c div 262144)) = 240 + c div 262144"
      using d by (intro unat_byte_small) simp
    have "c div 64 = 64 * (c div 4096) + c div 64 mod 64" by (simp add: div_mult2_eq [of c 64 64, simplified])
    moreover have "c div 4096 = 64 * (c div 262144) + c div 4096 mod 64"
      by (simp add: div_mult2_eq [of c 4096 64, simplified])
    ultimately have "c div 262144 * 262144 + c div 4096 mod 64 * 4096 + c div 64 mod 64 * 64 + c mod 64 = c"
      using div_mult_mod_eq [of c 64] by linarith
    with 4 d assms show ?thesis by (simp add: utf8_char_def utf8_first_def u Let_def div_less_iff_less_mult)
  qed
qed

lemma utf8_decode_char:
  assumes "is_scalar c"
  shows "utf8_decode (utf8_char c @ bs) = bind_r (utf8_decode bs) (\<lambda>cs. Inr (c # cs))"
  using utf8_first_char [OF assms, of bs] by auto

text \<open>Decoding inverts encoding, and every string without surrogates can be encoded.\<close>

lemma utf8_decode_encode: "utf8_encode s = Inr bs \<Longrightarrow> utf8_decode bs = Inr s"
  by (induction s arbitrary: bs) (auto simp: bind_r_eq_Inr utf8_decode_char split: if_splits)

lemma utf8_encode_total: "list_all is_scalar s \<Longrightarrow> \<exists>bs. utf8_encode s = Inr bs"
  by (induction s) auto

end
