(* ===== verification/PyValue.thy ===== *)
theory PyValue
  imports Floats Utf8
begin

text \<open>
  The Python values that protocol parsers produce and serializers consume, the builtin
  conversions the parsers apply to them (\<open>int\<close>, \<open>float\<close>, truth), dictionaries keyed by such
  values, and botocore's shapes, which drive every parser and serializer.
\<close>

subsection \<open>Values\<close>

text \<open>
  \<open>PTime\<close> is an aware UTC \<open>datetime\<close>, in microseconds since the epoch. A float is its bit
  pattern. Dictionaries are association lists in insertion order. \<open>PElem\<close> is an element of
  \<open>xml.etree.ElementTree\<close> (elements are never dictionary keys in the modelled code) and \<open>PStream\<close> a
  readable stream over bytes.
\<close>

datatype xml = Element (xml_tag: ustr) (xml_attrib: "(ustr \<times> ustr) list") (xml_text: "ustr option") (xml_children: "xml list")

datatype pyval =
    PNone
  | PBool bool
  | PInt int
  | PFloat "64 word"
  | PStr ustr
  | PBytes bytes
  | PTime int
  | PList "pyval list"
  | PDict "(pyval \<times> pyval) list"
  | PElem xml
  | PStream bytes

text \<open>Truth: \<open>None\<close>, zero and empty values are false.\<close>

fun truthy :: "pyval \<Rightarrow> bool" where
  "truthy PNone = False"
| "truthy (PBool b) = b"
| "truthy (PInt n) = (n \<noteq> 0)"
| "truthy (PFloat w) = (f64_mag w \<noteq> 0)"
| "truthy (PStr s) = (s \<noteq> [])"
| "truthy (PBytes b) = (b \<noteq> [])"
| "truthy (PTime t) = True"
| "truthy (PList vs) = (vs \<noteq> [])"
| "truthy (PDict kvs) = (kvs \<noteq> [])"
| "truthy (PElem x) = (xml_children x \<noteq> [])"
| "truthy (PStream b) = True"

fun hashable :: "pyval \<Rightarrow> bool" where
  "hashable (PList vs) = False"
| "hashable (PDict kvs) = False"
| "hashable v = True"

text \<open>
  Equality of keys: booleans, integers and integral floats compare by value, a NaN equals
  nothing, everything else compares within its type.
\<close>

fun num_key :: "pyval \<Rightarrow> int option" where
  "num_key (PBool b) = Some (of_bool b)"
| "num_key (PInt n) = Some n"
| "num_key (PFloat w) =
     (if f64_finite w
      then (case mag_frac 52 1074 (f64_mag w) of (a, d) \<Rightarrow>
              if a mod d = 0 then Some (if f64_neg w then - int (a div d) else int (a div d)) else None)
      else None)"
| "num_key v = None"

definition key_eq :: "pyval \<Rightarrow> pyval \<Rightarrow> bool" where
  "key_eq a b =
     (case (num_key a, num_key b) of
        (Some m, Some n) \<Rightarrow> m = n
      | (None, None) \<Rightarrow> a = b \<and> (case a of PFloat w \<Rightarrow> \<not> f64_is_nan w | _ \<Rightarrow> True)
      | _ \<Rightarrow> False)"

lemma key_eq_str [simp]:
  "key_eq (PStr s) v \<longleftrightarrow> v = PStr s" "key_eq v (PStr s) \<longleftrightarrow> v = PStr s"
  by (auto simp: key_eq_def split: option.splits)

text \<open>\<open>d.get(k)\<close> and \<open>d[k] = v\<close>: the key that was inserted first stays.\<close>

fun pdict_get :: "(pyval \<times> pyval) list \<Rightarrow> pyval \<Rightarrow> pyval option" where
  "pdict_get [] k = None"
| "pdict_get ((k', v) # d) k = (if key_eq k' k then Some v else pdict_get d k)"

fun pdict_set :: "pyval \<Rightarrow> pyval \<Rightarrow> (pyval \<times> pyval) list \<Rightarrow> (pyval \<times> pyval) list" where
  "pdict_set k v [] = [(k, v)]"
| "pdict_set k v ((k', v') # d) = (if key_eq k' k then (k', v) # d else (k', v') # pdict_set k v d)"

definition pdict_store :: "pyval \<Rightarrow> pyval \<Rightarrow> (pyval \<times> pyval) list \<Rightarrow> (pyval \<times> pyval) list result" where
  "pdict_store k v d = (if hashable k then Inr (pdict_set k v d) else Inl TypeError)"

text \<open>A dictionary with string keys as a value.\<close>

definition str_dict :: "(ustr \<times> pyval) list \<Rightarrow> pyval" where
  "str_dict d = PDict (map (\<lambda>(k, v). (PStr k, v)) d)"

lemma pdict_get_str_keys [simp]:
  "pdict_get (map (\<lambda>(k, v). (PStr k, v)) d) (PStr k) = map_of d k"
  by (induction d) auto

lemma pdict_set_fresh: "(\<And>k'. k' \<in> fst ` set d \<Longrightarrow> \<not> key_eq k' k) \<Longrightarrow> pdict_set k v d = d @ [(k, v)]"
  by (induction d) auto

lemma pdict_get_in: "pdict_get d k = Some v \<Longrightarrow> \<exists>k'. (k', v) \<in> set d"
  by (induction d) (auto split: if_splits)

lemma pdict_get_size: "pdict_get d k = Some v \<Longrightarrow> size v < size (PDict d)"
  by (induction d) (auto split: if_splits)

text \<open>
  The items a \<open>for\<close> loop visits, and the pairs behind \<open>items()\<close> and \<open>get\<close>, which an element has for
  its attributes. The code iterates over no stream.
\<close>

definition py_iter :: "pyval \<Rightarrow> pyval list result" where
  "py_iter v =
     (case v of
        PList vs \<Rightarrow> Inr vs
      | PStr s \<Rightarrow> Inr (map (\<lambda>c. PStr [c]) s)
      | PBytes b \<Rightarrow> Inr (map (\<lambda>x. PInt (uint x)) b)
      | PDict kvs \<Rightarrow> Inr (map fst kvs)
      | PElem x \<Rightarrow> Inr (map PElem (xml_children x))
      | _ \<Rightarrow> Inl TypeError)"

definition py_items :: "pyval \<Rightarrow> (pyval \<times> pyval) list result" where
  "py_items v =
     (case v of
        PDict kvs \<Rightarrow> Inr kvs
      | PElem x \<Rightarrow> Inr (map (\<lambda>(k, s). (PStr k, PStr s)) (xml_attrib x))
      | _ \<Rightarrow> Inl AttributeError)"

text \<open>\<open>d.update(x)\<close>: from a dictionary, or from an iterable of pairs.\<close>

fun update_pairs :: "(pyval \<times> pyval) list \<Rightarrow> pyval list \<Rightarrow> (pyval \<times> pyval) list result" where
  "update_pairs d [] = Inr d"
| "update_pairs d (p # ps) =
     bind_r (py_iter p) (\<lambda>xs. case xs of
        [k, v] \<Rightarrow> bind_r (pdict_store k v d) (\<lambda>d'. update_pairs d' ps)
      | _ \<Rightarrow> Inl ValueError)"

definition pdict_update :: "(pyval \<times> pyval) list \<Rightarrow> pyval \<Rightarrow> (pyval \<times> pyval) list result" where
  "pdict_update d v =
     (case v of
        PDict e \<Rightarrow> Inr (fold (\<lambda>(k, x). pdict_set k x) e d)
      | _ \<Rightarrow> bind_r (py_iter v) (update_pairs d))"

subsection \<open>Conversions\<close>

text \<open>
  \<open>int(x)\<close> and \<open>float(x)\<close>. Strings follow Python's grammar (surrounding whitespace, a sign,
  single underscores between digits, at most 4300 digits for an integer), with ASCII digits; the
  other decimal digits of Unicode, which Python accepts too, are left out.
\<close>

definition is_ws :: "nat \<Rightarrow> bool" where
  "is_ws c = ((9 \<le> c \<and> c \<le> 13) \<or> (28 \<le> c \<and> c \<le> 32) \<or> c \<in> {133, 160, 5760, 8232, 8233, 8239, 8287, 12288}
     \<or> (8192 \<le> c \<and> c \<le> 8202))"

definition ustr_strip :: "ustr \<Rightarrow> ustr" where
  "ustr_strip s = rev (dropWhile is_ws (rev (dropWhile is_ws s)))"

definition is_udigit :: "nat \<Rightarrow> bool" where
  "is_udigit c = (48 \<le> c \<and> c \<le> 57)"

fun digit_run :: "bool \<Rightarrow> ustr \<Rightarrow> nat list option" where
  "digit_run prev [] = (if prev then Some [] else None)"
| "digit_run prev (c # cs) =
     (if is_udigit c then map_option (Cons (c - 48)) (digit_run True cs)
      else if c = 95 \<and> prev then digit_run False cs
      else None)"

definition num_of_digits :: "nat list \<Rightarrow> nat" where
  "num_of_digits ds = foldl (\<lambda>a d. 10 * a + d) 0 ds"

definition split_sign :: "ustr \<Rightarrow> bool \<times> ustr" where
  "split_sign s = (case s of c # cs \<Rightarrow> if c = 45 then (True, cs) else if c = 43 then (False, cs) else (False, s)
                   | [] \<Rightarrow> (False, s))"

definition int_of_str :: "ustr \<Rightarrow> int result" where
  "int_of_str s =
     (let (neg, r) = split_sign (ustr_strip s)
      in case digit_run False r of
           None \<Rightarrow> Inl ValueError
         | Some ds \<Rightarrow> if 4300 < length ds then Inl ValueError
                      else Inr (if neg then - int (num_of_digits ds) else int (num_of_digits ds)))"

text \<open>A decimal literal: integer digits, fraction digits and the exponent.\<close>

definition digits_or_empty :: "ustr \<Rightarrow> nat list option" where
  "digits_or_empty s = (if s = [] then Some [] else digit_run False s)"

definition exponent_of :: "ustr \<Rightarrow> int option" where
  "exponent_of s = (let (neg, r) = split_sign s
     in map_option (\<lambda>ds. if neg then - int (num_of_digits ds) else int (num_of_digits ds)) (digit_run False r))"

definition split_exp :: "ustr \<Rightarrow> ustr \<times> ustr option" where
  "split_exp s = (case dropWhile (\<lambda>c. c \<noteq> 101 \<and> c \<noteq> 69) s of
      [] \<Rightarrow> (s, None)
    | _ # e \<Rightarrow> (takeWhile (\<lambda>c. c \<noteq> 101 \<and> c \<noteq> 69) s, Some e))"

definition decimal_of :: "ustr \<Rightarrow> (nat \<times> int) option" where
  "decimal_of s =
     (let (m, eo) = split_exp s;
          ip = takeWhile (\<lambda>c. c \<noteq> 46) m;
          fp = tl (dropWhile (\<lambda>c. c \<noteq> 46) m)
      in if ip = [] \<and> fp = [] then None
         else case (digits_or_empty ip, digits_or_empty fp, (case eo of None \<Rightarrow> Some 0 | Some e \<Rightarrow> exponent_of e)) of
                (Some a, Some b, Some e) \<Rightarrow> Some (num_of_digits (a @ b), e - int (length b))
              | _ \<Rightarrow> None)"

definition float_of_str :: "ustr \<Rightarrow> 64 word result" where
  "float_of_str s =
     (let (neg, r) = split_sign (ustr_strip s); l = ustr_lower r
      in if l = cp ''inf'' \<or> l = cp ''infinity'' then Inr (f64_make neg f64_inf_mag)
         else if l = cp ''nan'' then Inr (f64_nan neg)
         else case decimal_of r of
                None \<Rightarrow> Inl ValueError
              | Some (m, e) \<Rightarrow>
                  let b = (if 0 \<le> e then round_mag 52 1074 (m * 10 ^ nat e) 1 else round_mag 52 1074 m (10 ^ nat (- e)))
                  in Inr (f64_make neg (min b f64_inf_mag)))"

text \<open>
  The bytes of an ASCII number are read like the string; the separators 28 to 31 are whitespace
  in a string only.
\<close>

definition ascii_number_bytes :: "bytes \<Rightarrow> bool" where
  "ascii_number_bytes b = list_all (\<lambda>c. unat c < 128 \<and> \<not> (28 \<le> unat c \<and> unat c \<le> 31)) b"

fun py_int :: "pyval \<Rightarrow> int result" where
  "py_int (PBool b) = Inr (of_bool b)"
| "py_int (PInt n) = Inr n"
| "py_int (PFloat w) =
     (if f64_is_nan w then Inl ValueError
      else if f64_is_inf w then Inl OverflowError
      else case mag_frac 52 1074 (f64_mag w) of (a, d) \<Rightarrow>
             Inr (if f64_neg w then - int (a div d) else int (a div d)))"
| "py_int (PStr s) = int_of_str s"
| "py_int (PBytes b) = (if ascii_number_bytes b then int_of_str (map unat b) else Inl ValueError)"
| "py_int v = Inl TypeError"

fun py_float :: "pyval \<Rightarrow> 64 word result" where
  "py_float (PBool b) = int_to_f64 (of_bool b)"
| "py_float (PInt n) = int_to_f64 n"
| "py_float (PFloat w) = Inr w"
| "py_float (PStr s) = float_of_str s"
| "py_float (PBytes b) = (if ascii_number_bytes b then float_of_str (map unat b) else Inl ValueError)"
| "py_float v = Inl TypeError"

text \<open>\<open>datetime.fromtimestamp(n, tz=UTC)\<close> of an integer.\<close>

definition datetime_of_int :: "int \<Rightarrow> int result" where
  "datetime_of_int n =
     (if n < - (2 ^ 63) \<or> 2 ^ 63 \<le> n then Inl OverflowError
      else if n < - 67768040609740800 \<or> 67768036191676799 < n then Inl OSError
      else if n < - 62135596800 \<or> 253402300799 < n then Inl ValueError
      else Inr (10 ^ 6 * n))"

subsection \<open>Shapes\<close>

text \<open>
  The traits of a botocore shape that the protocol code reads: its name, the entries of its
  \<open>serialization\<close> dictionary, its required members and the flags of structures. Shapes are
  recursive by reference (an attribute value contains attribute values), so they are possibly
  infinite trees; every function over them recurses on the value or on fuel.
\<close>

record shape_info =
  sh_name :: ustr
  ser_name :: "ustr option"
  ser_location :: "ustr option"
  ser_flattened :: bool
  ser_timestamp_format :: "ustr option"
  required_members :: "ustr list"
  is_document_type :: bool
  is_tagged_union :: bool
  event_stream_name :: "ustr option"
  ser_query_name :: "ustr option"
  ser_payload :: "ustr option"
  ser_eventstream :: bool
  ser_eventheader :: bool
  ser_xml_attribute :: bool
  ser_xml_namespace :: "(ustr \<times> ustr option) option"
  ser_result_wrapper :: "ustr option"
  ser_event :: bool
  ser_eventpayload :: bool

definition plain_info :: "ustr \<Rightarrow> shape_info" where
  "plain_info n = \<lparr>sh_name = n, ser_name = None, ser_location = None, ser_flattened = False,
     ser_timestamp_format = None, required_members = [], is_document_type = False,
     is_tagged_union = False, event_stream_name = None,
     ser_query_name = None, ser_payload = None, ser_eventstream = False, ser_eventheader = False,
     ser_xml_attribute = False, ser_xml_namespace = None, ser_result_wrapper = None, ser_event = False,
     ser_eventpayload = False\<rparr>"

datatype scalar =
    TString | TBlob | TInteger | TLong | TFloat | TDouble | TBoolean | TTimestamp | TCharacter
  | TOther ustr

codatatype shape =
    Structure shape_info "(ustr \<times> shape) list"
  | ListShape shape_info shape
  | MapShape shape_info shape shape
  | ScalarShape shape_info scalar

fun shape_info_of :: "shape \<Rightarrow> shape_info" where
  "shape_info_of (Structure i ms) = i"
| "shape_info_of (ListShape i m) = i"
| "shape_info_of (MapShape i k v) = i"
| "shape_info_of (ScalarShape i t) = i"

text \<open>\<open>shape.serialization.get("name", default)\<close>.\<close>

definition serialized_name :: "shape \<Rightarrow> ustr \<Rightarrow> ustr" where
  "serialized_name sh d = (case ser_name (shape_info_of sh) of None \<Rightarrow> d | Some n \<Rightarrow> n)"

end
