(* ===== verification/CborParser.thy ===== *)
theory CborParser
  imports PyValue
begin

text \<open>
  The CBOR decoder of \<open>aws/protocol/parser.py\<close> (\<open>BaseCBORRequestParser\<close>), one definition per
  method. The \<open>BufferedReader\<close> is the list of the bytes that are left; every reader returns the
  value and the rest of the stream. Nesting is bounded by \<open>limit\<close>, the number of nested data
  items Python's recursion limit admits; the lemmas at the end show that a limit above the length
  of the stream is never reached, so that the decoder returns a value or one of its own errors.
\<close>

subsection \<open>Reading\<close>

abbreviation ProtocolParserError :: exn where
  "ProtocolParserError \<equiv> UserError ''ProtocolParserError'' ''''"

abbreviation UnknownParserError :: exn where
  "UnknownParserError \<equiv> UserError ''UnknownParserError'' ''''"

abbreviation OperationNotFoundParserError :: exn where
  "OperationNotFoundParserError \<equiv> UserError ''OperationNotFoundParserError'' ''''"

text \<open>
  \<open>stream.read\<close> takes a C \<open>ssize_t\<close>; a short read is a malformed body.
\<close>

definition read_from_stream :: "nat \<Rightarrow> bytes \<Rightarrow> (bytes \<times> bytes) result" where
  "read_from_stream n s =
     (if 2 ^ 63 \<le> n then Inl OverflowError
      else if length s < n then Inl ProtocolParserError
      else Inr (take n s, drop n s))"

definition read_bytes_as_int :: "nat \<Rightarrow> bytes \<Rightarrow> (nat \<times> bytes) result" where
  "read_bytes_as_int n s = bind_r (read_from_stream n s) (\<lambda>(b, s'). Inr (from_bytes b, s'))"

text \<open>\<open>_handle_break_code\<close>: consumes the break byte when it is next.\<close>

definition handle_break_code :: "bytes \<Rightarrow> bool \<times> bytes" where
  "handle_break_code s = (case s of [] \<Rightarrow> (False, []) | b # s' \<Rightarrow> if b = 255 then (True, s') else (False, s))"

definition additional_info_num_bytes :: "nat \<Rightarrow> nat option" where
  "additional_info_num_bytes i =
     (if i = 24 then Some 1 else if i = 25 then Some 2 else if i = 26 then Some 4
      else if i = 27 then Some 8 else None)"

definition parse_unsigned :: "nat \<Rightarrow> bytes \<Rightarrow> (nat \<times> bytes) result" where
  "parse_unsigned info s =
     (if info < 24 then Inr (info, s)
      else case additional_info_num_bytes info of
             Some k \<Rightarrow> read_bytes_as_int k s
           | None \<Rightarrow> Inl ProtocolParserError)"

definition parse_negative :: "nat \<Rightarrow> bytes \<Rightarrow> (int \<times> bytes) result" where
  "parse_negative info s = bind_r (parse_unsigned info s) (\<lambda>(n, s'). Inr (- 1 - int n, s'))"

subsection \<open>Byte and text strings\<close>

text \<open>
  The two loops of the decoder. The first one repeats a step a given number of times, the second
  one until the break byte; the step consumes at least one byte, so that \<open>k\<close> above the length
  of the stream is enough.
\<close>

fun loop_times :: "nat \<Rightarrow> ('a \<Rightarrow> bytes \<Rightarrow> ('a \<times> bytes) result) \<Rightarrow> 'a \<Rightarrow> bytes \<Rightarrow> ('a \<times> bytes) result" where
  "loop_times 0 step acc s = Inr (acc, s)"
| "loop_times (Suc n) step acc s =
     bind_r (step acc s) (\<lambda>(acc', s'). loop_times n step acc' s')"

fun loop_until_break :: "nat \<Rightarrow> ('a \<Rightarrow> bytes \<Rightarrow> ('a \<times> bytes) result) \<Rightarrow> 'a \<Rightarrow> bytes \<Rightarrow> ('a \<times> bytes) result" where
  "loop_until_break 0 step acc s = Inl RecursionError"
| "loop_until_break (Suc k) step acc s =
     (case handle_break_code s of
        (True, s') \<Rightarrow> Inr (acc, s')
      | (False, s') \<Rightarrow> bind_r (step acc s') (\<lambda>(acc', s''). loop_until_break k step acc' s''))"

declare loop_until_break.simps(2) [simp del]

definition parse_chunk :: "bytes \<Rightarrow> bytes \<Rightarrow> (bytes \<times> bytes) result" where
  "parse_chunk acc s =
     bind_r (read_bytes_as_int 1 s) (\<lambda>(initial, s1).
     bind_r (parse_unsigned (initial mod 32) s1) (\<lambda>(len, s2).
     bind_r (read_from_stream len s2) (\<lambda>(chunk, s3). Inr (acc @ chunk, s3))))"

definition parse_byte_string :: "nat \<Rightarrow> bytes \<Rightarrow> (bytes \<times> bytes) result" where
  "parse_byte_string info s =
     (if info \<noteq> 31 then bind_r (parse_unsigned info s) (\<lambda>(len, s'). read_from_stream len s')
      else loop_until_break (Suc (length s)) parse_chunk [] s)"

definition parse_text_string :: "nat \<Rightarrow> bytes \<Rightarrow> (ustr \<times> bytes) result" where
  "parse_text_string info s =
     bind_r (parse_byte_string info s) (\<lambda>(b, s'). bind_r (utf8_decode b) (\<lambda>t. Inr (t, s')))"

subsection \<open>Data items\<close>

text \<open>\<open>item\<close> stands for the recursive call of \<open>parse_data_item\<close>.\<close>

type_synonym item_parser = "bytes \<Rightarrow> (pyval \<times> bytes) result"

definition parse_element :: "item_parser \<Rightarrow> pyval list \<Rightarrow> bytes \<Rightarrow> (pyval list \<times> bytes) result" where
  "parse_element item vs s = bind_r (item s) (\<lambda>(v, s'). Inr (vs @ [v], s'))"

definition parse_array :: "item_parser \<Rightarrow> nat \<Rightarrow> bytes \<Rightarrow> (pyval \<times> bytes) result" where
  "parse_array item info s =
     bind_r (if info \<noteq> 31
             then bind_r (parse_unsigned info s) (\<lambda>(n, s'). loop_times n (parse_element item) [] s')
             else loop_until_break (Suc (length s)) (parse_element item) [] s)
            (\<lambda>(vs, s'). Inr (PList vs, s'))"

text \<open>\<open>_parse_type_key_value_pair\<close>: a pair whose value is null is dropped.\<close>

definition parse_key_value_pair ::
    "item_parser \<Rightarrow> (pyval \<times> pyval) list \<Rightarrow> bytes \<Rightarrow> ((pyval \<times> pyval) list \<times> bytes) result" where
  "parse_key_value_pair item items s =
     bind_r (item s) (\<lambda>(key, s1).
     bind_r (item s1) (\<lambda>(v, s2).
       if v \<noteq> PNone then bind_r (pdict_store key v items) (\<lambda>items'. Inr (items', s2))
       else Inr (items, s2)))"

definition parse_map :: "item_parser \<Rightarrow> nat \<Rightarrow> bytes \<Rightarrow> (pyval \<times> bytes) result" where
  "parse_map item info s =
     bind_r (if info \<noteq> 31
             then bind_r (parse_unsigned info s) (\<lambda>(n, s'). loop_times n (parse_key_value_pair item) [] s')
             else loop_until_break (Suc (length s)) (parse_key_value_pair item) [] s)
            (\<lambda>(kvs, s'). Inr (PDict kvs, s'))"

text \<open>
  \<open>_parse_type_datetime\<close>: \<open>int(value * 1000) / 1000\<close> and \<open>fromtimestamp\<close>. For an
  integer the product is exact.
\<close>

definition parse_datetime :: "pyval \<Rightarrow> int result" where
  "parse_datetime v =
     (case v of
        PBool b \<Rightarrow> datetime_of_seconds (millis_to_seconds (of_bool b * 1000))
      | PInt n \<Rightarrow> datetime_of_seconds (millis_to_seconds (n * 1000))
      | PFloat w \<Rightarrow> bind_r (float_millis w) (\<lambda>ms. datetime_of_seconds (millis_to_seconds ms))
      | _ \<Rightarrow> Inl ProtocolParserError)"

definition parse_tag :: "item_parser \<Rightarrow> nat \<Rightarrow> bytes \<Rightarrow> (pyval \<times> bytes) result" where
  "parse_tag item info s =
     bind_r (parse_unsigned info s) (\<lambda>(tag, s1).
     bind_r (item s1) (\<lambda>(v, s2).
       if tag = 1 then bind_r (parse_datetime v) (\<lambda>t. Inr (PTime t, s2))
       else Inl ProtocolParserError))"

definition parse_simple_and_float :: "nat \<Rightarrow> bytes \<Rightarrow> (pyval \<times> bytes) result" where
  "parse_simple_and_float info s =
     (if info = 20 then Inr (PBool False, s)
      else if info = 21 then Inr (PBool True, s)
      else if info = 22 \<or> info = 23 then Inr (PNone, s)
      else if info = 25 then bind_r (read_bytes_as_int 2 s) (\<lambda>(n, s'). Inr (PFloat (unpack_e (word_of_nat n)), s'))
      else if info = 26 then bind_r (read_bytes_as_int 4 s) (\<lambda>(n, s'). Inr (PFloat (unpack_f (word_of_nat n)), s'))
      else if info = 27 then bind_r (read_bytes_as_int 8 s) (\<lambda>(n, s'). Inr (PFloat (word_of_nat n), s'))
      else Inl ProtocolParserError)"

text \<open>The dispatch on the major type, the upper three bits of the initial byte.\<close>

definition parse_major_type :: "item_parser \<Rightarrow> nat \<Rightarrow> nat \<Rightarrow> bytes \<Rightarrow> (pyval \<times> bytes) result" where
  "parse_major_type item major info s =
     (if major = 0 then bind_r (parse_unsigned info s) (\<lambda>(n, s'). Inr (PInt (int n), s'))
      else if major = 1 then bind_r (parse_negative info s) (\<lambda>(n, s'). Inr (PInt n, s'))
      else if major = 2 then bind_r (parse_byte_string info s) (\<lambda>(b, s'). Inr (PBytes b, s'))
      else if major = 3 then bind_r (parse_text_string info s) (\<lambda>(t, s'). Inr (PStr t, s'))
      else if major = 4 then parse_array item info s
      else if major = 5 then parse_map item info s
      else if major = 6 then parse_tag item info s
      else parse_simple_and_float info s)"

fun parse_data_item :: "nat \<Rightarrow> bytes \<Rightarrow> (pyval \<times> bytes) result" where
  "parse_data_item 0 s = Inl RecursionError"
| "parse_data_item (Suc limit) s =
     bind_r (read_bytes_as_int 1 s) (\<lambda>(initial, s').
       parse_major_type (parse_data_item limit) (initial div 32) (initial mod 32) s')"

declare parse_data_item.simps [simp del]

subsection \<open>Every reader consumes, and the limits are never reached\<close>

text \<open>
  \<open>consumes m p\<close>: on streams the reader \<open>p\<close> succeeds on, it leaves at least \<open>m\<close> bytes less;
  \<open>fuelled\<close> readers never report an exhausted limit.
\<close>

definition no_limit :: "('a result) \<Rightarrow> bool" where
  "no_limit r = (r \<noteq> Inl RecursionError)"

lemma no_limit_simps [simp]:
  "no_limit (Inr x)" "no_limit (Inl e) \<longleftrightarrow> e \<noteq> RecursionError"
  by (simp_all add: no_limit_def)

lemma no_limit_bind:
  "no_limit m \<Longrightarrow> (\<And>x. m = Inr x \<Longrightarrow> no_limit (f x)) \<Longrightarrow> no_limit (bind_r m f)"
  by (cases m) simp_all

lemma read_from_stream_length:
  "read_from_stream n s = Inr (b, s') \<Longrightarrow> length s = n + length s' \<and> length b = n \<and> s = b @ s'"
  by (auto simp: read_from_stream_def split: if_splits)

lemma read_bytes_as_int_length:
  "read_bytes_as_int n s = Inr (v, s') \<Longrightarrow> length s = n + length s'"
  by (auto simp: read_bytes_as_int_def bind_r_eq_Inr dest: read_from_stream_length)

lemma parse_unsigned_length: "parse_unsigned info s = Inr (v, s') \<Longrightarrow> length s' \<le> length s"
  by (auto simp: parse_unsigned_def split: if_splits option.splits dest: read_bytes_as_int_length)

lemma no_limit_read [simp]: "no_limit (read_from_stream n s)" "no_limit (read_bytes_as_int n s)"
  by (auto simp: read_bytes_as_int_def read_from_stream_def)

lemma no_limit_unsigned [simp]: "no_limit (parse_unsigned info s)"
  by (simp add: parse_unsigned_def split: option.splits)

lemma no_limit_utf8 [simp]: "no_limit (utf8_decode b)"
  by (cases "utf8_decode b") (auto dest: utf8_decode_error)

lemma no_limit_datetime [simp]: "no_limit (datetime_of_seconds x)" "no_limit (float_millis x)"
  by (simp_all add: datetime_of_seconds_def float_millis_def Let_def split: prod.splits)

lemma no_limit_parse_datetime [simp]: "no_limit (parse_datetime v)"
  by (auto simp: parse_datetime_def intro!: no_limit_bind split: pyval.splits)

lemma handle_break_code_cases:
  "handle_break_code s = (True, s') \<Longrightarrow> s = 255 # s'"
  "handle_break_code s = (False, s') \<Longrightarrow> s' = s"
  by (auto simp: handle_break_code_def split: list.splits if_splits)

text \<open>A step that consumes keeps both loops within their bounds.\<close>

lemma loop_times_length:
  assumes "\<And>a t a' t'. step a t = Inr (a', t') \<Longrightarrow> length t' \<le> length t"
  shows "loop_times n step acc s = Inr (r, s') \<Longrightarrow> length s' \<le> length s"
proof (induction n arbitrary: acc s)
  case 0
  then show ?case by simp
next
  case (Suc n)
  then obtain a t where "step acc s = Inr (a, t)" "loop_times n step a t = Inr (r, s')"
    by (auto simp: bind_r_eq_Inr)
  with Suc.IH assms show ?case by (meson le_trans)
qed

lemma loop_until_break_length:
  assumes "\<And>a t a' t'. step a t = Inr (a', t') \<Longrightarrow> length t' \<le> length t"
  shows "loop_until_break k step acc s = Inr (r, s') \<Longrightarrow> length s' < length s"
proof (induction k arbitrary: acc s)
  case 0
  then show ?case by simp
next
  case (Suc k)
  then show ?case
    using assms
    by (fastforce simp: loop_until_break.simps(2) bind_r_eq_Inr split: prod.splits bool.splits dest: handle_break_code_cases)
qed

lemma loop_times_no_limit:
  assumes "\<And>a t. length t \<le> length s \<Longrightarrow> no_limit (step a t)"
    and "\<And>a t a' t'. step a t = Inr (a', t') \<Longrightarrow> length t' \<le> length t"
  shows "no_limit (loop_times n step acc s)"
  using assms(1)
proof (induction n arbitrary: acc s)
  case 0
  then show ?case by simp
next
  case (Suc n)
  then show ?case
    by (auto intro!: no_limit_bind Suc.IH dest: assms(2))
qed

lemma loop_until_break_no_limit:
  assumes "\<And>a t. length t \<le> length s \<Longrightarrow> no_limit (step a t)"
    and "\<And>a t a' t'. step a t = Inr (a', t') \<Longrightarrow> length t' < length t"
    and "length s < k"
  shows "no_limit (loop_until_break k step acc s)"
  using assms(1,3)
proof (induction k arbitrary: acc s)
  case 0
  then show ?case by simp
next
  case (Suc k)
  show ?case
  proof (cases "handle_break_code s")
    case (Pair b s')
    show ?thesis
    proof (cases b)
      case True
      with Pair show ?thesis by (simp add: loop_until_break.simps(2))
    next
      case False
      with Pair have [simp]: "s' = s" by (simp add: handle_break_code_cases(2))
      have "no_limit (loop_until_break k step a t)" if "step acc s = Inr (a, t)" for a t
      proof -
        have "length t < length s" using that by (rule assms(2))
        with Suc show ?thesis by (intro Suc.IH) simp_all
      qed
      with Pair False Suc.prems show ?thesis
        by (auto simp: loop_until_break.simps(2) intro!: no_limit_bind)
    qed
  qed
qed

text \<open>Two steps that agree on the bytes that are left give the same loops.\<close>

lemma loop_times_agree:
  assumes "\<And>a t. length t \<le> length s \<Longrightarrow> step a t = step' a t"
    and "\<And>a t a' t'. step a t = Inr (a', t') \<Longrightarrow> length t' \<le> length t"
  shows "loop_times n step acc s = loop_times n step' acc s"
  using assms(1)
proof (induction n arbitrary: acc s)
  case 0
  then show ?case by simp
next
  case (Suc n)
  have "loop_times n step a t = loop_times n step' a t" if "step acc s = Inr (a, t)" for a t
    using assms(2) [OF that] Suc.prems by (intro Suc.IH) simp
  with Suc.prems [of s acc] show ?case by (auto intro!: bind_r_cong)
qed

lemma loop_until_break_agree:
  assumes "\<And>a t. length t \<le> length s \<Longrightarrow> step a t = step' a t"
    and "\<And>a t a' t'. step a t = Inr (a', t') \<Longrightarrow> length t' \<le> length t"
  shows "loop_until_break k step acc s = loop_until_break k step' acc s"
  using assms(1)
proof (induction k arbitrary: acc s)
  case 0
  then show ?case by simp
next
  case (Suc k)
  have "loop_until_break k step a t = loop_until_break k step' a t" if "step acc s = Inr (a, t)" for a t
    using assms(2) [OF that] Suc.prems by (intro Suc.IH) simp
  with Suc.prems [of s acc] show ?case
    by (auto simp: loop_until_break.simps(2) intro!: bind_r_cong split: prod.split bool.split dest!: handle_break_code_cases(2))
qed

lemma parse_byte_string_facts:
  shows "parse_byte_string info s = Inr (b, s') \<Longrightarrow> length s' \<le> length s"
    and "no_limit (parse_byte_string info s)"
proof -
  have strict: "length t' < length t" if "parse_chunk a t = Inr (a', t')" for a t a' t'
    using that by (fastforce simp: parse_chunk_def bind_r_eq_Inr
        dest: parse_unsigned_length read_from_stream_length read_bytes_as_int_length)
  have weak: "length t' \<le> length t" if "parse_chunk a t = Inr (a', t')" for a t a' t'
    using strict [OF that] by simp
  have bc: "length t' < length t" if "loop_until_break k parse_chunk a t = Inr (r, t')" for k a t r t'
    using weak that by (rule loop_until_break_length)
  have nl: "no_limit (parse_chunk a t)" for a t
    by (auto simp: parse_chunk_def intro!: no_limit_bind)
  show "parse_byte_string info s = Inr (b, s') \<Longrightarrow> length s' \<le> length s"
    by (auto simp: parse_byte_string_def bind_r_eq_Inr split: if_splits
        dest!: parse_unsigned_length read_from_stream_length bc)
  show "no_limit (parse_byte_string info s)"
    unfolding parse_byte_string_def
    by (auto intro!: no_limit_bind loop_until_break_no_limit nl strict)
qed

lemma parse_major_type_length:
  assumes "\<And>t v t'. item t = Inr (v, t') \<Longrightarrow> length t' < length t"
    and "parse_major_type item major info s = Inr (v, s')"
  shows "length s' \<le> length s"
proof -
  have weak: "length t' \<le> length t" if "item t = Inr (w, t')" for t w t'
    using assms(1) [OF that] by simp
  have e: "length t' \<le> length t" if "parse_element item a t = Inr (a', t')" for a t a' t'
    using that by (auto simp: parse_element_def bind_r_eq_Inr dest: weak)
  have p: "length t' \<le> length t" if "parse_key_value_pair item a t = Inr (a', t')" for a t a' t'
    using that by (fastforce simp: parse_key_value_pair_def bind_r_eq_Inr split: if_splits dest: weak)
  have te: "length t' \<le> length t" if "loop_times k (parse_element item) a t = Inr (r, t')" for k a t r t'
    using e that by (rule loop_times_length)
  have be: "length t' < length t" if "loop_until_break k (parse_element item) a t = Inr (r, t')" for k a t r t'
    using e that by (rule loop_until_break_length)
  have tp: "length t' \<le> length t" if "loop_times k (parse_key_value_pair item) a t = Inr (r, t')" for k a t r t'
    using p that by (rule loop_times_length)
  have bp: "length t' < length t" if "loop_until_break k (parse_key_value_pair item) a t = Inr (r, t')" for k a t r t'
    using p that by (rule loop_until_break_length)
  note facts = parse_unsigned_length read_bytes_as_int_length parse_byte_string_facts(1) te be tp bp weak
  have "parse_array item i t = Inr (w, t') \<Longrightarrow> length t' \<le> length t" for i t w t'
    by (auto simp: parse_array_def bind_r_eq_Inr split: if_splits dest!: facts)
  moreover have "parse_map item i t = Inr (w, t') \<Longrightarrow> length t' \<le> length t" for i t w t'
    by (auto simp: parse_map_def bind_r_eq_Inr split: if_splits dest!: facts)
  moreover have "parse_tag item i t = Inr (w, t') \<Longrightarrow> length t' \<le> length t" for i t w t'
    by (auto simp: parse_tag_def bind_r_eq_Inr split: if_splits dest!: facts)
  moreover have "parse_simple_and_float i t = Inr (w, t') \<Longrightarrow> length t' \<le> length t" for i t w t'
    by (auto simp: parse_simple_and_float_def bind_r_eq_Inr split: if_splits dest: facts)
  ultimately show ?thesis
    using assms(2)
    by (auto simp: parse_major_type_def parse_negative_def parse_text_string_def bind_r_eq_Inr
        split: if_splits dest: facts)
qed

lemma parse_data_item_length: "parse_data_item n s = Inr (v, s') \<Longrightarrow> length s' < length s"
proof (induction n arbitrary: s v s')
  case 0
  then show ?case by (simp add: parse_data_item.simps)
next
  case (Suc n)
  from Suc.prems obtain initial t where
    "read_bytes_as_int 1 s = Inr (initial, t)"
    "parse_major_type (parse_data_item n) (initial div 32) (initial mod 32) t = Inr (v, s')"
    by (auto simp: parse_data_item.simps bind_r_eq_Inr)
  with parse_major_type_length [OF Suc.IH] show ?case
    by (fastforce dest: read_bytes_as_int_length)
qed

lemma parse_major_type_no_limit:
  assumes "\<And>t. length t \<le> length s \<Longrightarrow> no_limit (item t)"
    and "\<And>t v t'. item t = Inr (v, t') \<Longrightarrow> length t' < length t"
  shows "no_limit (parse_major_type item major info s)"
proof -
  have e: "length t' < length t" if "parse_element item a t = Inr (a', t')" for a t a' t'
    using that by (auto simp: parse_element_def bind_r_eq_Inr dest: assms(2))
  have p: "length t' < length t" if "parse_key_value_pair item a t = Inr (a', t')" for a t a' t'
    using that by (fastforce simp: parse_key_value_pair_def bind_r_eq_Inr split: if_splits dest: assms(2))
  have ne: "no_limit (parse_element item a t)" if "length t \<le> length s" for a t
    using that by (auto simp: parse_element_def intro!: no_limit_bind assms(1))
  have np: "no_limit (parse_key_value_pair item a t)" if "length t \<le> length s" for a t
    using that
    by (fastforce simp: parse_key_value_pair_def pdict_store_def intro!: no_limit_bind assms(1)
        dest: assms(2))
  have 1: "no_limit (parse_array item info s)"
    unfolding parse_array_def
    by (auto intro!: no_limit_bind loop_times_no_limit loop_until_break_no_limit ne
        dest: parse_unsigned_length e less_imp_le [OF e])
  have 2: "no_limit (parse_map item info s)"
    unfolding parse_map_def
    by (auto intro!: no_limit_bind loop_times_no_limit loop_until_break_no_limit np
        dest: parse_unsigned_length p less_imp_le [OF p])
  have 3: "no_limit (parse_tag item info s)"
    unfolding parse_tag_def
    by (auto intro!: no_limit_bind assms(1) dest: parse_unsigned_length)
  show ?thesis
    unfolding parse_major_type_def parse_negative_def parse_text_string_def parse_simple_and_float_def
    using 1 2 3 by (auto intro!: no_limit_bind parse_byte_string_facts)
qed

lemma parse_data_item_no_limit: "length s < n \<Longrightarrow> no_limit (parse_data_item n s)"
proof (induction n arbitrary: s)
  case 0
  then show ?case by simp
next
  case (Suc n)
  have "no_limit (parse_major_type (parse_data_item n) major info t)"
    if "read_bytes_as_int 1 s = Inr (i, t)" for major info i t
    using that Suc.prems parse_data_item_length
    by (intro parse_major_type_no_limit Suc.IH) (auto dest: read_bytes_as_int_length)
  then show ?case
    by (auto simp: parse_data_item.simps intro!: no_limit_bind)
qed

end
