(* ===== verification/ShapeParser.thy ===== *)
theory ShapeParser
  imports CborParser
begin

text \<open>
  The shape-driven part of \<open>aws/protocol/parser.py\<close> for the protocols whose body is decoded as
  a whole: \<open>RequestParser._parse_shape\<close> with its scalar handlers, \<open>BaseJSONRequestParser\<close> and
  \<open>JSONRequestParser\<close>, \<open>CBORRequestParser\<close>, \<open>BaseRpcV2RequestParser\<close> and
  \<open>RpcV2CBORRequestParser\<close>. \<open>parser_class\<close> selects the methods the class hierarchy resolves to.
\<close>

subsection \<open>Requests and services\<close>

text \<open>
  A request as the parsers read it: header names compare without case, a header or a query
  parameter may be repeated. \<open>uri\<close> parameters come from the operation router.
\<close>

record request =
  rq_method :: string
  rq_path :: ustr
  rq_headers :: "(ustr \<times> ustr) list"
  rq_args :: "(ustr \<times> ustr) list"
  rq_data :: bytes
  rq_mimetype :: ustr

type_synonym uri_params = "(ustr \<times> ustr) list"

record operation =
  op_name :: ustr
  op_input_shape :: "shape option"

text \<open>The operations of a service by name; botocore raises its own error for an unknown one.\<close>

record service_model =
  sm_name :: string
  sm_operations :: "(ustr \<times> operation) list"

definition operation_model :: "service_model \<Rightarrow> ustr \<Rightarrow> operation result" where
  "operation_model svc n =
     (case map_of (sm_operations svc) n of
        Some op \<Rightarrow> Inr op
      | None \<Rightarrow> Inl (UserError ''OperationNotFoundError'' ''''))"

definition header_list :: "request \<Rightarrow> ustr \<Rightarrow> ustr list" where
  "header_list rq n = map snd (filter (\<lambda>(k, v). ustr_lower k = ustr_lower n) (rq_headers rq))"

definition header_get :: "request \<Rightarrow> ustr \<Rightarrow> ustr option" where
  "header_get rq n = (case header_list rq n of [] \<Rightarrow> None | v # vs \<Rightarrow> Some v)"

definition arg_list :: "request \<Rightarrow> ustr \<Rightarrow> ustr list" where
  "arg_list rq n = map snd (filter (\<lambda>(k, v). k = n) (rq_args rq))"

definition arg_get :: "request \<Rightarrow> ustr \<Rightarrow> ustr option" where
  "arg_get rq n = map_of (rq_args rq) n"

subsection \<open>Error classes\<close>

text \<open>
  \<open>_handle_exceptions\<close>: what leaves a public parser method is a \<open>RequestParserError\<close>.
\<close>

definition is_request_parser_error :: "exn \<Rightarrow> bool" where
  "is_request_parser_error e =
     (case e of UserError c m \<Rightarrow> c \<in> {''RequestParserError'', ''UnknownParserError'', ''ProtocolParserError'',
        ''OperationNotFoundParserError''} | _ \<Rightarrow> False)"

definition handle_exceptions :: "'a result \<Rightarrow> 'a result" where
  "handle_exceptions r =
     (case r of Inl e \<Rightarrow> if is_request_parser_error e then Inl e else Inl UnknownParserError | Inr x \<Rightarrow> Inr x)"

text \<open>The \<open>except\<close> clause of \<open>_parse_shape\<close>; a decoding error is a value error.\<close>

definition convert_type_errors :: "'a result \<Rightarrow> 'a result" where
  "convert_type_errors r =
     (case r of
        Inl e \<Rightarrow> if e \<in> {TypeError, ValueError, UnicodeError, AttributeError} then Inl ProtocolParserError else Inl e
      | Inr x \<Rightarrow> Inr x)"

subsection \<open>Locations\<close>

definition join_commas :: "ustr list \<Rightarrow> ustr" where
  "join_commas = join_with [44]"

definition parse_header_map :: "shape \<Rightarrow> request \<Rightarrow> pyval" where
  "parse_header_map sh rq =
     (let prefix = ustr_lower (serialized_name sh [])
      in str_dict (fold (\<lambda>(k, v) d. if starts_with prefix (ustr_lower k) then dict_set (drop (length prefix) k) (PStr v) d else d)
           (rq_headers rq) []))"

fun is_list_shape :: "shape \<Rightarrow> bool" where
  "is_list_shape (ListShape i m) = True"
| "is_list_shape sh = False"

text \<open>
  The value a shape is parsed from: the node, or the part of the request its location names. The
  variable stays unbound when a URI parameter is missing.
\<close>

definition header_payload :: "request \<Rightarrow> shape \<Rightarrow> ustr \<Rightarrow> pyval" where
  "header_payload rq sh n =
     (if is_list_shape sh
      then (case header_list rq n of
              [] \<Rightarrow> PNone
            | vs \<Rightarrow> PList (map (\<lambda>v. PStr (ustr_strip v)) (split_on 44 (join_commas vs))))
      else (case header_get rq n of None \<Rightarrow> PNone | Some v \<Rightarrow> PStr v))"

definition query_payload :: "request \<Rightarrow> shape \<Rightarrow> ustr \<Rightarrow> pyval" where
  "query_payload rq sh n =
     (if is_list_shape sh then PList (map PStr (arg_list rq n))
      else (case arg_get rq n of None \<Rightarrow> PNone | Some v \<Rightarrow> PStr v))"

definition uri_payload :: "uri_params \<Rightarrow> ustr \<Rightarrow> pyval result" where
  "uri_payload uri n = (case map_of uri n of Some v \<Rightarrow> Inr (PStr v) | None \<Rightarrow> Inl NameError)"

subsection \<open>Scalars\<close>

text \<open>
  The timestamp formats the standard library and dateutil parse are parameters: \<open>iso8601\<close> and
  \<open>rfc822\<close>. The two numeric ones are written out.
\<close>

record time_parsers =
  tp_iso8601 :: "pyval \<Rightarrow> pyval result"
  tp_rfc822 :: "pyval \<Rightarrow> pyval result"

definition timestamp_unixtimestamp :: "pyval \<Rightarrow> pyval result" where
  "timestamp_unixtimestamp v = bind_r (py_int v) (\<lambda>n. map_sum id PTime (datetime_of_int n))"

definition float_div_1000 :: "64 word \<Rightarrow> 64 word" where
  "float_div_1000 w =
     (if f64_finite w
      then (case mag_frac 52 1074 (f64_mag w) of (a, d) \<Rightarrow> f64_make (f64_neg w) (round_mag 52 1074 a (d * 1000)))
      else w)"

definition timestamp_unixtimestampmillis :: "pyval \<Rightarrow> pyval result" where
  "timestamp_unixtimestampmillis v =
     bind_r (py_float v) (\<lambda>w.
       if f64_is_nan w then Inl ValueError
       else if f64_is_inf w then Inl OverflowError
       else map_sum id PTime (datetime_of_seconds (float_div_1000 w)))"

definition convert_str_to_timestamp :: "time_parsers \<Rightarrow> ustr \<Rightarrow> pyval \<Rightarrow> pyval result" where
  "convert_str_to_timestamp tp fmt v =
     (let f = ustr_lower fmt in
      if f = cp ''iso8601'' then tp_iso8601 tp v
      else if f = cp ''unixtimestamp'' then timestamp_unixtimestamp v
      else if f = cp ''unixtimestampmillis'' then timestamp_unixtimestampmillis v
      else if f = cp ''rfc822'' then tp_rfc822 tp v
      else Inl AttributeError)"

text \<open>\<open>RequestParser._parse_timestamp\<close>; \<open>dflt\<close> is the class's \<open>TIMESTAMP_FORMAT\<close>.\<close>

definition base_parse_timestamp :: "time_parsers \<Rightarrow> ustr \<Rightarrow> shape_info \<Rightarrow> pyval \<Rightarrow> pyval result" where
  "base_parse_timestamp tp dflt i v =
     (let fmt = (case ser_timestamp_format i of
                   Some f \<Rightarrow> f
                 | None \<Rightarrow> if ser_location i = Some (cp ''header'') then cp ''rfc822''
                           else if ser_location i = Some (cp ''querystring'') then cp ''iso8601''
                           else dflt)
      in convert_str_to_timestamp tp fmt v)"

definition base_parse_boolean :: "pyval \<Rightarrow> pyval result" where
  "base_parse_boolean v =
     (case v of
        PStr s \<Rightarrow> if ustr_lower s = cp ''true'' then Inr (PBool True)
                  else if ustr_lower s = cp ''false'' then Inr (PBool False)
                  else Inl ValueError
      | PBytes b \<Rightarrow> Inl ValueError
      | _ \<Rightarrow> Inl AttributeError)"

text \<open>
  \<open>base64.b64decode\<close> without validation: characters outside the alphabet are skipped, the
  padding that completes a quad ends the input, and a quad may not be left open.
\<close>

definition b64_value :: "nat \<Rightarrow> nat option" where
  "b64_value c =
     (if 65 \<le> c \<and> c \<le> 90 then Some (c - 65)
      else if 97 \<le> c \<and> c \<le> 122 then Some (c - 71)
      else if 48 \<le> c \<and> c \<le> 57 then Some (c + 4)
      else if c = 43 then Some 62
      else if c = 47 then Some 63
      else None)"

fun b64_scan :: "nat \<Rightarrow> nat \<Rightarrow> nat \<Rightarrow> ustr \<Rightarrow> bytes result" where
  "b64_scan quad pads left [] = (if quad = 0 then Inr [] else Inl ValueError)"
| "b64_scan quad pads left (c # cs) =
     (if c = 61 then
        (if 2 \<le> quad \<and> 4 \<le> quad + Suc pads then Inr []
         else b64_scan quad (if 2 \<le> quad then Suc pads else pads) left cs)
      else case b64_value c of
        None \<Rightarrow> b64_scan quad pads left cs
      | Some v \<Rightarrow>
          if quad = 0 then b64_scan 1 0 v cs
          else if quad = 1 then bind_r (b64_scan 2 0 (v mod 16) cs) (\<lambda>r. Inr (byte (left * 4 + v div 16) # r))
          else if quad = 2 then bind_r (b64_scan 3 0 (v mod 4) cs) (\<lambda>r. Inr (byte (left * 16 + v div 4) # r))
          else bind_r (b64_scan 0 0 0 cs) (\<lambda>r. Inr (byte (left * 64 + v) # r)))"

definition b64decode :: "pyval \<Rightarrow> bytes result" where
  "b64decode v =
     (case v of
        PStr s \<Rightarrow> if list_all (\<lambda>c. c < 128) s then b64_scan 0 0 0 s else Inl ValueError
      | PBytes b \<Rightarrow> b64_scan 0 0 0 (map unat b)
      | _ \<Rightarrow> Inl TypeError)"

subsection \<open>The parser classes\<close>

datatype parser_class = JsonParser | CborJsonParser | RpcV2CborParser

definition timestamp_format_of :: "parser_class \<Rightarrow> ustr" where
  "timestamp_format_of cls = (case cls of CborJsonParser \<Rightarrow> cp ''unixtimestampmillis'' | _ \<Rightarrow> cp ''unixtimestamp'')"

definition cbor_mimetype :: "request \<Rightarrow> bool" where
  "cbor_mimetype rq = starts_with (cp ''application/x-amz-cbor'') (rq_mimetype rq)"

text \<open>\<open>BaseJSONRequestParser._parse_timestamp\<close>, then the ones that override it.\<close>

definition json_parse_timestamp :: "parser_class \<Rightarrow> time_parsers \<Rightarrow> request \<Rightarrow> shape_info \<Rightarrow> pyval \<Rightarrow> pyval result" where
  "json_parse_timestamp cls tp rq i v =
     (if ser_timestamp_format i = None \<and> cbor_mimetype rq
      then (case v of PTime t \<Rightarrow> Inr (PTime t)
            | _ \<Rightarrow> convert_str_to_timestamp tp (cp ''unixtimestampmillis'') v)
      else base_parse_timestamp tp (timestamp_format_of cls) i v)"

definition parse_timestamp :: "parser_class \<Rightarrow> time_parsers \<Rightarrow> request \<Rightarrow> shape_info \<Rightarrow> pyval \<Rightarrow> pyval result" where
  "parse_timestamp cls tp rq i v =
     (case cls of
        JsonParser \<Rightarrow> json_parse_timestamp cls tp rq i v
      | CborJsonParser \<Rightarrow> (case v of PTime t \<Rightarrow> Inr v | _ \<Rightarrow> json_parse_timestamp cls tp rq i v)
      | RpcV2CborParser \<Rightarrow> (case v of PTime t \<Rightarrow> Inr v | _ \<Rightarrow> base_parse_timestamp tp (timestamp_format_of cls) i v))"

definition cbor_parse_boolean :: "pyval \<Rightarrow> pyval result" where
  "cbor_parse_boolean v = (case v of PStr s \<Rightarrow> base_parse_boolean v | _ \<Rightarrow> Inr v)"

definition parse_boolean :: "parser_class \<Rightarrow> pyval \<Rightarrow> pyval result" where
  "parse_boolean cls v = (case cls of JsonParser \<Rightarrow> Inr v | _ \<Rightarrow> cbor_parse_boolean v)"

definition parse_blob :: "parser_class \<Rightarrow> request \<Rightarrow> pyval \<Rightarrow> pyval result" where
  "parse_blob cls rq v =
     (case cls of
        JsonParser \<Rightarrow> (case v of
            PBytes b \<Rightarrow> if cbor_mimetype rq then Inr v else map_sum id PBytes (b64decode v)
          | _ \<Rightarrow> map_sum id PBytes (b64decode v))
      | _ \<Rightarrow> Inr v)"

fun parse_scalar :: "parser_class \<Rightarrow> time_parsers \<Rightarrow> request \<Rightarrow> shape_info \<Rightarrow> scalar \<Rightarrow> pyval \<Rightarrow> pyval result" where
  "parse_scalar cls tp rq i TInteger v = map_sum id PInt (py_int v)"
| "parse_scalar cls tp rq i TLong v = map_sum id PInt (py_int v)"
| "parse_scalar cls tp rq i TFloat v = map_sum id PFloat (py_float v)"
| "parse_scalar cls tp rq i TDouble v = map_sum id PFloat (py_float v)"
| "parse_scalar cls tp rq i TBlob v = parse_blob cls rq v"
| "parse_scalar cls tp rq i TTimestamp v = parse_timestamp cls tp rq i v"
| "parse_scalar cls tp rq i TBoolean v = parse_boolean cls v"
| "parse_scalar cls tp rq i t v = Inr v"

subsection \<open>Structures, lists and maps\<close>

text \<open>\<open>rec\<close> stands for the recursive call of \<open>_parse_shape\<close>. A value that is no dictionary has no \<open>get\<close>.\<close>

type_synonym shape_parser = "shape \<Rightarrow> pyval \<Rightarrow> pyval result"

definition dict_get_or_none :: "(pyval \<times> pyval) list \<Rightarrow> ustr \<Rightarrow> pyval" where
  "dict_get_or_none kvs n = (case pdict_get kvs (PStr n) of None \<Rightarrow> PNone | Some v \<Rightarrow> v)"

fun json_members :: "shape_parser \<Rightarrow> ustr list \<Rightarrow> (ustr \<times> shape) list \<Rightarrow> pyval \<Rightarrow> (ustr \<times> pyval) list \<Rightarrow> (ustr \<times> pyval) list result" where
  "json_members rec required [] v acc = Inr acc"
| "json_members rec required ((n, sh) # ms) v acc =
     bind_r (py_items v) (\<lambda>kvs.
     bind_r (rec sh (dict_get_or_none kvs (serialized_name sh n))) (\<lambda>parsed.
       json_members rec required ms v
         (if parsed \<noteq> PNone \<or> n \<in> set required then dict_set n parsed acc else acc)))"

definition json_structure :: "shape_parser \<Rightarrow> shape_info \<Rightarrow> (ustr \<times> shape) list \<Rightarrow> pyval \<Rightarrow> pyval result" where
  "json_structure rec i ms v =
     (if is_document_type i then Inr v
      else if v = PNone then Inr PNone
      else map_sum id str_dict (json_members rec (required_members i) ms v []))"

fun map_entries :: "shape_parser \<Rightarrow> shape \<Rightarrow> shape \<Rightarrow> (pyval \<times> pyval) list \<Rightarrow> (pyval \<times> pyval) list \<Rightarrow> (pyval \<times> pyval) list result" where
  "map_entries rec key val [] acc = Inr acc"
| "map_entries rec key val ((k, x) # kvs) acc =
     bind_r (rec key k) (\<lambda>k'. bind_r (rec val x) (\<lambda>x'.
     bind_r (pdict_store k' x' acc) (\<lambda>acc'. map_entries rec key val kvs acc')))"

definition json_map :: "shape_parser \<Rightarrow> shape \<Rightarrow> shape \<Rightarrow> pyval \<Rightarrow> pyval result" where
  "json_map rec key val v =
     (if v = PNone then Inr PNone
      else bind_r (py_items v) (\<lambda>kvs. map_sum id PDict (map_entries rec key val kvs [])))"

definition parse_list :: "shape_parser \<Rightarrow> shape \<Rightarrow> pyval \<Rightarrow> pyval result" where
  "parse_list rec member v = bind_r (py_iter v) (\<lambda>vs. map_sum id PList (map_r (rec member) vs))"

text \<open>
  \<open>BaseRpcV2RequestParser._parse_structure\<close>: a tagged union must have exactly one member set,
  \<open>__type\<close> aside; members that are null or missing are left out, required or not.
\<close>

definition union_members :: "(pyval \<times> pyval) list \<Rightarrow> (pyval \<times> pyval) list" where
  "union_members kvs = filter (\<lambda>(k, x). \<not> key_eq k (PStr (cp ''__type'')) \<and> x \<noteq> PNone) kvs"

fun rpc_members :: "shape_parser \<Rightarrow> (ustr \<times> shape) list \<Rightarrow> pyval \<Rightarrow> (ustr \<times> pyval) list \<Rightarrow> (ustr \<times> pyval) list result" where
  "rpc_members rec [] v acc = Inr acc"
| "rpc_members rec ((n, sh) # ms) v acc =
     bind_r (py_items v) (\<lambda>kvs.
       let x = dict_get_or_none kvs n in
       if x = PNone then rpc_members rec ms v acc
       else bind_r (rec sh x) (\<lambda>parsed. rpc_members rec ms v (dict_set n parsed acc)))"

definition rpc_structure :: "shape_parser \<Rightarrow> shape_info \<Rightarrow> (ustr \<times> shape) list \<Rightarrow> pyval \<Rightarrow> pyval result" where
  "rpc_structure rec i ms v =
     (if is_document_type i then Inr v
      else if v = PNone then Inr PNone
      else if is_tagged_union i then
        bind_r (py_items v) (\<lambda>kvs.
          if length (union_members kvs) \<noteq> 1 then Inl ProtocolParserError
          else map_sum id str_dict (rpc_members rec ms v []))
      else map_sum id str_dict (rpc_members rec ms v []))"

text \<open>
  The handler for a type name. The RPC v2 parser inherits no handler for maps: \<open>getattr\<close> falls
  back to the one that returns the node.
\<close>

definition parse_node ::
    "parser_class \<Rightarrow> time_parsers \<Rightarrow> request \<Rightarrow> shape_parser \<Rightarrow> shape \<Rightarrow> pyval \<Rightarrow> pyval result" where
  "parse_node cls tp rq rec sh v =
     (case sh of
        Structure i ms \<Rightarrow> (if cls = RpcV2CborParser then rpc_structure rec i ms v else json_structure rec i ms v)
      | ListShape i m \<Rightarrow> parse_list rec m v
      | MapShape i k x \<Rightarrow> (if cls = RpcV2CborParser then Inr v else json_map rec k x v)
      | ScalarShape i t \<Rightarrow> parse_scalar cls tp rq i t v)"

definition shape_payload :: "request \<Rightarrow> uri_params \<Rightarrow> shape \<Rightarrow> pyval \<Rightarrow> pyval result" where
  "shape_payload rq uri sh node =
     (let n = serialized_name sh [] in
      case ser_location (shape_info_of sh) of
        None \<Rightarrow> Inr node
      | Some l \<Rightarrow>
          if l = cp ''header'' then Inr (header_payload rq sh n)
          else if l = cp ''querystring'' then Inr (query_payload rq sh n)
          else if l = cp ''uri'' then uri_payload uri n
          else Inl UnknownParserError)"

fun parse_shape ::
    "parser_class \<Rightarrow> time_parsers \<Rightarrow> request \<Rightarrow> uri_params \<Rightarrow> nat \<Rightarrow> shape \<Rightarrow> pyval \<Rightarrow> pyval result" where
  "parse_shape cls tp rq uri 0 sh node = Inl RecursionError"
| "parse_shape cls tp rq uri (Suc limit) sh node =
     (if ser_location (shape_info_of sh) = Some (cp ''headers'') then Inr (parse_header_map sh rq)
      else bind_r (shape_payload rq uri sh node) (\<lambda>payload.
        if payload = PNone then Inr PNone
        else convert_type_errors (parse_node cls tp rq (parse_shape cls tp rq uri limit) sh payload)))"

declare parse_shape.simps(2) [simp del]

subsection \<open>Bodies and operations\<close>

text \<open>
  The third-party decoders: \<open>cbor2.loads\<close> and werkzeug's \<open>get_json\<close>; both raise when the
  body is malformed, which the parser turns into a protocol error.
\<close>

record body_decoders =
  bd_cbor2_loads :: "bytes \<Rightarrow> pyval result"
  bd_json :: "bytes \<Rightarrow> pyval option"

definition parse_body_as_json :: "body_decoders \<Rightarrow> request \<Rightarrow> pyval result" where
  "parse_body_as_json bd rq =
     (if rq_data rq = [] then Inr (PDict [])
      else if cbor_mimetype rq
      then (case bd_cbor2_loads bd (rq_data rq) of
              Inl e \<Rightarrow> if e \<in> {ValueError, UnicodeError} then Inl ProtocolParserError else Inl e
            | Inr v \<Rightarrow> Inr v)
      else (case bd_json bd (rq_data rq) of None \<Rightarrow> Inl ProtocolParserError | Some v \<Rightarrow> Inr v))"

definition rpc_initial_body_parse :: "nat \<Rightarrow> request \<Rightarrow> pyval result" where
  "rpc_initial_body_parse limit rq =
     (if rq_data rq = [] then Inr (PBytes [])
      else map_sum id fst (parse_data_item limit (rq_data rq)))"

definition parse_payload ::
    "parser_class \<Rightarrow> time_parsers \<Rightarrow> nat \<Rightarrow> request \<Rightarrow> uri_params \<Rightarrow> shape \<Rightarrow> (pyval \<times> pyval) list result" where
  "parse_payload cls tp limit rq uri sh =
     bind_r (rpc_initial_body_parse limit rq) (\<lambda>body.
     bind_r (parse_shape cls tp rq uri limit sh body) (pdict_update []))"

definition has_event_stream :: "shape \<Rightarrow> bool" where
  "has_event_stream sh = (case event_stream_name (shape_info_of sh) of Some n \<Rightarrow> n \<noteq> [] | None \<Rightarrow> False)"

definition cbor_do_parse ::
    "parser_class \<Rightarrow> time_parsers \<Rightarrow> nat \<Rightarrow> request \<Rightarrow> shape option \<Rightarrow> pyval result" where
  "cbor_do_parse cls tp limit rq sh =
     (case sh of
        None \<Rightarrow> Inr (PDict [])
      | Some s \<Rightarrow> if has_event_stream s then Inl NotImplementedError
                   else map_sum id PDict (parse_payload cls tp limit rq [] s))"

definition json_do_parse ::
    "time_parsers \<Rightarrow> body_decoders \<Rightarrow> nat \<Rightarrow> request \<Rightarrow> shape option \<Rightarrow> pyval result" where
  "json_do_parse tp bd limit rq sh =
     (case sh of
        None \<Rightarrow> Inr (PDict [])
      | Some s \<Rightarrow> if has_event_stream s then Inl NotImplementedError
                   else bind_r (parse_body_as_json bd rq) (parse_shape JsonParser tp rq [] limit s))"

text \<open>\<open>JSONRequestParser.parse\<close>, shared by the CBOR variant; the target's last part names the operation.\<close>

definition target_operation :: "service_model \<Rightarrow> request \<Rightarrow> operation result" where
  "target_operation svc rq =
     (case header_get rq (cp ''X-Amz-Target'') of
        None \<Rightarrow> Inl KeyError
      | Some t \<Rightarrow> operation_model svc (snd (snd (rpartition 46 t))))"

definition json_parse :: "time_parsers \<Rightarrow> body_decoders \<Rightarrow> nat \<Rightarrow> service_model \<Rightarrow> request \<Rightarrow> (operation \<times> pyval) result" where
  "json_parse tp bd limit svc rq = handle_exceptions (
     bind_r (target_operation svc rq) (\<lambda>op.
     bind_r (json_do_parse tp bd limit rq (op_input_shape op)) (\<lambda>v. Inr (op, v))))"

definition cbor_json_parse :: "time_parsers \<Rightarrow> nat \<Rightarrow> service_model \<Rightarrow> request \<Rightarrow> (operation \<times> pyval) result" where
  "cbor_json_parse tp limit svc rq = handle_exceptions (
     bind_r (target_operation svc rq) (\<lambda>op.
     bind_r (cbor_do_parse CborJsonParser tp limit rq (op_input_shape op)) (\<lambda>v. Inr (op, v))))"

text \<open>\<open>BaseRpcV2RequestParser.parse\<close>: the last segment of at least four names the operation.\<close>

definition rpc_segments :: "ustr \<Rightarrow> ustr list" where
  "rpc_segments path = split_on 47 (dropWhile (\<lambda>c. c = 47) path)"

definition has_header :: "request \<Rightarrow> ustr \<Rightarrow> bool" where
  "has_header rq n = (header_list rq n \<noteq> [])"

definition rpc_operation :: "service_model \<Rightarrow> request \<Rightarrow> operation result" where
  "rpc_operation svc rq =
     (if rq_method rq \<noteq> ''POST'' then Inl ProtocolParserError
      else if has_header rq (cp ''X-Amz-Target'') \<or> has_header rq (cp ''X-Amzn-Target'')
      then Inl ProtocolParserError
      else let segs = rpc_segments (rq_path rq) in
        if length segs < 4 then Inl OperationNotFoundParserError
        else operation_model svc (last segs))"

definition rpc_parse :: "time_parsers \<Rightarrow> nat \<Rightarrow> service_model \<Rightarrow> request \<Rightarrow> (operation \<times> pyval) result" where
  "rpc_parse tp limit svc rq = handle_exceptions (
     bind_r (rpc_operation svc rq) (\<lambda>op.
     bind_r (handle_exceptions (cbor_do_parse RpcV2CborParser tp limit rq (op_input_shape op))) (\<lambda>v. Inr (op, v))))"

subsection \<open>Lemmas: which members a parsed structure has\<close>

lemma dict_keys_set_set [simp]: "fst ` set (dict_set k v d) = insert k (fst ` set d)"
  using arg_cong [OF dict_keys_set, of set k v d] by (simp add: insert_absorb split: if_splits)

lemma json_members_keys:
  "json_members rec required ms v acc = Inr d \<Longrightarrow>
     fst ` set acc \<subseteq> fst ` set d \<and> fst ` set d \<subseteq> fst ` set acc \<union> fst ` set ms
     \<and> fst ` set ms \<inter> set required \<subseteq> fst ` set d"
proof (induction ms arbitrary: acc)
  case Nil
  then show ?case by simp
next
  case (Cons m ms)
  obtain n sh where m: "m = (n, sh)" by (cases m)
  from Cons.prems obtain y where y: "json_members rec required ms v
      (if y \<noteq> PNone \<or> n \<in> set required then dict_set n y acc else acc) = Inr d"
    by (auto simp: m bind_r_eq_Inr)
  from Cons.IH [OF y] m show ?case by (auto split: if_splits)
qed

lemma rpc_members_keys:
  "rpc_members rec ms v acc = Inr d \<Longrightarrow> set (dict_keys d) \<subseteq> set (dict_keys acc) \<union> fst ` set ms"
proof (induction ms arbitrary: acc)
  case Nil
  then show ?case by simp
next
  case (Cons m ms)
  obtain n sh where m: "m = (n, sh)" by (cases m)
  from Cons.prems obtain acc' where a: "rpc_members rec ms v acc' = Inr d"
      "set (dict_keys acc') \<subseteq> insert n (set (dict_keys acc))"
    by (auto simp: m bind_r_eq_Inr Let_def split: if_splits)
  from Cons.IH [OF a(1)] a(2) m show ?case by auto
qed

lemma rpc_members_wf: "rpc_members rec ms v acc = Inr d \<Longrightarrow> wf_dict acc \<Longrightarrow> wf_dict d"
  by (induction ms arbitrary: acc) (auto simp: bind_r_eq_Inr Let_def split: if_splits)

lemma pdict_update_str_dict:
  assumes "wf_dict d"
  shows "pdict_update [] (str_dict d) = Inr (map (\<lambda>(k, v). (PStr k, v)) d)"
proof -
  have "fold (\<lambda>(k, x). pdict_set k x) (map (\<lambda>(k, v). (PStr k, v)) d) acc = acc @ map (\<lambda>(k, v). (PStr k, v)) d"
    if "\<And>k. k \<in> set (dict_keys d) \<Longrightarrow> PStr k \<notin> fst ` set acc" for acc
    using assms that
  proof (induction d arbitrary: acc)
    case Nil
    then show ?case by simp
  next
    case (Cons kv d)
    obtain k v where kv: "kv = (k, v)" by (cases kv)
    have "pdict_set (PStr k) v acc = acc @ [(PStr k, v)]"
      using Cons.prems(2) kv by (intro pdict_set_fresh) force
    moreover have "fold (\<lambda>(k, x). pdict_set k x) (map (\<lambda>(k, v). (PStr k, v)) d) (acc @ [(PStr k, v)])
        = (acc @ [(PStr k, v)]) @ map (\<lambda>(k, v). (PStr k, v)) d"
      using Cons.prems kv by (intro Cons.IH) (auto simp: wf_dict_def)
    ultimately show ?case by (simp add: kv)
  qed
  from this [of "[]"] show ?thesis by (simp add: pdict_update_def str_dict_def)
qed

subsection \<open>Values that already have their type\<close>

text \<open>
  \<open>typed sh w\<close>: a decoded value that fits the shape, its structures listing their members in
  the order of the shape. The RPC v2 shape parser returns such a value unchanged.
\<close>

fun present_members :: "(ustr \<times> shape) list \<Rightarrow> (ustr \<Rightarrow> pyval option) \<Rightarrow> (ustr \<times> pyval) list" where
  "present_members [] f = []"
| "present_members ((n, sh) # ms) f =
     (case f n of None \<Rightarrow> present_members ms f | Some x \<Rightarrow> (n, x) # present_members ms f)"

definition unlocated :: "shape \<Rightarrow> bool" where
  "unlocated sh = (ser_location (shape_info_of sh) = None)"

inductive typed :: "shape \<Rightarrow> pyval \<Rightarrow> bool" where
  typed_string: "ser_location i = None \<Longrightarrow> typed (ScalarShape i TString) (PStr s)"
| typed_blob: "ser_location i = None \<Longrightarrow> typed (ScalarShape i TBlob) (PBytes b)"
| typed_integer: "ser_location i = None \<Longrightarrow> t = TInteger \<or> t = TLong \<Longrightarrow> typed (ScalarShape i t) (PInt n)"
| typed_float: "ser_location i = None \<Longrightarrow> t = TFloat \<or> t = TDouble \<Longrightarrow> typed (ScalarShape i t) (PFloat w)"
| typed_boolean: "ser_location i = None \<Longrightarrow> typed (ScalarShape i TBoolean) (PBool b)"
| typed_timestamp: "ser_location i = None \<Longrightarrow> typed (ScalarShape i TTimestamp) (PTime us)"
| typed_list: "ser_location i = None \<Longrightarrow> list_all (typed m) vs \<Longrightarrow> typed (ListShape i m) (PList vs)"
| typed_map: "ser_location i = None \<Longrightarrow> typed (MapShape i k x) (PDict kvs)"
| typed_structure: "ser_location i = None \<Longrightarrow> \<not> is_document_type i \<Longrightarrow> \<not> is_tagged_union i \<Longrightarrow>
    distinct (map fst ms) \<Longrightarrow>
    list_all (\<lambda>(n, sh). \<forall>x. f n = Some x \<longrightarrow> typed sh x) ms \<Longrightarrow>
    typed (Structure i ms) (str_dict (present_members ms f))"

lemma typed_not_None: "typed sh w \<Longrightarrow> w \<noteq> PNone"
  by (induction rule: typed.induct) (simp_all add: str_dict_def)

lemma map_of_present:
  "distinct (map fst ms) \<Longrightarrow> map_of (present_members ms f) n = (if n \<in> fst ` set ms then f n else None)"
  by (induction ms f rule: present_members.induct) (auto split: option.splits)

lemma present_members_keys: "set (map fst (present_members ms f)) \<subseteq> fst ` set ms"
  by (induction ms f rule: present_members.induct) (auto split: option.splits)

lemma present_members_wf: "distinct (map fst ms) \<Longrightarrow> wf_dict (present_members ms f)"
proof (induction ms)
  case Nil
  then show ?case by simp
next
  case (Cons m ms)
  obtain n sh where m: "m = (n, sh)" by (cases m)
  have "n \<notin> set (map fst (present_members ms f))"
    using present_members_keys [of ms f] Cons.prems m by auto
  with Cons m show ?case by (auto simp: wf_dict_def split: option.splits)
qed

end
