(* ===== verification/CborSerializer.thy ===== *)
theory CborSerializer
  imports PyValue
begin

text \<open>
  The CBOR encoder of \<open>aws/protocol/serializer.py\<close> (\<open>BaseCBORResponseSerializer\<close>), one
  definition per method; each returns the bytes the method appends to the body. \<open>indef\<close> is the
  class flag \<open>USE_INDEFINITE_DATA_STRUCTURE\<close>, \<open>aware\<close> stands for botocore's
  \<open>parse_to_aware_datetime\<close>, and \<open>limit\<close> for the nesting Python's recursion limit admits.
\<close>

subsection \<open>Heads\<close>

definition get_additional_info_and_num_bytes :: "nat \<Rightarrow> nat \<times> nat" where
  "get_additional_info_and_num_bytes n =
     (if n < 24 then (n, 0)
      else if n < 256 then (24, 1)
      else if n < 65536 then (25, 2)
      else if n < 4294967296 then (26, 4)
      else (27, 8))"

definition get_initial_byte :: "nat \<Rightarrow> nat \<Rightarrow> bytes" where
  "get_initial_byte major info = [byte (major * 32 + info)]"

definition encode_head :: "nat \<Rightarrow> nat \<Rightarrow> bytes result" where
  "encode_head major n =
     (case get_additional_info_and_num_bytes n of (info, k) \<Rightarrow>
        if k = 0 then Inr (get_initial_byte major info)
        else bind_r (to_bytes k n) (\<lambda>b. Inr (get_initial_byte major info @ b)))"

subsection \<open>Scalars\<close>

text \<open>
  A float is compared like a number but has no \<open>to_bytes\<close>; one below 24 fails in the
  disjunction of the initial byte already.
\<close>

definition float_below :: "nat \<Rightarrow> 64 word \<Rightarrow> bool" where
  "float_below n w = (f64_finite w \<and> (case mag_frac 52 1074 (f64_mag w) of (a, d) \<Rightarrow> a < n * d))"

fun serialize_integer :: "pyval \<Rightarrow> bytes result" where
  "serialize_integer (PBool b) = encode_head 0 (of_bool b)"
| "serialize_integer (PInt n) = (if 0 \<le> n then encode_head 0 (nat n) else encode_head 1 (nat (- 1 - n)))"
| "serialize_integer (PFloat w) =
     Inl (if float_below (if f64_neg w then 25 else 24) w then TypeError else AttributeError)"
| "serialize_integer v = Inl TypeError"

definition serialize_string :: "pyval \<Rightarrow> bytes result" where
  "serialize_string v =
     (case v of
        PStr s \<Rightarrow> bind_r (utf8_encode s) (\<lambda>enc. bind_r (encode_head 3 (length enc)) (\<lambda>h. Inr (h @ enc)))
      | _ \<Rightarrow> Inl AttributeError)"

definition blob_bytes :: "pyval \<Rightarrow> bytes result" where
  "blob_bytes v = (case v of PStr s \<Rightarrow> utf8_encode s | PBytes b \<Rightarrow> Inr b | _ \<Rightarrow> Inl AttributeError)"

definition serialize_blob :: "pyval \<Rightarrow> bytes result" where
  "serialize_blob v = bind_r (blob_bytes v) (\<lambda>b. bind_r (encode_head 2 (length b)) (\<lambda>h. Inr (h @ b)))"

text \<open>\<open>math.isnan\<close> converts an integer to a float first.\<close>

fun number_value :: "pyval \<Rightarrow> 64 word result" where
  "number_value (PBool b) = int_to_f64 (of_bool b)"
| "number_value (PInt n) = int_to_f64 n"
| "number_value (PFloat w) = Inr w"
| "number_value v = Inl TypeError"

definition is_special_number :: "64 word \<Rightarrow> bool" where
  "is_special_number w = (f64_is_inf w \<or> f64_is_nan w)"

definition get_bytes_for_special_numbers :: "64 word \<Rightarrow> bytes" where
  "get_bytes_for_special_numbers w =
     get_initial_byte 7 25 @
     be_bytes 2 (if w = f64_pos_inf then 31744 else if w = f64_neg_inf then 64512 else 32256)"

definition serialize_float :: "pyval \<Rightarrow> bytes result" where
  "serialize_float v =
     bind_r (number_value v) (\<lambda>w.
       if is_special_number w then Inr (get_bytes_for_special_numbers w)
       else bind_r (pack_f w) (\<lambda>x. Inr (get_initial_byte 7 26 @ be_bytes 4 (unat x))))"

definition serialize_double :: "pyval \<Rightarrow> bytes result" where
  "serialize_double v =
     bind_r (number_value v) (\<lambda>w.
       if is_special_number w then Inr (get_bytes_for_special_numbers w)
       else Inr (get_initial_byte 7 27 @ be_bytes 8 (unat w)))"

definition serialize_boolean :: "pyval \<Rightarrow> bytes result" where
  "serialize_boolean v = Inr (get_initial_byte 7 (if truthy v then 21 else 20))"

definition serialize_timestamp :: "(pyval \<Rightarrow> int result) \<Rightarrow> pyval \<Rightarrow> bytes result" where
  "serialize_timestamp aware v =
     bind_r (aware v) (\<lambda>us.
       Inr (get_initial_byte 6 1 @ get_initial_byte 7 27 @ be_bytes 8 (unat (datetime_timestamp us))))"

subsection \<open>Lists, maps and structures\<close>

definition get_bytes_for_data_structure :: "bool \<Rightarrow> nat \<Rightarrow> nat \<Rightarrow> (bytes \<times> bytes) result" where
  "get_bytes_for_data_structure indef len major =
     (if indef then Inr (get_initial_byte major 31, [255])
      else bind_r (encode_head major len) (\<lambda>h. Inr (h, [])))"

text \<open>\<open>item\<close> stands for the recursive call of \<open>_serialize_data_item\<close>.\<close>

type_synonym item_serializer = "shape \<Rightarrow> pyval \<Rightarrow> bytes result"

definition serialize_list :: "bool \<Rightarrow> item_serializer \<Rightarrow> shape \<Rightarrow> pyval \<Rightarrow> bytes result" where
  "serialize_list indef item member v =
     bind_r (py_iter v) (\<lambda>vs.
     bind_r (get_bytes_for_data_structure indef (length vs) 4) (\<lambda>(initial, closing).
     bind_r (map_r (item member) vs) (\<lambda>parts. Inr (initial @ concat parts @ closing))))"

definition serialize_map :: "bool \<Rightarrow> item_serializer \<Rightarrow> shape \<Rightarrow> shape \<Rightarrow> pyval \<Rightarrow> bytes result" where
  "serialize_map indef item key value v =
     bind_r (py_items v) (\<lambda>kvs.
     bind_r (get_bytes_for_data_structure indef (length kvs) 5) (\<lambda>(initial, closing).
     bind_r (map_r (\<lambda>(k, x). bind_r (item key k) (\<lambda>kb. bind_r (item value x) (\<lambda>vb. Inr (kb @ vb)))) kvs)
       (\<lambda>parts. Inr (initial @ concat parts @ closing))))"

definition member_of :: "(ustr \<times> shape) list \<Rightarrow> pyval \<Rightarrow> (ustr \<times> shape) result" where
  "member_of members k =
     (case k of
        PStr s \<Rightarrow> (case map_of members s of
                     Some sh \<Rightarrow> Inr (serialized_name sh s, sh)
                   | None \<Rightarrow> Inl KeyError)
      | _ \<Rightarrow> Inl KeyError)"

definition serialize_structure :: "bool \<Rightarrow> item_serializer \<Rightarrow> (ustr \<times> shape) list \<Rightarrow> pyval \<Rightarrow> bytes result" where
  "serialize_structure indef item members v =
     bind_r (py_items v) (\<lambda>kvs0.
       let kvs = filter (\<lambda>(k, x). x \<noteq> PNone) kvs0 in
       bind_r (get_bytes_for_data_structure indef (length kvs) 5) (\<lambda>(initial, closing).
       bind_r (map_r (\<lambda>(k, x).
                 bind_r (member_of members k) (\<lambda>(name, sh).
                 bind_r (serialize_string (PStr name)) (\<lambda>kb.
                 bind_r (item sh x) (\<lambda>vb. Inr (kb @ vb))))) kvs)
         (\<lambda>parts. Inr (initial @ concat parts @ closing))))"

text \<open>
  \<open>_serialize_data_item\<close>: the method is looked up by the name of the shape's type, and a type
  without a method is an attribute error.
\<close>

fun serialize_scalar :: "(pyval \<Rightarrow> int result) \<Rightarrow> scalar \<Rightarrow> pyval \<Rightarrow> bytes result" where
  "serialize_scalar aware TString v = serialize_string v"
| "serialize_scalar aware TBlob v = serialize_blob v"
| "serialize_scalar aware TInteger v = serialize_integer v"
| "serialize_scalar aware TLong v = serialize_integer v"
| "serialize_scalar aware TFloat v = serialize_float v"
| "serialize_scalar aware TDouble v = serialize_double v"
| "serialize_scalar aware TBoolean v = serialize_boolean v"
| "serialize_scalar aware TTimestamp v = serialize_timestamp aware v"
| "serialize_scalar aware t v = Inl AttributeError"

fun serialize_data_item ::
    "bool \<Rightarrow> (pyval \<Rightarrow> int result) \<Rightarrow> nat \<Rightarrow> shape \<Rightarrow> pyval \<Rightarrow> bytes result" where
  "serialize_data_item indef aware 0 sh v = Inl RecursionError"
| "serialize_data_item indef aware (Suc limit) sh v =
     (case sh of
        Structure i members \<Rightarrow> serialize_structure indef (serialize_data_item indef aware limit) members v
      | ListShape i member \<Rightarrow> serialize_list indef (serialize_data_item indef aware limit) member v
      | MapShape i key value \<Rightarrow> serialize_map indef (serialize_data_item indef aware limit) key value v
      | ScalarShape i t \<Rightarrow> serialize_scalar aware t v)"

declare serialize_data_item.simps(2) [simp del]

subsection \<open>Errors\<close>

text \<open>
  \<open>_serialize_error_structure\<close>: the attributes of the exception that the error shape names,
  in the order of the shape's members, with \<open>__type\<close> in front. Falsy values are left out unless
  the member is required. \<open>attrs\<close> holds what \<open>getattr\<close> finds on the exception.
\<close>

definition default_error_members :: "(ustr \<times> shape) list" where
  "default_error_members =
     [(cp ''message'', ScalarShape (plain_info (cp ''ErrorMessage'')) TString),
      (cp ''__type'', ScalarShape (plain_info (cp ''ErrorType'')) TString)]"

definition error_type_shape :: shape where
  "error_type_shape = ScalarShape (plain_info (cp ''__type'')) TString"

definition error_members :: "shape option \<Rightarrow> (ustr \<times> shape) list \<times> ustr list" where
  "error_members sh =
     (case sh of
        Some (Structure i ms) \<Rightarrow> (dict_set (cp ''__type'') error_type_shape ms, required_members i)
      | _ \<Rightarrow> (default_error_members, []))"

definition error_attribute :: "(ustr \<times> pyval) list \<Rightarrow> ustr \<Rightarrow> pyval option" where
  "error_attribute attrs member =
     (case map_of attrs member of
        Some v \<Rightarrow> Some v
      | None \<Rightarrow> if ustr_lower member \<in> {cp ''code'', cp ''message''}
                then map_of attrs (ustr_lower member) else None)"

definition error_params ::
    "(ustr \<times> shape) list \<Rightarrow> ustr list \<Rightarrow> (ustr \<times> pyval) list \<Rightarrow> ustr \<Rightarrow> (ustr \<times> pyval) list" where
  "error_params members required attrs code =
     fold (\<lambda>(member, _) params.
        case error_attribute attrs member of
          None \<Rightarrow> params
        | Some v \<Rightarrow> if v = PNone then params
                    else if truthy v \<or> member \<in> set required then dict_set member v params else params)
       members [(cp ''__type'', PStr code)]"

definition serialize_error_structure ::
    "bool \<Rightarrow> (pyval \<Rightarrow> int result) \<Rightarrow> nat \<Rightarrow> shape option \<Rightarrow> (ustr \<times> pyval) list \<Rightarrow> ustr \<Rightarrow> bytes result" where
  "serialize_error_structure indef aware limit sh attrs code =
     (case error_members sh of (members, required) \<Rightarrow>
        serialize_structure indef (serialize_data_item indef aware limit) members
          (str_dict (error_params members required attrs code)))"

end
