(* ===== verification/CborRoundtrip.thy ===== *)
theory CborRoundtrip
  imports CborParser CborSerializer
begin

text \<open>
  The encoder against the decoder. \<open>on_wire aware sh v w\<close> says what a value \<open>v\<close> of shape
  \<open>sh\<close> becomes after a trip over the wire; the main lemma shows that such a value is encoded
  without an error, in both modes of the encoder, and decoded to exactly \<open>w\<close>, whatever bytes
  follow it.
\<close>

subsection \<open>Depth of values\<close>

fun pv_depth :: "pyval \<Rightarrow> nat" where
  "pv_depth (PTime t) = 1"
| "pv_depth (PList vs) = Suc (fold max (map pv_depth vs) 0)"
| "pv_depth (PDict kvs) = Suc (fold max (map (\<lambda>(k, v). max (pv_depth k) (pv_depth v)) kvs) 0)"
| "pv_depth v = 0"

lemma fold_max_ge: "(m :: nat) \<le> fold max xs m" "x \<in> set xs \<Longrightarrow> x \<le> fold max xs m"
proof -
  have ge: "(m :: nat) \<le> fold max xs m" for m and xs :: "nat list"
  proof (induction xs arbitrary: m)
    case (Cons a xs)
    from Cons.IH [of "max a m"] show ?case by simp
  qed simp
  then show "m \<le> fold max xs m" .
  show "x \<in> set xs \<Longrightarrow> x \<le> fold max xs m"
  proof (induction xs arbitrary: m)
    case (Cons a xs)
    have "a \<le> fold max xs (max a m)" using ge [of "max a m"] by simp
    with Cons show ?case by auto
  qed simp
qed

lemma pv_depth_list: "v \<in> set vs \<Longrightarrow> pv_depth v < pv_depth (PList vs)"
  by (simp add: fold_max_ge(2) less_Suc_eq_le)

lemma pv_depth_dict:
  assumes "(k, v) \<in> set kvs"
  shows "pv_depth k < pv_depth (PDict kvs)" and "pv_depth v < pv_depth (PDict kvs)"
proof -
  have "max (pv_depth k) (pv_depth v) \<in> set (map (\<lambda>(k, v). max (pv_depth k) (pv_depth v)) kvs)"
    using assms by force
  from fold_max_ge(2) [OF this, of 0] show "pv_depth k < pv_depth (PDict kvs)" "pv_depth v < pv_depth (PDict kvs)"
    by simp_all
qed

subsection \<open>What arrives\<close>

definition canonical_special :: "64 word \<Rightarrow> 64 word" where
  "canonical_special w = (if w = f64_pos_inf then w else if w = f64_neg_inf then w else f64_nan False)"

text \<open>Keys a dictionary keeps apart.\<close>

fun fresh_keys :: "pyval list \<Rightarrow> bool" where
  "fresh_keys [] = True"
| "fresh_keys (k # ks) = (hashable k \<and> list_all (\<lambda>k'. \<not> key_eq k k') ks \<and> fresh_keys ks)"

text \<open>A string that can be encoded and whose length a stream can hold.\<close>

definition sendable :: "ustr \<Rightarrow> bool" where
  "sendable s = (case utf8_encode s of Inr b \<Rightarrow> length b < 2 ^ 63 | Inl e \<Rightarrow> False)"

inductive on_wire :: "(pyval \<Rightarrow> int result) \<Rightarrow> shape \<Rightarrow> pyval \<Rightarrow> pyval \<Rightarrow> bool" for aware where
  wire_string: "sendable s \<Longrightarrow> on_wire aware (ScalarShape i TString) (PStr s) (PStr s)"
| wire_blob: "length b < 2 ^ 63 \<Longrightarrow> on_wire aware (ScalarShape i TBlob) (PBytes b) (PBytes b)"
| wire_blob_str: "utf8_encode s = Inr b \<Longrightarrow> length b < 2 ^ 63 \<Longrightarrow> on_wire aware (ScalarShape i TBlob) (PStr s) (PBytes b)"
| wire_integer: "t = TInteger \<or> t = TLong \<Longrightarrow> - (2 ^ 64) \<le> n \<Longrightarrow> n < 2 ^ 64 \<Longrightarrow>
    on_wire aware (ScalarShape i t) (PInt n) (PInt n)"
| wire_boolean: "on_wire aware (ScalarShape i TBoolean) (PBool b) (PBool b)"
| wire_special: "t = TFloat \<or> t = TDouble \<Longrightarrow> is_special_number w \<Longrightarrow>
    on_wire aware (ScalarShape i t) (PFloat w) (PFloat (canonical_special w))"
| wire_double: "\<not> is_special_number w \<Longrightarrow> on_wire aware (ScalarShape i TDouble) (PFloat w) (PFloat w)"
| wire_float: "\<not> is_special_number w \<Longrightarrow> pack_f w = Inr x \<Longrightarrow>
    on_wire aware (ScalarShape i TFloat) (PFloat w) (PFloat (unpack_f x))"
| wire_timestamp: "aware v = Inr us \<Longrightarrow> parse_datetime (PFloat (datetime_timestamp us)) = Inr us' \<Longrightarrow>
    on_wire aware (ScalarShape i TTimestamp) v (PTime us')"
| wire_list: "list_all2 (on_wire aware m) vs ws \<Longrightarrow> length vs < 2 ^ 64 \<Longrightarrow>
    on_wire aware (ListShape i m) (PList vs) (PList ws)"
| wire_map: "list_all2 (\<lambda>p q. on_wire aware key (fst p) (fst q) \<and> on_wire aware value (snd p) (snd q)) kvs ws \<Longrightarrow>
    fresh_keys (map fst ws) \<Longrightarrow> length ws < 2 ^ 64 \<Longrightarrow>
    on_wire aware (MapShape i key value) (PDict kvs) (PDict ws)"
| wire_structure: "list_all2 (\<lambda>p q. \<exists>s sh. fst p = PStr s \<and> map_of ms s = Some sh
      \<and> fst q = PStr (serialized_name sh s) \<and> sendable (serialized_name sh s)
      \<and> on_wire aware sh (snd p) (snd q))
      (filter (\<lambda>(k, x). x \<noteq> PNone) kvs) ws \<Longrightarrow>
    fresh_keys (map fst ws) \<Longrightarrow> length ws < 2 ^ 64 \<Longrightarrow>
    on_wire aware (Structure i ms) (PDict kvs) (PDict ws)"

lemma on_wire_not_None: "on_wire aware sh v w \<Longrightarrow> w \<noteq> PNone"
  by (induction rule: on_wire.induct) simp_all

subsection \<open>Heads\<close>

text \<open>\<open>decodes lim b w\<close>: the bytes \<open>b\<close>, followed by anything, are read as the item \<open>w\<close>.\<close>

definition decodes :: "item_parser \<Rightarrow> bytes \<Rightarrow> pyval \<Rightarrow> bool" where
  "decodes item b w \<longleftrightarrow> b \<noteq> [] \<and> hd b \<noteq> 255 \<and> (\<forall>rest. item (b @ rest) = Inr (w, rest))"

lemma unat_initial: "major < 8 \<Longrightarrow> info < 32 \<Longrightarrow> unat (byte (major * 32 + info)) = major * 32 + info"
  by simp

lemma initial_not_break: "major < 8 \<Longrightarrow> info < 31 \<Longrightarrow> byte (major * 32 + info) \<noteq> 255"
proof
  assume "major < 8" "info < 31" "byte (major * 32 + info) = 255"
  then have "unat (byte (major * 32 + info)) = 255" by simp
  with \<open>major < 8\<close> \<open>info < 31\<close> have "major * 32 + info = 255" by simp
  then have "(major * 32 + info) mod 32 = 31" by simp
  with \<open>info < 31\<close> show False by simp
qed

lemma parse_data_item_initial:
  assumes "major < 8" and "info < 32"
  shows "parse_data_item (Suc lim) (byte (major * 32 + info) # s)
       = parse_major_type (parse_data_item lim) major info s"
proof -
  have "read_bytes_as_int 1 (byte (major * 32 + info) # s) = Inr (major * 32 + info, s)"
    using assms by (simp add: read_bytes_as_int_def read_from_stream_def)
  moreover have "(major * 32 + info) div 32 = major" "(major * 32 + info) mod 32 = info"
    using assms by simp_all
  ultimately show ?thesis by (simp add: parse_data_item.simps)
qed

lemma read_append [simp]:
  assumes "length b = n" and "n < 2 ^ 63"
  shows "read_from_stream n (b @ rest) = Inr (b, rest)"
  using assms by (auto simp: read_from_stream_def)

lemma read_int_append [simp]:
  "n < 256 ^ k \<Longrightarrow> k < 2 ^ 63 \<Longrightarrow> read_bytes_as_int k (be_bytes k n @ rest) = Inr (n, rest)"
  by (simp add: read_bytes_as_int_def)

lemma encode_head_decodes:
  assumes "n < 2 ^ 64"
  obtains info k where "encode_head major n = Inr (byte (major * 32 + info) # k)" and "info < 28"
    and "\<And>rest. parse_unsigned info (k @ rest) = Inr (n, rest)"
proof -
  obtain info nb where g: "get_additional_info_and_num_bytes n = (info, nb)"
    by (cases "get_additional_info_and_num_bytes n")
  consider "n < 24" "info = n" "nb = 0" | "n < 256" "info = 24" "nb = 1" | "n < 65536" "info = 25" "nb = 2"
    | "n < 4294967296" "info = 26" "nb = 4" | "info = 27" "nb = 8"
    using g by (auto simp: get_additional_info_and_num_bytes_def split: if_splits)
  then have "nb = 0 \<and> n < 24 \<and> info = n
      \<or> nb \<noteq> 0 \<and> nb < 2 ^ 63 \<and> n < 256 ^ nb \<and> 24 \<le> info \<and> info < 28 \<and> additional_info_num_bytes info = Some nb"
    using assms by cases (simp_all add: additional_info_num_bytes_def)
  then show thesis
  proof (elim disjE conjE)
    assume "nb = 0" "n < 24" "info = n"
    with g show thesis
      by (intro that [of n "[]"]) (simp_all add: encode_head_def get_initial_byte_def parse_unsigned_def)
  next
    assume "nb \<noteq> 0" "nb < 2 ^ 63" "n < 256 ^ nb" "24 \<le> info" "info < 28"
      "additional_info_num_bytes info = Some nb"
    with g show thesis
      by (intro that [of info "be_bytes nb n"])
        (simp_all add: encode_head_def get_initial_byte_def to_bytes_def parse_unsigned_def)
  qed
qed

subsection \<open>Scalars\<close>

lemma decodes_intro:
  assumes "bs = byte (major * 32 + info) # k" and "major < 8" and "info < 31"
    and "\<And>rest. parse_major_type (parse_data_item lim) major info (k @ rest) = Inr (w, rest)"
  shows "decodes (parse_data_item (Suc lim)) bs w"
  using assms by (simp add: decodes_def parse_data_item_initial initial_not_break)

lemma decodes_intro_indefinite:
  assumes "bs = byte (major * 32 + 31) # k" and "major < 7"
    and "\<And>rest. parse_major_type (parse_data_item lim) major 31 (k @ rest) = Inr (w, rest)"
  shows "decodes (parse_data_item (Suc lim)) bs w"
proof -
  have "unat (byte (major * 32 + 31)) \<noteq> unat (255 :: 8 word)"
    using assms(2) by (subst unat_initial) simp_all
  then have "byte (major * 32 + 31) \<noteq> 255" by metis
  with assms show ?thesis by (simp add: decodes_def parse_data_item_initial)
qed

lemma serialize_string_decodes:
  assumes "sendable s"
  shows "\<exists>bs. serialize_string (PStr s) = Inr bs \<and> decodes (parse_data_item (Suc lim)) bs (PStr s)"
proof -
  from assms obtain b where b: "utf8_encode s = Inr b" "length b < 2 ^ 63"
    by (auto simp: sendable_def split: sum.splits)
  obtain info k where h: "encode_head 3 (length b) = Inr (byte (3 * 32 + info) # k)" "info < 28"
      "\<And>rest. parse_unsigned info (k @ rest) = Inr (length b, rest)"
    using encode_head_decodes [of "length b" 3] b by auto
  have "decodes (parse_data_item (Suc lim)) (byte (3 * 32 + info) # k @ b) (PStr s)"
    by (rule decodes_intro [of _ 3 info "k @ b"])
      (use h b utf8_decode_encode [OF b(1)] in
        \<open>simp_all add: parse_major_type_def parse_text_string_def parse_byte_string_def\<close>)
  with b h show ?thesis by (simp add: serialize_string_def)
qed

lemma serialize_blob_decodes:
  assumes "blob_bytes v = Inr b" and "length b < 2 ^ 63"
  shows "\<exists>bs. serialize_blob v = Inr bs \<and> decodes (parse_data_item (Suc lim)) bs (PBytes b)"
proof -
  obtain info k where h: "encode_head 2 (length b) = Inr (byte (2 * 32 + info) # k)" "info < 28"
      "\<And>rest. parse_unsigned info (k @ rest) = Inr (length b, rest)"
    using encode_head_decodes [of "length b" 2] assms by auto
  have "decodes (parse_data_item (Suc lim)) (byte (2 * 32 + info) # k @ b) (PBytes b)"
    by (rule decodes_intro [of _ 2 info "k @ b"])
      (use h assms in \<open>simp_all add: parse_major_type_def parse_byte_string_def\<close>)
  with assms h show ?thesis by (simp add: serialize_blob_def)
qed

lemma serialize_integer_decodes:
  assumes "- (2 ^ 64) \<le> n" and "n < 2 ^ 64"
  shows "\<exists>bs. serialize_integer (PInt n) = Inr bs \<and> decodes (parse_data_item (Suc lim)) bs (PInt n)"
proof (cases "0 \<le> n")
  case True
  obtain info k where h: "encode_head 0 (nat n) = Inr (byte (0 * 32 + info) # k)" "info < 28"
      "\<And>rest. parse_unsigned info (k @ rest) = Inr (nat n, rest)"
    using assms True by (auto intro: encode_head_decodes [of "nat n" 0])
  have "decodes (parse_data_item (Suc lim)) (byte (0 * 32 + info) # k) (PInt n)"
    by (rule decodes_intro [of _ 0 info k]) (use h True in \<open>simp_all add: parse_major_type_def\<close>)
  with h True show ?thesis by simp
next
  case False
  obtain info k where h: "encode_head 1 (nat (- 1 - n)) = Inr (byte (1 * 32 + info) # k)" "info < 28"
      "\<And>rest. parse_unsigned info (k @ rest) = Inr (nat (- 1 - n), rest)"
    using assms False by (auto intro: encode_head_decodes [of "nat (- 1 - n)" 1])
  have "decodes (parse_data_item (Suc lim)) (byte (1 * 32 + info) # k) (PInt n)"
    by (rule decodes_intro [of _ 1 info k])
      (use h False in \<open>simp_all add: parse_major_type_def parse_negative_def\<close>)
  with h False show ?thesis by simp
qed

lemma serialize_boolean_decodes:
  "\<exists>bs. serialize_boolean (PBool b) = Inr bs \<and> decodes (parse_data_item (Suc lim)) bs (PBool b)"
proof -
  have "decodes (parse_data_item (Suc lim)) (get_initial_byte 7 (if b then 21 else 20)) (PBool b)"
    unfolding get_initial_byte_def
    by (rule decodes_intro [of _ 7 "if b then 21 else 20" "[]"])
      (simp_all add: parse_major_type_def parse_simple_and_float_def)
  then show ?thesis by (simp add: serialize_boolean_def)
qed

lemma float_payload_decodes:
  "decodes (parse_data_item (Suc lim)) (get_initial_byte 7 27 @ be_bytes 8 (unat (w :: 64 word))) (PFloat w)"
  "decodes (parse_data_item (Suc lim)) (get_initial_byte 7 26 @ be_bytes 4 (unat (x :: 32 word))) (PFloat (unpack_f x))"
proof -
  have 1: "unat w < 256 ^ 8" "unat x < 256 ^ 4"
    using unsigned_less [of w] unsigned_less [of x] by simp_all
  show "decodes (parse_data_item (Suc lim)) (get_initial_byte 7 27 @ be_bytes 8 (unat w)) (PFloat w)"
    unfolding get_initial_byte_def
    by (rule decodes_intro [of _ 7 27 "be_bytes 8 (unat w)"])
      (use 1 in \<open>simp_all add: parse_major_type_def parse_simple_and_float_def\<close>)
  show "decodes (parse_data_item (Suc lim)) (get_initial_byte 7 26 @ be_bytes 4 (unat x)) (PFloat (unpack_f x))"
    unfolding get_initial_byte_def
    by (rule decodes_intro [of _ 7 26 "be_bytes 4 (unat x)"])
      (use 1 in \<open>simp_all add: parse_major_type_def parse_simple_and_float_def\<close>)
qed

lemma special_decodes:
  assumes "is_special_number w"
  shows "decodes (parse_data_item (Suc lim)) (get_bytes_for_special_numbers w) (PFloat (canonical_special w))"
proof -
  let ?n = "if w = f64_pos_inf then 31744 else if w = f64_neg_inf then 64512 else 32256 :: nat"
  have "unpack_e (word_of_nat ?n) = canonical_special w"
    by (simp add: unpack_e_def f16_inf_mag_def canonical_special_def f64_pos_inf_def f64_neg_inf_def)
  then show ?thesis
    unfolding get_bytes_for_special_numbers_def get_initial_byte_def
    by (intro decodes_intro [of _ 7 25 "be_bytes 2 ?n"])
      (simp_all add: parse_major_type_def parse_simple_and_float_def)
qed

lemma serialize_timestamp_decodes:
  assumes "aware v = Inr us" and "parse_datetime (PFloat (datetime_timestamp us)) = Inr us'"
  shows "\<exists>bs. serialize_timestamp aware v = Inr bs \<and> decodes (parse_data_item (Suc (Suc lim))) bs (PTime us')"
proof -
  let ?f = "get_initial_byte 7 27 @ be_bytes 8 (unat (datetime_timestamp us))"
  have "decodes (parse_data_item (Suc (Suc lim))) (get_initial_byte 6 1 @ ?f) (PTime us')"
    unfolding get_initial_byte_def [of 6 1]
    by (rule decodes_intro [of _ 6 1 ?f])
      (use assms(2) float_payload_decodes(1) [of lim "datetime_timestamp us"] in
        \<open>simp_all add: parse_major_type_def parse_tag_def parse_unsigned_def decodes_def\<close>)
  with assms show ?thesis by (simp add: serialize_timestamp_def)
qed

subsection \<open>Containers\<close>

text \<open>Both loops of the decoder run over the parts of a container one by one.\<close>

lemma loop_until_break_parts:
  assumes "\<And>i rest. i < length ps \<Longrightarrow> step (acc i) (ps ! i @ rest) = Inr (acc (Suc i), rest)"
    and "\<And>p. p \<in> set ps \<Longrightarrow> p \<noteq> [] \<and> hd p \<noteq> 255" and "length ps < k"
  shows "loop_until_break k step (acc 0) (concat ps @ 255 # rest) = Inr (acc (length ps), rest)"
  using assms
proof (induction ps arbitrary: acc k)
  case Nil
  then obtain k' where "k = Suc k'" by (cases k) auto
  then show ?case by (simp add: loop_until_break.simps(2) handle_break_code_def)
next
  case (Cons p ps)
  then obtain k' where k: "k = Suc k'" by (cases k) auto
  obtain b q where p: "p = b # q" "b \<noteq> 255" using Cons.prems(2) [of p] by (cases p) auto
  have step: "step (acc 0) (p @ concat ps @ 255 # rest) = Inr (acc (Suc 0), concat ps @ 255 # rest)"
    using Cons.prems(1) [of 0] by simp
  have "loop_until_break k' step (acc (Suc 0)) (concat ps @ 255 # rest) = Inr (acc (Suc (length ps)), rest)"
    using Cons.IH [of "\<lambda>i. acc (Suc i)" k'] Cons.prems(1) [of "Suc _"] Cons.prems(2,3) k by simp
  with step p show ?case by (simp add: k loop_until_break.simps(2) handle_break_code_def)
qed

lemma loop_times_parts:
  assumes "\<And>i rest. i < length ps \<Longrightarrow> step (acc i) (ps ! i @ rest) = Inr (acc (Suc i), rest)"
  shows "loop_times (length ps) step (acc 0) (concat ps @ rest) = Inr (acc (length ps), rest)"
  using assms
proof (induction ps arbitrary: acc)
  case Nil
  then show ?case by simp
next
  case (Cons p ps)
  have step: "step (acc 0) (p @ concat ps @ rest) = Inr (acc (Suc 0), concat ps @ rest)"
    using Cons.prems(1) [of 0] by simp
  have "loop_times (length ps) step (acc (Suc 0)) (concat ps @ rest) = Inr (acc (Suc (length ps)), rest)"
    using Cons.IH [of "\<lambda>i. acc (Suc i)"] Cons.prems(1) [of "Suc _"] by simp
  with step show ?case by simp
qed

lemma length_le_concat: "(\<And>p. p \<in> set ps \<Longrightarrow> p \<noteq> []) \<Longrightarrow> length ps \<le> length (concat ps)"
proof (induction ps)
  case Nil
  then show ?case by simp
next
  case (Cons p ps)
  then have "p \<noteq> []" by simp
  with Cons show ?case by (cases p) simp_all
qed

text \<open>
  \<open>framed indef major run\<close>: between the head and the closing bytes of the container, the loop
  of the decoder reads the parts and ends with the final accumulator.
\<close>

lemma framed_decodes:
  assumes steps: "\<And>i rest. i < length ps \<Longrightarrow> step (acc i) (ps ! i @ rest) = Inr (acc (Suc i), rest)"
    and parts: "\<And>p. p \<in> set ps \<Longrightarrow> p \<noteq> [] \<and> hd p \<noteq> 255"
    and n: "length ps < 2 ^ 64" "major < 7"
    and run: "\<And>info s. parse_major_type (parse_data_item lim) major info s =
        bind_r (if info \<noteq> 31 then bind_r (parse_unsigned info s) (\<lambda>(m, s'). loop_times m step (acc 0) s')
                else loop_until_break (Suc (length s)) step (acc 0) s) (\<lambda>(r, s'). Inr (wrap r, s'))"
  shows "\<exists>ini clo. get_bytes_for_data_structure indef (length ps) major = Inr (ini, clo)
    \<and> decodes (parse_data_item (Suc lim)) (ini @ concat ps @ clo) (wrap (acc (length ps)))"
proof (cases indef)
  case True
  have "length ps < Suc (length (concat ps @ 255 # rest))" for rest :: bytes
    using length_le_concat [of ps] parts by simp
  then have "parse_major_type (parse_data_item lim) major 31 (concat ps @ [255] @ rest) = Inr (wrap (acc (length ps)), rest)" for rest
    using loop_until_break_parts [where ps = ps and step = step and acc = acc, OF steps parts] by (simp add: run)
  then have "decodes (parse_data_item (Suc lim)) (byte (major * 32 + 31) # concat ps @ [255]) (wrap (acc (length ps)))"
    by (intro decodes_intro_indefinite [of _ major "concat ps @ [255]"]) (use n in simp_all)
  with True show ?thesis by (simp add: get_bytes_for_data_structure_def get_initial_byte_def)
next
  case False
  obtain info k where h: "encode_head major (length ps) = Inr (byte (major * 32 + info) # k)" "info < 28"
      "\<And>rest. parse_unsigned info (k @ rest) = Inr (length ps, rest)"
    using n(1) by (auto intro: encode_head_decodes [of "length ps" major])
  have "decodes (parse_data_item (Suc lim)) (byte (major * 32 + info) # k @ concat ps) (wrap (acc (length ps)))"
    by (rule decodes_intro [of _ major info "k @ concat ps"])
      (use h n loop_times_parts [where ps = ps and step = step and acc = acc, OF steps] in
        \<open>simp_all add: run\<close>)
  with False h show ?thesis by (simp add: get_bytes_for_data_structure_def)
qed

lemma list_decodes:
  assumes "list_all2 (decodes (parse_data_item lim)) ps ws" and "length ws < 2 ^ 64"
  shows "\<exists>ini clo. get_bytes_for_data_structure indef (length ws) 4 = Inr (ini, clo)
    \<and> decodes (parse_data_item (Suc lim)) (ini @ concat ps @ clo) (PList ws)"
proof -
  have len: "length ps = length ws" using assms(1) by (rule list_all2_lengthD)
  have nth: "decodes (parse_data_item lim) (ps ! i) (ws ! i)" if "i < length ps" for i
    using assms(1) that by (rule list_all2_nthD)
  have "\<exists>ini clo. get_bytes_for_data_structure indef (length ps) 4 = Inr (ini, clo)
    \<and> decodes (parse_data_item (Suc lim)) (ini @ concat ps @ clo) (PList (take (length ps) ws))"
  proof (rule framed_decodes [where acc = "\<lambda>i. take i ws" and wrap = PList])
    show "parse_element (parse_data_item lim) (take i ws) (ps ! i @ rest) = Inr (take (Suc i) ws, rest)"
      if "i < length ps" for i rest
      using nth [OF that] that len by (simp add: parse_element_def decodes_def take_Suc_conv_app_nth)
    show "p \<noteq> [] \<and> hd p \<noteq> 255" if "p \<in> set ps" for p
      using that nth by (auto simp: in_set_conv_nth decodes_def)
  qed (use assms len in \<open>simp_all add: parse_major_type_def parse_array_def\<close>)
  with len show ?thesis by simp
qed

lemma fresh_keys_nth:
  "fresh_keys ks \<Longrightarrow> i < length ks \<Longrightarrow> hashable (ks ! i) \<and> (\<forall>j < i. \<not> key_eq (ks ! j) (ks ! i))"
proof (induction ks arbitrary: i)
  case Nil
  then show ?case by simp
next
  case (Cons k ks)
  show ?case
  proof (cases i)
    case 0
    with Cons show ?thesis by simp
  next
    case (Suc i')
    with Cons show ?thesis by (auto simp: list_all_length nth_Cons split: nat.split)
  qed
qed

lemma map_decodes:
  assumes "list_all2 (\<lambda>b q. \<exists>kb vb. b = kb @ vb \<and> decodes (parse_data_item lim) kb (fst q)
      \<and> decodes (parse_data_item lim) vb (snd q)) ps ws"
    and fresh: "fresh_keys (map fst ws)" and "length ws < 2 ^ 64"
    and some: "\<And>q. q \<in> set ws \<Longrightarrow> snd q \<noteq> PNone"
  shows "\<exists>ini clo. get_bytes_for_data_structure indef (length ws) 5 = Inr (ini, clo)
    \<and> decodes (parse_data_item (Suc lim)) (ini @ concat ps @ clo) (PDict ws)"
proof -
  have len: "length ps = length ws" using assms(1) by (rule list_all2_lengthD)
  have nth: "\<exists>kb vb. ps ! i = kb @ vb \<and> decodes (parse_data_item lim) kb (fst (ws ! i))
      \<and> decodes (parse_data_item lim) vb (snd (ws ! i))" if "i < length ps" for i
    using assms(1) that by (rule list_all2_nthD)
  have "\<exists>ini clo. get_bytes_for_data_structure indef (length ps) 5 = Inr (ini, clo)
    \<and> decodes (parse_data_item (Suc lim)) (ini @ concat ps @ clo) (PDict (take (length ps) ws))"
  proof (rule framed_decodes [where acc = "\<lambda>i. take i ws" and wrap = PDict])
    fix i rest
    assume i: "i < length ps"
    have "hashable (fst (ws ! i))" "\<forall>j<i. \<not> key_eq (fst (ws ! j)) (fst (ws ! i))"
      using fresh_keys_nth [OF fresh, of i] i len by simp_all
    moreover from this have "\<not> key_eq k (fst (ws ! i))" if "k \<in> fst ` set (take i ws)" for k
      using that i len by (fastforce simp: in_set_conv_nth)
    ultimately have "pdict_store (fst (ws ! i)) (snd (ws ! i)) (take i ws) = Inr (take i ws @ [ws ! i])"
      by (simp add: pdict_store_def pdict_set_fresh)
    with nth [OF i] i len some [of "ws ! i"]
    show "parse_key_value_pair (parse_data_item lim) (take i ws) (ps ! i @ rest) = Inr (take (Suc i) ws, rest)"
      by (auto simp: parse_key_value_pair_def decodes_def take_Suc_conv_app_nth)
  next
    show "p \<noteq> [] \<and> hd p \<noteq> 255" if "p \<in> set ps" for p
      using that nth by (fastforce simp: in_set_conv_nth decodes_def)
  qed (use assms(3) len in \<open>simp_all add: parse_major_type_def parse_map_def\<close>)
  with len show ?thesis by simp
qed

subsection \<open>The round trip\<close>

lemma list_all2_parts:
  assumes "list_all2 (\<lambda>x y. \<exists>b. f x = Inr b \<and> P b y) xs ys"
  obtains ps where "map_r f xs = Inr ps" and "list_all2 P ps ys"
  using map_r_list_all2 [OF assms] by blast

lemma serialize_list_decodes:
  assumes "list_all2 (\<lambda>v w. \<exists>b. item m v = Inr b \<and> decodes (parse_data_item lim) b w) vs ws"
    and "length vs < 2 ^ 64"
  shows "\<exists>bs. serialize_list indef item m (PList vs) = Inr bs \<and> decodes (parse_data_item (Suc lim)) bs (PList ws)"
proof -
  obtain ps where ps: "map_r (item m) vs = Inr ps" "list_all2 (decodes (parse_data_item lim)) ps ws"
    using list_all2_parts [OF assms(1)] .
  have len: "length ws = length vs" using assms(1) by (simp add: list_all2_lengthD)
  from list_decodes [OF ps(2), of indef] assms(2) len ps(1) show ?thesis
    by (auto simp: serialize_list_def py_iter_def)
qed

lemma serialize_pairs_decodes:
  assumes "list_all2 (\<lambda>p q. \<exists>kb vb. f p = Inr (kb @ vb) \<and> decodes (parse_data_item lim) kb (fst q)
      \<and> decodes (parse_data_item lim) vb (snd q) \<and> snd q \<noteq> PNone) kvs ws"
    and "fresh_keys (map fst ws)" and "length ws < 2 ^ 64"
  shows "\<exists>ini clo ps. get_bytes_for_data_structure indef (length kvs) 5 = Inr (ini, clo) \<and> map_r f kvs = Inr ps
    \<and> decodes (parse_data_item (Suc lim)) (ini @ concat ps @ clo) (PDict ws)"
proof -
  have "list_all2 (\<lambda>p q. \<exists>b. f p = Inr b \<and> (\<exists>kb vb. b = kb @ vb \<and> decodes (parse_data_item lim) kb (fst q)
      \<and> decodes (parse_data_item lim) vb (snd q))) kvs ws"
    using assms(1) by (rule list_all2_mono) blast
  then obtain ps where ps: "map_r f kvs = Inr ps"
    "list_all2 (\<lambda>b q. \<exists>kb vb. b = kb @ vb \<and> decodes (parse_data_item lim) kb (fst q)
      \<and> decodes (parse_data_item lim) vb (snd q)) ps ws"
    by (rule list_all2_parts)
  have some: "snd q \<noteq> PNone" if "q \<in> set ws" for q
    using assms(1) that by (auto simp: list_all2_conv_all_nth in_set_conv_nth)
  have "length kvs = length ws" using assms(1) by (rule list_all2_lengthD)
  with map_decodes [OF ps(2) assms(2,3) some, of indef] ps(1) show ?thesis by auto
qed

lemma depth_Suc: "pv_depth v < lim \<Longrightarrow> \<exists>l. lim = Suc l"
  by (cases lim) auto

lemma scalar_decodes:
  assumes "\<And>lim. \<exists>bs. serialize_scalar aware t v = Inr bs \<and> decodes (parse_data_item (Suc lim)) bs w"
    and "pv_depth v < slim" and "pv_depth w < plim"
  shows "\<exists>bs. serialize_data_item indef aware slim (ScalarShape i t) v = Inr bs \<and> decodes (parse_data_item plim) bs w"
proof -
  obtain s p where "slim = Suc s" "plim = Suc p" using assms(2,3) by (cases slim; cases plim) auto
  with assms(1) show ?thesis by (simp add: serialize_data_item.simps(2))
qed

lemma on_wire_decodes:
  assumes "on_wire aware sh v w" and "pv_depth v < slim" and "pv_depth w < plim"
  shows "\<exists>bs. serialize_data_item indef aware slim sh v = Inr bs \<and> decodes (parse_data_item plim) bs w"
  using assms
proof (induction arbitrary: slim plim rule: on_wire.induct)
  case (wire_string s i)
  then show ?case
    using serialize_string_decodes [of s] by (intro scalar_decodes) (auto)
next
  case (wire_blob b i)
  then show ?case
    using serialize_blob_decodes [of "PBytes b" b] by (intro scalar_decodes) (auto simp: blob_bytes_def)
next
  case (wire_blob_str s b i)
  then show ?case
    using serialize_blob_decodes [of "PStr s" b] by (intro scalar_decodes) (auto simp: blob_bytes_def)
next
  case (wire_integer t n i)
  then show ?case
    using serialize_integer_decodes [of n] by (intro scalar_decodes) (auto)
next
  case (wire_boolean i b)
  then show ?case
    using serialize_boolean_decodes [of b] by (intro scalar_decodes) (auto)
next
  case (wire_special t w i)
  then show ?case
    using special_decodes [of w] by (intro scalar_decodes) (auto simp: serialize_float_def serialize_double_def)
next
  case (wire_double w i)
  then show ?case
    using float_payload_decodes(1) [of _ w] by (intro scalar_decodes) (auto simp: serialize_double_def)
next
  case (wire_float w x i)
  then show ?case
    using float_payload_decodes(2) [of _ x] by (intro scalar_decodes) (auto simp: serialize_float_def)
next
  case (wire_timestamp v us us' i)
  then obtain s p where "slim = Suc s" "plim = Suc (Suc p)"
    by (cases slim; cases plim; cases "plim - 1") auto
  with wire_timestamp serialize_timestamp_decodes [of aware v us us' p] show ?case
    by (simp add: serialize_data_item.simps(2))
next
  case (wire_list m vs ws i)
  obtain s p where sp: "slim = Suc s" "plim = Suc p"
    using wire_list.prems by (cases slim; cases plim) auto
  have "list_all2 (\<lambda>v w. \<exists>b. serialize_data_item indef aware s m v = Inr b \<and> decodes (parse_data_item p) b w) vs ws"
    using wire_list.IH
  proof (rule list.rel_mono_strong)
    fix v w
    assume "v \<in> set vs" "w \<in> set ws" and
      IH: "on_wire aware m v w \<and> (\<forall>x. pv_depth v < x \<longrightarrow> (\<forall>xa. pv_depth w < xa \<longrightarrow>
        (\<exists>bs. serialize_data_item indef aware x m v = Inr bs \<and> decodes (parse_data_item xa) bs w)))"
    then have "pv_depth v < s" "pv_depth w < p"
      using pv_depth_list [of v vs] pv_depth_list [of w ws] wire_list.prems sp by simp_all
    with IH show "\<exists>b. serialize_data_item indef aware s m v = Inr b \<and> decodes (parse_data_item p) b w"
      by blast
  qed
  from serialize_list_decodes [where item = "serialize_data_item indef aware s", OF this wire_list.hyps] sp show ?case
    by (simp add: serialize_data_item.simps(2))
next
  case (wire_map key val kvs ws i)
  obtain s p where sp: "slim = Suc s" "plim = Suc p"
    using wire_map.prems by (cases slim; cases plim) auto
  let ?f = "\<lambda>(k, x). bind_r (serialize_data_item indef aware s key k)
    (\<lambda>kb. bind_r (serialize_data_item indef aware s val x) (\<lambda>vb. Inr (kb @ vb)))"
  have "list_all2 (\<lambda>p' q. \<exists>kb vb. ?f p' = Inr (kb @ vb) \<and> decodes (parse_data_item p) kb (fst q)
      \<and> decodes (parse_data_item p) vb (snd q) \<and> snd q \<noteq> PNone) kvs ws"
    using wire_map.IH
  proof (rule list.rel_mono_strong)
    fix a q
    assume in_sets: "a \<in> set kvs" "q \<in> set ws" and
      IH: "(on_wire aware key (fst a) (fst q) \<and> (\<forall>x. pv_depth (fst a) < x \<longrightarrow> (\<forall>xa. pv_depth (fst q) < xa \<longrightarrow>
        (\<exists>bs. serialize_data_item indef aware x key (fst a) = Inr bs \<and> decodes (parse_data_item xa) bs (fst q)))))
        \<and> on_wire aware val (snd a) (snd q) \<and> (\<forall>x. pv_depth (snd a) < x \<longrightarrow> (\<forall>xa. pv_depth (snd q) < xa \<longrightarrow>
        (\<exists>bs. serialize_data_item indef aware x val (snd a) = Inr bs \<and> decodes (parse_data_item xa) bs (snd q))))"
    have "pv_depth (fst a) < s" "pv_depth (snd a) < s" "pv_depth (fst q) < p" "pv_depth (snd q) < p"
      using pv_depth_dict [of "fst a" "snd a" kvs] pv_depth_dict [of "fst q" "snd q" ws] in_sets
        wire_map.prems sp by simp_all
    with IH obtain kb vb where "serialize_data_item indef aware s key (fst a) = Inr kb" "decodes (parse_data_item p) kb (fst q)"
        "serialize_data_item indef aware s val (snd a) = Inr vb" "decodes (parse_data_item p) vb (snd q)"
        "on_wire aware val (snd a) (snd q)"
      by blast
    then show "\<exists>kb vb. ?f a = Inr (kb @ vb) \<and> decodes (parse_data_item p) kb (fst q)
      \<and> decodes (parse_data_item p) vb (snd q) \<and> snd q \<noteq> PNone"
      by (intro exI [of _ kb] exI [of _ vb]) (simp add: case_prod_unfold on_wire_not_None)
  qed
  from serialize_pairs_decodes [where f = ?f, OF this wire_map.hyps, of indef] sp show ?case
    by (auto simp: serialize_data_item.simps(2) serialize_map_def py_items_def)
next
  case (wire_structure ms kvs ws i)
  obtain s p where sp: "slim = Suc s" "plim = Suc p"
    using wire_structure.prems by (cases slim; cases plim) auto
  let ?kvs = "filter (\<lambda>(k, x). x \<noteq> PNone) kvs"
  let ?f = "\<lambda>(k, x). bind_r (member_of ms k) (\<lambda>(name, sh). bind_r (serialize_string (PStr name))
    (\<lambda>kb. bind_r (serialize_data_item indef aware s sh x) (\<lambda>vb. Inr (kb @ vb))))"
  have "list_all2 (\<lambda>p' q. \<exists>kb vb. ?f p' = Inr (kb @ vb) \<and> decodes (parse_data_item p) kb (fst q)
      \<and> decodes (parse_data_item p) vb (snd q) \<and> snd q \<noteq> PNone) ?kvs ws"
    using wire_structure.IH
  proof (rule list.rel_mono_strong)
    fix a q
    assume in_sets: "a \<in> set ?kvs" "q \<in> set ws" and
      IH: "\<exists>n sh. fst a = PStr n \<and> map_of ms n = Some sh \<and> fst q = PStr (serialized_name sh n)
        \<and> sendable (serialized_name sh n)
        \<and> on_wire aware sh (snd a) (snd q) \<and> (\<forall>x. pv_depth (snd a) < x \<longrightarrow> (\<forall>xa. pv_depth (snd q) < xa \<longrightarrow>
        (\<exists>bs. serialize_data_item indef aware x sh (snd a) = Inr bs \<and> decodes (parse_data_item xa) bs (snd q))))"
    have "(fst a, snd a) \<in> set kvs" "(fst q, snd q) \<in> set ws" using in_sets by auto
    then have depth: "pv_depth (snd a) < s" "pv_depth (snd q) < p"
      using pv_depth_dict [of "fst a" "snd a" kvs] pv_depth_dict [of "fst q" "snd q" ws]
        wire_structure.prems sp by simp_all
    then obtain p' where "p = Suc p'" by (cases p) auto
    from IH obtain n sh where n: "fst a = PStr n" "map_of ms n = Some sh" "fst q = PStr (serialized_name sh n)"
        "sendable (serialized_name sh n)" "on_wire aware sh (snd a) (snd q)"
      by blast
    from IH n depth obtain vb where vb: "serialize_data_item indef aware s sh (snd a) = Inr vb" "decodes (parse_data_item p) vb (snd q)"
      by auto
    obtain kb where "serialize_string (PStr (serialized_name sh n)) = Inr kb"
        "decodes (parse_data_item p) kb (PStr (serialized_name sh n))"
      using serialize_string_decodes [OF n(4), of p'] \<open>p = Suc p'\<close> by blast
    with n vb show "\<exists>kb vb. ?f a = Inr (kb @ vb) \<and> decodes (parse_data_item p) kb (fst q)
      \<and> decodes (parse_data_item p) vb (snd q) \<and> snd q \<noteq> PNone"
      by (intro exI [of _ kb] exI [of _ vb]) (simp add: case_prod_unfold member_of_def on_wire_not_None)
  qed
  from serialize_pairs_decodes [where f = ?f, OF this wire_structure.hyps, of indef] sp show ?case
    by (auto simp: serialize_data_item.simps(2) serialize_structure_def py_items_def)
qed

end
