(* ===== verification/RpcV2Cbor.thy ===== *)
theory RpcV2Cbor
  imports ShapeParser CborRoundtrip
begin

text \<open>
  The request side of the RPC v2 CBOR protocol as a whole: the properties of the decoder
  (\<open>CborParser\<close>), of the codec round trip (\<open>CborRoundtrip\<close>) and of the parser from the HTTP
  request to the parameters of the operation (\<open>ShapeParser\<close>).
\<close>

subsection \<open>Shape parsing of typed values\<close>

lemma dict_get_or_none_str: "dict_get_or_none (map (\<lambda>(k, v). (PStr k, v)) d) n = (case map_of d n of None \<Rightarrow> PNone | Some v \<Rightarrow> v)"
  by (simp add: dict_get_or_none_def)

lemma rpc_members_present:
  assumes "distinct (map fst ms)" and "v = PDict kvs"
    and "\<And>n sh. (n, sh) \<in> set ms \<Longrightarrow> dict_get_or_none kvs n = (case f n of None \<Rightarrow> PNone | Some x \<Rightarrow> x)"
    and "\<And>n sh x. (n, sh) \<in> set ms \<Longrightarrow> f n = Some x \<Longrightarrow> x \<noteq> PNone \<and> rec sh x = Inr x"
    and "fst ` set acc \<inter> fst ` set ms = {}"
  shows "rpc_members rec ms v acc = Inr (acc @ present_members ms f)"
  using assms
proof (induction ms arbitrary: acc)
  case Nil
  then show ?case by simp
next
  case (Cons m ms)
  obtain n sh where m: "m = (n, sh)" by (cases m)
  have IH: "rpc_members rec ms v acc' = Inr (acc' @ present_members ms f)"
    if "fst ` set acc' \<inter> fst ` set ms = {}" for acc'
  proof (rule Cons.IH [OF _ Cons.prems(2) _ _ that])
    show "distinct (map fst ms)" using Cons.prems(1) by simp
    show "dict_get_or_none kvs k = (case f k of None \<Rightarrow> PNone | Some x \<Rightarrow> x)" if "(k, s) \<in> set ms" for k s
      using Cons.prems(3) [of k s] that by simp
    show "x \<noteq> PNone \<and> rec s x = Inr x" if "(k, s) \<in> set ms" "f k = Some x" for k s x
      using Cons.prems(4) [of k s x] that by simp
  qed
  have get: "dict_get_or_none kvs n = (case f n of None \<Rightarrow> PNone | Some x \<Rightarrow> x)"
    using Cons.prems(3) [of n sh] m by simp
  show ?case
  proof (cases "f n")
    case None
    with get IH [of acc] Cons.prems(2,5) m show ?thesis by (simp add: py_items_def)
  next
    case (Some x)
    then have x: "x \<noteq> PNone" "rec sh x = Inr x" using Cons.prems(4) [of n sh x] m by simp_all
    have fresh: "n \<notin> set (dict_keys acc)" using Cons.prems(5) m by auto
    have "fst ` set (acc @ [(n, x)]) \<inter> fst ` set ms = {}" using Cons.prems(1,5) m by auto
    from IH [OF this] get Some x Cons.prems(2) m show ?thesis
      by (simp add: py_items_def dict_set_new [OF fresh])
  qed
qed

lemma parse_shape_unlocated:
  assumes "ser_location (shape_info_of sh) = None" and "w \<noteq> PNone"
  shows "parse_shape cls tp rq uri (Suc l) sh w
       = convert_type_errors (parse_node cls tp rq (parse_shape cls tp rq uri l) sh w)"
  using assms by (simp add: parse_shape.simps(2) shape_payload_def)

lemma pv_depth_member: "(n, x) \<in> set d \<Longrightarrow> pv_depth x < pv_depth (str_dict d)"
  unfolding str_dict_def by (rule pv_depth_dict(2)) force

lemma typed_parse_shape:
  assumes "typed sh w" and "pv_depth w < limit"
  shows "parse_shape RpcV2CborParser tp rq uri limit sh w = Inr w"
  using assms
proof (induction arbitrary: limit rule: typed.induct)
  case (typed_list i m vs)
  then obtain l where l: "limit = Suc l" by (cases limit) auto
  have "parse_shape RpcV2CborParser tp rq uri l m v = Inr v" if "v \<in> set vs" for v
    using typed_list.IH typed_list.prems l pv_depth_list [OF that] that by (auto simp: list_all_iff)
  then have "map_r (parse_shape RpcV2CborParser tp rq uri l m) vs = Inr (map (\<lambda>v. v) vs)"
    by (rule map_r_all_Inr)
  with typed_list.hyps l show ?case
    by (simp add: parse_shape_unlocated parse_node_def parse_list_def py_iter_def convert_type_errors_def)
next
  case (typed_structure i ms f)
  then obtain l where l: "limit = Suc l" by (cases limit) (auto simp: str_dict_def)
  have "rpc_members (parse_shape RpcV2CborParser tp rq uri l) ms (str_dict (present_members ms f)) []
      = Inr ([] @ present_members ms f)"
    unfolding str_dict_def
  proof (rule rpc_members_present [OF typed_structure.hyps(4) refl])
    fix n sh assume n: "(n, sh) \<in> set ms"
    then show "dict_get_or_none (map (\<lambda>(k, v). (PStr k, v)) (present_members ms f)) n
        = (case f n of None \<Rightarrow> PNone | Some x \<Rightarrow> x)"
      using map_of_present [OF typed_structure.hyps(4)] by (force simp: dict_get_or_none_str)
    fix x assume x: "f n = Some x"
    have "(n, x) \<in> set (present_members ms f)"
      using map_of_present [OF typed_structure.hyps(4), of f n] n x by (intro map_of_SomeD) force
    then have "pv_depth x < l" using pv_depth_member typed_structure.prems l by fastforce
    with typed_structure.IH n x typed_not_None
    show "x \<noteq> PNone \<and> parse_shape RpcV2CborParser tp rq uri l sh x = Inr x"
      by (fastforce simp: list_all_iff)
  qed simp
  with typed_structure.hyps l show ?case
    by (simp add: parse_shape_unlocated parse_node_def rpc_structure_def convert_type_errors_def str_dict_def)
qed (case_tac limit; auto simp: parse_shape_unlocated parse_node_def convert_type_errors_def parse_blob_def
      parse_timestamp_def parse_boolean_def cbor_parse_boolean_def)+

subsection \<open>The properties of the decoder\<close>

lemma parse_datetime_whole_seconds:
  assumes "- 62135596800 \<le> k" and "k \<le> 253402300799"
  shows "parse_datetime (PFloat (datetime_timestamp (10 ^ 6 * k))) = Inr (10 ^ 6 * k)"
proof -
  have fm: "float_millis (f64_make (k < 0) (round_mag 52 1074 (nat \<bar>k\<bar>) 1)) = Inr (1000 * k)"
    using assms by (intro float_millis_seconds) simp
  show ?thesis
    unfolding parse_datetime_def pyval.case datetime_timestamp_seconds fm bind_r_simps millis_to_seconds_int
    by (rule datetime_of_seconds_int) fact+
qed

lemma rpc_operation_data: "rpc_operation svc (rq\<lparr>rq_data := b\<rparr>) = rpc_operation svc rq"
  by (simp add: rpc_operation_def has_header_def header_list_def)

lemma rpc_parse_body:
  assumes body: "decodes (parse_data_item limit) body (str_dict (present_members ms f))"
    and typed: "typed (Structure i ms) (str_dict (present_members ms f))"
    and limit: "pv_depth (str_dict (present_members ms f)) < limit"
    and op: "rpc_operation svc rq = Inr op" "op_input_shape op = Some (Structure i ms)"
      "\<not> has_event_stream (Structure i ms)"
  shows "rpc_parse tp limit svc (rq\<lparr>rq_data := body @ rest\<rparr>) = Inr (op, str_dict (present_members ms f))"
proof -
  let ?rq = "rq\<lparr>rq_data := body @ rest\<rparr>"
  have "rpc_initial_body_parse limit ?rq = Inr (str_dict (present_members ms f))"
    using body by (simp add: rpc_initial_body_parse_def decodes_def)
  moreover have "distinct (map fst ms)" using typed by (auto elim: typed.cases)
  then have "pdict_update [] (str_dict (present_members ms f)) = Inr (map (\<lambda>(k, v). (PStr k, v)) (present_members ms f))"
    by (intro pdict_update_str_dict present_members_wf)
  ultimately have "parse_payload RpcV2CborParser tp limit ?rq [] (Structure i ms)
      = Inr (map (\<lambda>(k, v). (PStr k, v)) (present_members ms f))"
    using typed_parse_shape [OF typed limit] by (simp add: parse_payload_def)
  with op show ?thesis
    by (simp add: rpc_parse_def rpc_operation_data cbor_do_parse_def handle_exceptions_def str_dict_def)
qed

text \<open>
  C1: The round trip over the RPC v2 CBOR protocol. When a parameter dictionary conforms to the
  input shape of the operation a request names, the CBOR encoder (with indefinite or with definite
  lengths) encodes it, and the request whose body is that encoding, with any trailing bytes, is
  parsed to the operation and to the parameters in the order of the shape.
\<close>

theorem rpc_v2_roundtrip:
  assumes "on_wire aware (Structure i ms) v (str_dict (present_members ms f))"
    and "typed (Structure i ms) (str_dict (present_members ms f))"
    and "pv_depth v < slim" and "pv_depth (str_dict (present_members ms f)) < limit"
    and "rpc_operation svc rq = Inr op" and "op_input_shape op = Some (Structure i ms)"
    and "\<not> has_event_stream (Structure i ms)"
  shows "\<exists>body. serialize_data_item indef aware slim (Structure i ms) v = Inr body
    \<and> rpc_parse tp limit svc (rq\<lparr>rq_data := body @ rest\<rparr>) = Inr (op, str_dict (present_members ms f))"
  using on_wire_decodes [OF assms(1,3,4), of indef] rpc_parse_body [OF _ assms(2,4-7)] by blast

text \<open>An operation with a string and a list of integers, for the witness.\<close>

definition example_members :: "(ustr \<times> shape) list" where
  "example_members =
     [(cp ''Name'', ScalarShape (plain_info (cp ''String'')) TString),
      (cp ''Ids'', ListShape (plain_info (cp ''Ids'')) (ScalarShape (plain_info (cp ''Int'')) TInteger))]"

definition example_value :: "ustr \<Rightarrow> pyval option" where
  "example_value n = (if n = cp ''Name'' then Some (PStr (cp ''a''))
     else if n = cp ''Ids'' then Some (PList [PInt 7, PInt (- 300)]) else None)"

definition example_shape :: shape where
  "example_shape = Structure (plain_info (cp ''Input'')) example_members"

definition example_dict :: pyval where
  "example_dict = PDict [(PStr (cp ''Name''), PStr (cp ''a'')), (PStr (cp ''Ids''), PList [PInt 7, PInt (- 300)])]"

definition example_request :: request where
  "example_request = \<lparr>rq_method = ''POST'', rq_path = cp ''/service/S/operation/Op'', rq_headers = [], rq_args = [],
     rq_data = [], rq_mimetype = cp ''application/cbor''\<rparr>"

definition example_operation :: operation where
  "example_operation = \<lparr>op_name = cp ''Op'', op_input_shape = Some example_shape\<rparr>"

definition example_service :: service_model where
  "example_service = \<lparr>sm_name = ''s'', sm_operations = [(cp ''Op'', example_operation)]\<rparr>"

lemma example_str_dict: "str_dict (present_members example_members example_value) = example_dict"
  by (simp add: example_members_def example_value_def example_dict_def str_dict_def)

lemma sendable_ascii: "list_all (\<lambda>c. c < 128) s \<Longrightarrow> length s < 2 ^ 63 \<Longrightarrow> sendable s"
proof -
  assume a: "list_all (\<lambda>c. c < 128) s" and "length s < 2 ^ 63"
  moreover have "utf8_encode s = Inr (map byte s)"
    using a by (induction s) (auto simp: is_scalar_def utf8_char_def)
  ultimately show ?thesis by (simp add: sendable_def)
qed

lemma example_on_wire: "on_wire aware example_shape example_dict example_dict"
  unfolding example_shape_def example_dict_def
  by (rule wire_structure)
    (auto simp: example_members_def serialized_name_def plain_info_def
      intro!: sendable_ascii wire_string wire_list wire_integer)

lemma example_typed: "typed example_shape example_dict"
  unfolding example_str_dict [symmetric] example_shape_def
  by (rule typed_structure)
    (auto simp: example_members_def example_value_def plain_info_def intro!: typed_string typed_list typed_integer)

lemma example_rpc_operation: "rpc_operation example_service example_request = Inr example_operation"
  by (simp add: rpc_operation_def example_request_def has_header_def header_list_def rpc_segments_def
      operation_model_def example_service_def)

lemma example_depth: "pv_depth example_dict = 2"
  by (simp add: example_dict_def)

lemma rpc_v2_roundtrip_witness:
  "\<exists>body. serialize_data_item True (\<lambda>v. Inl TypeError) 3 example_shape example_dict = Inr body
    \<and> rpc_parse \<lparr>tp_iso8601 = Inr, tp_rfc822 = Inr\<rparr> 5 example_service (example_request\<lparr>rq_data := body @ [1]\<rparr>)
      = Inr (example_operation, example_dict)"
  using rpc_v2_roundtrip [where ms = example_members and f = example_value and i = "plain_info (cp ''Input'')"
      and v = example_dict and slim = 3 and limit = 5 and indef = True and rest = "[1]"
      and tp = "\<lparr>tp_iso8601 = Inr, tp_rfc822 = Inr\<rparr>" and aware = "\<lambda>v. Inl TypeError",
      OF _ _ _ _ example_rpc_operation]
    example_on_wire example_typed example_depth
  unfolding example_str_dict example_shape_def [symmetric]
  by (simp add: example_operation_def has_event_stream_def example_shape_def plain_info_def)

text \<open>
  C2: The CBOR codec. A value that conforms to its shape is encoded, in both modes, and the decoder
  reads exactly the value the wire carries for it, leaving the bytes that follow untouched; the
  first byte is never the break code, so that items can stand in indefinite containers.
\<close>

theorem cbor_codec_roundtrip:
  assumes "on_wire aware sh v w" and "pv_depth v < slim" and "pv_depth w < plim"
  shows "\<exists>b bs. serialize_data_item indef aware slim sh v = Inr (b # bs) \<and> b \<noteq> 255
    \<and> (\<forall>rest. parse_data_item plim (b # bs @ rest) = Inr (w, rest))"
proof -
  obtain bs where "serialize_data_item indef aware slim sh v = Inr bs" "decodes (parse_data_item plim) bs w"
    using on_wire_decodes [OF assms] by blast
  then show ?thesis by (cases bs) (auto simp: decodes_def)
qed

lemma cbor_codec_roundtrip_witness:
  "\<exists>b bs. serialize_data_item False (\<lambda>v. Inl TypeError) 3 example_shape example_dict = Inr (b # bs) \<and> b \<noteq> 255
    \<and> (\<forall>rest. parse_data_item 3 (b # bs @ rest) = Inr (example_dict, rest))"
  using cbor_codec_roundtrip [OF example_on_wire, of 3 3 False "\<lambda>v. Inl TypeError"]
  by (simp add: example_depth)

text \<open>
  C3: Decoding always ends and consumes. On a stream shorter than the nesting limit the decoder
  never exhausts it: it returns an item and a strictly shorter stream, or one of its own errors.
\<close>

theorem cbor_decoder_total:
  assumes "length s < limit"
  shows "case parse_data_item limit s of
      Inl e \<Rightarrow> e \<noteq> RecursionError
    | Inr (v, s') \<Rightarrow> length s' < length s"
  using parse_data_item_no_limit [OF assms] parse_data_item_length
  by (auto simp: no_limit_def split: sum.split)

lemma cbor_decoder_total_witness:
  "case parse_data_item 4 [0x9f, 0x81, 0xf6] of Inl e \<Rightarrow> e \<noteq> RecursionError | Inr (v, s') \<Rightarrow> length s' < 3"
  using cbor_decoder_total [of "[0x9f, 0x81, 0xf6]" 4] by (simp split: sum.splits prod.splits)

text \<open>
  A timestamp of whole seconds, in the range of years a \<open>datetime\<close> has, survives the
  encoding as a double and the decoder's rounding to milliseconds.
\<close>

theorem cbor_timestamp_seconds:
  assumes "- 62135596800 \<le> k" and "k \<le> 253402300799" and "aware v = Inr (10 ^ 6 * k)" and "2 \<le> plim"
  shows "\<exists>b. serialize_timestamp aware v = Inr b \<and> parse_data_item plim (b @ rest) = Inr (PTime (10 ^ 6 * k), rest)"
proof -
  obtain p where p: "plim = Suc (Suc p)" using assms(4) by (metis add_2_eq_Suc le_Suc_ex)
  from serialize_timestamp_decodes [of aware v "10 ^ 6 * k", OF assms(3) parse_datetime_whole_seconds [OF assms(1,2)], of p]
  show ?thesis by (auto simp: p decodes_def)
qed

lemma cbor_timestamp_seconds_witness:
  "\<exists>b. serialize_timestamp (\<lambda>v. Inr 1700000000000000) (PInt 1) = Inr b
    \<and> parse_data_item 2 (b @ [7]) = Inr (PTime 1700000000000000, [7])"
  using cbor_timestamp_seconds [of 1700000000 "\<lambda>v. Inr 1700000000000000" "PInt 1" 2 "[7]"] by simp

lemma map_sum_Inr_iff: "map_sum id f r = Inr y \<longleftrightarrow> (\<exists>x. r = Inr x \<and> y = f x)"
  by (cases r) auto

lemma convert_type_errors_Inr [simp]: "convert_type_errors r = Inr x \<longleftrightarrow> r = Inr x"
  by (cases r) (auto simp: convert_type_errors_def)

lemma rpc_structure_result:
  assumes "rpc_structure rec i ms v = Inr r" and "\<not> is_document_type i" and "v \<noteq> PNone"
  shows "\<exists>d. r = str_dict d \<and> wf_dict d \<and> fst ` set d \<subseteq> fst ` set ms"
proof -
  from assms obtain d where d: "rpc_members rec ms v [] = Inr d" "r = str_dict d"
    by (auto simp: rpc_structure_def bind_r_eq_Inr map_sum_Inr_iff split: if_splits)
  have "wf_dict d" using d(1) by (rule rpc_members_wf) simp
  moreover have "fst ` set d \<subseteq> fst ` set ms" using rpc_members_keys [OF d(1)] by simp
  ultimately show ?thesis using d(2) by blast
qed

lemma rpc_payload_result:
  assumes "parse_payload RpcV2CborParser tp limit rq uri (Structure i ms) = Inr kvs"
    and "\<not> is_document_type i" and "ser_location i = None"
  shows "\<exists>d. PDict kvs = str_dict d \<and> fst ` set d \<subseteq> fst ` set ms"
proof -
  from assms(1) obtain w r where r: "parse_shape RpcV2CborParser tp rq uri limit (Structure i ms) w = Inr r"
      "pdict_update [] r = Inr kvs"
    by (auto simp: parse_payload_def bind_r_eq_Inr)
  then obtain l where l: "limit = Suc l" by (cases limit) auto
  have "r \<noteq> PNone" using r(2) by (auto simp: pdict_update_def py_iter_def)
  with r(1) assms(3) l have "rpc_structure (parse_shape RpcV2CborParser tp rq uri l) i ms w = Inr r" "w \<noteq> PNone"
    by (auto simp: parse_shape.simps(2) shape_payload_def parse_node_def split: if_splits)
  from rpc_structure_result [OF this(1) assms(2) this(2)]
  obtain d where d: "r = str_dict d" "wf_dict d" "fst ` set d \<subseteq> fst ` set ms" by blast
  with r(2) pdict_update_str_dict [OF d(2)] show ?thesis by (auto simp: str_dict_def)
qed

text \<open>
  C4: What the RPC v2 parser accepts: only POST requests without a target header, however it is
  capitalised, whose path has at least four segments, the last of which names an operation of the
  service; and the parameters are a dictionary whose keys are members of the operation's input
  shape.
\<close>

theorem rpc_v2_accepts:
  assumes "rpc_parse tp limit svc rq = Inr (op, v)"
    and "op_input_shape op = Some (Structure i ms)" and "\<not> is_document_type i"
    and "ser_location i = None"
  shows "rq_method rq = ''POST'' \<and> header_get rq (cp ''x-amz-target'') = None
    \<and> header_get rq (cp ''X-AMZN-TARGET'') = None \<and> 4 \<le> length (rpc_segments (rq_path rq))
    \<and> map_of (sm_operations svc) (last (rpc_segments (rq_path rq))) = Some op
    \<and> (\<exists>d. v = str_dict d \<and> set (dict_keys d) \<subseteq> set (dict_keys ms))"
proof -
  from assms(1) have op: "rpc_operation svc rq = Inr op"
      and body: "cbor_do_parse RpcV2CborParser tp limit rq (op_input_shape op) = Inr v"
    by (auto simp: rpc_parse_def handle_exceptions_def bind_r_eq_Inr split: sum.splits if_splits)
  have "\<not> has_header rq (cp ''X-Amz-Target'')" "\<not> has_header rq (cp ''X-Amzn-Target'')"
    using op by (auto simp del: cp_simps simp add: rpc_operation_def split: if_splits)
  moreover have "ustr_lower (cp ''X-Amz-Target'') = ustr_lower (cp ''x-amz-target'')"
      "ustr_lower (cp ''X-Amzn-Target'') = ustr_lower (cp ''X-AMZN-TARGET'')"
    by (simp_all add: ustr_lower_def)
  ultimately have "header_get rq (cp ''x-amz-target'') = None" "header_get rq (cp ''X-AMZN-TARGET'') = None"
    by (simp_all del: cp_simps add: has_header_def header_get_def header_list_def)
  moreover have "rq_method rq = ''POST''" "4 \<le> length (rpc_segments (rq_path rq))"
      "map_of (sm_operations svc) (last (rpc_segments (rq_path rq))) = Some op"
    using op by (auto simp del: cp_simps simp add: rpc_operation_def operation_model_def Let_def
        split: if_splits option.splits)
  moreover obtain kvs where "parse_payload RpcV2CborParser tp limit rq [] (Structure i ms) = Inr kvs" "v = PDict kvs"
    using body assms(2) by (auto simp: cbor_do_parse_def map_sum_Inr_iff split: if_splits)
  ultimately show ?thesis
    using rpc_payload_result [OF _ assms(3,4)] by auto
qed

lemma rpc_v2_accepts_witness:
  "\<exists>body. rpc_parse \<lparr>tp_iso8601 = Inr, tp_rfc822 = Inr\<rparr> 5 example_service (example_request\<lparr>rq_data := body\<rparr>)
      = Inr (example_operation, example_dict)
    \<and> (\<exists>d. example_dict = str_dict d \<and> set (dict_keys d) \<subseteq> set (dict_keys example_members))"
proof -
  let ?tp = "\<lparr>tp_iso8601 = Inr, tp_rfc822 = Inr\<rparr> :: time_parsers"
  obtain body where "decodes (parse_data_item 5) body example_dict"
    using on_wire_decodes [OF example_on_wire, of 3 5 False "\<lambda>v. Inl TypeError"] example_depth by auto
  then have p: "rpc_parse ?tp 5 example_service (example_request\<lparr>rq_data := body @ []\<rparr>) = Inr (example_operation, example_dict)"
    using rpc_parse_body [where ms = example_members and f = example_value and i = "plain_info (cp ''Input'')"
        and limit = 5 and rest = "[]", OF _ _ _ example_rpc_operation] example_typed example_depth
    unfolding example_str_dict example_shape_def [symmetric]
    by (simp add: example_operation_def has_event_stream_def example_shape_def plain_info_def)
  from rpc_v2_accepts [OF p] have "\<exists>d. example_dict = str_dict d \<and> set (dict_keys d) \<subseteq> set (dict_keys example_members)"
    by (simp add: example_operation_def example_shape_def plain_info_def)
  with p show ?thesis by auto
qed

end
