(* ===== verification/ServiceCatalog.thy ===== *)
theory ServiceCatalog
  imports Prelude
begin

text \<open>
  The service specifications of \<open>aws/spec.py\<close>: loading a service by name and protocol, the
  identifiers of service models, and the four indexes of \<open>LazyServiceCatalogIndex\<close> over all
  services. The botocore loader is a parameter: the descriptions by file name.
\<close>

subsection \<open>Protocols\<close>

text \<open>
  The \<open>ProtocolName\<close> literals. Their order is the order of detection, the list
  \<open>_PROTOCOL_DETECTION_PRIORITY\<close>.
\<close>

datatype protocol = RpcV2Cbor | Json | Query | Ec2 | RestJson | RestXml

definition detection_priority :: "protocol list" where
  "detection_priority = [RpcV2Cbor, Json, Query, Ec2, RestJson, RestXml]"

primrec detection_rank :: "protocol \<Rightarrow> nat" where
  "detection_rank RpcV2Cbor = 0"
| "detection_rank Json = 1"
| "detection_rank Query = 2"
| "detection_rank Ec2 = 3"
| "detection_rank RestJson = 4"
| "detection_rank RestXml = 5"

lemma detection_rank_inject [simp]: "detection_rank p = detection_rank q \<longleftrightarrow> p = q"
  by (cases p; cases q) simp_all

instantiation protocol :: linorder
begin

definition less_eq_protocol :: "protocol \<Rightarrow> protocol \<Rightarrow> bool" where
  "less_eq_protocol p q = (detection_rank p \<le> detection_rank q)"

definition less_protocol :: "protocol \<Rightarrow> protocol \<Rightarrow> bool" where
  "less_protocol p q = (detection_rank p < detection_rank q)"

instance
  by (standard; unfold less_eq_protocol_def less_protocol_def; auto simp: less_le_not_le)

end

fun protocol_name :: "protocol \<Rightarrow> string" where
  "protocol_name RpcV2Cbor = ''smithy-rpc-v2-cbor''"
| "protocol_name Json = ''json''"
| "protocol_name Query = ''query''"
| "protocol_name Ec2 = ''ec2''"
| "protocol_name RestJson = ''rest-json''"
| "protocol_name RestXml = ''rest-xml''"

subsection \<open>Services and their identifiers\<close>

record service_description =
  sd_protocol :: protocol
  sd_protocols :: "protocol list"
  sd_target_prefix :: "string option"
  sd_signing_name :: string
  sd_endpoint_prefix :: string
  sd_api_version :: string
  sd_operations :: "string list"

text \<open>A \<open>ServiceModel\<close>: a description under a service name.\<close>

record service_model =
  service_name :: string
  description :: service_description

record service_identifier =
  id_name :: string
  id_protocol :: "protocol option"
  id_protocols :: "protocol list option"

text \<open>A \<open>ServiceModelIdentifier\<close> of a bare name.\<close>

definition named :: "string \<Rightarrow> service_identifier" where
  "named n = \<lparr>id_name = n, id_protocol = None, id_protocols = None\<rparr>"

definition get_service_model_identifier :: "service_model \<Rightarrow> service_identifier" where
  "get_service_model_identifier s =
     \<lparr>id_name = service_name s, id_protocol = Some (sd_protocol (description s)),
      id_protocols = (if sd_protocols (description s) = [] then None else Some (sd_protocols (description s)))\<rparr>"

definition is_protocol_in_service_model_identifier :: "protocol \<Rightarrow> service_identifier \<Rightarrow> bool" where
  "is_protocol_in_service_model_identifier p i =
     (p \<in> set (case id_protocols i of None \<Rightarrow> [] | Some ps \<Rightarrow> ps) \<or> Some p = id_protocol i)"

subsection \<open>Loading\<close>

text \<open>
  \<open>load_service\<close>: when the description does not list the requested protocol, the one named
  \<open><service>-<protocol>\<close> is tried. The recursion ends after one step, because the second name
  ends with the protocol.
\<close>

abbreviation UnknownServiceError :: exn where
  "UnknownServiceError \<equiv> UserError ''UnknownServiceError'' ''''"

abbreviation UnknownServiceProtocolError :: exn where
  "UnknownServiceProtocolError \<equiv> UserError ''UnknownServiceProtocolError'' ''''"

type_synonym loader = "string \<Rightarrow> service_description option"

definition ends_with :: "string \<Rightarrow> string \<Rightarrow> bool" where
  "ends_with suffix s = starts_with (rev suffix) (rev s)"

definition public_name :: "string \<Rightarrow> string" where
  "public_name s = (if s = ''sqs-query'' then ''sqs'' else s)"

definition has_protocol :: "service_description \<Rightarrow> protocol option \<Rightarrow> bool" where
  "has_protocol d p = (case p of None \<Rightarrow> True | Some q \<Rightarrow> q = sd_protocol d \<or> q \<in> set (sd_protocols d))"

definition suffixed :: "string \<Rightarrow> protocol \<Rightarrow> string" where
  "suffixed s p = s @ ''-'' @ protocol_name p"

definition is_suffixed :: "string \<Rightarrow> protocol \<Rightarrow> bool" where
  "is_suffixed s p = ends_with (''-'' @ protocol_name p) s"

definition unknown_protocol :: "'a result \<Rightarrow> 'a result" where
  "unknown_protocol r =
     (case r of
        Inl e \<Rightarrow> if e = UnknownServiceError then Inl UnknownServiceProtocolError else Inl e
      | Inr m \<Rightarrow> Inr m)"

function load_service :: "loader \<Rightarrow> string \<Rightarrow> protocol option \<Rightarrow> service_model result" where
  "load_service ld s None =
     (case ld s of
        None \<Rightarrow> Inl UnknownServiceError
      | Some d \<Rightarrow> Inr \<lparr>service_name = public_name s, description = d\<rparr>)"
| "load_service ld s (Some q) =
     (case ld s of
        None \<Rightarrow> Inl UnknownServiceError
      | Some d \<Rightarrow>
          if has_protocol d (Some q) then Inr \<lparr>service_name = public_name s, description = d\<rparr>
          else if is_suffixed s q then Inl UnknownServiceProtocolError
          else unknown_protocol (load_service ld (suffixed s q) (Some q)))"
  by pat_completeness auto

lemma is_suffixed_suffixed: "is_suffixed (suffixed s q) q"
  by (simp add: is_suffixed_def ends_with_def suffixed_def starts_with_iff)

termination load_service
  by (relation "measure (\<lambda>(ld, s, p). case p of None \<Rightarrow> 0 | Some q \<Rightarrow> of_bool (\<not> is_suffixed s q))")
    (simp_all add: is_suffixed_suffixed)

text \<open>A service that is loaded for a protocol has that protocol.\<close>

lemma unknown_protocol_Inr [simp]: "unknown_protocol r = Inr m \<longleftrightarrow> r = Inr m"
  by (cases r) (simp_all add: unknown_protocol_def)

lemma load_service_protocol:
  "load_service ld s p = Inr m \<Longrightarrow> has_protocol (description m) p"
proof (induction ld s p rule: load_service.induct)
  case (1 ld s)
  then show ?case by (simp add: has_protocol_def)
next
  case (2 ld s q)
  then show ?case by (auto split: option.splits if_splits)
qed

lemma load_service_direct:
  "ld s = Some d \<Longrightarrow> has_protocol d p \<Longrightarrow> load_service ld s p = Inr \<lparr>service_name = public_name s, description = d\<rparr>"
  by (cases p) simp_all

subsection \<open>The indexes\<close>

text \<open>
  Every index is a \<open>defaultdict(list)\<close> filled in one pass over the services, grouped by name.
\<close>

definition append_to :: "string \<Rightarrow> 'a \<Rightarrow> (string, 'a list) dict \<Rightarrow> (string, 'a list) dict" where
  "append_to k v d = dict_set k ((case dict_get d k of None \<Rightarrow> [] | Some vs \<Rightarrow> vs) @ [v]) d"

definition group_services :: "service_model list \<Rightarrow> (string, service_model list) dict" where
  "group_services ss = fold (\<lambda>s. append_to (service_name s) s) ss []"

definition services_in_order :: "service_model list \<Rightarrow> service_model list" where
  "services_in_order ss = concat (dict_values (group_services ss))"

definition target_prefix_index :: "service_model list \<Rightarrow> (string, service_identifier list) dict" where
  "target_prefix_index ss =
     fold (\<lambda>s d. case sd_target_prefix (description s) of
             Some p \<Rightarrow> if p \<noteq> [] then append_to p (get_service_model_identifier s) d else d
           | None \<Rightarrow> d) (services_in_order ss) []"

definition signing_name_index :: "service_model list \<Rightarrow> (string, service_identifier list) dict" where
  "signing_name_index ss =
     fold (\<lambda>s. append_to (sd_signing_name (description s)) (get_service_model_identifier s)) (services_in_order ss) []"

definition operations_index :: "service_model list \<Rightarrow> (string, service_identifier list) dict" where
  "operations_index ss =
     fold (\<lambda>s d. fold (\<lambda>op. append_to op (get_service_model_identifier s)) (sd_operations (description s)) d)
       (services_in_order ss) []"

definition endpoint_prefix_index :: "service_model list \<Rightarrow> (string, service_identifier list) dict" where
  "endpoint_prefix_index ss =
     fold (\<lambda>s. append_to (sd_endpoint_prefix (description s)) (get_service_model_identifier s)) (services_in_order ss) []"

definition index_lookup :: "(string, 'a list) dict \<Rightarrow> string \<Rightarrow> 'a list" where
  "index_lookup d k = (case dict_get d k of None \<Rightarrow> [] | Some vs \<Rightarrow> vs)"

lemma index_lookup_append [simp]:
  "index_lookup (append_to k v d) k' = (if k' = k then index_lookup d k @ [v] else index_lookup d k')"
  by (simp add: index_lookup_def append_to_def dict_simps)

lemma index_lookup_Nil [simp]: "index_lookup [] k = []"
  by (simp add: index_lookup_def)

text \<open>An index lookup is the scan of the services it summarises.\<close>

lemma index_lookup_fold:
  "index_lookup (fold (\<lambda>s d. append_to (key s) (f s) d) ss d) k = index_lookup d k @ map f (filter (\<lambda>s. key s = k) ss)"
  by (induction ss arbitrary: d) auto

lemma wf_dict_append_to [simp]: "wf_dict d \<Longrightarrow> wf_dict (append_to k v d)"
  by (simp add: append_to_def)

lemma set_values_lookup: "wf_dict d \<Longrightarrow> set (concat (dict_values d)) = (\<Union>k. set (index_lookup d k))"
proof (induction d)
  case Nil
  then show ?case by simp
next
  case (Cons kv d)
  obtain k v where kv: "kv = (k, v)" by (cases kv)
  from Cons.prems kv have wf: "wf_dict d" and fresh: "k \<notin> fst ` set d" by (auto simp: wf_dict_def)
  have "map_of d k = None" using fresh by (simp add: map_of_eq_None_iff)
  then have "index_lookup d k = []" by (simp add: index_lookup_def)
  moreover have "index_lookup ((k, v) # d) k' = (if k' = k then v else index_lookup d k')" for k'
    by (simp add: index_lookup_def)
  ultimately have "(\<Union>k'. set (index_lookup (kv # d) k')) = set v \<union> (\<Union>k'. set (index_lookup d k'))"
    by (force simp: kv split: if_splits)
  with Cons.IH [OF wf] show ?case by (simp add: kv)
qed

lemma group_services_facts:
  "wf_dict (group_services ss)" "index_lookup (group_services ss) n = filter (\<lambda>s. service_name s = n) ss"
proof -
  have "wf_dict d \<Longrightarrow> wf_dict (fold (\<lambda>s. append_to (service_name s) s) ss d)" for d :: "(string, service_model list) dict"
    by (induction ss arbitrary: d) simp_all
  then show "wf_dict (group_services ss)" by (simp add: group_services_def)
  show "index_lookup (group_services ss) n = filter (\<lambda>s. service_name s = n) ss"
    using index_lookup_fold [of service_name "\<lambda>s. s" ss "[]" n] by (simp add: group_services_def)
qed

lemma set_services_in_order [simp]: "set (services_in_order ss) = set ss"
  using set_values_lookup [OF group_services_facts(1) [of ss]]
  by (auto simp: services_in_order_def group_services_facts(2))

lemma signing_name_scan:
  "index_lookup (signing_name_index ss) n =
     map get_service_model_identifier (filter (\<lambda>s. sd_signing_name (description s) = n) (services_in_order ss))"
  unfolding signing_name_index_def by (simp add: index_lookup_fold [where key = "\<lambda>s. sd_signing_name (description s)"])

lemma endpoint_prefix_scan:
  "index_lookup (endpoint_prefix_index ss) n =
     map get_service_model_identifier (filter (\<lambda>s. sd_endpoint_prefix (description s) = n) (services_in_order ss))"
  unfolding endpoint_prefix_index_def
  by (simp add: index_lookup_fold [where key = "\<lambda>s. sd_endpoint_prefix (description s)"])

lemma target_prefix_scan:
  assumes "n \<noteq> []"
  shows "index_lookup (target_prefix_index ss) n =
     map get_service_model_identifier (filter (\<lambda>s. sd_target_prefix (description s) = Some n) (services_in_order ss))"
proof -
  have "index_lookup (fold (\<lambda>s d. case sd_target_prefix (description s) of
             Some p \<Rightarrow> if p \<noteq> [] then append_to p (get_service_model_identifier s) d else d
           | None \<Rightarrow> d) ss d) n
      = index_lookup d n @ map get_service_model_identifier (filter (\<lambda>s. sd_target_prefix (description s) = Some n) ss)"
    for ss d
    using assms by (induction ss arbitrary: d) (auto split: option.splits)
  then show ?thesis by (simp add: target_prefix_index_def)
qed

lemma operations_scan:
  assumes "\<And>s. s \<in> set ss \<Longrightarrow> distinct (sd_operations (description s))"
  shows "index_lookup (operations_index ss) n =
     map get_service_model_identifier (filter (\<lambda>s. n \<in> set (sd_operations (description s))) (services_in_order ss))"
proof -
  have one: "index_lookup (fold (\<lambda>op. append_to op i) ops d) n = index_lookup d n @ (if n \<in> set ops then [i] else [])"
    if "distinct ops" for ops and i :: service_identifier and d
    using that by (induction ops arbitrary: d) auto
  have "index_lookup (fold (\<lambda>s d. fold (\<lambda>op. append_to op (get_service_model_identifier s)) (sd_operations (description s)) d) xs d) n
      = index_lookup d n @ map get_service_model_identifier (filter (\<lambda>s. n \<in> set (sd_operations (description s))) xs)"
    if "\<And>s. s \<in> set xs \<Longrightarrow> distinct (sd_operations (description s))" for xs d
    using that by (induction xs arbitrary: d) (auto simp: one)
  from this [of "services_in_order ss" "[]"] assms show ?thesis by (simp add: operations_index_def)
qed

subsection \<open>The interface of the catalog\<close>

text \<open>
  What the router relies on: each lookup lists the identifiers of the services with the given
  attribute, in one order of all services.
\<close>

locale catalog_lookup =
  fixes every :: "'c \<Rightarrow> service_model list"
    and lookup :: "'c \<Rightarrow> string \<Rightarrow> service_identifier list"
    and attribute :: "service_model \<Rightarrow> string option"
  assumes lookup_scan: "n \<noteq> [] \<Longrightarrow>
    lookup c n = map get_service_model_identifier (filter (\<lambda>s. attribute s = Some n) (every c))"
begin

lemma lookup_unique:
  assumes "n \<noteq> []" and "distinct (every c)" and "s \<in> set (every c)"
    and "\<And>t. t \<in> set (every c) \<Longrightarrow> attribute t = Some n \<longleftrightarrow> t = s"
  shows "lookup c n = [get_service_model_identifier s]"
proof -
  have "filter (\<lambda>t. attribute t = Some n) (every c) = filter (\<lambda>t. t = s) (every c)"
    using assms(4) by (intro filter_cong) auto
  also have "\<dots> = [s]"
  proof -
    obtain xs ys where xs: "every c = xs @ s # ys" using assms(3) by (meson split_list)
    with assms(2) have "s \<notin> set xs" "s \<notin> set ys" by auto
    then have "filter (\<lambda>t. t = s) xs = []" "filter (\<lambda>t. t = s) ys = []"
      by (auto simp: filter_empty_conv)
    with xs show ?thesis by simp
  qed
  finally show ?thesis using assms(1) by (simp add: lookup_scan)
qed

lemma lookup_sound: "n \<noteq> [] \<Longrightarrow> i \<in> set (lookup c n) \<Longrightarrow>
    \<exists>s \<in> set (every c). attribute s = Some n \<and> i = get_service_model_identifier s"
  by (auto simp: lookup_scan)

lemma lookup_complete: "n \<noteq> [] \<Longrightarrow> s \<in> set (every c) \<Longrightarrow> attribute s = Some n \<Longrightarrow>
    get_service_model_identifier s \<in> set (lookup c n)"
  by (auto simp: lookup_scan)

end

interpretation signing: catalog_lookup services_in_order "\<lambda>ss. index_lookup (signing_name_index ss)"
  "\<lambda>s. Some (sd_signing_name (description s))"
  by unfold_locales (simp add: signing_name_scan)

interpretation prefixes: catalog_lookup services_in_order "\<lambda>ss. index_lookup (target_prefix_index ss)"
  "\<lambda>s. sd_target_prefix (description s)"
  by unfold_locales (rule target_prefix_scan)

interpretation endpoints: catalog_lookup services_in_order "\<lambda>ss. index_lookup (endpoint_prefix_index ss)"
  "\<lambda>s. Some (sd_endpoint_prefix (description s))"
  by unfold_locales (simp add: endpoint_prefix_scan)

lemma length_services_in_order: "length (services_in_order ss) = length ss"
proof -
  have len: "length (concat (dict_values (dict_set k v d))) + length (index_lookup d k) = length (concat (dict_values d)) + length v"
    for k and v :: "service_model list" and d
    by (induction d) (auto simp: index_lookup_def)
  have "length (concat (dict_values (append_to k s d))) = Suc (length (concat (dict_values d)))" for k and s :: service_model and d
    using len [of k "index_lookup d k @ [s]" d] by (simp add: append_to_def index_lookup_def)
  then have "length (concat (dict_values (fold (\<lambda>s. append_to (service_name s) s) ss d))) = length ss + length (concat (dict_values d))"
    for d :: "(string, service_model list) dict"
    by (induction ss arbitrary: d) simp_all
  from this [of "[]"] show ?thesis by (simp add: services_in_order_def group_services_def)
qed

lemma distinct_services_in_order: "distinct ss \<Longrightarrow> distinct (services_in_order ss)"
  by (metis card_distinct distinct_card length_services_in_order set_services_in_order)

end
