(* ===== verification/ServiceRouter.thy ===== *)
theory ServiceRouter
  imports ServiceCatalog
begin

text \<open>
  Request routing of \<open>aws/protocol/service_router.py\<close>: the indicators of a request, protocol
  detection, the custom rules and the staged decision of \<open>determine_aws_service_model\<close>. The
  stages return either a decision or the candidates collected so far, as the early returns of the
  function do. \<open>set.pop\<close> on several candidates is a parameter.
\<close>

subsection \<open>Requests\<close>

text \<open>
  What routing reads of a request. \<open>hr_values\<close> is \<open>None\<close> when reading the form raises
  \<open>RequestEntityTooLarge\<close>.
\<close>

record http_request =
  hr_headers :: "(string \<times> string) list"
  hr_path :: string
  hr_host :: string
  hr_mimetype :: string
  hr_args :: "(string \<times> string) list"
  hr_values :: "(string \<times> string) list option"
  hr_shallow :: bool

definition header :: "http_request \<Rightarrow> string \<Rightarrow> string option" where
  "header rq n = map_of (map (\<lambda>(k, v). (lower k, v)) (hr_headers rq)) (lower n)"

definition present :: "string option \<Rightarrow> bool" where
  "present v = (case v of None \<Rightarrow> False | Some s \<Rightarrow> s \<noteq> [])"

subsection \<open>Indicators\<close>

record service_indicators =
  si_signing_name :: "string option"
  si_target_prefix :: "string option"
  si_operation :: "string option"
  si_host :: string
  si_path :: string

text \<open>
  The signing name in the credential scope of a SigV4 header; \<open>credential\<close> stands for
  \<open>parse_dict_header(info)["Credential"]\<close>. Every malformed header is ignored.
\<close>

definition signing_name_of :: "(string \<Rightarrow> string option) \<Rightarrow> string option \<Rightarrow> string option" where
  "signing_name_of credential authorization =
     (case authorization of
        None \<Rightarrow> None
      | Some auth \<Rightarrow>
          (case split_ws_once auth of
             [ty, info] \<Rightarrow>
               if strip (lower ty) = ''aws4-hmac-sha256''
               then (case credential info of
                       None \<Rightarrow> None
                     | Some c \<Rightarrow> (case split_on (CHR ''/'') c of
                                     [a, b, r, n, t] \<Rightarrow> Some n
                                   | _ \<Rightarrow> None))
               else None
           | _ \<Rightarrow> None))"

definition lstrip_slashes :: "string \<Rightarrow> string" where
  "lstrip_slashes s = dropWhile (\<lambda>c. c = CHR ''/'') s"

definition rpc_target :: "string \<Rightarrow> string option \<times> string option" where
  "rpc_target path =
     (case rev (split_on (CHR ''/'') (lstrip_slashes path)) of
        operation # _ # shape_name # _ # _ \<Rightarrow>
          (Some (last (split_on (CHR ''#'') shape_name)), Some operation)
      | _ \<Rightarrow> (None, None))"

definition header_target :: "string option \<Rightarrow> string option \<times> string option" where
  "header_target target =
     (case target of
        None \<Rightarrow> (None, None)
      | Some t \<Rightarrow>
          if t = [] then (None, None)
          else if CHR ''.'' \<in> set t
          then (case split_once (CHR ''.'') t of (p, op) \<Rightarrow> (Some p, Some op))
          else (None, Some t))"

definition extract_service_indicators :: "(string \<Rightarrow> string option) \<Rightarrow> http_request \<Rightarrow> service_indicators" where
  "extract_service_indicators credential rq =
     (let is_rpc_v2 = contains_sub ''rpc-v2-cbor'' (case header rq ''Smithy-Protocol'' of None \<Rightarrow> [] | Some v \<Rightarrow> v);
          (prefix, op) = (if is_rpc_v2 then rpc_target (hr_path rq) else header_target (header rq ''x-amz-target''))
      in \<lparr>si_signing_name = signing_name_of credential (header rq ''authorization''),
          si_target_prefix = prefix, si_operation = op, si_host = hr_host rq, si_path = hr_path rq\<rparr>)"

subsection \<open>Protocol detection\<close>

fun matches_protocol :: "http_request \<Rightarrow> protocol \<Rightarrow> bool" where
  "matches_protocol rq RpcV2Cbor =
     ((case header rq ''Smithy-Protocol'' of None \<Rightarrow> [] | Some v \<Rightarrow> v) = ''rpc-v2-cbor'')"
| "matches_protocol rq Json = starts_with ''application/x-amz-json'' (lower (hr_mimetype rq))"
| "matches_protocol rq RestJson = True"
| "matches_protocol rq RestXml = True"
| "matches_protocol rq _ =
     (starts_with ''application/x-www-form-urlencoded'' (lower (hr_mimetype rq)) \<or> ''Action'' \<in> fst ` set (hr_args rq))"

definition match_available_protocols :: "http_request \<Rightarrow> protocol list \<Rightarrow> protocol option" where
  "match_available_protocols rq available =
     find (\<lambda>p. p \<in> set available \<and> matches_protocol rq p) detection_priority"

text \<open>\<open>determine_aws_protocol\<close>.\<close>

definition determine_aws_protocol :: "http_request \<Rightarrow> service_description \<Rightarrow> protocol result" where
  "determine_aws_protocol rq d =
     (case sd_protocols d of
        [] \<Rightarrow> Inr (sd_protocol d)
      | [p] \<Rightarrow> Inr p
      | ps \<Rightarrow> (case match_available_protocols rq ps of
                 Some p \<Rightarrow> Inr p
               | None \<Rightarrow> Inl (UserError ''ProtocolError'' '''')))"

subsection \<open>Custom rules\<close>

definition signing_name_path_prefix_rules :: "(string \<times> (string \<times> string) list) list" where
  "signing_name_path_prefix_rules =
    [(''apigateway'', [(''/v2'', ''apigatewayv2'')]),
     (''appconfig'', [(''/configuration'', ''appconfigdata'')]),
     (''bedrock'', [(''/guardrail/'', ''bedrock-runtime''), (''/model/'', ''bedrock-runtime''),
       (''/async-invoke'', ''bedrock-runtime'')]),
     (''execute-api'', [(''/@connections'', ''apigatewaymanagementapi''), (''/participant'', ''connectparticipant''),
       (''*'', ''iot'')]),
     (''ses'', [(''/v2'', ''sesv2''), (''/v1'', ''pinpoint-email'')]),
     (''greengrass'', [(''/greengrass/v2/'', ''greengrassv2'')]),
     (''cloudsearch'', [(''/2013-01-01'', ''cloudsearchdomain'')]),
     (''s3'', [(''/v20180820'', ''s3control'')]),
     (''iot1click'', [(''/projects'', ''iot1click-projects''), (''/devices'', ''iot1click-devices'')]),
     (''es'', [(''/2015-01-01'', ''es''), (''/2021-01-01'', ''opensearch'')]),
     (''sagemaker'', [(''/endpoints'', ''sagemaker-runtime''), (''/human-loops'', ''sagemaker-a2i-runtime'')])]"

definition custom_signing_name_rules :: "string \<Rightarrow> string \<Rightarrow> service_identifier option" where
  "custom_signing_name_rules signing_name path =
     (case map_of signing_name_path_prefix_rules signing_name of
        None \<Rightarrow>
          if signing_name = ''servicecatalog''
          then Some (named (if path = ''/'' then ''servicecatalog'' else ''servicecatalog-appregistry''))
          else None
      | Some rules \<Rightarrow>
          (case find (\<lambda>(prefix, n). starts_with prefix path) rules of
             Some (prefix, n) \<Rightarrow> Some (named n)
           | None \<Rightarrow> Some (named (case map_of rules ''*'' of Some n \<Rightarrow> n | None \<Rightarrow> signing_name))))"

definition custom_host_addressing_rules :: "string \<Rightarrow> service_identifier option" where
  "custom_host_addressing_rules host =
     (if contains_sub ''.lambda-url.'' host then Some (named ''lambda'')
      else if contains_sub ''.s3-website.'' host then Some (named ''s3'')
      else None)"

definition custom_path_addressing_rules :: "string \<Rightarrow> service_identifier option" where
  "custom_path_addressing_rules path =
     (if starts_with ''/2015-03-31/functions'' path then Some (named ''lambda'') else None)"

definition legacy_s3_rules :: "http_request \<Rightarrow> service_identifier option" where
  "legacy_s3_rules rq = None"

definition resolve_conflicts :: "service_identifier list \<Rightarrow> http_request \<Rightarrow> service_identifier option" where
  "resolve_conflicts candidates rq =
     (let names = set (map id_name candidates) in
      if names = {''timestream-query'', ''timestream-write''} then Some (named ''timestream-query'')
      else if names = {''docdb'', ''neptune'', ''rds''} then Some (named ''rds'')
      else if names = {''sqs''} then
        Some (if match_available_protocols rq [Json, Query] = Some Json then named ''sqs''
              else (named ''sqs'')\<lparr>id_protocol := Some Query\<rparr>)
      else None)"

subsection \<open>The decision\<close>

text \<open>The catalog: \<open>ServiceCatalog.get\<close> and the services its indexes are built from.\<close>

record catalog =
  cat_get :: "string \<Rightarrow> protocol option \<Rightarrow> service_model result"
  cat_services :: "service_model list"

definition by_signing_name :: "catalog \<Rightarrow> string \<Rightarrow> service_identifier list" where
  "by_signing_name cat = index_lookup (signing_name_index (cat_services cat))"

definition by_target_prefix :: "catalog \<Rightarrow> string \<Rightarrow> service_identifier list" where
  "by_target_prefix cat = index_lookup (target_prefix_index (cat_services cat))"

definition by_operation :: "catalog \<Rightarrow> string \<Rightarrow> service_identifier list" where
  "by_operation cat = index_lookup (operations_index (cat_services cat))"

datatype routing = Routed "service_model option result" | Undecided "service_identifier list"

definition get_service :: "catalog \<Rightarrow> service_identifier \<Rightarrow> service_model result" where
  "get_service cat i = cat_get cat (id_name i) (id_protocol i)"

definition route_to :: "catalog \<Rightarrow> service_identifier \<Rightarrow> routing" where
  "route_to cat i = Routed (map_sum id Some (get_service cat i))"

definition then_route :: "routing \<Rightarrow> (service_identifier list \<Rightarrow> routing) \<Rightarrow> routing" where
  "then_route r f = (case r of Routed x \<Rightarrow> Routed x | Undecided cs \<Rightarrow> f cs)"

definition add_candidates :: "service_identifier list \<Rightarrow> service_identifier list \<Rightarrow> service_identifier list" where
  "add_candidates cs xs = remdups (cs @ xs)"

text \<open>Stages 1 to 6 of the function.\<close>

definition route_signing_name :: "catalog \<Rightarrow> service_indicators \<Rightarrow> routing" where
  "route_signing_name cat si =
     (case si_signing_name si of
        None \<Rightarrow> Undecided []
      | Some n \<Rightarrow>
          if n = [] then Undecided []
          else (case by_signing_name cat n of
                  [i] \<Rightarrow> route_to cat i
                | is \<Rightarrow> (case custom_signing_name_rules n (si_path si) of
                           Some i \<Rightarrow> route_to cat i
                         | None \<Rightarrow> Undecided (add_candidates [] is))))"

definition keep_candidates :: "catalog \<Rightarrow> (service_model \<Rightarrow> bool) \<Rightarrow> service_identifier list \<Rightarrow> routing" where
  "keep_candidates cat keep cs =
     (case filter_r (\<lambda>i. map_sum id keep (get_service cat i)) cs of
        Inl e \<Rightarrow> Routed (Inl e)
      | Inr [i] \<Rightarrow> route_to cat i
      | Inr cs' \<Rightarrow> Undecided cs')"

definition route_target_prefix :: "catalog \<Rightarrow> service_indicators \<Rightarrow> service_identifier list \<Rightarrow> routing" where
  "route_target_prefix cat si cs =
     (if present (si_target_prefix si) \<and> present (si_operation si)
      then (case by_target_prefix cat (the (si_target_prefix si)) of
              [i] \<Rightarrow> route_to cat i
            | is \<Rightarrow> keep_candidates cat (\<lambda>s. the (si_operation si) \<in> set (sd_operations (description s)))
                      (add_candidates cs is))
      else keep_candidates cat (\<lambda>s. sd_target_prefix (description s) = None) cs)"

definition route_path :: "catalog \<Rightarrow> string \<Rightarrow> service_identifier list \<Rightarrow> routing" where
  "route_path cat path cs =
     (if path \<noteq> [] \<and> path \<noteq> ''/''
      then (case custom_path_addressing_rules path of Some i \<Rightarrow> route_to cat i | None \<Rightarrow> Undecided cs)
      else Undecided cs)"

fun route_endpoint_prefix ::
    "catalog \<Rightarrow> string \<Rightarrow> (string \<times> service_identifier list) list \<Rightarrow> service_identifier list \<Rightarrow> routing" where
  "route_endpoint_prefix cat host [] cs = Undecided cs"
| "route_endpoint_prefix cat host ((prefix, is) # index) cs =
     (if starts_with (prefix @ ''.'') host \<and> \<not> contains_sub ''.s3.'' host
      then (case is of [i] \<Rightarrow> route_to cat i
            | _ \<Rightarrow> route_endpoint_prefix cat host index (add_candidates cs is))
      else route_endpoint_prefix cat host index cs)"

text \<open>
  The custom host rule is indexed with \<open>[0]\<close>, which is the identifier's name; a string has no
  attribute \<open>name\<close>.
\<close>

definition route_custom_host :: "string \<Rightarrow> service_identifier list \<Rightarrow> routing" where
  "route_custom_host host cs =
     (case custom_host_addressing_rules host of
        Some i \<Rightarrow> Routed (Inl AttributeError)
      | None \<Rightarrow> Undecided cs)"

definition route_host :: "catalog \<Rightarrow> string \<Rightarrow> service_identifier list \<Rightarrow> routing" where
  "route_host cat host cs =
     (if host = [] then Undecided cs
      else then_route (route_endpoint_prefix cat host (endpoint_prefix_index (cat_services cat)) cs)
             (route_custom_host host))"

definition query_candidates :: "catalog \<Rightarrow> string \<Rightarrow> service_identifier list" where
  "query_candidates cat action =
     filter (\<lambda>i. is_protocol_in_service_model_identifier Ec2 i \<or> is_protocol_in_service_model_identifier Query i)
       (by_operation cat action)"

definition route_query :: "catalog \<Rightarrow> http_request \<Rightarrow> service_identifier list \<Rightarrow> routing" where
  "route_query cat rq cs =
     (case hr_values rq of
        None \<Rightarrow> Undecided cs
      | Some values \<Rightarrow>
          (case map_of values ''Action'' of
             None \<Rightarrow> Undecided cs
           | Some action \<Rightarrow>
               (case query_candidates cat action of
                  [i] \<Rightarrow> route_to cat i
                | is \<Rightarrow>
                    (case (case map_of values ''Version'' of
                             None \<Rightarrow> Inr is
                           | Some version \<Rightarrow>
                               filter_r (\<lambda>i. map_sum id (\<lambda>s. sd_api_version (description s) = version) (get_service cat i)) is) of
                       Inl e \<Rightarrow> Routed (Inl e)
                     | Inr [i] \<Rightarrow> route_to cat i
                     | Inr is' \<Rightarrow> Undecided (add_candidates cs is')))))"

definition route_fallback ::
    "catalog \<Rightarrow> (service_identifier list \<Rightarrow> service_identifier) \<Rightarrow> service_indicators \<Rightarrow> http_request \<Rightarrow>
     service_identifier list \<Rightarrow> service_model option result" where
  "route_fallback cat pop si rq cs =
     (case resolve_conflicts cs rq of
        Some i \<Rightarrow> map_sum id Some (get_service cat i)
      | None \<Rightarrow>
          (case legacy_s3_rules rq of
             Some i \<Rightarrow> map_sum id Some (get_service cat i)
           | None \<Rightarrow>
               if present (si_signing_name si) then map_sum id Some (cat_get cat (the (si_signing_name si)) None)
               else if cs \<noteq> [] then map_sum id Some (get_service cat (pop cs))
               else Inr None))"

definition determine_aws_service_model ::
    "(string \<Rightarrow> string option) \<Rightarrow> (service_identifier list \<Rightarrow> service_identifier) \<Rightarrow> catalog \<Rightarrow> http_request \<Rightarrow>
     service_model option result" where
  "determine_aws_service_model credential pop cat rq =
     (let si = extract_service_indicators credential rq;
          early = then_route (then_route (then_route (route_signing_name cat si)
                    (route_target_prefix cat si)) (route_path cat (si_path si))) (route_host cat (si_host si))
      in case early of
           Routed r \<Rightarrow> r
         | Undecided cs \<Rightarrow>
             if hr_shallow rq then Inr None
             else (case route_query cat rq cs of
                     Routed r \<Rightarrow> r
                   | Undecided cs' \<Rightarrow> route_fallback cat pop si rq cs'))"

definition determine_for_data_plane :: "catalog \<Rightarrow> http_request \<Rightarrow> service_model option result" where
  "determine_for_data_plane cat rq =
     (case custom_host_addressing_rules (hr_host rq) of
        Some i \<Rightarrow> map_sum id Some (get_service cat i)
      | None \<Rightarrow> Inr None)"

subsection \<open>Properties of routing\<close>

text \<open>
  Protocol detection picks, among the protocols a service offers that the request matches, the
  one with the highest detection priority, whatever the order in which the service lists them; and
  it reports none exactly when none matches.
\<close>

theorem match_available_protocols_min:
  "match_available_protocols rq available =
     (let ps = {p \<in> set available. matches_protocol rq p} in if ps = {} then None else Some (Min ps))"
proof -
  let ?ok = "\<lambda>p. p \<in> set available \<and> matches_protocol rq p"
  let ?ps = "{p \<in> set available. matches_protocol rq p}"
  have sorted: "sorted detection_priority"
    by (simp add: detection_priority_def less_eq_protocol_def)
  have all: "p \<in> set detection_priority" for p
    by (cases p) (simp_all add: detection_priority_def)
  show ?thesis
  proof (cases "match_available_protocols rq available")
    case None
    then have "?ps = {}" using all by (auto simp: match_available_protocols_def find_None_iff)
    with None show ?thesis by simp
  next
    case (Some p)
    then obtain i where i: "i < length detection_priority" "?ok p" "p = detection_priority ! i"
        "\<And>j. j < i \<Longrightarrow> \<not> ?ok (detection_priority ! j)"
      by (auto simp: match_available_protocols_def find_Some_iff)
    have "p \<le> q" if "q \<in> ?ps" for q
    proof -
      obtain j where j: "j < length detection_priority" "q = detection_priority ! j"
        using all [of q] by (auto simp: in_set_conv_nth)
      then have "i \<le> j" using i(4) that by (metis (mono_tags, lifting) mem_Collect_eq not_le)
      then show ?thesis using sorted i j by (simp add: sorted_nth_mono)
    qed
    then have "Min ?ps = p" using i(2) by (intro Min_eqI) auto
    moreover have "?ps \<noteq> {}" using i(2) by blast
    ultimately show ?thesis using Some by simp
  qed
qed

text \<open>
  C5: A signing name that belongs to exactly one service of the catalog decides the routing: the
  request goes to that service, whatever its target, path, host or body say.
\<close>

theorem unique_signing_name_routes:
  assumes "si_signing_name (extract_service_indicators credential rq) = Some n" and "n \<noteq> []"
    and "distinct (cat_services cat)" and "s \<in> set (cat_services cat)"
    and "\<forall>t \<in> set (cat_services cat). sd_signing_name (description t) = n \<longleftrightarrow> t = s"
  shows "determine_aws_service_model credential pop cat rq
       = map_sum id Some (cat_get cat (service_name s) (Some (sd_protocol (description s))))"
proof -
  have "by_signing_name cat n = [get_service_model_identifier s]"
    unfolding by_signing_name_def
    by (rule signing.lookup_unique) (use assms in \<open>simp_all add: distinct_services_in_order\<close>)
  then have "route_signing_name cat (extract_service_indicators credential rq) = route_to cat (get_service_model_identifier s)"
    using assms(1,2) by (simp add: route_signing_name_def)
  then show ?thesis
    by (simp add: determine_aws_service_model_def Let_def then_route_def route_to_def get_service_def
        get_service_model_identifier_def)
qed

definition example_description :: service_description where
  "example_description = \<lparr>sd_protocol = Json, sd_protocols = [Json, RpcV2Cbor], sd_target_prefix = Some ''Transfer_2018'',
     sd_signing_name = ''transfer'', sd_endpoint_prefix = ''transfer'', sd_api_version = ''2018-11-05'',
     sd_operations = [''CreateServer'']\<rparr>"

definition example_model :: service_model where
  "example_model = \<lparr>service_name = ''transfer'', description = example_description\<rparr>"

definition example_catalog :: catalog where
  "example_catalog = \<lparr>cat_get = load_service (\<lambda>n. if n = ''transfer'' \<or> n = ''lambda'' then Some example_description else None),
     cat_services = [example_model]\<rparr>"

definition example_http :: "string \<Rightarrow> (string \<times> string) list \<Rightarrow> http_request" where
  "example_http host hs = \<lparr>hr_headers = hs, hr_path = ''/'', hr_host = host, hr_mimetype = [], hr_args = [],
     hr_values = Some [], hr_shallow = False\<rparr>"

definition example_auth :: "(string \<times> string) list" where
  "example_auth = [(''Authorization'', ''AWS4-HMAC-SHA256 x'')]"

lemma example_indicators:
  "si_signing_name (extract_service_indicators (\<lambda>i. Some ''k/d/r/transfer/aws4_request'') (example_http ''x'' example_auth))
   = Some ''transfer''"
  by code_simp

lemma unique_signing_name_routes_witness:
  "determine_aws_service_model (\<lambda>i. Some ''k/d/r/transfer/aws4_request'') hd example_catalog (example_http ''x'' example_auth)
   = Inr (Some example_model)"
  using unique_signing_name_routes [OF example_indicators, of example_catalog example_model hd]
  by (simp add: example_catalog_def example_model_def example_description_def has_protocol_def public_name_def)

text \<open>
  A request that is no websocket and carries a signing name is never left without a service:
  routing either names a service or fails with an error of the catalog.
\<close>

lemma routed_some:
  "route_to cat i \<noteq> Routed (Inr None)"
  "route_signing_name cat si \<noteq> Routed (Inr None)"
  "route_target_prefix cat si cs \<noteq> Routed (Inr None)"
  "route_path cat path cs \<noteq> Routed (Inr None)"
  "route_endpoint_prefix cat host index cs \<noteq> Routed (Inr None)"
  "route_custom_host host cs \<noteq> Routed (Inr None)"
  "route_query cat rq cs \<noteq> Routed (Inr None)"
proof -
  have to: "route_to cat i \<noteq> Routed (Inr None)" for i
    by (cases "get_service cat i") (simp_all add: route_to_def)
  have keep: "keep_candidates cat P cs \<noteq> Routed (Inr None)" for P cs
    by (auto simp: keep_candidates_def to split: sum.split list.split)
  show "route_to cat i \<noteq> Routed (Inr None)" by (rule to)
  show "route_signing_name cat si \<noteq> Routed (Inr None)"
    by (auto simp: route_signing_name_def to split: option.split list.split)
  show "route_target_prefix cat si cs \<noteq> Routed (Inr None)"
    by (auto simp: route_target_prefix_def to keep split: list.split)
  show "route_path cat path cs \<noteq> Routed (Inr None)"
    by (auto simp: route_path_def to split: option.split)
  show "route_endpoint_prefix cat host index cs \<noteq> Routed (Inr None)"
    by (induction index arbitrary: cs rule: list.induct) (auto simp: to split: list.splits if_splits)
  show "route_custom_host host cs \<noteq> Routed (Inr None)"
    by (simp add: route_custom_host_def split: option.split)
  show "route_query cat rq cs \<noteq> Routed (Inr None)"
    by (auto simp: route_query_def to split: option.split list.split sum.split)
qed

lemma then_route_some:
  "r \<noteq> Routed (Inr None) \<Longrightarrow> (\<And>cs. f cs \<noteq> Routed (Inr None)) \<Longrightarrow> then_route r f \<noteq> Routed (Inr None)"
  by (cases r) (simp_all add: then_route_def)

theorem signed_request_has_service:
  assumes "\<not> hr_shallow rq" and "present (si_signing_name (extract_service_indicators credential rq))"
  shows "determine_aws_service_model credential pop cat rq \<noteq> Inr None"
proof -
  have host: "route_host cat h cs \<noteq> Routed (Inr None)" for h cs
    by (simp add: route_host_def then_route_some routed_some)
  have sum: "map_sum id Some r \<noteq> Inr None" for r :: "service_model result"
    by (cases r) simp_all
  have "route_fallback cat pop (extract_service_indicators credential rq) rq cs \<noteq> Inr None" for cs
    using assms(2) by (auto simp: route_fallback_def sum split: option.split)
  then show ?thesis
    using assms(1) then_route_some [OF then_route_some [OF then_route_some [OF routed_some(2) routed_some(3)] routed_some(4)] host]
      routed_some(7)
    by (auto simp: determine_aws_service_model_def Let_def split: routing.split)
qed

lemma signed_request_has_service_witness:
  "determine_aws_service_model (\<lambda>i. Some ''k/d/r/transfer/aws4_request'') hd example_catalog (example_http ''x'' example_auth)
   \<noteq> Inr None"
  by (rule signed_request_has_service) (simp only: example_http_def http_request.simps simp_thms, simp add: example_indicators present_def)



end
