(* ===== verification/Accounts.thy ===== *)
theory Accounts
  imports Utf8
begin

text \<open>
  Who a request is for: the credential scope of the authorization header
  (\<open>utils/aws/request_context.py\<close>) and the account id in an access key
  (\<open>aws/accounts.py\<close>). The regular expressions are written out as the scans they stand for;
  header values contain no line breaks.
\<close>

subsection \<open>The credential scope\<close>

text \<open>
  A match of \<open>Credential=[^/]+/[^/]+/[^/]+/\<close> at the front of a string: its three segments. The
  leading \<open>.*\<close> of both expressions is greedy, so the last match counts.
\<close>

definition credential_at :: "string \<Rightarrow> (string \<times> string \<times> string) option" where
  "credential_at s =
     (if starts_with ''Credential='' s
      then (case split_on (CHR ''/'') (drop 11 s) of
              key # date # region # _ # _ \<Rightarrow>
                if key \<noteq> [] \<and> date \<noteq> [] \<and> region \<noteq> [] then Some (key, date, region) else None
            | _ \<Rightarrow> None)
      else None)"

fun last_credential :: "string \<Rightarrow> (string \<times> string \<times> string) option" where
  "last_credential [] = None"
| "last_credential (c # s) = (case last_credential s of Some x \<Rightarrow> Some x | None \<Rightarrow> credential_at (c # s))"

definition extract_region_from_auth_header :: "string option \<Rightarrow> string option" where
  "extract_region_from_auth_header authorization =
     (let auth = (case authorization of None \<Rightarrow> [] | Some a \<Rightarrow> a)
      in case last_credential auth of
           None \<Rightarrow> None
         | Some (key, date, region) \<Rightarrow> if region = auth then None else Some region)"

definition extract_access_key_id_from_auth_header :: "string option \<Rightarrow> string option" where
  "extract_access_key_id_from_auth_header authorization =
     (let auth = (case authorization of None \<Rightarrow> [] | Some a \<Rightarrow> a)
      in if starts_with ''AWS4-'' auth
         then map_option fst (last_credential auth)
         else if starts_with ''AWS '' auth
         then Some (hd (split_on (CHR '':'') (drop 4 auth)))
         else None)"

definition extract_service_name_from_auth_header :: "string option \<Rightarrow> string option" where
  "extract_service_name_from_auth_header authorization =
     (let auth = (case authorization of None \<Rightarrow> [] | Some a \<Rightarrow> a)
      in case split_ws (hd (split_on (CHR '','') auth)) of
           _ # scope # _ \<Rightarrow>
             (case split_on (CHR ''/'') scope of [a, b, c, service, d] \<Rightarrow> Some service | _ \<Rightarrow> None)
         | _ \<Rightarrow> None)"

subsection \<open>Account ids\<close>

definition DEFAULT_AWS_ACCOUNT_ID :: string where
  "DEFAULT_AWS_ACCOUNT_ID = ''000000000000''"

definition AWS_REGION_US_EAST_1 :: string where
  "AWS_REGION_US_EAST_1 = ''us-east-1''"

definition ACCOUNT_OFFSET :: int where
  "ACCOUNT_OFFSET = 549755813888"

definition AWS_ACCESS_KEY_ALPHABET :: string where
  "AWS_ACCESS_KEY_ALPHABET = ''ABCDEFGHIJKLMNOPQRSTUVWXYZ234567''"

fun index_of :: "'a \<Rightarrow> 'a list \<Rightarrow> nat option" where
  "index_of x [] = None"
| "index_of x (y # ys) = (if x = y then Some 0 else map_option Suc (index_of x ys))"

text \<open>
  \<open>base64.b32decode\<close> of eight characters and the big-endian integer of the result: trailing
  padding is stripped, at most six characters of it, and the bits it stands for are dropped.
\<close>

fun b32_value :: "nat \<Rightarrow> string \<Rightarrow> nat option" where
  "b32_value acc [] = Some acc"
| "b32_value acc (c # cs) =
     (case index_of c AWS_ACCESS_KEY_ALPHABET of None \<Rightarrow> None | Some i \<Rightarrow> b32_value (acc * 32 + i) cs)"

abbreviation BinasciiError :: exn where
  "BinasciiError \<equiv> UserError ''binascii.Error'' ''''"

definition b32decode_int :: "string \<Rightarrow> nat result" where
  "b32decode_int s =
     (if \<not> list_all (\<lambda>c. of_char c < (128 :: nat)) s then Inl ValueError
      else let body = rev (dropWhile (\<lambda>c. c = CHR ''='') (rev s)); pad = length s - length body
        in case b32_value 0 body of
             None \<Rightarrow> Inl BinasciiError
           | Some acc \<Rightarrow>
               if length s mod 8 \<noteq> 0 \<or> pad \<notin> {0, 1, 3, 4, 6} then Inl BinasciiError
               else Inr (acc * 32 ^ pad div 256 ^ (5 - (43 - 5 * pad) div 8)))"

text \<open>\<open>f"{n:012}"\<close>.\<close>

fun dec_digits :: "nat \<Rightarrow> string" where
  "dec_digits n = (if n < 10 then [char_of (48 + n)] else dec_digits (n div 10) @ [char_of (48 + n mod 10)])"

declare dec_digits.simps [simp del]

definition zero_padded :: "nat \<Rightarrow> nat \<Rightarrow> string" where
  "zero_padded w n = replicate (w - length (dec_digits n)) (CHR ''0'') @ dec_digits n"

definition extract_account_id_from_access_key_id :: "string \<Rightarrow> string result" where
  "extract_account_id_from_access_key_id key =
     (case b32decode_int (take 8 (drop 4 key)) of
        Inl e \<Rightarrow> if e = BinasciiError then Inr DEFAULT_AWS_ACCOUNT_ID else Inl e
      | Inr part \<Rightarrow>
          if length key \<le> 12 then Inl IndexError
          else case index_of (key ! 12) AWS_ACCESS_KEY_ALPHABET of
            None \<Rightarrow> Inr DEFAULT_AWS_ACCOUNT_ID
          | Some i \<Rightarrow>
              let account = 2 * (int part - ACCOUNT_OFFSET) + (if 16 \<le> i then 1 else 0)
              in if account < 0 \<or> 999999999999 < account then Inr DEFAULT_AWS_ACCOUNT_ID
                 else Inr (zero_padded 12 (nat account)))"

text \<open>
  \<open>re.match("\d{12}", key)\<close> anchors only the front. \<open>parity\<close> is the configuration flag
  \<open>PARITY_AWS_ACCESS_KEY_ID\<close>.
\<close>

definition twelve_digits_prefix :: "string \<Rightarrow> bool" where
  "twelve_digits_prefix s = (12 \<le> length s \<and> list_all is_digit (take 12 s))"

definition get_account_id_from_access_key_id :: "bool \<Rightarrow> string \<Rightarrow> string result" where
  "get_account_id_from_access_key_id parity key =
     (if twelve_digits_prefix key then Inr key
      else if 20 \<le> length key then
        (if parity then
           (if starts_with ''ASIA'' key \<or> starts_with ''AKIA'' key
            then extract_account_id_from_access_key_id key else Inr DEFAULT_AWS_ACCOUNT_ID)
         else
           (if starts_with ''ASIA'' key \<or> starts_with ''AKIA'' key then Inr DEFAULT_AWS_ACCOUNT_ID
            else if starts_with ''LSIA'' key \<or> starts_with ''LKIA'' key
            then extract_account_id_from_access_key_id key else Inr DEFAULT_AWS_ACCOUNT_ID))
      else Inr DEFAULT_AWS_ACCOUNT_ID)"

text \<open>The account and the region of a request; an empty key or region counts as missing.\<close>

definition non_empty :: "string option \<Rightarrow> string \<Rightarrow> string" where
  "non_empty v d = (case v of None \<Rightarrow> d | Some s \<Rightarrow> if s = [] then d else s)"

definition get_account_id_from_request :: "bool \<Rightarrow> string option \<Rightarrow> string result" where
  "get_account_id_from_request parity authorization =
     get_account_id_from_access_key_id parity
       (non_empty (extract_access_key_id_from_auth_header authorization) DEFAULT_AWS_ACCOUNT_ID)"

definition extract_account_id_from_auth_header :: "bool \<Rightarrow> string option \<Rightarrow> string option result" where
  "extract_account_id_from_auth_header parity authorization =
     (case extract_access_key_id_from_auth_header authorization of
        None \<Rightarrow> Inr None
      | Some k \<Rightarrow> if k = [] then Inr None else map_sum id Some (get_account_id_from_access_key_id parity k))"

definition extract_account_id_from_headers :: "bool \<Rightarrow> string option \<Rightarrow> string result" where
  "extract_account_id_from_headers parity authorization =
     map_sum id (\<lambda>a. non_empty a DEFAULT_AWS_ACCOUNT_ID) (extract_account_id_from_auth_header parity authorization)"

definition extract_region_from_headers :: "string option \<Rightarrow> string" where
  "extract_region_from_headers authorization = non_empty (extract_region_from_auth_header authorization) AWS_REGION_US_EAST_1"

subsection \<open>Mock headers\<close>

definition mock_content_type :: "string \<Rightarrow> string" where
  "mock_content_type service =
     (if service = ''kinesis'' then ''application/x-amz-json-1.1''
      else if service \<in> {''sns'', ''sqs'', ''sts'', ''cloudformation''} then ''application/x-www-form-urlencoded''
      else ''application/x-amz-json-1.0'')"

definition mock_authorization :: "string \<Rightarrow> string \<Rightarrow> string \<Rightarrow> string" where
  "mock_authorization service key region =
     ''AWS4-HMAC-SHA256 '' @ ''Credential='' @ key @ ''/20160623/'' @ region @ ''/'' @ service @ ''/aws4_request, ''
     @ ''SignedHeaders=content-type;host;x-amz-date;x-amz-target, Signature=1234''"

text \<open>\<open>internal\<close> is the serialized header of an internal request, when asked for.\<close>

definition mock_aws_request_headers :: "string \<Rightarrow> string \<Rightarrow> string \<Rightarrow> (string \<times> string) option \<Rightarrow> (string \<times> string) list" where
  "mock_aws_request_headers service key region internal =
     [(''Content-Type'', mock_content_type service), (''Accept-Encoding'', ''identity''),
      (''X-Amz-Date'', ''20160623T103251Z''), (''Authorization'', mock_authorization service key region)]
     @ (case internal of None \<Rightarrow> [] | Some h \<Rightarrow> [h])"

subsection \<open>Lemmas: the last credential\<close>

lemma starts_with_before: "x \<notin> set p \<Longrightarrow> starts_with p (k @ x # r) \<longleftrightarrow> starts_with p k"
  by (induction p k rule: starts_with.induct) auto

lemma starts_with_set: "starts_with p s \<Longrightarrow> set p \<subseteq> set s"
  by (auto simp: starts_with_iff)

lemma length_split_on: "length (split_on d s) = Suc (count_list s d)"
  by (induction s) (auto split: list.split)

lemma count_list_drop_le: "count_list (drop n s) d \<le> count_list s d"
  by (metis append_take_drop_id count_list_append le_add2)

lemma credential_at_few: "count_list s (CHR ''/'') < 3 \<Longrightarrow> credential_at s = None"
proof -
  assume a: "count_list s (CHR ''/'') < 3"
  have "length (split_on (CHR ''/'') (drop 11 s)) < 4"
    using a count_list_drop_le [of 11 s "CHR ''/''"] by (simp add: length_split_on)
  then show ?thesis by (auto simp: credential_at_def split: list.split)
qed

lemma last_credential_few: "count_list s (CHR ''/'') < 3 \<Longrightarrow> last_credential s = None"
proof (induction s)
  case Nil
  then show ?case by simp
next
  case (Cons c s)
  then have "count_list s (CHR ''/'') < 3" by (simp split: if_splits)
  with Cons credential_at_few show ?case by simp
qed

lemma last_credential_prefix: "last_credential s = Some x \<Longrightarrow> last_credential (p @ s) = Some x"
  by (induction p) simp_all

lemma last_credential_key:
  "CHR ''='' \<notin> set k \<Longrightarrow> last_credential (CHR ''/'' # r) = None \<Longrightarrow> last_credential (k @ CHR ''/'' # r) = None"
proof (induction k)
  case Nil
  then show ?case by simp
next
  case (Cons c k)
  have "\<not> starts_with ''Credential='' (c # k)"
    using Cons.prems(1) starts_with_set [of "''Credential=''" "c # k"] by auto
  then have "\<not> starts_with ''Credential='' ((c # k) @ CHR ''/'' # r)"
    by (subst starts_with_before) simp_all
  then have "credential_at ((c # k) @ CHR ''/'' # r) = None" unfolding credential_at_def by (rule if_not_P)
  with Cons show ?case by simp
qed

text \<open>A segment of a credential scope: not empty, without the separators of the header.\<close>

definition plain :: "string \<Rightarrow> bool" where
  "plain s = (s \<noteq> [] \<and> CHR ''/'' \<notin> set s \<and> CHR ''='' \<notin> set s \<and> CHR '','' \<notin> set s \<and> \<not> list_ex is_space s)"

lemma last_credential_parts:
  assumes "plain key" "plain date" "plain region" and "count_list t (CHR ''/'') < 2"
  shows "last_credential (p @ ''Credential='' @ key @ ''/'' @ date @ ''/'' @ region @ ''/'' @ t) = Some (key, date, region)"
proof -
  let ?r = "date @ ''/'' @ region @ ''/'' @ t"
  have slashes: "count_list date (CHR ''/'') = 0" "count_list region (CHR ''/'') = 0"
    using assms(2,3) by (simp_all add: plain_def count_list_0_iff)
  then have "last_credential (region @ ''/'' @ t) = None" using assms(4) by (intro last_credential_few) simp
  then have "last_credential (CHR ''/'' # region @ CHR ''/'' # t) = None" by (simp add: credential_at_def)
  then have "last_credential ?r = None" using assms(2) last_credential_key by (simp add: plain_def)
  then have "last_credential (CHR ''/'' # ?r) = None" by (simp add: credential_at_def)
  then have k: "last_credential (key @ CHR ''/'' # ?r) = None"
    using assms(1) by (intro last_credential_key) (simp_all add: plain_def)
  have "split_on (CHR ''/'') (key @ CHR ''/'' # date @ CHR ''/'' # region @ CHR ''/'' # t)
      = key # date # region # split_on (CHR ''/'') t"
    using assms(1-3) by (simp add: plain_def split_on_append_sep)
  then have "credential_at (''Credential='' @ key @ CHR ''/'' # ?r) = Some (key, date, region)"
    using assms(1-3) by (auto simp: credential_at_def plain_def split: list.split)
  with k have "last_credential (''Credential='' @ key @ CHR ''/'' # ?r) = Some (key, date, region)"
    by (simp add: credential_at_def)
  from last_credential_prefix [OF this, of p] show ?thesis by simp
qed

lemma last_credential_scope:
  assumes "plain key" and "plain region" and "count_list t (CHR ''/'') < 2"
  shows "last_credential (p @ ''Credential='' @ key @ ''/20160623/'' @ region @ ''/'' @ t) = Some (key, ''20160623'', region)"
proof -
  have "plain ''20160623''" by (simp add: plain_def is_space_def)
  from last_credential_parts [OF assms(1) this assms(2,3), of p] show ?thesis by simp
qed

lemma hd_split_on: "s = a @ d # t \<Longrightarrow> d \<notin> set a \<Longrightarrow> hd (split_on d s) = a"
  by (simp add: split_on_append_sep)

text \<open>Words: a run without whitespace is one word.\<close>

lemma split_ws_word: "w \<noteq> [] \<Longrightarrow> \<not> list_ex is_space w \<Longrightarrow> split_ws w = [w]"
proof (induction w)
  case Nil
  then show ?case by simp
next
  case (Cons c w)
  then show ?case by (cases w) auto
qed

lemma split_ws_two:
  "w \<noteq> [] \<Longrightarrow> \<not> list_ex is_space w \<Longrightarrow> is_space x \<Longrightarrow> split_ws (w @ x # s) = w # split_ws s"
proof (induction w)
  case Nil
  then show ?case by simp
next
  case (Cons c w)
  then show ?case by (cases w) auto
qed

subsection \<open>Lemmas: account numbers\<close>

fun b32_digits :: "nat \<Rightarrow> nat \<Rightarrow> string" where
  "b32_digits 0 n = []"
| "b32_digits (Suc k) n = AWS_ACCESS_KEY_ALPHABET ! (n div 32 ^ k mod 32) # b32_digits k n"

lemma length_b32_digits [simp]: "length (b32_digits k n) = k"
  by (induction k) simp_all

lemma all_less_32: "(\<forall>i < 32. P i) \<longleftrightarrow> list_all P [0 ..< 32]" for P :: "nat \<Rightarrow> bool"
  by (simp add: list_all_iff Ball_def)

lemma alphabet_index: "i < 32 \<Longrightarrow> index_of (AWS_ACCESS_KEY_ALPHABET ! i) AWS_ACCESS_KEY_ALPHABET = Some i"
proof -
  have "\<forall>i < 32. index_of (AWS_ACCESS_KEY_ALPHABET ! i) AWS_ACCESS_KEY_ALPHABET = Some i"
    unfolding all_less_32 by code_simp
  then show "i < 32 \<Longrightarrow> ?thesis" by blast
qed

lemma alphabet_chars: "i < 32 \<Longrightarrow> AWS_ACCESS_KEY_ALPHABET ! i \<noteq> CHR ''='' \<and> of_char (AWS_ACCESS_KEY_ALPHABET ! i) < (128 :: nat)"
proof -
  have "\<forall>i < 32. AWS_ACCESS_KEY_ALPHABET ! i \<noteq> CHR ''='' \<and> of_char (AWS_ACCESS_KEY_ALPHABET ! i) < (128 :: nat)"
    unfolding all_less_32 by code_simp
  then show "i < 32 \<Longrightarrow> ?thesis" by blast
qed

lemma b32_value_digits: "b32_value acc (b32_digits k n) = Some (acc * 32 ^ k + n mod 32 ^ k)"
proof (induction k arbitrary: acc)
  case 0
  then show ?case by simp
next
  case (Suc k)
  have "b32_value acc (b32_digits (Suc k) n) = Some ((acc * 32 + n div 32 ^ k mod 32) * 32 ^ k + n mod 32 ^ k)"
    by (simp add: alphabet_index Suc.IH)
  also have "(acc * 32 + n div 32 ^ k mod 32) * 32 ^ k + n mod 32 ^ k
      = acc * 32 ^ Suc k + (32 ^ k * (n div 32 ^ k mod 32) + n mod 32 ^ k)"
    by (simp add: algebra_simps)
  also have "32 ^ k * (n div 32 ^ k mod 32) + n mod 32 ^ k = n mod 32 ^ Suc k"
    using mod_mult2_eq [of n "32 ^ k" 32] by (simp add: mult.commute)
  finally show ?case .
qed

lemma b32_digits_chars: "c \<in> set (b32_digits k n) \<Longrightarrow> c \<noteq> CHR ''='' \<and> of_char c < (128 :: nat)"
  by (induction k) (auto simp: alphabet_chars)

lemma dropWhile_absent: "c \<notin> set xs \<Longrightarrow> dropWhile (\<lambda>x. x = c) xs = xs"
  by (cases xs) auto

lemma b32decode_digits: "n < 32 ^ 8 \<Longrightarrow> b32decode_int (b32_digits 8 n) = Inr n"
proof -
  assume n: "n < 32 ^ 8"
  let ?s = "b32_digits 8 n"
  have "CHR ''='' \<notin> set ?s" using b32_digits_chars by blast
  then have "dropWhile (\<lambda>c. c = CHR ''='') (rev ?s) = rev ?s"
    by (intro dropWhile_absent) (simp del: b32_digits.simps)
  moreover have "list_all (\<lambda>c. of_char c < (128 :: nat)) ?s" using b32_digits_chars by (auto simp: list_all_iff)
  ultimately show ?thesis using n b32_value_digits [of 0 8 n] by (simp add: b32decode_int_def del: b32_digits.simps)
qed

lemma dec_digits_facts:
  "list_all is_digit (dec_digits n)" "n < 10 ^ k \<Longrightarrow> 0 < k \<Longrightarrow> length (dec_digits n) \<le> k"
proof -
  have d: "is_digit (char_of (48 + m))" if "m < 10" for m :: nat
    using that by (simp add: is_digit_def of_char_of)
  show "list_all is_digit (dec_digits n)"
  proof (induction n rule: dec_digits.induct)
    case (1 n)
    then show ?case by (subst dec_digits.simps) (auto simp: d)
  qed
  show "n < 10 ^ k \<Longrightarrow> 0 < k \<Longrightarrow> length (dec_digits n) \<le> k"
  proof (induction k arbitrary: n)
    case 0
    then show ?case by simp
  next
    case (Suc k)
    show ?case
    proof (cases "n < 10")
      case True
      then show ?thesis by (subst dec_digits.simps) simp
    next
      case False
      then have "0 < k" using Suc.prems by (cases k) auto
      moreover have "n div 10 < 10 ^ k" using Suc.prems by (simp add: less_mult_imp_div_less mult.commute)
      ultimately have "length (dec_digits (n div 10)) \<le> k" by (intro Suc.IH)
      with False show ?thesis by (subst dec_digits.simps) simp
    qed
  qed
qed

lemma zero_padded_facts:
  assumes "n < 10 ^ w" and "0 < w"
  shows "length (zero_padded w n) = w" and "list_all is_digit (zero_padded w n)"
  using dec_digits_facts [of n] assms by (auto simp: zero_padded_def list_all_iff is_digit_def Let_def)

subsection \<open>Properties\<close>

text \<open>
  The mock headers LocalStack builds for its internal clients identify the request: the region,
  the access key and the service name that are put in are exactly what the three extractors read
  back, for segments without the separators of the header.
\<close>

theorem mock_headers_roundtrip:
  assumes "plain key" and "plain region" and "plain service"
    and "auth = map_of (mock_aws_request_headers service key region internal) ''Authorization''"
  shows "extract_region_from_auth_header auth = Some region
    \<and> extract_access_key_id_from_auth_header auth = Some key
    \<and> extract_service_name_from_auth_header auth = Some service"
proof -
  have auth: "auth = Some (mock_authorization service key region)"
    by (simp add: assms(4) mock_aws_request_headers_def)
  let ?t = "service @ ''/aws4_request, SignedHeaders=content-type;host;x-amz-date;x-amz-target, Signature=1234''"
  have "count_list service (CHR ''/'') = 0" using assms(3) by (simp add: plain_def count_list_0_iff)
  then have t: "count_list ?t (CHR ''/'') < 2" by simp
  have cred: "last_credential (mock_authorization service key region) = Some (key, ''20160623'', region)"
    using last_credential_scope [OF assms(1,2) t, of "''AWS4-HMAC-SHA256 ''"] by (simp add: mock_authorization_def)
  have "length region < length (mock_authorization service key region)" by (simp add: mock_authorization_def)
  then have "region \<noteq> mock_authorization service key region" by auto
  with cred have region: "extract_region_from_auth_header auth = Some region"
    by (simp add: auth extract_region_from_auth_header_def)
  have "starts_with ''AWS4-'' (mock_authorization service key region)" by (simp add: mock_authorization_def)
  with cred have key: "extract_access_key_id_from_auth_header auth = Some key"
    by (simp add: auth extract_access_key_id_from_auth_header_def)
  let ?scope = "''Credential='' @ key @ ''/20160623/'' @ region @ ''/'' @ service @ ''/aws4_request''"
  have "hd (split_on (CHR '','') (mock_authorization service key region)) = ''AWS4-HMAC-SHA256'' @ CHR '' '' # ?scope"
  proof -
    let ?a = "''AWS4-HMAC-SHA256'' @ CHR '' '' # ?scope"
    have "mock_authorization service key region = ?a @ CHR '','' #
        '' SignedHeaders=content-type;host;x-amz-date;x-amz-target, Signature=1234''"
      by (simp add: mock_authorization_def)
    moreover have "CHR '','' \<notin> set ?a" using assms(1-3) by (simp add: plain_def)
    ultimately show ?thesis by (rule hd_split_on)
  qed
  moreover have "split_ws ?scope = [?scope]"
    using assms(1-3) by (intro split_ws_word) (simp_all add: plain_def is_space_def)
  ultimately have words: "split_ws (hd (split_on (CHR '','') (mock_authorization service key region))) = [''AWS4-HMAC-SHA256'', ?scope]"
    by (simp only: split_ws_two [of "''AWS4-HMAC-SHA256''"]) (simp add: is_space_def)
  have "split_on (CHR ''/'') ?scope = [''Credential='' @ key, ''20160623'', region, service, ''aws4_request'']"
  proof -
    have "?scope = (''Credential='' @ key) @ CHR ''/'' # ''20160623'' @ CHR ''/'' # region @ CHR ''/'' # service @ CHR ''/'' # ''aws4_request''"
      by simp
    moreover have "CHR ''/'' \<notin> set (''Credential='' @ key)" using assms(1) by (simp add: plain_def)
    ultimately show ?thesis
      using assms(2,3) by (simp only: split_on_append_sep plain_def) (simp add: split_on_append_sep)
  qed
  with words have "extract_service_name_from_auth_header auth = Some service"
    by (simp add: auth extract_service_name_from_auth_header_def)
  with region key show ?thesis by blast
qed

lemma mock_headers_roundtrip_witness:
  "extract_region_from_auth_header (map_of (mock_aws_request_headers ''sqs'' ''test'' ''eu-west-1'' None) ''Authorization'') = Some ''eu-west-1''"
  using mock_headers_roundtrip [of "''test''" "''eu-west-1''" "''sqs''" _ None, OF _ _ _ refl]
  by (simp add: plain_def is_space_def)

text \<open>
  The account number inside a LocalStack access key is recovered: the key is built from the
  account id by adding the offset, writing the upper part in base 32 and putting the lowest bit in
  the upper half of the alphabet of the thirteenth character.
\<close>

theorem account_id_in_key:
  assumes "n < 10 ^ 12" and "j < 16" and "7 \<le> length tail" and "prefix = ''LSIA'' \<or> prefix = ''LKIA''"
  shows "get_account_id_from_access_key_id False
      (prefix @ b32_digits 8 (549755813888 + n div 2) @ AWS_ACCESS_KEY_ALPHABET ! (16 * (n mod 2) + j) # tail)
    = Inr (zero_padded 12 n)"
proof -
  let ?i = "16 * (n mod 2) + j"
  let ?part = "b32_digits 8 (549755813888 + n div 2)"
  let ?key = "prefix @ ?part @ AWS_ACCESS_KEY_ALPHABET ! ?i # tail"
  have len: "length prefix = 4" using assms(4) by auto
  have "n mod 2 < 2" by simp
  then have i: "?i < 32" "16 \<le> ?i \<longleftrightarrow> n mod 2 = 1" using assms(2) by linarith+
  have part: "b32decode_int ?part = Inr (549755813888 + n div 2)"
    using assms(1) by (intro b32decode_digits) simp
  have acc: "2 * (int (549755813888 + n div 2) - ACCOUNT_OFFSET) + (if 16 \<le> ?i then 1 else 0) = int n"
    unfolding i(2) ACCOUNT_OFFSET_def by presburger
  have "take 8 (drop 4 ?key) = ?part" "?key ! 12 = AWS_ACCESS_KEY_ALPHABET ! ?i" "12 < length ?key" "20 \<le> length ?key"
    using len assms(3) by (simp_all add: nth_append del: b32_digits.simps)
  then have "extract_account_id_from_access_key_id ?key = Inr (zero_padded 12 n)"
    unfolding extract_account_id_from_access_key_id_def
    using part acc i(1) assms(1) by (simp add: alphabet_index Let_def del: b32_digits.simps)
  moreover have "\<not> twelve_digits_prefix ?key" "starts_with ''LSIA'' ?key \<or> starts_with ''LKIA'' ?key"
      "\<not> starts_with ''ASIA'' ?key" "\<not> starts_with ''AKIA'' ?key"
    using assms(4) by (auto simp: twelve_digits_prefix_def is_digit_def del: b32_digits.simps)
  ultimately show ?thesis
    using \<open>20 \<le> length ?key\<close> unfolding get_account_id_from_access_key_id_def by presburger
qed

lemma account_id_in_key_witness:
  "get_account_id_from_access_key_id False (''LKIA'' @ b32_digits 8 (549755813888 + 123456789012 div 2)
      @ AWS_ACCESS_KEY_ALPHABET ! (16 * (123456789012 mod 2) + 3) # ''AAAAAAA'') = Inr (zero_padded 12 123456789012)"
  by (rule account_id_in_key) simp_all

text \<open>
  Whatever the access key, the account it maps to starts with twelve digits: the account of a
  store or of a client is always one. (It may be longer: a key of more than twelve digits is
  returned as it is.)
\<close>

theorem account_id_digits:
  "case get_account_id_from_access_key_id parity key of
     Inl e \<Rightarrow> e = ValueError
   | Inr r \<Rightarrow> twelve_digits_prefix r \<and> (length r = 12 \<or> r = key)"
proof -
  have default: "twelve_digits_prefix DEFAULT_AWS_ACCOUNT_ID" "length DEFAULT_AWS_ACCOUNT_ID = 12"
    by (simp_all add: DEFAULT_AWS_ACCOUNT_ID_def twelve_digits_prefix_def is_digit_def)
  have "(case extract_account_id_from_access_key_id key of Inl e \<Rightarrow> e = ValueError
      | Inr r \<Rightarrow> twelve_digits_prefix r \<and> (length r = 12 \<or> r = key))" if "20 \<le> length key"
  proof (cases "b32decode_int (take 8 (drop 4 key))")
    case (Inl e)
    then have "e = ValueError \<or> e = BinasciiError"
      by (auto simp: b32decode_int_def Let_def split: if_splits option.splits)
    with Inl default show ?thesis by (auto simp: extract_account_id_from_access_key_id_def)
  next
    case (Inr part)
    have zp: "twelve_digits_prefix (zero_padded 12 (nat a)) \<and> length (zero_padded 12 (nat a)) = 12"
      if "0 \<le> a" "a \<le> 999999999999" for a
      using zero_padded_facts [of "nat a" 12] that by (simp add: twelve_digits_prefix_def)
    from Inr that default zp show ?thesis
      by (simp add: extract_account_id_from_access_key_id_def Let_def split: option.split)
  qed
  with default show ?thesis
    by (auto simp: get_account_id_from_access_key_id_def)
qed

end
