(* ===== verification/Stores.thy ===== *)
theory Stores
  imports Accounts
begin

text \<open>
  The stores of service providers, \<open>services/stores.py\<close>: a bundle of accounts, each a bundle of
  regions, each a store object. Store objects and the dictionaries that hold shared attributes live
  in an explicit heap, because the code shares the dictionaries between stores by reference: the
  cross-region attributes of an account and the cross-account attributes of a service. The last
  part proves how far a write is visible, and what a reset leaves.
\<close>

subsection \<open>State\<close>

datatype scope = LocalAttribute | CrossRegionAttribute | CrossAccountAttribute

text \<open>
  The class of the stores: the scope and the default value of each attribute. A callable default
  gives a fresh value each time, which a value stands for.
\<close>

record 'v store_class =
  sc_attributes :: "(string \<times> scope \<times> 'v) list"
  sc_valid_regions :: "string list"
  sc_validate :: bool
  sc_allow_nonstandard :: bool

text \<open>A store object: its local attributes under their prefixed names and its references.\<close>

record 'v store_obj =
  so_attrs :: "(string, 'v) dict"
  so_global :: nat
  so_universal :: nat
  so_account :: string
  so_region :: string

record region_bundle =
  rb_regions :: "(string, nat) dict"
  rb_global :: nat

record 'v stores =
  st_objs :: "nat \<Rightarrow> 'v store_obj option"
  st_dicts :: "nat \<Rightarrow> (string, 'v) dict"
  st_next :: nat
  st_accounts :: "(string, region_bundle) dict"
  st_universal :: nat

definition LOCAL_ATTR_PREFIX :: string where
  "LOCAL_ATTR_PREFIX = ''attr_''"

text \<open>\<open>AccountRegionBundle.__init__\<close>: dictionary 0 holds the cross-account attributes.\<close>

definition new_bundle :: "'v stores" where
  "new_bundle = \<lparr>st_objs = (\<lambda>r. None), st_dicts = (\<lambda>r. []), st_next = 1, st_accounts = [], st_universal = 0\<rparr>"

subsection \<open>Subscription\<close>

text \<open>\<open>AccountRegionBundle.__getitem__\<close>.\<close>

definition get_account :: "'v store_class \<Rightarrow> string \<Rightarrow> ('v stores, region_bundle) prog" where
  "get_account c a st =
     (if sc_validate c \<and> \<not> twelve_digits_prefix a then (Inl ValueError, st)
      else case dict_get (st_accounts st) a of
             Some rb \<Rightarrow> (Inr rb, st)
           | None \<Rightarrow>
               let rb = \<lparr>rb_regions = [], rb_global = st_next st\<rparr>
               in (Inr rb, st\<lparr>st_next := Suc (st_next st), st_dicts := (st_dicts st)(st_next st := []),
                              st_accounts := dict_set a rb (st_accounts st)\<rparr>))"

text \<open>\<open>RegionBundle.__getitem__\<close> of the bundle of an account.\<close>

definition valid_region :: "'v store_class \<Rightarrow> string \<Rightarrow> bool" where
  "valid_region c r = (sc_allow_nonstandard c \<or> \<not> sc_validate c \<or> r \<in> set (sc_valid_regions c))"

definition get_region :: "'v store_class \<Rightarrow> string \<Rightarrow> region_bundle \<Rightarrow> string \<Rightarrow> ('v stores, nat) prog" where
  "get_region c a rb r st =
     (if \<not> valid_region c r then (Inl ValueError, st)
      else case dict_get (rb_regions rb) r of
             Some ref \<Rightarrow> (Inr ref, st)
           | None \<Rightarrow>
               let ref = st_next st;
                   obj = \<lparr>so_attrs = [], so_global = rb_global rb, so_universal = st_universal st,
                          so_account = a, so_region = r\<rparr>
               in (Inr ref, st\<lparr>st_next := Suc ref, st_objs := (st_objs st)(ref \<mapsto> obj),
                               st_accounts := dict_set a (rb\<lparr>rb_regions := dict_set r ref (rb_regions rb)\<rparr>) (st_accounts st)\<rparr>))"

definition get_store :: "'v store_class \<Rightarrow> string \<Rightarrow> string \<Rightarrow> ('v stores, nat) prog" where
  "get_store c a r = bind_s (get_account c a) (\<lambda>rb. get_region c a rb r)"

subsection \<open>Attributes\<close>

text \<open>
  The three descriptors. A read that finds nothing stores the default, in the store object, in the
  shared dictionary of the account or in the one of the service.
\<close>

definition local_get :: "string \<Rightarrow> 'v \<Rightarrow> nat \<Rightarrow> 'v store_obj \<Rightarrow> ('v stores, 'v) prog" where
  "local_get n d ref obj st =
     (case dict_get (so_attrs obj) (LOCAL_ATTR_PREFIX @ n) of
        Some v \<Rightarrow> (Inr v, st)
      | None \<Rightarrow> (Inr d, st\<lparr>st_objs := (st_objs st)(ref \<mapsto> obj\<lparr>so_attrs := dict_set (LOCAL_ATTR_PREFIX @ n) d (so_attrs obj)\<rparr>)\<rparr>))"

definition local_set :: "string \<Rightarrow> 'v \<Rightarrow> nat \<Rightarrow> 'v store_obj \<Rightarrow> ('v stores, unit) prog" where
  "local_set n v ref obj st =
     (Inr (), st\<lparr>st_objs := (st_objs st)(ref \<mapsto> obj\<lparr>so_attrs := dict_set (LOCAL_ATTR_PREFIX @ n) v (so_attrs obj)\<rparr>)\<rparr>)"

definition shared_get :: "string \<Rightarrow> 'v \<Rightarrow> nat \<Rightarrow> ('v stores, 'v) prog" where
  "shared_get n d dref st =
     (case dict_get (st_dicts st dref) n of
        Some v \<Rightarrow> (Inr v, st)
      | None \<Rightarrow> (Inr d, st\<lparr>st_dicts := (st_dicts st)(dref := dict_set n d (st_dicts st dref))\<rparr>))"

definition shared_set :: "string \<Rightarrow> 'v \<Rightarrow> nat \<Rightarrow> ('v stores, unit) prog" where
  "shared_set n v dref st = (Inr (), st\<lparr>st_dicts := (st_dicts st)(dref := dict_set n v (st_dicts st dref))\<rparr>)"

text \<open>\<open>store.name\<close> and \<open>store.name = value\<close>.\<close>

definition get_attr :: "'v store_class \<Rightarrow> nat \<Rightarrow> string \<Rightarrow> ('v stores, 'v) prog" where
  "get_attr c ref n st =
     (case (st_objs st ref, map_of (sc_attributes c) n) of
        (Some obj, Some (LocalAttribute, d)) \<Rightarrow> local_get n d ref obj st
      | (Some obj, Some (CrossRegionAttribute, d)) \<Rightarrow> shared_get n d (so_global obj) st
      | (Some obj, Some (CrossAccountAttribute, d)) \<Rightarrow> shared_get n d (so_universal obj) st
      | _ \<Rightarrow> (Inl AttributeError, st))"

definition set_attr :: "'v store_class \<Rightarrow> nat \<Rightarrow> string \<Rightarrow> 'v \<Rightarrow> ('v stores, unit) prog" where
  "set_attr c ref n v st =
     (case (st_objs st ref, map_of (sc_attributes c) n) of
        (Some obj, Some (LocalAttribute, d)) \<Rightarrow> local_set n v ref obj st
      | (Some obj, Some (CrossRegionAttribute, d)) \<Rightarrow> shared_set n v (so_global obj) st
      | (Some obj, Some (CrossAccountAttribute, d)) \<Rightarrow> shared_set n v (so_universal obj) st
      | _ \<Rightarrow> (Inl AttributeError, st))"

subsection \<open>Reset and iteration\<close>

text \<open>
  \<open>RegionBundle.reset\<close>: the local attributes of every store are deleted, the shared dictionaries
  are cleared (the cross-account one only on request) and the bundle forgets its stores.
\<close>

definition clear_store :: "bool \<Rightarrow> nat \<Rightarrow> 'v stores \<Rightarrow> 'v stores" where
  "clear_store universal ref st =
     (case st_objs st ref of
        None \<Rightarrow> st
      | Some obj \<Rightarrow>
          let dicts = (st_dicts st)(so_global obj := []);
              dicts' = (if universal then dicts(so_universal obj := []) else dicts)
          in st\<lparr>st_dicts := dicts',
                st_objs := (st_objs st)(ref \<mapsto> obj\<lparr>so_attrs := filter (\<lambda>(n, v). \<not> starts_with LOCAL_ATTR_PREFIX n) (so_attrs obj)\<rparr>)\<rparr>)"

definition reset_region_bundle :: "bool \<Rightarrow> string \<Rightarrow> region_bundle \<Rightarrow> 'v stores \<Rightarrow> 'v stores" where
  "reset_region_bundle universal a rb st =
     (let st1 = fold (clear_store universal) (dict_values (rb_regions rb)) st;
          st2 = st1\<lparr>st_dicts := (st_dicts st1)(rb_global rb := [])\<rparr>
      in st2\<lparr>st_accounts := dict_set a (rb\<lparr>rb_regions := []\<rparr>) (st_accounts st2)\<rparr>)"

definition reset_stores :: "'v stores \<Rightarrow> 'v stores" where
  "reset_stores st =
     (let st1 = fold (\<lambda>(a, rb). reset_region_bundle True a rb) (st_accounts st) st;
          st2 = st1\<lparr>st_dicts := (st_dicts st1)(st_universal st1 := [])\<rparr>
      in st2\<lparr>st_accounts := []\<rparr>)"

definition iter_stores :: "'v stores \<Rightarrow> (string \<times> string \<times> nat) list" where
  "iter_stores st = concat (map (\<lambda>(a, rb). map (\<lambda>(r, ref). (a, r, ref)) (rb_regions rb)) (st_accounts st))"

subsection \<open>Well-formed states\<close>

text \<open>
  The references of every store are the ones of its bundle, no two accounts share their dictionary
  and none shares the service's, no two places share a store, and everything in use was allocated.
\<close>

definition store_at :: "'v stores \<Rightarrow> string \<Rightarrow> string \<Rightarrow> nat option" where
  "store_at st a r =
     (case dict_get (st_accounts st) a of None \<Rightarrow> None | Some rb \<Rightarrow> dict_get (rb_regions rb) r)"

definition wf_stores :: "'v stores \<Rightarrow> bool" where
  "wf_stores st \<longleftrightarrow>
     (\<forall>a r ref. store_at st a r = Some ref \<longrightarrow>
        ref < st_next st \<and> (\<exists>obj rb. st_objs st ref = Some obj \<and> dict_get (st_accounts st) a = Some rb
          \<and> so_account obj = a \<and> so_region obj = r \<and> so_global obj = rb_global rb \<and> so_universal obj = st_universal st))
     \<and> (\<forall>a rb. dict_get (st_accounts st) a = Some rb \<longrightarrow> rb_global rb < st_next st \<and> rb_global rb \<noteq> st_universal st)
     \<and> (\<forall>a b rb rb'. dict_get (st_accounts st) a = Some rb \<longrightarrow> dict_get (st_accounts st) b = Some rb' \<longrightarrow>
          rb_global rb = rb_global rb' \<longrightarrow> a = b)
     \<and> st_universal st < st_next st"

text \<open>
  What a store of a region shows: the value a read of the attribute would return, stored or default.
\<close>

definition or_default :: "'v \<Rightarrow> 'v option \<Rightarrow> 'v" where
  "or_default d v = (case v of None \<Rightarrow> d | Some x \<Rightarrow> x)"

definition local_value :: "'v stores \<Rightarrow> string \<Rightarrow> string \<Rightarrow> string \<Rightarrow> 'v option" where
  "local_value st a r n =
     (case store_at st a r of
        None \<Rightarrow> None
      | Some ref \<Rightarrow> (case st_objs st ref of None \<Rightarrow> None | Some obj \<Rightarrow> dict_get (so_attrs obj) (LOCAL_ATTR_PREFIX @ n)))"

definition account_value :: "'v stores \<Rightarrow> string \<Rightarrow> string \<Rightarrow> 'v option" where
  "account_value st a n =
     (case dict_get (st_accounts st) a of None \<Rightarrow> None | Some rb \<Rightarrow> dict_get (st_dicts st (rb_global rb)) n)"

definition attr_view :: "'v store_class \<Rightarrow> 'v stores \<Rightarrow> string \<Rightarrow> string \<Rightarrow> string \<Rightarrow> 'v option" where
  "attr_view c st a r n =
     (case map_of (sc_attributes c) n of
        None \<Rightarrow> None
      | Some (LocalAttribute, d) \<Rightarrow> Some (or_default d (local_value st a r n))
      | Some (CrossRegionAttribute, d) \<Rightarrow> Some (or_default d (account_value st a n))
      | Some (CrossAccountAttribute, d) \<Rightarrow> Some (or_default d (dict_get (st_dicts st (st_universal st)) n)))"

subsection \<open>Lemmas: subscription\<close>

lemma wf_new_bundle: "wf_stores new_bundle"
  by (simp add: wf_stores_def new_bundle_def store_at_def)

lemma wf_storesD:
  assumes "wf_stores st"
  shows "store_at st a r = Some ref \<Longrightarrow> ref < st_next st"
    and "store_at st a r = Some ref \<Longrightarrow> \<exists>obj rb. st_objs st ref = Some obj \<and> dict_get (st_accounts st) a = Some rb
          \<and> so_account obj = a \<and> so_region obj = r \<and> so_global obj = rb_global rb \<and> so_universal obj = st_universal st"
    and "dict_get (st_accounts st) a = Some rb \<Longrightarrow> rb_global rb < st_next st \<and> rb_global rb \<noteq> st_universal st"
    and "dict_get (st_accounts st) a = Some rb \<Longrightarrow> dict_get (st_accounts st) b = Some rb' \<Longrightarrow>
          rb_global rb = rb_global rb' \<Longrightarrow> a = b"
    and "st_universal st < st_next st"
  using assms unfolding wf_stores_def by blast+

lemma wf_storesI:
  assumes "\<And>a r ref. store_at st a r = Some ref \<Longrightarrow>
        ref < st_next st \<and> (\<exists>obj rb. st_objs st ref = Some obj \<and> dict_get (st_accounts st) a = Some rb
          \<and> so_account obj = a \<and> so_region obj = r \<and> so_global obj = rb_global rb \<and> so_universal obj = st_universal st)"
    and "\<And>a rb. dict_get (st_accounts st) a = Some rb \<Longrightarrow> rb_global rb < st_next st \<and> rb_global rb \<noteq> st_universal st"
    and "\<And>a b rb rb'. dict_get (st_accounts st) a = Some rb \<Longrightarrow> dict_get (st_accounts st) b = Some rb' \<Longrightarrow>
          rb_global rb = rb_global rb' \<Longrightarrow> a = b"
    and "st_universal st < st_next st"
  shows "wf_stores st"
  using assms unfolding wf_stores_def by blast

lemma store_at_unique:
  "wf_stores st \<Longrightarrow> store_at st a r = Some ref \<Longrightarrow> store_at st a' r' = Some ref \<Longrightarrow> a' = a \<and> r' = r"
  using wf_storesD(2) [of st a r ref] wf_storesD(2) [of st a' r' ref] by auto

lemma attr_view_cong:
  assumes "\<And>a r n. local_value st' a r n = local_value st a r n" and "\<And>a n. account_value st' a n = account_value st a n"
    and "st_dicts st' (st_universal st') = st_dicts st (st_universal st)"
  shows "attr_view c st' = attr_view c st"
  using assms by (intro ext) (simp add: attr_view_def split: option.split prod.split scope.split)

lemma get_account_facts:
  assumes wf: "wf_stores st" and ok: "\<not> sc_validate c \<or> twelve_digits_prefix a"
  shows "\<exists>rb st'. get_account c a st = (Inr rb, st') \<and> wf_stores st' \<and> dict_get (st_accounts st') a = Some rb
    \<and> store_at st' = store_at st \<and> attr_view c' st' = attr_view c' st"
proof (cases "dict_get (st_accounts st) a")
  case (Some rb)
  with assms show ?thesis by (auto simp: get_account_def)
next
  case None
  let ?rb = "\<lparr>rb_regions = [], rb_global = st_next st\<rparr>"
  let ?st = "st\<lparr>st_next := Suc (st_next st), st_dicts := (st_dicts st)(st_next st := []),
    st_accounts := dict_set a ?rb (st_accounts st)\<rparr>"
  have at: "store_at ?st = store_at st"
    using None by (intro ext) (auto simp: store_at_def dict_get_set split: option.split)
  have accounts: "dict_get (st_accounts ?st) b = (if b = a then Some ?rb else dict_get (st_accounts st) b)" for b
    by (simp add: dict_get_set)
  have lt: "rb_global x < st_next st" if "dict_get (st_accounts st) b = Some x" for b x
    using wf_storesD(3) [OF wf that] by simp
  have "wf_stores ?st"
  proof (rule wf_storesI)
    fix b r ref assume "store_at ?st b r = Some ref"
    then have b: "store_at st b r = Some ref" by (simp add: at)
    then have "b \<noteq> a" using None by (auto simp: store_at_def)
    with wf_storesD(1,2) [OF wf b] show "ref < st_next ?st \<and> (\<exists>obj rb. st_objs ?st ref = Some obj \<and> dict_get (st_accounts ?st) b = Some rb
          \<and> so_account obj = b \<and> so_region obj = r \<and> so_global obj = rb_global rb \<and> so_universal obj = st_universal ?st)"
      by (auto simp: dict_get_set)
  next
    fix b x assume "dict_get (st_accounts ?st) b = Some x"
    then show "rb_global x < st_next ?st \<and> rb_global x \<noteq> st_universal ?st"
      using wf_storesD(3,5) [OF wf] by (fastforce simp: dict_get_set split: if_splits)
  next
    fix b b' x x' assume "dict_get (st_accounts ?st) b = Some x" "dict_get (st_accounts ?st) b' = Some x'"
      "rb_global x = rb_global x'"
    then have x: "(if b = a then Some ?rb else dict_get (st_accounts st) b) = Some x"
        "(if b' = a then Some ?rb else dict_get (st_accounts st) b') = Some x'" "rb_global x = rb_global x'"
      by (simp_all add: dict_get_set)
    show "b = b'"
      using x lt [of b x] lt [of b' x'] wf_storesD(4) [OF wf, of b x b' x']
      by (cases "b = a"; cases "b' = a") auto
  qed (use wf_storesD(5) [OF wf] in simp)
  moreover have "account_value ?st b n = account_value st b n" for b n
  proof (cases "dict_get (st_accounts st) b")
    case None
    then show ?thesis by (simp add: account_value_def dict_get_set)
  next
    case (Some x)
    with \<open>dict_get (st_accounts st) a = None\<close> lt [OF Some] show ?thesis
      by (auto simp: account_value_def dict_get_set)
  qed
  moreover have "local_value ?st b r n = local_value st b r n" for b r n
    unfolding local_value_def at by (simp split: option.split)
  moreover have "st_universal st \<noteq> st_next st" using wf_storesD(5) [OF wf] by simp
  ultimately have "attr_view c' ?st = attr_view c' st" by (intro attr_view_cong) simp_all
  moreover have "get_account c a st = (Inr ?rb, ?st)" using None ok by (auto simp: get_account_def Let_def)
  moreover have "dict_get (st_accounts ?st) a = Some ?rb" by (simp add: dict_get_set)
  ultimately show ?thesis using at \<open>wf_stores ?st\<close> by blast
qed

lemma get_region_facts:
  assumes wf: "wf_stores st" and rb: "dict_get (st_accounts st) a = Some rb" and ok: "valid_region c r"
  shows "\<exists>ref st'. get_region c a rb r st = (Inr ref, st') \<and> wf_stores st' \<and> store_at st' a r = Some ref
    \<and> attr_view c' st' = attr_view c' st"
proof (cases "dict_get (rb_regions rb) r")
  case (Some ref)
  with assms show ?thesis by (auto simp: get_region_def store_at_def)
next
  case None
  let ?obj = "\<lparr>so_attrs = [], so_global = rb_global rb, so_universal = st_universal st, so_account = a, so_region = r\<rparr>"
  let ?rb = "rb\<lparr>rb_regions := dict_set r (st_next st) (rb_regions rb)\<rparr>"
  let ?st = "st\<lparr>st_next := Suc (st_next st), st_objs := (st_objs st)(st_next st \<mapsto> ?obj),
    st_accounts := dict_set a ?rb (st_accounts st)\<rparr>"
  have old: "store_at st a r = None" using None rb by (simp add: store_at_def)
  have at: "store_at ?st b q = (if b = a \<and> q = r then Some (st_next st) else store_at st b q)" for b q
    using rb by (auto simp: store_at_def dict_get_set split: option.split)
  have fresh: "store_at st b q \<noteq> Some (st_next st)" for b q
    using wf_storesD(1) [OF wf] by (metis less_irrefl)
  have accounts: "dict_get (st_accounts ?st) b = (if b = a then Some ?rb else dict_get (st_accounts st) b)" for b
    by (simp add: dict_get_set)
  have "wf_stores ?st"
  proof (rule wf_storesI)
    fix b q ref assume "store_at ?st b q = Some ref"
    then have b: "b = a \<and> q = r \<and> ref = st_next st \<or> store_at st b q = Some ref" by (simp add: at split: if_splits)
    then show "ref < st_next ?st \<and> (\<exists>obj rb. st_objs ?st ref = Some obj \<and> dict_get (st_accounts ?st) b = Some rb
          \<and> so_account obj = b \<and> so_region obj = q \<and> so_global obj = rb_global rb \<and> so_universal obj = st_universal ?st)"
    proof
      assume b: "store_at st b q = Some ref"
      from wf_storesD(1,2) [OF wf b] rb show ?thesis by (auto simp: dict_get_set)
    qed (simp add: dict_get_set)
  next
    fix b x assume "dict_get (st_accounts ?st) b = Some x"
    then show "rb_global x < st_next ?st \<and> rb_global x \<noteq> st_universal ?st"
      using wf_storesD(3) [OF wf] rb by (fastforce simp: dict_get_set split: if_splits)
  next
    fix b b' x x' assume "dict_get (st_accounts ?st) b = Some x" "dict_get (st_accounts ?st) b' = Some x'"
      "rb_global x = rb_global x'"
    then have x: "(if b = a then Some ?rb else dict_get (st_accounts st) b) = Some x"
        "(if b' = a then Some ?rb else dict_get (st_accounts st) b') = Some x'" "rb_global x = rb_global x'"
      by (simp_all add: dict_get_set)
    obtain y where y: "dict_get (st_accounts st) b = Some y" "rb_global y = rb_global x"
      using x(1) rb by (cases "b = a") auto
    obtain y' where y': "dict_get (st_accounts st) b' = Some y'" "rb_global y' = rb_global x'"
      using x(2) rb by (cases "b' = a") auto
    show "b = b'" using wf_storesD(4) [OF wf y(1) y'(1)] y(2) y'(2) x(3) by simp
  qed (use wf_storesD(5) [OF wf] in simp)
  moreover have "account_value ?st b n = account_value st b n" for b n
    using rb by (auto simp: account_value_def dict_get_set split: option.split)
  moreover have "local_value ?st b q n = local_value st b q n" for b q n
  proof (cases "b = a \<and> q = r")
    case True
    then have "store_at ?st b q = Some (st_next st)" by (simp only: at simp_thms if_True)
    with True old show ?thesis by (simp add: local_value_def)
  next
    case False
    then have "store_at ?st b q = store_at st b q" by (simp only: at if_False)
    with fresh [of b q] show ?thesis by (simp add: local_value_def split: option.split)
  qed
  ultimately have "attr_view c' ?st = attr_view c' st" by (intro attr_view_cong) simp_all
  moreover have "get_region c a rb r st = (Inr (st_next st), ?st)"
    using None ok by (auto simp: get_region_def Let_def)
  moreover have "store_at ?st a r = Some (st_next st)" by (simp only: at simp_thms if_True)
  ultimately show ?thesis using \<open>wf_stores ?st\<close> by blast
qed

definition subscription_ok :: "'v store_class \<Rightarrow> string \<Rightarrow> string \<Rightarrow> bool" where
  "subscription_ok c a r = ((\<not> sc_validate c \<or> twelve_digits_prefix a) \<and> valid_region c r)"

lemma get_store_ok:
  assumes "wf_stores st" and "subscription_ok c a r"
  shows "\<exists>ref st'. get_store c a r st = (Inr ref, st') \<and> wf_stores st' \<and> store_at st' a r = Some ref
    \<and> attr_view c' st' = attr_view c' st"
proof -
  obtain rb st1 where 1: "get_account c a st = (Inr rb, st1)" "wf_stores st1" "dict_get (st_accounts st1) a = Some rb"
      "attr_view c' st1 = attr_view c' st"
    using get_account_facts [OF assms(1), of c a c'] assms(2) by (auto simp: subscription_ok_def)
  from get_region_facts [OF 1(2,3), of c r c'] assms(2) 1 show ?thesis
    by (auto simp: get_store_def subscription_ok_def)
qed

lemma get_store_invalid:
  assumes "wf_stores st" and "\<not> subscription_ok c a r"
  shows "\<exists>st'. get_store c a r st = (Inl ValueError, st') \<and> wf_stores st' \<and> store_at st' = store_at st
    \<and> attr_view c' st' = attr_view c' st"
proof (cases "\<not> sc_validate c \<or> twelve_digits_prefix a")
  case False
  with assms show ?thesis by (auto simp: get_store_def get_account_def)
next
  case True
  obtain rb st1 where 1: "get_account c a st = (Inr rb, st1)" "wf_stores st1" "store_at st1 = store_at st"
      "attr_view c' st1 = attr_view c' st"
    using get_account_facts [OF assms(1) True, of c'] by blast
  with True assms(2) show ?thesis by (auto simp: get_store_def get_region_def subscription_ok_def)
qed

subsection \<open>Lemmas: attributes\<close>

text \<open>How far an attribute is visible: in its store, in all regions of the account, everywhere.\<close>

primrec visible :: "scope \<Rightarrow> string \<times> string \<Rightarrow> string \<times> string \<Rightarrow> bool" where
  "visible LocalAttribute p q = (p = q)"
| "visible CrossRegionAttribute p q = (fst p = fst q)"
| "visible CrossAccountAttribute p q = True"

lemma update_attrs_facts:
  fixes st :: "'v stores" and d :: "(string, 'v) dict"
  assumes wf: "wf_stores st" and at: "store_at st a r = Some ref" and obj: "st_objs st ref = Some obj"
  defines "st' \<equiv> st\<lparr>st_objs := (st_objs st)(ref \<mapsto> obj\<lparr>so_attrs := d\<rparr>)\<rparr>"
  shows "wf_stores st'" and "store_at st' = store_at st"
    and "local_value st' b q n = (if b = a \<and> q = r then dict_get d (LOCAL_ATTR_PREFIX @ n) else local_value st b q n)"
    and "account_value st' b n = account_value st b n"
proof -
  show at': "store_at st' = store_at st" by (intro ext) (simp add: st'_def store_at_def)
  show "account_value st' b n = account_value st b n" by (simp add: st'_def account_value_def split: option.split)
  show "wf_stores st'"
  proof (rule wf_storesI)
    fix b q x assume "store_at st' b q = Some x"
    then have x: "store_at st b q = Some x" by (simp add: at')
    from wf_storesD(1,2) [OF wf x] obj
    show "x < st_next st' \<and> (\<exists>obj rb. st_objs st' x = Some obj \<and> dict_get (st_accounts st') b = Some rb
          \<and> so_account obj = b \<and> so_region obj = q \<and> so_global obj = rb_global rb \<and> so_universal obj = st_universal st')"
      by (cases "x = ref") (auto simp: st'_def)
  qed (use wf_storesD(3-5) [OF wf] in \<open>simp_all add: st'_def\<close>)
  show "local_value st' b q n = (if b = a \<and> q = r then dict_get d (LOCAL_ATTR_PREFIX @ n) else local_value st b q n)"
  proof (cases "b = a \<and> q = r")
    case True
    with at show ?thesis by (simp add: local_value_def at') (simp add: st'_def)
  next
    case False
    then have "store_at st b q \<noteq> Some ref" using store_at_unique [OF wf at, of b q] by blast
    with False show ?thesis unfolding local_value_def at' by (auto simp: st'_def split: option.split)
  qed
qed

lemma update_dict_facts:
  fixes st :: "'v stores" and d :: "(string, 'v) dict" and dref :: nat
  assumes wf: "wf_stores st"
  defines "st' \<equiv> st\<lparr>st_dicts := (st_dicts st)(dref := d)\<rparr>"
  shows "wf_stores st'" and "store_at st' = store_at st" and "local_value st' b q n = local_value st b q n"
    and "account_value st' b n = (case dict_get (st_accounts st) b of None \<Rightarrow> None
      | Some rb \<Rightarrow> if rb_global rb = dref then dict_get d n else account_value st b n)"
proof -
  show at': "store_at st' = store_at st" by (intro ext) (simp add: st'_def store_at_def)
  show "wf_stores st'" using wf unfolding wf_stores_def at' by (simp add: st'_def)
  show "local_value st' b q n = local_value st b q n" by (simp add: local_value_def at') (simp add: st'_def split: option.split)
  show "account_value st' b n = (case dict_get (st_accounts st) b of None \<Rightarrow> None
      | Some rb \<Rightarrow> if rb_global rb = dref then dict_get d n else account_value st b n)"
    by (simp add: st'_def account_value_def split: option.split)
qed

lemma set_attr_facts:
  assumes wf: "wf_stores st" and at: "store_at st a r = Some ref" and attr: "map_of (sc_attributes c) n = Some (s, d)"
  shows "\<exists>st'. set_attr c ref n v st = (Inr (), st') \<and> wf_stores st' \<and> store_at st' = store_at st
    \<and> (\<forall>b q m. attr_view c st' b q m = (if m = n \<and> visible s (a, r) (b, q) then Some v else attr_view c st b q m))"
proof -
  obtain obj rb where obj: "st_objs st ref = Some obj" "dict_get (st_accounts st) a = Some rb"
      "so_global obj = rb_global rb" "so_universal obj = st_universal st"
    using wf_storesD(2) [OF wf at] by blast
  show ?thesis
  proof (cases s)
    case LocalAttribute
    let ?st = "st\<lparr>st_objs := (st_objs st)(ref \<mapsto> obj\<lparr>so_attrs := dict_set (LOCAL_ATTR_PREFIX @ n) v (so_attrs obj)\<rparr>)\<rparr>"
    note f = update_attrs_facts [OF wf at obj(1), of "dict_set (LOCAL_ATTR_PREFIX @ n) v (so_attrs obj)"]
    have lv: "local_value st a r m = dict_get (so_attrs obj) (LOCAL_ATTR_PREFIX @ m)" for m
      using at obj(1) by (simp add: local_value_def)
    have "attr_view c ?st b q m = (if m = n \<and> visible s (a, r) (b, q) then Some v else attr_view c st b q m)" for b q m
      unfolding attr_view_def f(3,4) LocalAttribute
      using attr LocalAttribute lv
      by (auto simp: dict_get_set or_default_def split: option.split prod.split scope.split)
    moreover have "set_attr c ref n v st = (Inr (), ?st)"
      using obj attr LocalAttribute by (simp add: set_attr_def local_set_def)
    ultimately show ?thesis using f(1,2) by blast
  next
    case CrossRegionAttribute
    let ?st = "st\<lparr>st_dicts := (st_dicts st)(rb_global rb := dict_set n v (st_dicts st (rb_global rb)))\<rparr>"
    note f = update_dict_facts [OF wf, of "rb_global rb" "dict_set n v (st_dicts st (rb_global rb))"]
    have av: "account_value ?st b m = (if b = a \<and> m = n then Some v else account_value st b m)" for b m
    proof (cases "b = a")
      case True
      with obj(2) show ?thesis by (simp add: account_value_def dict_get_set)
    next
      case False
      then have "rb_global x \<noteq> rb_global rb" if "dict_get (st_accounts st) b = Some x" for x
        using wf_storesD(4) [OF wf obj(2) that] by auto
      with False show ?thesis by (auto simp: account_value_def split: option.split)
    qed
    have uni: "st_universal st \<noteq> rb_global rb" using wf_storesD(3) [OF wf obj(2)] by simp
    have "attr_view c ?st b q m = (if m = n \<and> visible s (a, r) (b, q) then Some v else attr_view c st b q m)" for b q m
      unfolding attr_view_def f(3) av CrossRegionAttribute
      using attr CrossRegionAttribute uni
      by (auto simp: or_default_def split: option.split prod.split scope.split)
    moreover have "set_attr c ref n v st = (Inr (), ?st)"
      using obj attr CrossRegionAttribute by (simp add: set_attr_def shared_set_def)
    ultimately show ?thesis using f(1,2) by blast
  next
    case CrossAccountAttribute
    let ?u = "st_universal st"
    let ?st = "st\<lparr>st_dicts := (st_dicts st)(?u := dict_set n v (st_dicts st ?u))\<rparr>"
    note f = update_dict_facts [OF wf, of ?u "dict_set n v (st_dicts st ?u)"]
    have av: "account_value ?st b m = account_value st b m" for b m
      using wf_storesD(3) [OF wf, of b] by (auto simp: account_value_def split: option.split)
    have "attr_view c ?st b q m = (if m = n \<and> visible s (a, r) (b, q) then Some v else attr_view c st b q m)" for b q m
      unfolding attr_view_def f(3) av CrossAccountAttribute
      using attr CrossAccountAttribute
      by (auto simp: or_default_def dict_get_set split: option.split prod.split scope.split)
    moreover have "set_attr c ref n v st = (Inr (), ?st)"
      using obj attr CrossAccountAttribute by (simp add: set_attr_def shared_set_def)
    ultimately show ?thesis using f(1,2) by blast
  qed
qed

text \<open>A read returns what the view shows and leaves the view as it is.\<close>

lemma get_attr_default:
  assumes "get_attr c ref n st = (Inr v, st')"
  shows "st' = st \<or> set_attr c ref n v st = (Inr (), st')"
  using assms
  by (auto simp: get_attr_def set_attr_def local_get_def local_set_def shared_get_def shared_set_def
      split: option.splits prod.splits scope.splits)

lemma get_attr_facts:
  assumes wf: "wf_stores st" and at: "store_at st a r = Some ref" and attr: "map_of (sc_attributes c) n = Some (s, d)"
  shows "\<exists>v st'. get_attr c ref n st = (Inr v, st') \<and> attr_view c st a r n = Some v \<and> wf_stores st'
    \<and> store_at st' = store_at st \<and> attr_view c st' = attr_view c st"
proof -
  obtain obj rb where obj: "st_objs st ref = Some obj" "dict_get (st_accounts st) a = Some rb"
      "so_global obj = rb_global rb" "so_universal obj = st_universal st"
    using wf_storesD(2) [OF wf at] by blast
  obtain v st' where g: "get_attr c ref n st = (Inr v, st')" "attr_view c st a r n = Some v"
    using obj at attr
    by (cases s; cases "dict_get (so_attrs obj) (LOCAL_ATTR_PREFIX @ n)"; cases "dict_get (st_dicts st (so_global obj)) n";
        cases "dict_get (st_dicts st (so_universal obj)) n")
      (simp_all add: get_attr_def local_get_def shared_get_def attr_view_def local_value_def account_value_def or_default_def)
  have view: "attr_view c st b q n = Some v" if "visible s (a, r) (b, q)" for b q
    using that g(2) attr at by (cases s) (auto simp: attr_view_def account_value_def)
  show ?thesis
  proof (cases "st' = st")
    case True
    with g wf show ?thesis by blast
  next
    case False
    then have "set_attr c ref n v st = (Inr (), st')" using get_attr_default [OF g(1)] by blast
    with set_attr_facts [OF wf at attr, of v]
    have "wf_stores st'" "store_at st' = store_at st"
      "\<And>b q m. attr_view c st' b q m = (if m = n \<and> visible s (a, r) (b, q) then Some v else attr_view c st b q m)"
      by auto
    with g view show ?thesis by (auto intro!: ext)
  qed
qed

subsection \<open>The interface a provider programs against\<close>

text \<open>
  A provider subscribes with an account and a region and reads and writes attributes of the store it
  gets. \<open>view\<close> is what each store shows; a subscription and a read leave it unchanged, a write of
  a local attribute changes it in one place.
\<close>

locale region_store =
  fixes inv :: "'s \<Rightarrow> bool"
    and view :: "'s \<Rightarrow> string \<Rightarrow> string \<Rightarrow> string \<Rightarrow> 'v option"
    and place :: "'s \<Rightarrow> string \<Rightarrow> string \<Rightarrow> 'r option"
    and ok :: "string \<Rightarrow> string \<Rightarrow> bool"
    and local_attr :: "string \<Rightarrow> bool"
    and subscribe :: "string \<Rightarrow> string \<Rightarrow> ('s, 'r) prog"
    and read :: "'r \<Rightarrow> string \<Rightarrow> ('s, 'v) prog"
    and update :: "'r \<Rightarrow> string \<Rightarrow> 'v \<Rightarrow> ('s, unit) prog"
  assumes subscribe_ok: "inv s \<Longrightarrow> ok a r \<Longrightarrow>
      \<exists>ref s'. subscribe a r s = (Inr ref, s') \<and> inv s' \<and> place s' a r = Some ref \<and> view s' = view s"
    and subscribe_bad: "inv s \<Longrightarrow> \<not> ok a r \<Longrightarrow>
      \<exists>s'. subscribe a r s = (Inl ValueError, s') \<and> inv s' \<and> view s' = view s"
    and read_law: "inv s \<Longrightarrow> place s a r = Some ref \<Longrightarrow> local_attr n \<Longrightarrow>
      \<exists>v s'. read ref n s = (Inr v, s') \<and> view s a r n = Some v \<and> inv s' \<and> place s' = place s \<and> view s' = view s"
    and write_law: "inv s \<Longrightarrow> place s a r = Some ref \<Longrightarrow> local_attr n \<Longrightarrow>
      \<exists>s'. update ref n v s = (Inr (), s') \<and> inv s' \<and> place s' = place s
        \<and> (\<forall>b q m. view s' b q m = (if b = a \<and> q = r \<and> m = n then Some v else view s b q m))"
begin

lemma read_value:
  assumes "inv s" and "place s a r = Some ref" and "local_attr n" and "view s a r n = Some v"
  obtains s' where "read ref n s = (Inr v, s')" "inv s'" "place s' = place s" "view s' = view s"
  using read_law [OF assms(1-3)] assms(4) by auto

lemma write_value:
  assumes "inv s" and "place s a r = Some ref" and "local_attr n"
  obtains s' where "update ref n v s = (Inr (), s')" "inv s'" "place s' = place s"
    "\<And>b q m. view s' b q m = (if b = a \<and> q = r \<and> m = n then Some v else view s b q m)"
  using write_law [OF assms, of v] by blast

lemma subscribed:
  assumes "inv s" and "ok a r"
  obtains ref s' where "subscribe a r s = (Inr ref, s')" "inv s'" "place s' a r = Some ref" "view s' = view s"
  using subscribe_ok [OF assms] by blast

end

definition is_local :: "'v store_class \<Rightarrow> string \<Rightarrow> bool" where
  "is_local c n = (case map_of (sc_attributes c) n of Some (LocalAttribute, d) \<Rightarrow> True | _ \<Rightarrow> False)"

lemma is_localD: "is_local c n \<Longrightarrow> \<exists>d. map_of (sc_attributes c) n = Some (LocalAttribute, d)"
  by (auto simp: is_local_def split: option.splits prod.splits scope.splits)

interpretation region_stores: region_store wf_stores "attr_view c" store_at "subscription_ok c" "is_local c"
    "get_store c" "get_attr c" "set_attr c" for c :: "'v store_class"
proof unfold_locales
  fix s :: "'v stores" and a r
  assume "wf_stores s" "subscription_ok c a r"
  then show "\<exists>ref s'. get_store c a r s = (Inr ref, s') \<and> wf_stores s' \<and> store_at s' a r = Some ref \<and> attr_view c s' = attr_view c s"
    by (rule get_store_ok)
next
  fix s :: "'v stores" and a r
  assume "wf_stores s" "\<not> subscription_ok c a r"
  then show "\<exists>s'. get_store c a r s = (Inl ValueError, s') \<and> wf_stores s' \<and> attr_view c s' = attr_view c s"
    using get_store_invalid by blast
next
  fix s :: "'v stores" and a r ref n
  assume "wf_stores s" "store_at s a r = Some ref" "is_local c n"
  then show "\<exists>v s'. get_attr c ref n s = (Inr v, s') \<and> attr_view c s a r n = Some v \<and> wf_stores s' \<and> store_at s' = store_at s
      \<and> attr_view c s' = attr_view c s"
    using get_attr_facts is_localD by metis
next
  fix s :: "'v stores" and a r ref n v
  assume "wf_stores s" "store_at s a r = Some ref" "is_local c n"
  moreover from this obtain d where "map_of (sc_attributes c) n = Some (LocalAttribute, d)" using is_localD by blast
  ultimately obtain s' where "set_attr c ref n v s = (Inr (), s')" "wf_stores s'" "store_at s' = store_at s"
      "\<forall>b q m. attr_view c s' b q m = (if m = n \<and> visible LocalAttribute (a, r) (b, q) then Some v else attr_view c s b q m)"
    using set_attr_facts by metis
  then show "\<exists>s'. set_attr c ref n v s = (Inr (), s') \<and> wf_stores s' \<and> store_at s' = store_at s
      \<and> (\<forall>b q m. attr_view c s' b q m = (if b = a \<and> q = r \<and> m = n then Some v else attr_view c s b q m))"
    by (intro exI [of _ s']) auto
qed

subsection \<open>Lemmas: reset\<close>

text \<open>
  Along a reset objects only lose attributes and dictionaries only become empty; a store that has
  been cleared stays cleared.
\<close>

definition shrinks :: "'v stores \<Rightarrow> 'v stores \<Rightarrow> bool" where
  "shrinks st st' \<longleftrightarrow>
     (\<forall>ref obj. st_objs st ref = Some obj \<longrightarrow> (\<exists>obj'. st_objs st' ref = Some obj' \<and> so_global obj' = so_global obj
        \<and> so_universal obj' = so_universal obj \<and> set (so_attrs obj') \<subseteq> set (so_attrs obj)))
     \<and> (\<forall>d. st_dicts st' d = st_dicts st d \<or> st_dicts st' d = []) \<and> st_universal st' = st_universal st"

definition cleared :: "nat \<Rightarrow> 'v stores \<Rightarrow> bool" where
  "cleared ref st \<longleftrightarrow>
     (\<exists>obj. st_objs st ref = Some obj \<and> (\<forall>n v. (LOCAL_ATTR_PREFIX @ n, v) \<notin> set (so_attrs obj))
        \<and> st_dicts st (so_global obj) = [] \<and> st_dicts st (so_universal obj) = [])"

lemma shrinks_refl: "shrinks st st"
  by (simp add: shrinks_def)

lemma shrinksD:
  assumes "shrinks st st'"
  shows "st_objs st ref = Some obj \<Longrightarrow> \<exists>obj'. st_objs st' ref = Some obj' \<and> so_global obj' = so_global obj
        \<and> so_universal obj' = so_universal obj \<and> set (so_attrs obj') \<subseteq> set (so_attrs obj)"
    and "st_dicts st' d = st_dicts st d \<or> st_dicts st' d = []" and "st_universal st' = st_universal st"
  using assms unfolding shrinks_def by blast+

lemma shrinks_trans:
  assumes 1: "shrinks st st'" and 2: "shrinks st' st''"
  shows "shrinks st st''"
  unfolding shrinks_def
proof (intro conjI allI impI)
  fix ref obj assume "st_objs st ref = Some obj"
  then obtain obj' where a: "st_objs st' ref = Some obj'" "so_global obj' = so_global obj"
      "so_universal obj' = so_universal obj" "set (so_attrs obj') \<subseteq> set (so_attrs obj)"
    using shrinksD(1) [OF 1] by blast
  from shrinksD(1) [OF 2 a(1)] a(2-4)
  show "\<exists>obj'. st_objs st'' ref = Some obj' \<and> so_global obj' = so_global obj
        \<and> so_universal obj' = so_universal obj \<and> set (so_attrs obj') \<subseteq> set (so_attrs obj)"
    by auto
next
  fix d
  show "st_dicts st'' d = st_dicts st d \<or> st_dicts st'' d = []"
    using shrinksD(2) [OF 1, of d] shrinksD(2) [OF 2, of d] by auto
qed (simp add: shrinksD(3) [OF 1] shrinksD(3) [OF 2])

lemma cleared_shrinks:
  assumes "cleared ref st" and sh: "shrinks st st'"
  shows "cleared ref st'"
proof -
  obtain obj where obj: "st_objs st ref = Some obj" "\<forall>n v. (LOCAL_ATTR_PREFIX @ n, v) \<notin> set (so_attrs obj)"
      "st_dicts st (so_global obj) = []" "st_dicts st (so_universal obj) = []"
    using assms(1) by (auto simp: cleared_def)
  obtain obj' where "st_objs st' ref = Some obj'" "so_global obj' = so_global obj"
      "so_universal obj' = so_universal obj" "set (so_attrs obj') \<subseteq> set (so_attrs obj)"
    using shrinksD(1) [OF sh obj(1)] by blast
  with obj shrinksD(2) [OF sh, of "so_global obj"] shrinksD(2) [OF sh, of "so_universal obj"]
  show ?thesis by (auto simp: cleared_def)
qed

lemma clear_store_shrinks: "shrinks st (clear_store u ref st)"
  by (auto simp: shrinks_def clear_store_def Let_def split: option.split)

lemma clear_store_cleared: "st_objs st ref \<noteq> None \<Longrightarrow> cleared ref (clear_store True ref st)"
  by (auto simp: cleared_def clear_store_def Let_def str_simps)

lemma fold_shrinks: "(\<And>x st. shrinks st (f x st)) \<Longrightarrow> shrinks st (fold f xs st)"
  by (induction xs arbitrary: st) (auto intro: shrinks_refl shrinks_trans)

lemma shrinks_objs: "shrinks st st' \<Longrightarrow> st_objs st ref \<noteq> None \<Longrightarrow> st_objs st' ref \<noteq> None"
  by (fastforce simp: shrinks_def)

lemma fold_cleared:
  assumes "\<And>x st. shrinks st (f x st)" and "x \<in> set xs"
    and "\<And>st. st_objs st ref \<noteq> None \<Longrightarrow> cleared ref (f x st)"
  shows "st_objs st ref \<noteq> None \<Longrightarrow> cleared ref (fold f xs st)"
  using assms(2)
proof (induction xs arbitrary: st)
  case Nil
  then show ?case by simp
next
  case (Cons y xs)
  show ?case
  proof (cases "x = y")
    case True
    with assms(3) Cons.prems(1) have "cleared ref (f y st)" by blast
    then show ?thesis using cleared_shrinks fold_shrinks [where f = f, OF assms(1)] by fastforce
  next
    case False
    then have "x \<in> set xs" using Cons.prems(2) by simp
    moreover have "st_objs (f y st) ref \<noteq> None" using shrinks_objs assms(1) Cons.prems(1) by blast
    ultimately show ?thesis using Cons.IH by simp
  qed
qed

lemma reset_region_bundle_shrinks: "shrinks st (reset_region_bundle u a rb st)"
proof -
  let ?st = "fold (clear_store u) (dict_values (rb_regions rb)) st"
  have 1: "shrinks st ?st" by (rule fold_shrinks) (rule clear_store_shrinks)
  have "shrinks ?st (reset_region_bundle u a rb st)"
    by (simp add: reset_region_bundle_def Let_def shrinks_def)
  with 1 show ?thesis by (rule shrinks_trans)
qed

lemma reset_region_bundle_cleared:
  assumes "ref \<in> set (dict_values (rb_regions rb))" and "st_objs st ref \<noteq> None"
  shows "cleared ref (reset_region_bundle True a rb st)"
proof -
  let ?st = "fold (clear_store True) (dict_values (rb_regions rb)) st"
  have "cleared ref ?st"
    by (rule fold_cleared [where f = "clear_store True", OF clear_store_shrinks assms(1) clear_store_cleared assms(2)])
  moreover have "shrinks ?st (reset_region_bundle True a rb st)"
    by (simp add: reset_region_bundle_def Let_def shrinks_def)
  ultimately show ?thesis by (rule cleared_shrinks)
qed

lemma reset_stores_cleared:
  assumes "wf_stores st" and at: "store_at st a r = Some ref"
  shows "cleared ref (reset_stores st)"
proof -
  obtain rb where rb: "dict_get (st_accounts st) a = Some rb" "dict_get (rb_regions rb) r = Some ref"
    using at by (auto simp: store_at_def split: option.splits)
  have ref: "ref \<in> set (dict_values (rb_regions rb))" using map_of_SomeD [OF rb(2)] by force
  have objs: "st_objs st ref \<noteq> None" using wf_storesD(2) [OF assms] by blast
  let ?f = "\<lambda>(a, rb). reset_region_bundle True a rb"
  have sh: "shrinks s (?f x s)" for x and s :: "'a stores" by (cases x) (simp add: reset_region_bundle_shrinks)
  have "cleared ref (?f (a, rb) s)" if "st_objs s ref \<noteq> None" for s :: "'a stores"
    using reset_region_bundle_cleared [OF ref that] by simp
  then have "cleared ref (fold ?f (st_accounts st) st)"
    by (rule fold_cleared [where f = ?f, OF sh map_of_SomeD [OF rb(1)] _ objs])
  moreover have "shrinks (fold ?f (st_accounts st) st) (reset_stores st)"
    by (simp add: reset_stores_def Let_def shrinks_def)
  ultimately show ?thesis by (rule cleared_shrinks)
qed

lemma cleared_get_attr:
  assumes "cleared ref st" and "map_of (sc_attributes c) n = Some (s, d)"
  shows "\<exists>st'. get_attr c ref n st = (Inr d, st')"
proof -
  obtain obj where obj: "st_objs st ref = Some obj" "\<forall>n v. (LOCAL_ATTR_PREFIX @ n, v) \<notin> set (so_attrs obj)"
      "st_dicts st (so_global obj) = []" "st_dicts st (so_universal obj) = []"
    using assms(1) by (auto simp: cleared_def)
  have "dict_get (so_attrs obj) (LOCAL_ATTR_PREFIX @ n) = None"
    using obj(2) by (cases "dict_get (so_attrs obj) (LOCAL_ATTR_PREFIX @ n)") (auto dest: map_of_SomeD)
  with obj assms(2) show ?thesis by (cases s) (simp_all add: get_attr_def local_get_def shared_get_def)
qed

subsection \<open>Properties\<close>

text \<open>
  C7: A write through a store is visible exactly within the scope of the attribute: in that account
  and region for a local attribute, in every region of that account for a cross-region one, for every
  account for a cross-account one; every other attribute and every other place keep their value,
  whichever references the stores share.
\<close>

theorem store_write_scope:
  assumes "wf_stores st" and "subscription_ok c a r" and "map_of (sc_attributes c) n = Some (s, d)"
  shows "\<exists>ref st1 st2. get_store c a r st = (Inr ref, st1) \<and> set_attr c ref n v st1 = (Inr (), st2) \<and> wf_stores st2
    \<and> (\<forall>b q m. attr_view c st2 b q m = (if m = n \<and> visible s (a, r) (b, q) then Some v else attr_view c st b q m))"
proof -
  obtain ref st1 where 1: "get_store c a r st = (Inr ref, st1)" "wf_stores st1" "store_at st1 a r = Some ref"
      "attr_view c st1 = attr_view c st"
    using region_stores.subscribed [OF assms(1,2)] .
  from set_attr_facts [OF 1(2,3) assms(3), of v] 1(1,4) show ?thesis by auto
qed

definition example_class :: "nat store_class" where
  "example_class = \<lparr>sc_attributes = [(''things'', LocalAttribute, 0), (''shared'', CrossRegionAttribute, 7)],
     sc_valid_regions = [''us-east-1''], sc_validate = True, sc_allow_nonstandard = False\<rparr>"

lemma example_subscription: "subscription_ok example_class ''000000000000'' ''us-east-1''"
  by (simp add: subscription_ok_def valid_region_def example_class_def twelve_digits_prefix_def is_digit_def)

lemma store_write_scope_witness:
  "\<exists>ref st1 st2. get_store example_class ''000000000000'' ''us-east-1'' new_bundle = (Inr ref, st1)
    \<and> set_attr example_class ref ''shared'' 9 st1 = (Inr (), st2)
    \<and> attr_view example_class st2 ''000000000000'' ''eu-west-1'' ''shared'' = Some 9"
  using store_write_scope [OF wf_new_bundle example_subscription, of "''shared''" CrossRegionAttribute 7 9]
  by (fastforce simp: example_class_def)

text \<open>
  C8: After a reset no data survives, not even through a reference that was obtained before it: a
  read of any attribute through an old store returns the default, and every store shows defaults.
\<close>

theorem reset_forgets_everything:
  assumes "wf_stores st" and "store_at st a r = Some ref" and "map_of (sc_attributes c) n = Some (s, d)"
  shows "(\<exists>st'. get_attr c ref n (reset_stores st) = (Inr d, st'))
    \<and> attr_view c (reset_stores st) b q n = Some d \<and> iter_stores (reset_stores st) = []"
proof -
  have acc: "st_accounts (reset_stores st) = []" by (simp add: reset_stores_def Let_def)
  have uni: "st_dicts (reset_stores st) (st_universal (reset_stores st)) = []"
    by (simp add: reset_stores_def Let_def)
  have "attr_view c (reset_stores st) b q n = Some d"
    using assms(3) by (cases s)
      (simp_all add: attr_view_def local_value_def account_value_def store_at_def acc uni or_default_def)
  with cleared_get_attr [OF reset_stores_cleared [OF assms(1,2)] assms(3)] acc show ?thesis
    by (simp add: iter_stores_def)
qed

lemma reset_forgets_everything_witness:
  "\<exists>ref st1 st2 st3. get_store example_class ''000000000000'' ''us-east-1'' new_bundle = (Inr ref, st1)
    \<and> set_attr example_class ref ''things'' 5 st1 = (Inr (), st2)
    \<and> get_attr example_class ref ''things'' (reset_stores st2) = (Inr 0, st3)"
proof -
  obtain ref st1 where 1: "get_store example_class ''000000000000'' ''us-east-1'' new_bundle = (Inr ref, st1)"
      "wf_stores st1" "store_at st1 ''000000000000'' ''us-east-1'' = Some ref"
    using region_stores.subscribed [OF wf_new_bundle example_subscription] by metis
  have attr: "map_of (sc_attributes example_class) ''things'' = Some (LocalAttribute, 0)"
    by (simp add: example_class_def)
  obtain st2 where 2: "set_attr example_class ref ''things'' 5 st1 = (Inr (), st2)" "wf_stores st2"
      "store_at st2 ''000000000000'' ''us-east-1'' = Some ref"
    using set_attr_facts [OF 1(2,3) attr, of 5] 1(3) by metis
  from reset_forgets_everything [OF 2(2,3) attr] 1(1) 2(1) show ?thesis by blast
qed

end
