(* ===== verification/TransferProvider.thy ===== *)
theory TransferProvider
  imports Stores
begin

text \<open>
  A provider on top of the stores: the Transfer service (\<open>services/transfer/models.py\<close> and
  \<open>provider.py\<close>). Its handlers are programs over the store heap; the abstract specification of
  a handler is a function on the servers and users of one region, and the refinement shows that the
  handlers implement it in the region of the request and leave every other region alone.
\<close>

subsection \<open>Data\<close>

record server_instance =
  srv_id :: string
  srv_arn :: string
  srv_state :: string

record user_instance =
  usr_name :: string
  usr_server :: string
  usr_role :: string
  usr_arn :: string

type_synonym servers = "(string, server_instance) dict"
type_synonym users = "(string, (string, user_instance) dict) dict"

text \<open>The values of the store's attributes.\<close>

datatype transfer_value = Servers servers | Users users

fun servers_of :: "transfer_value \<Rightarrow> servers" where
  "servers_of (Servers d) = d"
| "servers_of (Users d) = []"

fun users_of :: "transfer_value \<Rightarrow> users" where
  "users_of (Users d) = d"
| "users_of (Servers d) = []"

text \<open>\<open>TransferStore\<close>: both attributes are local, with an empty dictionary as default.\<close>

definition transfer_store :: "string list \<Rightarrow> bool \<Rightarrow> transfer_value store_class" where
  "transfer_store regions nonstandard =
     \<lparr>sc_attributes = [(''servers'', LocalAttribute, Servers []), (''users'', LocalAttribute, Users [])],
      sc_valid_regions = regions, sc_validate = True, sc_allow_nonstandard = nonstandard\<rparr>"

record request_context =
  ctx_account :: string
  ctx_region :: string

subsection \<open>Validation and identifiers\<close>

definition is_hex :: "char \<Rightarrow> bool" where
  "is_hex c = (is_digit c \<or> c \<in> {CHR ''a'', CHR ''b'', CHR ''c'', CHR ''d'', CHR ''e'', CHR ''f''})"

text \<open>The anchor \<open>$\<close> also matches before a final line break.\<close>

definition valid_server_id :: "string \<Rightarrow> bool" where
  "valid_server_id s =
     (let body = drop 2 s in
      starts_with ''s-'' s \<and> 17 \<le> length body \<and> list_all is_hex (take 17 body) \<and> drop 17 body \<in> {[], [char_of (10 :: nat)]})"

abbreviation ValidationException :: exn where
  "ValidationException \<equiv> UserError ''CommonServiceException'' ''ValidationException''"

abbreviation UnknownServer :: exn where
  "UnknownServer \<equiv> UserError ''ResourceNotFoundException'' ''Unknown server''"

abbreviation UnknownUser :: exn where
  "UnknownUser \<equiv> UserError ''ResourceNotFoundException'' ''Unknown user''"

abbreviation UserExists :: exn where
  "UserExists \<equiv> UserError ''ResourceExistsException'' ''User already exists''"

definition validate_server_id :: "string \<Rightarrow> ('s, unit) prog" where
  "validate_server_id s = (if valid_server_id s then return_s () else raise_s ValidationException)"

text \<open>\<open>uid\<close> is the random UUID \<open>long_uid\<close> returns.\<close>

definition generate_server_id :: "string \<Rightarrow> string" where
  "generate_server_id uid = ''s-'' @ take 17 (filter (\<lambda>c. c \<noteq> CHR ''-'') uid)"

definition server_arn :: "request_context \<Rightarrow> string \<Rightarrow> string" where
  "server_arn ctx sid = ''arn:aws:transfer:'' @ ctx_region ctx @ '':'' @ ctx_account ctx @ '':server/'' @ sid"

definition user_arn :: "request_context \<Rightarrow> string \<Rightarrow> string \<Rightarrow> string" where
  "user_arn ctx sid name = ''arn:aws:transfer:'' @ ctx_region ctx @ '':'' @ ctx_account ctx @ '':user/'' @ sid @ ''/'' @ name"

subsection \<open>Handlers\<close>

type_synonym transfer_state = "transfer_value stores"

datatype response =
    ServerCreated string
  | ServerDescribed server_instance
  | UserCreated string string
  | UsersListed string "(string \<times> string \<times> string) list"
  | UserDeleted

definition get_servers :: "transfer_value store_class \<Rightarrow> nat \<Rightarrow> (transfer_state, servers) prog" where
  "get_servers c store = bind_s (get_attr c store ''servers'') (\<lambda>v. return_s (servers_of v))"

definition get_users :: "transfer_value store_class \<Rightarrow> nat \<Rightarrow> (transfer_state, users) prog" where
  "get_users c store = bind_s (get_attr c store ''users'') (\<lambda>v. return_s (users_of v))"

definition create_server :: "transfer_value store_class \<Rightarrow> request_context \<Rightarrow> string \<Rightarrow> (transfer_state, response) prog" where
  "create_server c ctx uid =
     bind_s (get_store c (ctx_account ctx) (ctx_region ctx)) (\<lambda>store.
       let sid = generate_server_id uid;
           server = \<lparr>srv_id = sid, srv_arn = server_arn ctx sid, srv_state = ''ONLINE''\<rparr>
       in bind_s (get_servers c store) (\<lambda>servers.
          bind_s (set_attr c store ''servers'' (Servers (dict_set sid server servers))) (\<lambda>_.
            return_s (ServerCreated sid))))"

text \<open>The check every other handler starts with.\<close>

definition with_server ::
    "transfer_value store_class \<Rightarrow> request_context \<Rightarrow> string \<Rightarrow>
     (nat \<Rightarrow> server_instance \<Rightarrow> (transfer_state, response) prog) \<Rightarrow> (transfer_state, response) prog" where
  "with_server c ctx sid k =
     bind_s (validate_server_id sid) (\<lambda>_.
     bind_s (get_store c (ctx_account ctx) (ctx_region ctx)) (\<lambda>store.
     bind_s (get_servers c store) (\<lambda>servers.
       case dict_get servers sid of
         None \<Rightarrow> raise_s UnknownServer
       | Some server \<Rightarrow> k store server)))"

definition describe_server :: "transfer_value store_class \<Rightarrow> request_context \<Rightarrow> string \<Rightarrow> (transfer_state, response) prog" where
  "describe_server c ctx sid = with_server c ctx sid (\<lambda>store server. return_s (ServerDescribed server))"

definition create_user ::
    "transfer_value store_class \<Rightarrow> request_context \<Rightarrow> string \<Rightarrow> string \<Rightarrow> string \<Rightarrow> (transfer_state, response) prog" where
  "create_user c ctx role sid name = with_server c ctx sid (\<lambda>store server.
     bind_s (get_users c store) (\<lambda>users0.
     bind_s (when_s (dict_get users0 sid = None) (set_attr c store ''users'' (Users (dict_set sid [] users0)))) (\<lambda>_.
     bind_s (get_users c store) (\<lambda>users.
       let of_server = (case dict_get users sid of Some d \<Rightarrow> d | None \<Rightarrow> []);
           user = \<lparr>usr_name = name, usr_server = sid, usr_role = role, usr_arn = user_arn ctx sid name\<rparr>
       in case dict_get of_server name of
            Some _ \<Rightarrow> raise_s UserExists
          | None \<Rightarrow>
              bind_s (set_attr c store ''users'' (Users (dict_set sid (dict_set name user of_server) users))) (\<lambda>_.
                return_s (UserCreated sid name))))))"

definition list_users :: "transfer_value store_class \<Rightarrow> request_context \<Rightarrow> string \<Rightarrow> (transfer_state, response) prog" where
  "list_users c ctx sid = with_server c ctx sid (\<lambda>store server.
     bind_s (get_users c store) (\<lambda>users.
       let of_server = (case dict_get users sid of Some d \<Rightarrow> d | None \<Rightarrow> [])
       in return_s (UsersListed sid (map (\<lambda>u. (usr_arn u, usr_name u, usr_role u)) (dict_values of_server)))))"

definition delete_user ::
    "transfer_value store_class \<Rightarrow> request_context \<Rightarrow> string \<Rightarrow> string \<Rightarrow> (transfer_state, response) prog" where
  "delete_user c ctx sid name = with_server c ctx sid (\<lambda>store server.
     bind_s (get_users c store) (\<lambda>users.
       case dict_get users sid of
         None \<Rightarrow> raise_s UnknownUser
       | Some of_server \<Rightarrow>
           (case dict_get of_server name of
              None \<Rightarrow> raise_s UnknownUser
            | Some _ \<Rightarrow>
                bind_s (set_attr c store ''users'' (Users (dict_set sid (dict_del name of_server) users))) (\<lambda>_.
                  return_s UserDeleted))))"

datatype transfer_op =
    CreateServer string
  | DescribeServer string
  | CreateUser string string string
  | ListUsers string
  | DeleteUser string string

fun handle :: "transfer_value store_class \<Rightarrow> request_context \<Rightarrow> transfer_op \<Rightarrow> (transfer_state, response) prog" where
  "handle c ctx (CreateServer uid) = create_server c ctx uid"
| "handle c ctx (DescribeServer sid) = describe_server c ctx sid"
| "handle c ctx (CreateUser role sid name) = create_user c ctx role sid name"
| "handle c ctx (ListUsers sid) = list_users c ctx sid"
| "handle c ctx (DeleteUser sid name) = delete_user c ctx sid name"

subsection \<open>The abstract specification\<close>

text \<open>What an operation does to the servers and users of its region.\<close>

type_synonym region_state = "servers \<times> users"

definition users_on :: "users \<Rightarrow> string \<Rightarrow> (string, user_instance) dict" where
  "users_on us sid = (case dict_get us sid of Some d \<Rightarrow> d | None \<Rightarrow> [])"

fun spec_body :: "request_context \<Rightarrow> transfer_op \<Rightarrow> region_state \<Rightarrow> response result \<times> region_state" where
  "spec_body ctx (CreateServer uid) (ss, us) =
     (let sid = generate_server_id uid
      in (Inr (ServerCreated sid),
          (dict_set sid \<lparr>srv_id = sid, srv_arn = server_arn ctx sid, srv_state = ''ONLINE''\<rparr> ss, us)))"
| "spec_body ctx (DescribeServer sid) (ss, us) = (Inr (ServerDescribed (the (dict_get ss sid))), (ss, us))"
| "spec_body ctx (CreateUser role sid name) (ss, us) =
     (case dict_get (users_on us sid) name of
        Some _ \<Rightarrow> (Inl UserExists, (ss, us))
      | None \<Rightarrow>
          (Inr (UserCreated sid name),
           (ss, dict_set sid (dict_set name \<lparr>usr_name = name, usr_server = sid, usr_role = role,
                  usr_arn = user_arn ctx sid name\<rparr> (users_on us sid)) us)))"
| "spec_body ctx (ListUsers sid) (ss, us) =
     (Inr (UsersListed sid (map (\<lambda>u. (usr_arn u, usr_name u, usr_role u)) (dict_values (users_on us sid)))), (ss, us))"
| "spec_body ctx (DeleteUser sid name) (ss, us) =
     (case dict_get (users_on us sid) name of
        None \<Rightarrow> (Inl UnknownUser, (ss, us))
      | Some _ \<Rightarrow> (Inr UserDeleted, (ss, dict_set sid (dict_del name (users_on us sid)) us)))"

fun op_server :: "transfer_op \<Rightarrow> string option" where
  "op_server (CreateServer uid) = None"
| "op_server (DescribeServer sid) = Some sid"
| "op_server (CreateUser role sid name) = Some sid"
| "op_server (ListUsers sid) = Some sid"
| "op_server (DeleteUser sid name) = Some sid"

definition spec :: "request_context \<Rightarrow> transfer_op \<Rightarrow> region_state \<Rightarrow> response result \<times> region_state" where
  "spec ctx op rs =
     (case op_server op of
        None \<Rightarrow> spec_body ctx op rs
      | Some sid \<Rightarrow>
          if \<not> valid_server_id sid then (Inl ValidationException, rs)
          else if dict_get (fst rs) sid = None then (Inl UnknownServer, rs)
          else spec_body ctx op rs)"

text \<open>The region of a store heap the specification speaks of.\<close>

definition region_of :: "transfer_value store_class \<Rightarrow> transfer_state \<Rightarrow> string \<Rightarrow> string \<Rightarrow> region_state" where
  "region_of c st a r =
     (case (attr_view c st a r ''servers'', attr_view c st a r ''users'') of
        (Some sv, Some uv) \<Rightarrow> (servers_of sv, users_of uv)
      | _ \<Rightarrow> ([], []))"

subsection \<open>Lemmas: the parts of a handler\<close>

lemma transfer_attributes [simp]:
  "is_local (transfer_store rs ns) ''servers''" "is_local (transfer_store rs ns) ''users''"
  by (simp_all add: is_local_def transfer_store_def)

definition runs_to ::
    "transfer_value store_class \<Rightarrow> transfer_state \<Rightarrow> (transfer_state, 'x) prog \<Rightarrow> 'x result \<Rightarrow>
     (string \<Rightarrow> string \<Rightarrow> region_state) \<Rightarrow> (string \<Rightarrow> string \<Rightarrow> nat option) \<Rightarrow> bool" where
  "runs_to c st m x regions places \<longleftrightarrow>
     (\<exists>st'. m st = (x, st') \<and> wf_stores st' \<and> region_of c st' = regions \<and> store_at st' = places)"

text \<open>The step rule: a program that runs to a value is followed by its continuation.\<close>

lemma runs_to_bind:
  assumes "runs_to c st m (Inr x) regions places"
    and "\<And>st'. wf_stores st' \<Longrightarrow> region_of c st' = regions \<Longrightarrow> store_at st' = places \<Longrightarrow> runs_to c st' (f x) y regions' places'"
  shows "runs_to c st (bind_s m f) y regions' places'"
proof -
  obtain st' where m: "m st = (Inr x, st')" "wf_stores st'" "region_of c st' = regions" "store_at st' = places"
    using assms(1) by (auto simp: runs_to_def)
  from assms(2) [OF m(2-4)] have "runs_to c st' (f x) y regions' places'" .
  with m(1) show ?thesis by (simp add: runs_to_def)
qed

lemma runs_to_return:
  "wf_stores st \<Longrightarrow> runs_to c st (return_s x) (Inr x) (region_of c st) (store_at st)"
  "wf_stores st \<Longrightarrow> runs_to c st (raise_s e) (Inl e) (region_of c st) (store_at st)"
  by (simp_all add: runs_to_def)

lemma region_of_cong: "attr_view c st' = attr_view c st \<Longrightarrow> region_of c st' = region_of c st"
  by (intro ext) (simp add: region_of_def)

lemma transfer_views:
  obtains sv uv where "attr_view (transfer_store rs ns) st a r ''servers'' = Some sv"
    "attr_view (transfer_store rs ns) st a r ''users'' = Some uv"
  by (simp add: attr_view_def transfer_store_def)

lemma get_servers_runs:
  assumes c: "c = transfer_store rs ns" and wf: "wf_stores st" and at: "store_at st a r = Some ref"
  shows "runs_to c st (get_servers c ref) (Inr (fst (region_of c st a r))) (region_of c st) (store_at st)"
proof -
  obtain sv uv where sv: "attr_view c st a r ''servers'' = Some sv" "attr_view c st a r ''users'' = Some uv"
    unfolding c by (rule transfer_views)
  have l: "is_local c ''servers''" unfolding c by (rule transfer_attributes)
  obtain st' where 1: "get_attr c ref ''servers'' st = (Inr sv, st')" "wf_stores st'" "store_at st' = store_at st"
      "attr_view c st' = attr_view c st"
    by (rule region_stores.read_value [OF wf at l sv(1)])
  show ?thesis unfolding runs_to_def
    by (rule exI [of _ st']) (simp add: get_servers_def 1 sv region_of_cong [OF 1(4)] region_of_def)
qed

lemma get_users_runs:
  assumes c: "c = transfer_store rs ns" and wf: "wf_stores st" and at: "store_at st a r = Some ref"
  shows "runs_to c st (get_users c ref) (Inr (snd (region_of c st a r))) (region_of c st) (store_at st)"
proof -
  obtain sv uv where sv: "attr_view c st a r ''servers'' = Some sv" "attr_view c st a r ''users'' = Some uv"
    unfolding c by (rule transfer_views)
  have l: "is_local c ''users''" unfolding c by (rule transfer_attributes)
  obtain st' where 1: "get_attr c ref ''users'' st = (Inr uv, st')" "wf_stores st'" "store_at st' = store_at st"
      "attr_view c st' = attr_view c st"
    by (rule region_stores.read_value [OF wf at l sv(2)])
  show ?thesis unfolding runs_to_def
    by (rule exI [of _ st']) (simp add: get_users_def 1 sv region_of_cong [OF 1(4)] region_of_def)
qed

definition with_region :: "string \<Rightarrow> string \<Rightarrow> region_state \<Rightarrow> (string \<Rightarrow> string \<Rightarrow> region_state) \<Rightarrow> string \<Rightarrow> string \<Rightarrow> region_state" where
  "with_region a r x f b q = (if b = a \<and> q = r then x else f b q)"

lemma with_region_simps [simp]:
  "with_region a r x f a r = x" "with_region a r x (with_region a r y f) = with_region a r x f"
  "with_region a r (f a r) f = f"
  by (auto simp: with_region_def fun_eq_iff)

lemma set_attr_runs:
  assumes c: "c = transfer_store rs ns" and wf: "wf_stores st" and at: "store_at st a r = Some ref"
  shows "runs_to c st (set_attr c ref ''servers'' (Servers ss)) (Inr ())
      (with_region a r (ss, snd (region_of c st a r)) (region_of c st)) (store_at st)" (is ?S)
    and "runs_to c st (set_attr c ref ''users'' (Users us)) (Inr ())
      (with_region a r (fst (region_of c st a r), us) (region_of c st)) (store_at st)" (is ?U)
proof -
  have l: "is_local c ''servers''" "is_local c ''users''" unfolding c by (rule transfer_attributes)+
  obtain st' where 1: "set_attr c ref ''servers'' (Servers ss) st = (Inr (), st')" "wf_stores st'" "store_at st' = store_at st"
      "\<And>b q m. attr_view c st' b q m = (if b = a \<and> q = r \<and> m = ''servers'' then Some (Servers ss) else attr_view c st b q m)"
    using region_stores.write_value [OF wf at l(1)] by blast
  have "region_of c st' b q = with_region a r (ss, snd (region_of c st a r)) (region_of c st) b q" for b q
  proof -
    obtain sv uv where "attr_view c st b q ''servers'' = Some sv" "attr_view c st b q ''users'' = Some uv"
      unfolding c by (rule transfer_views)
    then show ?thesis by (auto simp: region_of_def with_region_def 1(4))
  qed
  then have "region_of c st' = with_region a r (ss, snd (region_of c st a r)) (region_of c st)" by (intro ext)
  with 1(1-3) show ?S unfolding runs_to_def by blast
  obtain st' where 2: "set_attr c ref ''users'' (Users us) st = (Inr (), st')" "wf_stores st'" "store_at st' = store_at st"
      "\<And>b q m. attr_view c st' b q m = (if b = a \<and> q = r \<and> m = ''users'' then Some (Users us) else attr_view c st b q m)"
    using region_stores.write_value [OF wf at l(2)] by blast
  have "region_of c st' b q = with_region a r (fst (region_of c st a r), us) (region_of c st) b q" for b q
  proof -
    obtain sv uv where "attr_view c st b q ''servers'' = Some sv" "attr_view c st b q ''users'' = Some uv"
      unfolding c by (rule transfer_views)
    then show ?thesis by (auto simp: region_of_def with_region_def 2(4))
  qed
  then have "region_of c st' = with_region a r (fst (region_of c st a r), us) (region_of c st)" by (intro ext)
  with 2(1-3) show ?U unfolding runs_to_def by blast
qed

text \<open>\<open>runs_region\<close>: like \<open>runs_to\<close>, where only the outcome in the region counts.\<close>

definition runs_region ::
    "transfer_value store_class \<Rightarrow> transfer_state \<Rightarrow> string \<Rightarrow> string \<Rightarrow> (transfer_state, 'x) prog \<Rightarrow> 'x result \<times> region_state \<Rightarrow> bool" where
  "runs_region c st a r m y \<longleftrightarrow>
     (\<exists>st'. m st = (fst y, st') \<and> wf_stores st' \<and> region_of c st' = with_region a r (snd y) (region_of c st))"

lemma runs_region_of: "runs_to c st m x (with_region a r rs (region_of c st)) places \<Longrightarrow> runs_region c st a r m (x, rs)"
  by (auto simp: runs_to_def runs_region_def)

lemma runs_region_bind:
  assumes "runs_to c st m (Inr x) (with_region a r rs (region_of c st)) places"
    and "\<And>st'. wf_stores st' \<Longrightarrow> region_of c st' = with_region a r rs (region_of c st) \<Longrightarrow> store_at st' = places \<Longrightarrow>
      runs_region c st' a r (f x) y"
  shows "runs_region c st a r (bind_s m f) y"
proof -
  obtain st' where m: "m st = (Inr x, st')" "wf_stores st'" "region_of c st' = with_region a r rs (region_of c st)" "store_at st' = places"
    using assms(1) by (auto simp: runs_to_def)
  from assms(2) [OF m(2-4)] m(1,3) show ?thesis by (simp add: runs_region_def)
qed

lemma runs_region_return:
  "wf_stores st \<Longrightarrow> runs_region c st a r (return_s x) (Inr x, region_of c st a r)"
  "wf_stores st \<Longrightarrow> runs_region c st a r (raise_s e) (Inl e, region_of c st a r)"
  by (simp_all add: runs_region_def)

lemma runs_to_id:
  "runs_to c st m x (region_of c st) places \<Longrightarrow>
   runs_to c st m x (with_region a r (region_of c st a r) (region_of c st)) places"
  by simp

lemma subscribe_runs:
  assumes "wf_stores st" and "subscription_ok c a r"
    and "\<And>ref st'. wf_stores st' \<Longrightarrow> region_of c st' = region_of c st \<Longrightarrow> store_at st' a r = Some ref \<Longrightarrow> runs_region c st' a r (f ref) y"
  shows "runs_region c st a r (bind_s (get_store c a r) f) y"
proof -
  obtain ref st' where 1: "get_store c a r st = (Inr ref, st')" "wf_stores st'" "store_at st' a r = Some ref"
      "attr_view c st' = attr_view c st"
    using region_stores.subscribed [OF assms(1,2)] .
  from region_of_cong [OF 1(4)] assms(3) [OF 1(2) _ 1(3)] 1(1) show ?thesis by (simp add: runs_region_def)
qed

lemma runs_region_read:
  assumes "runs_to c st m (Inr x) (region_of c st) (store_at st)"
    and "\<And>st'. wf_stores st' \<Longrightarrow> region_of c st' = region_of c st \<Longrightarrow> store_at st' = store_at st \<Longrightarrow> runs_region c st' a r (f x) y"
  shows "runs_region c st a r (bind_s m f) y"
proof (rule runs_region_bind [OF runs_to_id [OF assms(1)]])
  fix st' assume 1: "wf_stores st'" "region_of c st' = with_region a r (region_of c st a r) (region_of c st)" "store_at st' = store_at st"
  show "runs_region c st' a r (f x) y" by (rule assms(2) [OF 1(1) _ 1(3)]) (simp add: 1(2))
qed

text \<open>A handler's last step: one write and the response.\<close>

lemma runs_region_write:
  assumes "runs_to c st m (Inr ()) (with_region a r rs (region_of c st)) places"
  shows "runs_region c st a r (bind_s m (\<lambda>u. return_s y)) (Inr y, rs)"
proof (rule runs_region_bind [OF assms])
  fix st' assume "wf_stores st'" "region_of c st' = with_region a r rs (region_of c st)"
  then show "runs_region c st' a r (return_s y) (Inr y, rs)"
    using runs_region_return(1) [of st' c a r y] by simp
qed

lemma with_server_runs:
  assumes c: "c = transfer_store rs ns" and wf: "wf_stores st" and ok: "subscription_ok c (ctx_account ctx) (ctx_region ctx)"
    and k: "\<And>st' ref srv. wf_stores st' \<Longrightarrow> region_of c st' = region_of c st \<Longrightarrow>
      store_at st' (ctx_account ctx) (ctx_region ctx) = Some ref \<Longrightarrow>
      dict_get (fst (region_of c st (ctx_account ctx) (ctx_region ctx))) sid = Some srv \<Longrightarrow>
      runs_region c st' (ctx_account ctx) (ctx_region ctx) (k ref srv) y"
  shows "runs_region c st (ctx_account ctx) (ctx_region ctx) (with_server c ctx sid k)
    (if \<not> valid_server_id sid then (Inl ValidationException, region_of c st (ctx_account ctx) (ctx_region ctx))
     else if dict_get (fst (region_of c st (ctx_account ctx) (ctx_region ctx))) sid = None
       then (Inl UnknownServer, region_of c st (ctx_account ctx) (ctx_region ctx))
     else y)"
proof (cases "valid_server_id sid")
  case False
  with wf show ?thesis by (simp add: with_server_def validate_server_id_def runs_region_def)
next
  case True
  let ?a = "ctx_account ctx" and ?r = "ctx_region ctx"
  let ?rs = "region_of c st ?a ?r"
  let ?y = "if dict_get (fst ?rs) sid = None then (Inl UnknownServer, ?rs) else y"
  have "runs_region c st ?a ?r (bind_s (get_store c ?a ?r) (\<lambda>store. bind_s (get_servers c store) (\<lambda>servers.
      case dict_get servers sid of None \<Rightarrow> raise_s UnknownServer | Some server \<Rightarrow> k store server))) ?y"
  proof (rule subscribe_runs [OF wf ok])
    fix ref st1 assume 1: "wf_stores st1" "region_of c st1 = region_of c st" "store_at st1 ?a ?r = Some ref"
    show "runs_region c st1 ?a ?r (bind_s (get_servers c ref) (\<lambda>servers.
      case dict_get servers sid of None \<Rightarrow> raise_s UnknownServer | Some server \<Rightarrow> k ref server)) ?y"
    proof (rule runs_region_read [OF get_servers_runs [OF c 1(1,3)]])
      fix st2 assume 2: "wf_stores st2" "region_of c st2 = region_of c st1" "store_at st2 = store_at st1"
      show "runs_region c st2 ?a ?r (case dict_get (fst (region_of c st1 ?a ?r)) sid of
          None \<Rightarrow> raise_s UnknownServer | Some server \<Rightarrow> k ref server) ?y"
        using k [of st2 ref] runs_region_return(2) [of st2 c ?a ?r UnknownServer] 1 2
        by (cases "dict_get (fst ?rs) sid") simp_all
    qed
  qed
  with True show ?thesis by (simp add: with_server_def validate_server_id_def bind_s_def return_s_def runs_region_def)
qed

subsection \<open>Lemmas: the handlers refine the specification\<close>

lemma create_server_refines:
  assumes c: "c = transfer_store rs ns" and wf: "wf_stores st" and ok: "subscription_ok c (ctx_account ctx) (ctx_region ctx)"
  shows "runs_region c st (ctx_account ctx) (ctx_region ctx) (create_server c ctx uid)
    (spec ctx (CreateServer uid) (region_of c st (ctx_account ctx) (ctx_region ctx)))"
proof -
  let ?a = "ctx_account ctx" and ?r = "ctx_region ctx"
  show ?thesis unfolding create_server_def Let_def
  proof (rule subscribe_runs [OF wf ok])
    fix ref st1 assume 1: "wf_stores st1" "region_of c st1 = region_of c st" "store_at st1 ?a ?r = Some ref"
    let ?server = "\<lparr>srv_id = generate_server_id uid, srv_arn = server_arn ctx (generate_server_id uid), srv_state = ''ONLINE''\<rparr>"
    show "runs_region c st1 ?a ?r (bind_s (get_servers c ref) (\<lambda>servers.
        bind_s (set_attr c ref ''servers'' (Servers (dict_set (generate_server_id uid) ?server servers))) (\<lambda>_.
          return_s (ServerCreated (generate_server_id uid)))))
        (spec ctx (CreateServer uid) (region_of c st ?a ?r))"
    proof (rule runs_region_read [OF get_servers_runs [OF c 1(1,3)]])
      fix st2 assume 2: "wf_stores st2" "region_of c st2 = region_of c st1" "store_at st2 = store_at st1"
      have at: "store_at st2 ?a ?r = Some ref" by (simp add: 2 1)
      show "runs_region c st2 ?a ?r (bind_s (set_attr c ref ''servers''
          (Servers (dict_set (generate_server_id uid) ?server (fst (region_of c st1 ?a ?r))))) (\<lambda>_.
            return_s (ServerCreated (generate_server_id uid)))) (spec ctx (CreateServer uid) (region_of c st ?a ?r))"
        using runs_region_write [OF set_attr_runs(1) [OF c 2(1) at]]
        by (cases "region_of c st ?a ?r") (simp add: spec_def 1 2 Let_def)
    qed
  qed
qed

lemma read_users:
  assumes c: "c = transfer_store rs ns" and st: "wf_stores st" "store_at st a r = Some ref"
    and k: "\<And>st'. wf_stores st' \<Longrightarrow> region_of c st' = region_of c st \<Longrightarrow> store_at st' a r = Some ref \<Longrightarrow>
      runs_region c st' a r (f (snd (region_of c st a r))) y"
  shows "runs_region c st a r (bind_s (get_users c ref) f) y"
  by (rule runs_region_read [OF get_users_runs [OF c st]]) (simp add: k st)

lemma users_on_dict_set: "users_on (dict_set sid d us) sid = d"
  by (simp add: users_on_def dict_get_set)

lemma users_on_new: "dict_get us sid = None \<Longrightarrow> users_on us sid = []"
  by (simp add: users_on_def)

lemma create_user_body:
  assumes c: "c = transfer_store rs ns" and st: "wf_stores st" "store_at st a r = Some ref"
    and a: "a = ctx_account ctx" "r = ctx_region ctx"
  shows "runs_region c st a r (bind_s (get_users c ref) (\<lambda>users.
       let of_server = (case dict_get users sid of Some d \<Rightarrow> d | None \<Rightarrow> []);
           user = \<lparr>usr_name = name, usr_server = sid, usr_role = role, usr_arn = user_arn ctx sid name\<rparr>
       in case dict_get of_server name of
            Some _ \<Rightarrow> raise_s UserExists
          | None \<Rightarrow>
              bind_s (set_attr c ref ''users'' (Users (dict_set sid (dict_set name user of_server) users))) (\<lambda>_.
                return_s (UserCreated sid name))))
    (spec_body ctx (CreateUser role sid name) (region_of c st a r))"
proof (rule read_users [OF c st])
  fix st' assume 1: "wf_stores st'" "region_of c st' = region_of c st" "store_at st' a r = Some ref"
  obtain ss us where rs: "region_of c st a r = (ss, us)" by (cases "region_of c st a r")
  have on: "(case dict_get us sid of Some d \<Rightarrow> d | None \<Rightarrow> []) = users_on us sid"
    by (simp add: users_on_def split: option.split)
  let ?user = "\<lparr>usr_name = name, usr_server = sid, usr_role = role, usr_arn = user_arn ctx sid name\<rparr>"
  show "runs_region c st' a r (let of_server = (case dict_get (snd (region_of c st a r)) sid of Some d \<Rightarrow> d | None \<Rightarrow> []);
           user = ?user
       in case dict_get of_server name of
            Some _ \<Rightarrow> raise_s UserExists
          | None \<Rightarrow>
              bind_s (set_attr c ref ''users'' (Users (dict_set sid (dict_set name user of_server) (snd (region_of c st a r))))) (\<lambda>_.
                return_s (UserCreated sid name)))
    (spec_body ctx (CreateUser role sid name) (region_of c st a r))"
  proof (cases "dict_get (users_on us sid) name")
    case None
    then show ?thesis
      using runs_region_write [OF set_attr_runs(2) [OF c 1(1,3), of "dict_set sid (dict_set name ?user (users_on us sid)) us"]]
      by (simp add: rs on 1(2) Let_def)
  next
    case (Some u)
    then show ?thesis using runs_region_return(2) [OF 1(1), of c a r UserExists] by (simp add: rs on 1(2) Let_def)
  qed
qed

lemma create_user_refines:
  assumes c: "c = transfer_store rs ns" and st: "wf_stores st" "store_at st a r = Some ref"
    and a: "a = ctx_account ctx" "r = ctx_region ctx"
  shows "runs_region c st a r (bind_s (get_users c ref) (\<lambda>users0.
     bind_s (when_s (dict_get users0 sid = None) (set_attr c ref ''users'' (Users (dict_set sid [] users0)))) (\<lambda>_.
     bind_s (get_users c ref) (\<lambda>users.
       let of_server = (case dict_get users sid of Some d \<Rightarrow> d | None \<Rightarrow> []);
           user = \<lparr>usr_name = name, usr_server = sid, usr_role = role, usr_arn = user_arn ctx sid name\<rparr>
       in case dict_get of_server name of
            Some _ \<Rightarrow> raise_s UserExists
          | None \<Rightarrow>
              bind_s (set_attr c ref ''users'' (Users (dict_set sid (dict_set name user of_server) users))) (\<lambda>_.
                return_s (UserCreated sid name))))))
    (spec_body ctx (CreateUser role sid name) (region_of c st a r))" (is "runs_region _ _ _ _ (bind_s _ (\<lambda>users0. bind_s _ (\<lambda>_. ?body))) _")
proof (rule read_users [OF c st])
  fix st1 assume 1: "wf_stores st1" "region_of c st1 = region_of c st" "store_at st1 a r = Some ref"
  obtain ss us where rs: "region_of c st a r = (ss, us)" by (cases "region_of c st a r")
  show "runs_region c st1 a r (bind_s (when_s (dict_get (snd (region_of c st a r)) sid = None)
      (set_attr c ref ''users'' (Users (dict_set sid [] (snd (region_of c st a r)))))) (\<lambda>_. ?body))
    (spec_body ctx (CreateUser role sid name) (region_of c st a r))"
  proof (cases "dict_get us sid = None")
    case True
    have "runs_region c st1 a r (bind_s (set_attr c ref ''users'' (Users (dict_set sid [] us))) (\<lambda>_. ?body))
      (spec_body ctx (CreateUser role sid name) (ss, us))"
    proof (rule runs_region_bind [OF set_attr_runs(2) [OF c 1(1,3)]])
      fix st2 assume 2: "wf_stores st2" "store_at st2 = store_at st1"
        "region_of c st2 = with_region a r (fst (region_of c st1 a r), dict_set sid [] us) (region_of c st1)"
      have reg: "region_of c st2 a r = (ss, dict_set sid [] us)" by (simp add: 2 1 rs)
      have "spec_body ctx (CreateUser role sid name) (ss, dict_set sid [] us) = spec_body ctx (CreateUser role sid name) (ss, us)"
        using True by (simp add: users_on_dict_set dict_set_set users_on_new)
      then have eq: "spec_body ctx (CreateUser role sid name) (region_of c st2 a r) = spec_body ctx (CreateUser role sid name) (ss, us)"
        unfolding reg .
      have at: "store_at st2 a r = Some ref" by (simp add: 2(2) 1(3))
      show "runs_region c st2 a r ?body (spec_body ctx (CreateUser role sid name) (ss, us))"
        by (rule create_user_body [OF c 2(1) at a, of sid name role, unfolded eq])
    qed
    with True rs show ?thesis by (simp add: when_s_def)
  next
    case False
    then have "when_s (dict_get (snd (region_of c st a r)) sid = None)
        (set_attr c ref ''users'' (Users (dict_set sid [] (snd (region_of c st a r))))) = return_s ()"
      using False by (auto simp: when_s_def rs)
    moreover have "bind_s (return_s ()) (\<lambda>_. m) = m" for m :: "(transfer_state, response) prog"
      by (intro ext) (simp add: bind_s_def return_s_def)
    ultimately show ?thesis
      using create_user_body [OF c 1(1,3) a, of sid name role, unfolded 1(2)] by metis
  qed
qed

lemma list_users_refines:
  assumes c: "c = transfer_store rs ns" and st: "wf_stores st" "store_at st a r = Some ref"
  shows "runs_region c st a r (bind_s (get_users c ref) (\<lambda>users.
       let of_server = (case dict_get users sid of Some d \<Rightarrow> d | None \<Rightarrow> [])
       in return_s (UsersListed sid (map (\<lambda>u. (usr_arn u, usr_name u, usr_role u)) (dict_values of_server)))))
    (spec_body ctx (ListUsers sid) (region_of c st a r))"
proof (rule read_users [OF c st])
  fix st' assume 1: "wf_stores st'" "region_of c st' = region_of c st"
  obtain ss us where rs: "region_of c st a r = (ss, us)" by (cases "region_of c st a r")
  show "runs_region c st' a r (let of_server = (case dict_get (snd (region_of c st a r)) sid of Some d \<Rightarrow> d | None \<Rightarrow> [])
       in return_s (UsersListed sid (map (\<lambda>u. (usr_arn u, usr_name u, usr_role u)) (dict_values of_server))))
    (spec_body ctx (ListUsers sid) (region_of c st a r))"
    using 1 runs_region_return(1) [OF 1(1), of c a r]
    by (cases "dict_get us sid") (simp_all add: rs users_on_def Let_def)
qed

lemma delete_user_refines:
  assumes c: "c = transfer_store rs ns" and st: "wf_stores st" "store_at st a r = Some ref"
  shows "runs_region c st a r (bind_s (get_users c ref) (\<lambda>users.
       case dict_get users sid of
         None \<Rightarrow> raise_s UnknownUser
       | Some of_server \<Rightarrow>
           (case dict_get of_server name of
              None \<Rightarrow> raise_s UnknownUser
            | Some _ \<Rightarrow>
                bind_s (set_attr c ref ''users'' (Users (dict_set sid (dict_del name of_server) users))) (\<lambda>_.
                  return_s UserDeleted))))
    (spec_body ctx (DeleteUser sid name) (region_of c st a r))"
proof (rule read_users [OF c st])
  fix st' assume 1: "wf_stores st'" "region_of c st' = region_of c st" "store_at st' a r = Some ref"
  obtain ss us where rs: "region_of c st a r = (ss, us)" by (cases "region_of c st a r")
  show "runs_region c st' a r (case dict_get (snd (region_of c st a r)) sid of
         None \<Rightarrow> raise_s UnknownUser
       | Some of_server \<Rightarrow>
           (case dict_get of_server name of
              None \<Rightarrow> raise_s UnknownUser
            | Some _ \<Rightarrow>
                bind_s (set_attr c ref ''users'' (Users (dict_set sid (dict_del name of_server) (snd (region_of c st a r))))) (\<lambda>_.
                  return_s UserDeleted)))
    (spec_body ctx (DeleteUser sid name) (region_of c st a r))"
  proof (cases "dict_get us sid")
    case None
    then show ?thesis using runs_region_return(2) [OF 1(1), of c a r UnknownUser] by (simp add: rs 1(2) users_on_def)
  next
    case on: (Some d)
    show ?thesis
    proof (cases "dict_get d name")
      case None
      then show ?thesis using on runs_region_return(2) [OF 1(1), of c a r UnknownUser] by (simp add: rs 1(2) users_on_def)
    next
      case (Some u)
      then show ?thesis using on runs_region_write [OF set_attr_runs(2) [OF c 1(1,3), of "dict_set sid (dict_del name d) us"]]
        by (simp add: rs 1(2) users_on_def)
    qed
  qed
qed

lemma handle_refines:
  assumes c: "c = transfer_store rs ns" and wf: "wf_stores st" and ok: "subscription_ok c (ctx_account ctx) (ctx_region ctx)"
  shows "runs_region c st (ctx_account ctx) (ctx_region ctx) (handle c ctx op)
    (spec ctx op (region_of c st (ctx_account ctx) (ctx_region ctx)))"
proof -
  let ?a = "ctx_account ctx" and ?r = "ctx_region ctx"
  note ws = with_server_runs [OF c wf ok]
  obtain ss us where rs: "region_of c st ?a ?r = (ss, us)" by (cases "region_of c st ?a ?r")
  have spec: "spec ctx op (region_of c st ?a ?r) = (if \<not> valid_server_id sid then (Inl ValidationException, region_of c st ?a ?r)
     else if dict_get (fst (region_of c st ?a ?r)) sid = None then (Inl UnknownServer, region_of c st ?a ?r)
     else spec_body ctx op (region_of c st ?a ?r))" if "op_server op = Some sid" for sid
    using that by (simp add: spec_def)
  show ?thesis
  proof (cases op)
    case (CreateServer uid)
    with create_server_refines [OF c wf ok] show ?thesis by simp
  next
    case (DescribeServer sid)
    show ?thesis unfolding spec [of sid, unfolded DescribeServer, simplified] DescribeServer handle.simps describe_server_def
    proof (rule ws)
      fix st' ref srv assume "wf_stores st'" "region_of c st' = region_of c st" "dict_get (fst (region_of c st ?a ?r)) sid = Some srv"
      then show "runs_region c st' ?a ?r (return_s (ServerDescribed srv)) (spec_body ctx (DescribeServer sid) (region_of c st ?a ?r))"
        using runs_region_return(1) [of st' c ?a ?r "ServerDescribed srv"] by (simp add: rs)
    qed
  next
    case (CreateUser role sid name)
    show ?thesis unfolding spec [of sid, unfolded CreateUser, simplified] CreateUser handle.simps create_user_def
      apply (rule ws)
      subgoal premises p for st' ref srv by (rule create_user_refines [OF c p(1,3) refl refl, unfolded p(2)])
      done
  next
    case (ListUsers sid)
    show ?thesis unfolding spec [of sid, unfolded ListUsers, simplified] ListUsers handle.simps list_users_def
      apply (rule ws)
      subgoal premises p for st' ref srv by (rule list_users_refines [OF c p(1,3), unfolded p(2)])
      done
  next
    case (DeleteUser sid name)
    show ?thesis unfolding spec [of sid, unfolded DeleteUser, simplified] DeleteUser handle.simps delete_user_def
      apply (rule ws)
      subgoal premises p for st' ref srv by (rule delete_user_refines [OF c p(1,3), unfolded p(2)])
      done
  qed
qed

subsection \<open>Reachable states\<close>

text \<open>
  The states of a service that started empty and has handled any requests, the ones of subscriptions
  the stores refuse included.
\<close>

inductive served :: "transfer_value store_class \<Rightarrow> transfer_state \<Rightarrow> bool" for c where
  start: "served c new_bundle"
| request: "served c st \<Longrightarrow> handle c ctx op st = (x, st') \<Longrightarrow> served c st'"

text \<open>
  What holds of the servers and users of a region: a server or a user is stored under its own name,
  users belong to servers that exist, and the resource names are the ones of the account and region.
\<close>

definition region_inv :: "request_context \<Rightarrow> region_state \<Rightarrow> bool" where
  "region_inv ctx rs \<longleftrightarrow>
     (\<forall>sid s. dict_get (fst rs) sid = Some s \<longrightarrow> srv_id s = sid \<and> srv_arn s = server_arn ctx sid)
     \<and> (\<forall>sid us. dict_get (snd rs) sid = Some us \<longrightarrow> dict_get (fst rs) sid \<noteq> None \<and> wf_dict us
          \<and> (\<forall>name u. dict_get us name = Some u \<longrightarrow> usr_name u = name \<and> usr_server u = sid \<and> usr_arn u = user_arn ctx sid name))"

lemma region_inv_empty: "region_inv ctx ([], [])"
  by (simp add: region_inv_def)

lemma spec_inv:
  assumes inv: "region_inv ctx rs"
  shows "region_inv ctx (snd (spec ctx op rs))"
proof -
  obtain ss us where rs: "rs = (ss, us)" by (cases rs)
  have on: "wf_dict (users_on us sid)" "dict_get (users_on us sid) name = Some u \<Longrightarrow>
      usr_name u = name \<and> usr_server u = sid \<and> usr_arn u = user_arn ctx sid name" for sid name u
    using inv by (auto simp: region_inv_def rs users_on_def split: option.split option.splits)
  show ?thesis
  proof (cases op)
    case (CreateServer uid)
    with inv show ?thesis by (auto simp: spec_def rs region_inv_def Let_def dict_get_set)
  next
    case (CreateUser role sid name)
    with inv on [of sid] show ?thesis
      by (auto simp: spec_def rs region_inv_def dict_get_set split: option.split if_splits)
  next
    case (DeleteUser sid name)
    with inv on [of sid] show ?thesis
      by (auto simp: spec_def rs region_inv_def dict_get_set dict_get_del split: option.split if_splits)
  qed (use inv in \<open>auto simp: spec_def rs\<close>)
qed

lemma region_inv_users:
  assumes inv: "region_inv ctx (ss, us)" and "(n, u) \<in> set (users_on us sid)"
  shows "usr_name u = n"
proof -
  obtain d where d: "dict_get us sid = Some d" "(n, u) \<in> set d"
    using assms(2) by (cases "dict_get us sid") (auto simp: users_on_def)
  then have "wf_dict d" using inv by (auto simp: region_inv_def)
  with d(2) have "dict_get d n = Some u" by (simp add: wf_dict_def)
  with inv d(1) show ?thesis by (auto simp: region_inv_def)
qed

lemma dict_del_new: "k \<notin> set (dict_keys d) \<Longrightarrow> dict_del k (d @ [(k, v)]) = d"
  by (induction d) (auto simp: dict_del_def)

lemma transfer_region_empty: "region_of (transfer_store rs ns) new_bundle a r = ([], [])"
  by (simp add: region_of_def attr_view_def transfer_store_def new_bundle_def local_value_def store_at_def or_default_def)

text \<open>A request the stores refuse fails before it has touched an attribute.\<close>

lemma refused_request:
  assumes wf: "wf_stores st" and no: "\<not> subscription_ok c (ctx_account ctx) (ctx_region ctx)"
  shows "\<exists>e st'. handle c ctx op st = (Inl e, st') \<and> wf_stores st' \<and> region_of c st' = region_of c st"
proof -
  obtain st' where 1: "get_store c (ctx_account ctx) (ctx_region ctx) st = (Inl ValueError, st')" "wf_stores st'"
      "attr_view c st' = attr_view c st"
    using get_store_invalid [OF wf no] by blast
  have "with_server c ctx sid k st = (Inl ValueError, st') \<or> with_server c ctx sid k st = (Inl ValidationException, st)" for sid k
    by (simp add: with_server_def validate_server_id_def 1(1) bind_s_def return_s_def raise_s_def)
  then have "\<exists>e s. with_server c ctx sid k st = (Inl e, s) \<and> wf_stores s \<and> region_of c s = region_of c st" for sid k
    using wf 1(2) region_of_cong [OF 1(3)] by metis
  then show ?thesis
    using 1 region_of_cong [OF 1(3)]
    by (cases op) (simp_all add: create_server_def describe_server_def create_user_def list_users_def delete_user_def)
qed

lemma served_inv:
  assumes "served c st" and c: "c = transfer_store rs ns"
  shows "wf_stores st \<and> (\<forall>a r. region_inv \<lparr>ctx_account = a, ctx_region = r\<rparr> (region_of c st a r))"
  using assms(1)
proof induction
  case start
  show ?case by (simp add: c transfer_region_empty region_inv_empty wf_new_bundle)
next
  case (request st ctx op x st')
  show ?case
  proof (cases "subscription_ok c (ctx_account ctx) (ctx_region ctx)")
    case True
    let ?a = "ctx_account ctx" and ?r = "ctx_region ctx"
    have ctx: "\<lparr>ctx_account = ?a, ctx_region = ?r\<rparr> = ctx" by simp
    have "wf_stores st'" and reg: "region_of c st' = with_region ?a ?r (snd (spec ctx op (region_of c st ?a ?r))) (region_of c st)"
      using handle_refines [OF c _ True, of st op] request by (auto simp: runs_region_def)
    moreover have "region_inv \<lparr>ctx_account = ?a, ctx_region = ?r\<rparr> (region_of c st ?a ?r)" using request.IH by blast
    then have "region_inv \<lparr>ctx_account = ?a, ctx_region = ?r\<rparr> (snd (spec ctx op (region_of c st ?a ?r)))"
      unfolding ctx by (rule spec_inv)
    ultimately show ?thesis using request.IH by (simp add: with_region_def)
  next
    case False
    from refused_request [OF _ False, of st op] request show ?thesis by auto
  qed
qed

subsection \<open>Properties\<close>

text \<open>
  C9: A request does to the store exactly what the specification says of its own region: the response
  or the error is the one the specification gives, the servers and users of the region become the
  ones it gives, and no other region of no other account changes, in any state of the heap.
\<close>

theorem transfer_refines_spec:
  assumes "c = transfer_store rs ns" and "wf_stores st" and "subscription_ok c (ctx_account ctx) (ctx_region ctx)"
  shows "\<exists>st'. handle c ctx op st = (fst (spec ctx op (region_of c st (ctx_account ctx) (ctx_region ctx))), st')
    \<and> wf_stores st'
    \<and> (\<forall>a r. region_of c st' a r =
         (if a = ctx_account ctx \<and> r = ctx_region ctx then snd (spec ctx op (region_of c st a r)) else region_of c st a r))"
  using handle_refines [OF assms, of op] by (auto simp: runs_region_def with_region_def)

definition example_context :: request_context where
  "example_context = \<lparr>ctx_account = ''000000000000'', ctx_region = ''us-east-1''\<rparr>"

lemma transfer_refines_spec_witness:
  "\<exists>st'. handle (transfer_store [''us-east-1''] False) example_context (ListUsers ''s-0123'') new_bundle
      = (Inl ValidationException, st') \<and> wf_stores st'"
  using transfer_refines_spec [OF refl wf_new_bundle, of "[''us-east-1'']" False example_context "ListUsers ''s-0123''"]
  by (auto simp: transfer_store_def subscription_ok_def valid_region_def example_context_def twelve_digits_prefix_def
      is_digit_def spec_def valid_server_id_def)

text \<open>
  C10: In every state the service can reach, and in every region, servers and users are stored under
  their own identifiers, every user belongs to a server that exists in the same region, and the
  resource names carry the account, the region and the identifiers they were created with.
\<close>

theorem transfer_reachable_consistent:
  assumes "served (transfer_store rs ns) st"
  shows "region_inv \<lparr>ctx_account = a, ctx_region = r\<rparr> (region_of (transfer_store rs ns) st a r)"
  using served_inv [OF assms refl] by blast

lemma transfer_reachable_consistent_witness:
  "region_inv example_context (region_of (transfer_store [''us-east-1''] False)
     (snd (handle (transfer_store [''us-east-1''] False) example_context (CreateServer ''0-1'') new_bundle))
     ''000000000000'' ''us-east-1'')"
proof -
  let ?c = "transfer_store [''us-east-1''] False"
  have "served ?c (snd (handle ?c example_context (CreateServer ''0-1'') new_bundle))"
    by (rule served.request [OF served.start prod.collapse [symmetric]])
  from transfer_reachable_consistent [OF this, of "''000000000000''" "''us-east-1''"] show ?thesis
    by (simp add: example_context_def)
qed

lemma spec_lifecycle:
  assumes "region_inv ctx rs0" and "spec ctx (CreateUser role sid name) rs0 = (Inr (UserCreated sid name), rs1)"
  shows "fst (spec ctx (CreateUser role' sid name) rs1) = Inl UserExists
    \<and> (\<exists>us. fst (spec ctx (ListUsers sid) rs1) = Inr (UsersListed sid us)
         \<and> filter (\<lambda>(arn, n, rl). n = name) us = [(user_arn ctx sid name, name, role)])
    \<and> (\<exists>rs2. spec ctx (DeleteUser sid name) rs1 = (Inr UserDeleted, rs2)
         \<and> fst (spec ctx (DeleteUser sid name) rs2) = Inl UnknownUser
         \<and> (\<exists>us. fst (spec ctx (ListUsers sid) rs2) = Inr (UsersListed sid us) \<and> name \<notin> (\<lambda>(arn, n, rl). n) ` set us))"
proof -
  obtain ss us where rs0: "rs0 = (ss, us)" by (cases rs0)
  let ?d = "users_on us sid"
  let ?u = "\<lparr>usr_name = name, usr_server = sid, usr_role = role, usr_arn = user_arn ctx sid name\<rparr>"
  have ok: "valid_server_id sid" "dict_get ss sid \<noteq> None" "dict_get ?d name = None"
      and rs1: "rs1 = (ss, dict_set sid (dict_set name ?u ?d) us)"
    using assms(2) by (auto simp: rs0 spec_def split: if_splits option.splits)
  have new: "dict_set name ?u ?d = ?d @ [(name, ?u)]" "dict_del name (dict_set name ?u ?d) = ?d"
    using ok(3) by (simp_all add: dict_set_new dict_get_None dict_del_new)
  have named: "usr_name u = n \<and> n \<noteq> name" if "(n, u) \<in> set ?d" for n u
    using region_inv_users [OF assms(1) [unfolded rs0] that] that ok(3) by (force simp: dict_get_None)
  have un: "users_on (dict_set sid d e) sid = d" for d e by (simp add: users_on_def dict_get_set)
  have f: "filter (\<lambda>(arn, n, rl). n = name) (map (\<lambda>u. (usr_arn u, usr_name u, usr_role u)) (dict_values ?d)) = []"
    using named by (fastforce simp: filter_empty_conv)
  have "fst (spec ctx (CreateUser role' sid name) rs1) = Inl UserExists"
    using ok by (simp add: rs1 spec_def un dict_get_set)
  moreover have "\<exists>us. fst (spec ctx (ListUsers sid) rs1) = Inr (UsersListed sid us)
         \<and> filter (\<lambda>(arn, n, rl). n = name) us = [(user_arn ctx sid name, name, role)]"
    using ok f by (auto simp: rs1 spec_def un new)
  moreover have "spec ctx (DeleteUser sid name) rs1 = (Inr UserDeleted, (ss, dict_set sid ?d us))"
    using ok by (auto simp: rs1 spec_def un dict_get_set dict_set_set new(2))
  moreover have "fst (spec ctx (DeleteUser sid name) (ss, dict_set sid ?d us)) = Inl UnknownUser"
    using ok by (auto simp: spec_def un)
  moreover have "\<exists>l. fst (spec ctx (ListUsers sid) (ss, dict_set sid ?d us)) = Inr (UsersListed sid l)
      \<and> name \<notin> (\<lambda>(arn, n, rl). n) ` set l"
    using ok f by (auto simp: spec_def un filter_empty_conv)
  ultimately show ?thesis by blast
qed

text \<open>One request in a served state, with the outcome the specification gives.\<close>

lemma served_step:
  assumes "served c st" and c: "c = transfer_store rs ns" and ok: "subscription_ok c (ctx_account ctx) (ctx_region ctx)"
  defines "reg \<equiv> \<lambda>s. region_of c s (ctx_account ctx) (ctx_region ctx)"
  obtains st' where "handle c ctx op st = (fst (spec ctx op (reg st)), st')" "served c st'" "reg st' = snd (spec ctx op (reg st))"
proof -
  have "wf_stores st" using served_inv [OF assms(1) c] by blast
  from handle_refines [OF c this ok, of op]
  obtain st' where "handle c ctx op st = (fst (spec ctx op (reg st)), st')" "reg st' = snd (spec ctx op (reg st))"
    by (auto simp: runs_region_def reg_def)
  with that served.request [OF assms(1)] show ?thesis by blast
qed

text \<open>
  The life of a user, in every state the service can reach: after a user was created on a server, creating the
  same name again is refused, the list of the server contains the user exactly once with its role, and
  after deleting it the name is unknown again and missing from the list.
\<close>

theorem user_lifecycle:
  assumes "served (transfer_store rs ns) st"
    and "subscription_ok (transfer_store rs ns) (ctx_account ctx) (ctx_region ctx)"
    and "handle (transfer_store rs ns) ctx (CreateUser role sid name) st = (Inr (UserCreated sid name), st1)"
  shows "fst (handle (transfer_store rs ns) ctx (CreateUser role' sid name) st1) = Inl UserExists
    \<and> (\<exists>us. fst (handle (transfer_store rs ns) ctx (ListUsers sid) st1) = Inr (UsersListed sid us)
         \<and> filter (\<lambda>(arn, n, rl). n = name) us = [(user_arn ctx sid name, name, role)])
    \<and> (\<exists>st2. handle (transfer_store rs ns) ctx (DeleteUser sid name) st1 = (Inr UserDeleted, st2)
         \<and> fst (handle (transfer_store rs ns) ctx (DeleteUser sid name) st2) = Inl UnknownUser
         \<and> (\<exists>us. fst (handle (transfer_store rs ns) ctx (ListUsers sid) st2) = Inr (UsersListed sid us)
              \<and> name \<notin> (\<lambda>(arn, n, rl). n) ` set us))"
proof -
  let ?c = "transfer_store rs ns" and ?reg = "\<lambda>s. region_of (transfer_store rs ns) s (ctx_account ctx) (ctx_region ctx)"
  note step = served_step [OF _ refl assms(2)]
  have eta: "\<lparr>ctx_account = ctx_account ctx, ctx_region = ctx_region ctx\<rparr> = ctx" by simp
  note inv = served_inv [OF assms(1) refl, THEN conjunct2, rule_format, of "ctx_account ctx" "ctx_region ctx", unfolded eta]
  have st1: "served ?c st1" by (rule served.request [OF assms(1,3)])
  have "spec ctx (CreateUser role sid name) (?reg st) = (Inr (UserCreated sid name), ?reg st1)"
    by (rule step [OF assms(1), of "CreateUser role sid name"]) (use assms(3) in \<open>auto simp: prod_eq_iff\<close>)
  note life = spec_lifecycle [OF inv this, of role']
  have out: "fst (handle ?c ctx op s) = fst (spec ctx op (?reg s))" if "served ?c s" for op s
    by (rule step [OF that, of op]) simp
  obtain st2 where 2: "handle ?c ctx (DeleteUser sid name) st1 = (fst (spec ctx (DeleteUser sid name) (?reg st1)), st2)"
      "served ?c st2" "?reg st2 = snd (spec ctx (DeleteUser sid name) (?reg st1))"
    by (rule step [OF st1, of "DeleteUser sid name"])
  from life show ?thesis by (auto simp: out [OF st1] out [OF 2(2)] 2(1,3) simp del: handle.simps)
qed

lemma user_lifecycle_witness:
  "\<exists>st. fst (handle (transfer_store [''us-east-1''] False) example_context (CreateUser ''r'' ''s-0123456789abcdef0'' ''u'') st)
     = Inl UserExists"
proof -
  let ?c = "transfer_store [''us-east-1''] False" and ?sid = "''s-0123456789abcdef0''"
  let ?reg = "\<lambda>s. region_of ?c s (ctx_account example_context) (ctx_region example_context)"
  have ok: "subscription_ok ?c (ctx_account example_context) (ctx_region example_context)"
    by (simp add: subscription_ok_def valid_region_def example_context_def transfer_store_def twelve_digits_prefix_def is_digit_def)
  have sid: "generate_server_id ''0123456789abcdef0'' = ?sid" "valid_server_id ?sid" by code_simp+
  obtain st where 1: "served ?c st"
      "?reg st = snd (spec example_context (CreateServer ''0123456789abcdef0'') (?reg new_bundle))"
    by (rule served_step [OF served.start refl ok])
  obtain st' where 2: "handle ?c example_context (CreateUser ''role'' ?sid ''u'') st
      = (fst (spec example_context (CreateUser ''role'' ?sid ''u'') (?reg st)), st')"
    by (rule served_step [OF 1(1) refl ok])
  have "fst (spec example_context (CreateUser ''role'' ?sid ''u'') (?reg st)) = Inr (UserCreated ?sid ''u'')"
    unfolding 1(2) transfer_region_empty by (simp add: spec_def sid Let_def users_on_def)
  from user_lifecycle [OF 1(1) ok 2 [unfolded this], of "''r''"] show ?thesis by blast
qed

end
