(* ===== verification/SerializerCore.thy ===== *)
theory SerializerCore
  imports ShapeParser Accounts
begin

text \<open>
  The part of \<open>aws/protocol/serializer.py\<close> that all response serializers share: base64, the formats
  of timestamps, the binary encoding of events, the choice of the mime type, and the codes, status
  codes and messages of errors with the rules of query-compatible services. The properties are the
  two round trips that clients rely on: base64 text and the framing of an event.
\<close>

subsection \<open>Base64\<close>

definition b64_char :: "nat \<Rightarrow> nat" where
  "b64_char v =
     (if v < 26 then v + 65 else if v < 52 then v + 71 else if v < 62 then v - 4 else if v = 62 then 43 else 47)"

fun b64encode :: "bytes \<Rightarrow> ustr" where
  "b64encode (a # b # c # bs) =
     b64_char (unat a div 4) # b64_char (unat a mod 4 * 16 + unat b div 16)
     # b64_char (unat b mod 16 * 4 + unat c div 64) # b64_char (unat c mod 64) # b64encode bs"
| "b64encode [a, b] =
     [b64_char (unat a div 4), b64_char (unat a mod 4 * 16 + unat b div 16), b64_char (unat b mod 16 * 4), 61]"
| "b64encode [a] = [b64_char (unat a div 4), b64_char (unat a mod 4 * 16), 61, 61]"
| "b64encode [] = []"

text \<open>\<open>_get_base64\<close>; the encoder of the standard library takes bytes only.\<close>

definition get_base64 :: "pyval \<Rightarrow> ustr result" where
  "get_base64 v =
     (case v of
        PStr s \<Rightarrow> bind_r (utf8_encode s) (\<lambda>b. Inr (b64encode b))
      | PBytes b \<Rightarrow> Inr (b64encode b)
      | _ \<Rightarrow> Inl TypeError)"

definition encode_payload :: "pyval \<Rightarrow> pyval result" where
  "encode_payload v = (case v of PStr s \<Rightarrow> map_sum id PBytes (utf8_encode s) | _ \<Rightarrow> Inr v)"

subsection \<open>Timestamps\<close>

text \<open>
  A UTC \<open>datetime\<close> in microseconds since the epoch as year, month, day, hour, minute, second and
  microsecond, by the proleptic Gregorian calendar.
\<close>

definition civil_from_days :: "int \<Rightarrow> int \<times> int \<times> int" where
  "civil_from_days days =
     (let z = days + 719468;
          era = z div 146097;
          doe = z mod 146097;
          yoe = (doe - doe div 1460 + doe div 36524 - doe div 146096) div 365;
          doy = doe - (365 * yoe + yoe div 4 - yoe div 100);
          mp = (5 * doy + 2) div 153;
          d = doy - (153 * mp + 2) div 5 + 1;
          m = (if mp < 10 then mp + 3 else mp - 9)
      in (yoe + 400 * era + (if m \<le> 2 then 1 else 0), m, d))"

definition padded :: "nat \<Rightarrow> int \<Rightarrow> ustr" where
  "padded w n = cp (zero_padded w (nat n))"

definition clock_text :: "int \<Rightarrow> ustr" where
  "clock_text us =
     (let s = us div 1000000 mod 86400
      in padded 2 (s div 3600) @ [58] @ padded 2 (s div 60 mod 60) @ [58] @ padded 2 (s mod 60))"

definition date_time_text :: "int \<Rightarrow> ustr" where
  "date_time_text us =
     (let (y, m, d) = civil_from_days (us div 86400000000)
      in padded 0 y @ [45] @ padded 2 m @ [45] @ padded 2 d @ cp ''T'' @ clock_text us)"

definition timestamp_iso8601 :: "int \<Rightarrow> ustr" where
  "timestamp_iso8601 us =
     date_time_text us @ (if 0 < us mod 1000000 then [46] @ padded 6 (us mod 1000000) else []) @ cp ''Z''"

definition week_days :: "string list" where
  "week_days = [''Mon'', ''Tue'', ''Wed'', ''Thu'', ''Fri'', ''Sat'', ''Sun'']"

definition month_names :: "string list" where
  "month_names = [''Jan'', ''Feb'', ''Mar'', ''Apr'', ''May'', ''Jun'', ''Jul'', ''Aug'', ''Sep'', ''Oct'', ''Nov'', ''Dec'']"

text \<open>\<open>formatdate(value, usegmt=True)\<close> of the timestamp as a float; day 0 was a Thursday.\<close>

definition timestamp_rfc822 :: "int \<Rightarrow> ustr result" where
  "timestamp_rfc822 us0 =
     bind_r (datetime_of_seconds (datetime_timestamp us0)) (\<lambda>us.
       let days = us div 86400000000; (y, m, d) = civil_from_days days
       in Inr (cp (week_days ! nat ((days + 3) mod 7)) @ cp '', '' @ padded 2 d @ cp '' '' @ cp (month_names ! nat (m - 1)) @ cp '' ''
            @ padded 4 y @ cp '' '' @ clock_text us @ cp '' GMT''))"

text \<open>\<open>_convert_timestamp_to_str\<close>; \<open>aware\<close> stands for botocore's \<open>parse_to_aware_datetime\<close>.\<close>

definition convert_timestamp_to_str :: "(pyval \<Rightarrow> int result) \<Rightarrow> ustr \<Rightarrow> ustr option \<Rightarrow> pyval \<Rightarrow> pyval result" where
  "convert_timestamp_to_str aware dflt fmt v =
     (let f = ustr_lower (case fmt of None \<Rightarrow> dflt | Some x \<Rightarrow> x)
      in bind_r (aware v) (\<lambda>us.
           if f = cp ''iso8601'' then Inr (PStr (timestamp_iso8601 us))
           else if f = cp ''unixtimestamp'' then Inr (PFloat (datetime_timestamp us))
           else if f = cp ''rfc822'' then map_sum id PStr (timestamp_rfc822 us)
           else Inl AttributeError))"

subsection \<open>Events\<close>

text \<open>The CRC of \<open>binascii.crc32\<close>.\<close>

fun crc_bits :: "nat \<Rightarrow> 32 word \<Rightarrow> 32 word" where
  "crc_bits 0 r = r"
| "crc_bits (Suc n) r =
     crc_bits n (if bit r 0 then xor (drop_bit 1 r) 3988292384 else drop_bit 1 r)"

definition crc32 :: "bytes \<Rightarrow> 32 word" where
  "crc32 bs = not (fold (\<lambda>b r. crc_bits 8 (xor r (ucast b))) bs (not 0))"

text \<open>\<open>struct.pack("!B", n)\<close> and its wider variants: a number that does not fit raises \<open>struct.error\<close>.\<close>

definition pack_uint :: "nat \<Rightarrow> nat \<Rightarrow> bytes result" where
  "pack_uint k n = (if n < 256 ^ k then Inr (be_bytes k n) else Inl (UserError ''struct.error'' ''''))"

definition event_header :: "ustr \<times> ustr \<Rightarrow> bytes result" where
  "event_header = (\<lambda>(key, value).
     bind_r (utf8_encode key) (\<lambda>name.
     bind_r (utf8_encode value) (\<lambda>val.
     bind_r (pack_uint 1 (length name)) (\<lambda>nl.
     bind_r (pack_uint 2 (length val)) (\<lambda>vl.
       Inr (nl @ name @ be_bytes 1 7 @ vl @ val))))))"

definition event_headers :: "ustr \<Rightarrow> ustr option \<Rightarrow> ustr option \<Rightarrow> (ustr \<times> ustr) list" where
  "event_headers event_type error_code error_message =
     (let given = (\<lambda>x. case x of None \<Rightarrow> False | Some s \<Rightarrow> s \<noteq> []);
          entry = (\<lambda>k x. if given x then [(cp k, the x)] else [])
      in [(cp '':event-type'', event_type),
          (cp '':message-type'', if given error_message \<or> given error_code then cp ''error'' else cp ''event'')]
         @ entry '':error-message'' error_message @ entry '':error-code'' error_code)"

definition event_frame :: "bytes \<Rightarrow> bytes \<Rightarrow> bytes result" where
  "event_frame header_section payload =
     bind_r (pack_uint 4 (length payload + length header_section + 16)) (\<lambda>total.
     bind_r (pack_uint 4 (length header_section)) (\<lambda>headers_length.
       let prelude = total @ headers_length;
           result = prelude @ be_bytes 4 (unat (crc32 prelude)) @ header_section @ payload
       in Inr (result @ be_bytes 4 (unat (crc32 result)))))"

definition encode_event_payload :: "ustr \<Rightarrow> pyval \<Rightarrow> ustr option \<Rightarrow> ustr option \<Rightarrow> bytes result" where
  "encode_event_payload event_type content error_code error_message =
     bind_r (map_r event_header (event_headers event_type error_code error_message)) (\<lambda>headers.
     bind_r (encode_payload content) (\<lambda>p. case p of
         PBytes payload \<Rightarrow> event_frame (concat headers) payload
       | _ \<Rightarrow> Inl TypeError))"

subsection \<open>Mime types\<close>

text \<open>Werkzeug's \<open>parse_accept_header\<close> and \<open>best_match\<close> are the argument \<open>best_match\<close>.\<close>

definition accept_header :: "(ustr \<times> ustr) list \<Rightarrow> ustr option" where
  "accept_header headers =
     (let get = (\<lambda>n. map_of (map (\<lambda>(k, v). (ustr_lower k, v)) headers) (ustr_lower (cp n)))
      in case get ''Accept'' of
           Some a \<Rightarrow> if a \<noteq> cp ''*/*'' then Some a
                     else (case get ''Content-Type'' of Some c \<Rightarrow> if c = [] then None else Some (c @ cp '', */*'') | None \<Rightarrow> None)
         | None \<Rightarrow> (case get ''Content-Type'' of Some c \<Rightarrow> if c = [] then None else Some (c @ cp '', */*'') | None \<Rightarrow> None))"

definition get_mime_type ::
    "(ustr option \<Rightarrow> ustr list \<Rightarrow> ustr option) \<Rightarrow> ustr list \<Rightarrow> (ustr \<times> ustr) list option \<Rightarrow> ustr result" where
  "get_mime_type best_match supported headers =
     (case best_match (case headers of None \<Rightarrow> None | Some hs \<Rightarrow> accept_header hs) supported of
        Some m \<Rightarrow> if m = [] then (case supported of [] \<Rightarrow> Inl IndexError | x # _ \<Rightarrow> Inr x) else Inr m
      | None \<Rightarrow> (case supported of [] \<Rightarrow> Inl IndexError | x # _ \<Rightarrow> Inr x))"

subsection \<open>Errors\<close>

text \<open>
  A \<open>ServiceException\<close>: the attributes the serializers read, \<open>str(error)\<close>, the name of its class and
  \<open>vars(error)\<close>.
\<close>

record service_exception =
  se_code :: ustr
  se_status_code :: int
  se_sender_fault :: bool
  se_text :: ustr
  se_class :: ustr
  se_vars :: "(ustr \<times> pyval) list"

definition get_error_message :: "service_exception \<Rightarrow> ustr option" where
  "get_error_message e = (if se_text e \<noteq> cp ''None'' then Some (se_text e) else None)"

text \<open>\<open>_handle_exceptions\<close>: what leaves a public serializer method is a \<open>ResponseSerializerError\<close>.\<close>

abbreviation UnknownSerializerError :: exn where
  "UnknownSerializerError \<equiv> UserError ''UnknownSerializerError'' ''''"

abbreviation ProtocolSerializerError :: exn where
  "ProtocolSerializerError \<equiv> UserError ''ProtocolSerializerError'' ''''"

definition is_response_serializer_error :: "exn \<Rightarrow> bool" where
  "is_response_serializer_error e =
     (case e of UserError c m \<Rightarrow> c \<in> {''ResponseSerializerError'', ''UnknownSerializerError'', ''ProtocolSerializerError''}
      | _ \<Rightarrow> False)"

definition handle_serializer_exceptions :: "'a result \<Rightarrow> 'a result" where
  "handle_serializer_exceptions r =
     (case r of Inl e \<Rightarrow> if is_response_serializer_error e then Inl e else Inl UnknownSerializerError | Inr x \<Rightarrow> Inr x)"

definition convert_serializer_errors :: "'a result \<Rightarrow> 'a result" where
  "convert_serializer_errors r =
     (case r of
        Inl e \<Rightarrow> if e \<in> {TypeError, ValueError, UnicodeError, AttributeError} then Inl ProtocolSerializerError else Inl e
      | Inr x \<Rightarrow> Inr x)"

text \<open>\<open>QueryCompatibleProtocolMixin\<close>.\<close>

definition query_compatible_status_code :: "bool \<Rightarrow> (ustr \<times> ustr) list option \<Rightarrow> service_exception \<Rightarrow> int" where
  "query_compatible_status_code compatible headers e =
     (if \<not> compatible then se_status_code e
      else if (case headers of None \<Rightarrow> False
               | Some hs \<Rightarrow> map_of (map (\<lambda>(k, v). (ustr_lower k, v)) hs) (cp ''x-amzn-query-mode'') = Some (cp ''true''))
      then se_status_code e
      else if 400 < se_status_code e \<and> se_status_code e \<le> 499 then 400
      else se_status_code e)"

definition query_compatible_error_header :: "service_exception \<Rightarrow> ustr \<times> ustr" where
  "query_compatible_error_header e =
     (cp ''x-amzn-query-error'', se_code e @ cp '';'' @ (if se_sender_fault e then cp ''Sender'' else cp ''Receiver''))"

definition get_error_code :: "bool \<Rightarrow> service_exception \<Rightarrow> shape option \<Rightarrow> ustr" where
  "get_error_code compatible e sh =
     (if compatible then (case sh of Some s \<Rightarrow> sh_name (shape_info_of s) | None \<Rightarrow> se_class e) else se_code e)"

subsection \<open>Choosing a serializer\<close>

datatype response_serializer =
    SqsJsonResponseSerializer | SqsQueryResponseSerializer | S3ResponseSerializer | QueryResponseSerializer
  | JSONResponseSerializer | RestJSONResponseSerializer | RestXMLResponseSerializer | EC2ResponseSerializer
  | RpcV2CBORResponseSerializer

definition service_specific_serializers :: "(string \<times> (string \<times> response_serializer) list) list" where
  "service_specific_serializers =
     [(''sqs'', [(''json'', SqsJsonResponseSerializer), (''query'', SqsQueryResponseSerializer)]),
      (''s3'', [(''rest-xml'', S3ResponseSerializer)])]"

definition protocol_specific_serializers :: "(string \<times> response_serializer) list" where
  "protocol_specific_serializers =
     [(''query'', QueryResponseSerializer), (''json'', JSONResponseSerializer), (''rest-json'', RestJSONResponseSerializer),
      (''rest-xml'', RestXMLResponseSerializer), (''ec2'', EC2ResponseSerializer),
      (''smithy-rpc-v2-cbor'', RpcV2CBORResponseSerializer)]"

definition create_serializer :: "string \<Rightarrow> string \<Rightarrow> string option \<Rightarrow> response_serializer result" where
  "create_serializer service_name service_protocol protocol =
     (let p = (case protocol of Some x \<Rightarrow> if x = [] then service_protocol else x | None \<Rightarrow> service_protocol);
          specific = (case map_of service_specific_serializers service_name of None \<Rightarrow> None | Some ps \<Rightarrow> map_of ps p)
      in case specific of
           Some c \<Rightarrow> Inr c
         | None \<Rightarrow> (case map_of protocol_specific_serializers p of None \<Rightarrow> Inl KeyError | Some c \<Rightarrow> Inr c))"

subsection \<open>Base64 comes back\<close>

lemma b64_value_char [simp]: "v < 64 \<Longrightarrow> b64_value (b64_char v) = Some v"
  by (auto simp: b64_value_def b64_char_def)

lemma b64_char_range [simp]: "v < 64 \<Longrightarrow> b64_char v \<noteq> 61" "v < 64 \<Longrightarrow> b64_char v < 128"
  by (auto simp: b64_char_def)

lemma byte_unat [simp]: "byte (unat b) = b"
  by (simp add: byte_def)

lemma b64_digits:
  fixes a b c :: "8 word"
  shows "unat a div 4 < 64" "unat a mod 4 * 16 + unat b div 16 < 64" "unat a mod 4 * 16 < 64"
    "unat b mod 16 * 4 + unat c div 64 < 64" "unat b mod 16 * 4 < 64" "unat c mod 64 < 64"
    "unat b div 16 < 16" "unat c div 64 < 4"
  using unat_byte_less [of a] unat_byte_less [of b] unat_byte_less [of c] by auto

lemma b64_scan_encode: "b64_scan 0 pads 0 (b64encode bs) = Inr bs"
  by (induction bs arbitrary: pads rule: b64encode.induct) (simp_all add: b64_digits)

lemma b64encode_ascii: "list_all (\<lambda>c. c < 128) (b64encode bs)"
  by (induction bs rule: b64encode.induct) (simp_all add: b64_digits)

lemma b64decode_encode: "b64decode (PStr (b64encode bs)) = Inr bs"
  by (simp add: b64decode_def b64encode_ascii b64_scan_encode)

subsection \<open>A frame comes back\<close>

text \<open>What a client does with an event: the lengths and both checksums are checked, then the parts are read.\<close>

fun read_event_headers :: "nat \<Rightarrow> bytes \<Rightarrow> (ustr \<times> ustr) list option" where
  "read_event_headers fuel [] = Some []"
| "read_event_headers 0 bs = None"
| "read_event_headers (Suc fuel) (n # bs) =
     (let name = take (unat n) bs; rest = drop (unat n) bs;
          len = from_bytes (take 2 (drop 1 rest)); val = take len (drop 3 rest)
      in case (utf8_decode name, utf8_decode val, read_event_headers fuel (drop (3 + len) rest)) of
           (Inr k, Inr v, Some hs) \<Rightarrow> if take 1 rest = [7] then Some ((k, v) # hs) else None
         | _ \<Rightarrow> None)"

definition read_event :: "bytes \<Rightarrow> ((ustr \<times> ustr) list \<times> bytes) option" where
  "read_event bs =
     (let total = from_bytes (take 4 bs); hl = from_bytes (take 4 (drop 4 bs))
      in if total = length bs \<and> 16 + hl \<le> total
            \<and> from_bytes (take 4 (drop 8 bs)) = unat (crc32 (take 8 bs))
            \<and> from_bytes (drop (total - 4) bs) = unat (crc32 (take (total - 4) bs))
         then map_option (\<lambda>hs. (hs, take (total - hl - 16) (drop (12 + hl) bs))) (read_event_headers hl (take hl (drop 12 bs)))
         else None)"

lemma from_be_bytes_word [simp]: "from_bytes (be_bytes 4 (unat (w :: 32 word))) = unat w"
proof -
  have "unat w < 256 ^ 4"
    using unsigned_less [of w, where 'a = nat] by simp
  then show ?thesis by (rule from_be_bytes)
qed

lemma pack_uint_Inr: "pack_uint k n = Inr bs \<longleftrightarrow> n < 256 ^ k \<and> bs = be_bytes k n"
  by (auto simp: pack_uint_def)

lemma event_header_Inr:
  assumes "event_header (k, v) = Inr h"
  obtains name val where "utf8_encode k = Inr name" "utf8_encode v = Inr val" "length name < 256" "length val < 65536"
    "h = byte (length name) # name @ 7 # be_bytes 2 (length val) @ val"
  using assms by (auto simp: event_header_def bind_r_eq_Inr pack_uint_Inr numeral_2_eq_2 byte_def)

lemma read_event_header:
  assumes "event_header (k, v) = Inr h" "read_event_headers fuel rest = Some hs"
  shows "read_event_headers (Suc fuel) (h @ rest) = Some ((k, v) # hs)"
proof -
  obtain name val where h: "utf8_encode k = Inr name" "utf8_encode v = Inr val" "length name < 256" "length val < 65536"
      "h = byte (length name) # name @ 7 # be_bytes 2 (length val) @ val"
    using event_header_Inr [OF assms(1)] by metis
  have "from_bytes (be_bytes 2 (length val)) = length val"
    using h(4) by simp
  moreover have "drop (3 + length val) (7 # be_bytes 2 (length val) @ val @ rest) = rest"
      "take 1 (7 # be_bytes 2 (length val) @ val @ rest) = [7]"
    by (simp_all add: numeral_3_eq_3)
  ultimately show ?thesis
    using h(3) assms(2) utf8_decode_encode [OF h(1)] utf8_decode_encode [OF h(2)]
    by (simp add: h(5) Let_def)
qed

lemma read_event_headers_more: "read_event_headers fuel bs = Some hs \<Longrightarrow> read_event_headers (fuel + extra) bs = Some hs"
proof (induction fuel bs arbitrary: hs rule: read_event_headers.induct)
  case (1 fuel)
  then show ?case by (cases "fuel + extra") simp_all
qed (auto simp: Let_def split: sum.splits option.splits if_splits)

lemma read_event_headers_all:
  "map_r event_header kvs = Inr hs \<Longrightarrow> read_event_headers (length (concat hs)) (concat hs) = Some kvs"
proof (induction kvs arbitrary: hs)
  case (Cons kv kvs)
  obtain h hs' where h: "event_header kv = Inr h" "map_r event_header kvs = Inr hs'" "hs = h # hs'"
    using Cons.prems by (auto simp: bind_r_eq_Inr)
  obtain k v where kv: "kv = (k, v)" by (cases kv)
  obtain n where n: "length h = Suc n"
    using event_header_Inr [OF h(1) [unfolded kv]] by (metis length_Cons)
  have "read_event_headers (length (concat hs') + n) (concat hs') = Some kvs"
    by (rule read_event_headers_more) (rule Cons.IH [OF h(2)])
  from read_event_header [OF h(1) [unfolded kv] this] show ?case
    by (simp add: h(3) n kv ac_simps)
qed simp

lemma event_frame_parts:
  assumes "event_frame header_section payload = Inr bs"
  shows "length bs = length payload + length header_section + 16"
    "read_event bs = map_option (\<lambda>hs. (hs, payload)) (read_event_headers (length header_section) header_section)"
proof -
  let ?n = "length payload + length header_section + 16"
  define p where "p = be_bytes 4 ?n @ be_bytes 4 (length header_section)"
  define r where "r = p @ be_bytes 4 (unat (crc32 p)) @ header_section @ payload"
  have fit: "?n < 256 ^ 4" "length header_section < 256 ^ 4" and bs: "bs = r @ be_bytes 4 (unat (crc32 r))"
    using assms by (auto simp: event_frame_def bind_r_eq_Inr pack_uint_Inr Let_def p_def r_def)
  have lp: "length p = 8" and lr: "length r = ?n - 4"
    by (simp_all add: p_def r_def)
  show len: "length bs = ?n"
    by (simp add: bs lr)
  have total: "from_bytes (take 4 bs) = ?n" "from_bytes (take 4 (drop 4 bs)) = length header_section"
    using fit by (simp_all add: bs r_def p_def del: power_numeral)
  have prelude: "take 8 bs = p" "take 4 (drop 8 bs) = be_bytes 4 (unat (crc32 p))"
    by (simp_all add: bs r_def lp)
  have final: "drop (?n - 4) bs = be_bytes 4 (unat (crc32 r))" "take (?n - 4) bs = r"
    by (simp_all add: bs lr)
  have head: "take (length header_section) (drop 12 bs) = header_section"
    by (simp add: bs r_def lp)
  have body: "take (?n - length header_section - 16) (drop (12 + length header_section) bs) = payload"
    by (simp add: bs r_def lp)
  show "read_event bs = map_option (\<lambda>hs. (hs, payload)) (read_event_headers (length header_section) header_section)"
    unfolding read_event_def Let_def total prelude len final head body by simp
qed

text \<open>
  an event that is encoded for a stream can be read by a client: the first length is the length of
  the whole message, both checksums are right, and the headers (type, kind, error message and code) and
  the payload come back; a message is refused only when a length does not fit its field or a text
  cannot be encoded.
\<close>

theorem event_comes_back:
  assumes "encode_event_payload event_type (PBytes payload) error_code error_message = Inr bs"
  shows "from_bytes (take 4 bs) = length bs
    \<and> read_event bs = Some (event_headers event_type error_code error_message, payload)"
proof -
  obtain hs where hs: "map_r event_header (event_headers event_type error_code error_message) = Inr hs"
      "event_frame (concat hs) payload = Inr bs"
    using assms by (auto simp: encode_event_payload_def encode_payload_def bind_r_eq_Inr)
  have r: "read_event bs = Some (event_headers event_type error_code error_message, payload)"
    using event_frame_parts(2) [OF hs(2)] read_event_headers_all [OF hs(1)] by simp
  then have "from_bytes (take 4 bs) = length bs"
    by (simp add: read_event_def Let_def split: if_splits)
  with r show ?thesis by simp
qed

lemma utf8_encode_ascii: "list_all (\<lambda>c. c < 128) s \<Longrightarrow> utf8_encode s = Inr (map byte s)"
  by (induction s) (simp_all add: is_scalar_def utf8_char_def)

theorem event_comes_back_witness:
  "\<exists>bs. encode_event_payload (cp ''Stats'') (PBytes [1, 2]) None None = Inr bs
     \<and> read_event bs = Some ([(cp '':event-type'', cp ''Stats''), (cp '':message-type'', cp ''event'')], [1, 2])"
proof -
  have h: "event_headers (cp ''Stats'') None None = [(cp '':event-type'', cp ''Stats''), (cp '':message-type'', cp ''event'')]"
    by (simp add: event_headers_def Let_def)
  have "\<exists>bs. encode_event_payload (cp ''Stats'') (PBytes [1, 2]) None None = Inr bs"
    by (simp add: encode_event_payload_def event_headers_def event_header_def is_scalar_def utf8_char_def pack_uint_def encode_payload_def
        event_frame_def Let_def)
  then obtain bs where bs: "encode_event_payload (cp ''Stats'') (PBytes [1, 2]) None None = Inr bs" ..
  from event_comes_back [OF this] bs h show ?thesis by auto
qed

end
