(* ===== verification/JsonSerializer.thy ===== *)
theory JsonSerializer
  imports SerializerCore CborSerializer
begin

text \<open>
  The JSON responses of \<open>aws/protocol/serializer.py\<close>: \<open>JSONResponseSerializer\<close> and what
  \<open>RestJSONResponseSerializer\<close> changes, up to the value that \<open>json.dumps\<close> or \<open>cbor2\<close> writes. Every method
  sets a key of the dictionary it is given; the model returns that dictionary. The last part shows that
  the JSON request parser reads a serialized value back.
\<close>

subsection \<open>Values\<close>

datatype json_class = JsonSer | RestJsonSer

text \<open>\<open>je_cbor\<close> says that the mime type is one of \<open>CBOR_TYPES\<close>; a key None is the value \<open>PNone\<close>.\<close>

record json_env =
  je_aware :: "pyval \<Rightarrow> int result"
  je_cbor :: bool

type_synonym pdict = "(pyval \<times> pyval) list"

type_synonym json_writer = "shape \<Rightarrow> pyval \<Rightarrow> pyval \<Rightarrow> pdict \<Rightarrow> pdict result"

definition json_scalar :: "json_env \<Rightarrow> shape_info \<Rightarrow> scalar \<Rightarrow> pyval \<Rightarrow> pyval result" where
  "json_scalar env i t v =
     (case t of
        TTimestamp \<Rightarrow>
          if je_cbor env then Inr v
          else convert_timestamp_to_str (je_aware env) (cp ''unixtimestamp'') (ser_timestamp_format i) v
      | TBlob \<Rightarrow> if je_cbor env then Inr v else map_sum id PStr (get_base64 v)
      | _ \<Rightarrow> Inr v)"

text \<open>The members a structure puts into \<open>body\<close>; a member the shape does not have is logged and left out.\<close>

fun json_put_members :: "json_writer \<Rightarrow> (ustr \<times> shape) list \<Rightarrow> (pyval \<times> pyval) list \<Rightarrow> pdict \<Rightarrow> pdict result" where
  "json_put_members rec ms [] body = Inr body"
| "json_put_members rec ms ((k, v) # kvs) body =
     (if v = PNone then json_put_members rec ms kvs body
      else case (case k of PStr s \<Rightarrow> map_option (\<lambda>sh. (s, sh)) (map_of ms s) | _ \<Rightarrow> None) of
          None \<Rightarrow> json_put_members rec ms kvs body
        | Some (n, sh) \<Rightarrow> bind_r (rec sh v (PStr (serialized_name sh n)) body) (json_put_members rec ms kvs))"

definition json_put_structure :: "json_writer \<Rightarrow> shape_info \<Rightarrow> (ustr \<times> shape) list \<Rightarrow> pyval \<Rightarrow> pyval \<Rightarrow> pdict \<Rightarrow> pdict result" where
  "json_put_structure rec i ms v key body =
     (if v = PNone then Inr body
      else if is_document_type i then pdict_store key v body
      else if key = PNone then bind_r (py_items v) (\<lambda>kvs. json_put_members rec ms kvs body)
      else bind_r (pdict_store key (PDict []) body) (\<lambda>_.
           bind_r (py_items v) (\<lambda>kvs.
           bind_r (json_put_members rec ms kvs []) (\<lambda>inner. pdict_store key (PDict inner) body))))"

fun json_put_entries :: "json_class \<Rightarrow> json_writer \<Rightarrow> shape \<Rightarrow> (pyval \<times> pyval) list \<Rightarrow> pdict \<Rightarrow> pdict result" where
  "json_put_entries cls rec val [] obj = Inr obj"
| "json_put_entries cls rec val ((k, v) # kvs) obj =
     (if v = PNone \<and> cls = JsonSer then json_put_entries cls rec val kvs obj
      else bind_r (rec val v k obj) (json_put_entries cls rec val kvs))"

definition json_put_map :: "json_class \<Rightarrow> json_writer \<Rightarrow> shape \<Rightarrow> pyval \<Rightarrow> pyval \<Rightarrow> pdict \<Rightarrow> pdict result" where
  "json_put_map cls rec val v key body =
     (if v = PNone then Inr body
      else bind_r (pdict_store key (PDict []) body) (\<lambda>_.
           bind_r (py_items v) (\<lambda>kvs.
           bind_r (json_put_entries cls rec val kvs []) (\<lambda>obj. pdict_store key (PDict obj) body))))"

definition json_item :: "json_writer \<Rightarrow> shape \<Rightarrow> pyval \<Rightarrow> pyval result" where
  "json_item rec member v =
     (let current = PStr (cp ''__current__'')
      in bind_r (rec member v current []) (\<lambda>wrapper.
           case pdict_get wrapper current of None \<Rightarrow> Inl KeyError | Some w \<Rightarrow> Inr w))"

definition json_put_list :: "json_writer \<Rightarrow> shape \<Rightarrow> pyval \<Rightarrow> pyval \<Rightarrow> pdict \<Rightarrow> pdict result" where
  "json_put_list rec member v key body =
     (if v = PNone then Inr body
      else bind_r (pdict_store key (PList []) body) (\<lambda>_.
           bind_r (py_iter v) (\<lambda>items.
           bind_r (map_r (json_item rec member) (filter (\<lambda>x. x \<noteq> PNone) items)) (\<lambda>ws. pdict_store key (PList ws) body))))"

definition json_put_node :: "json_class \<Rightarrow> json_env \<Rightarrow> json_writer \<Rightarrow> json_writer" where
  "json_put_node cls env rec sh v key body =
     (case sh of
        Structure i ms \<Rightarrow> json_put_structure rec i ms v key body
      | ListShape i m \<Rightarrow> json_put_list rec m v key body
      | MapShape i k x \<Rightarrow> json_put_map cls rec x v key body
      | ScalarShape i t \<Rightarrow> bind_r (json_scalar env i t v) (\<lambda>w. pdict_store key w body))"

fun json_serialize :: "json_class \<Rightarrow> json_env \<Rightarrow> nat \<Rightarrow> json_writer" where
  "json_serialize cls env 0 sh v key body = Inl RecursionError"
| "json_serialize cls env (Suc limit) sh v key body =
     convert_serializer_errors (json_put_node cls env (json_serialize cls env limit) sh v key body)"

declare json_serialize.simps(2) [simp del]

text \<open>\<open>_serialize_body_params\<close> before the body is written as text or as CBOR.\<close>

definition json_body :: "json_class \<Rightarrow> json_env \<Rightarrow> nat \<Rightarrow> shape option \<Rightarrow> pyval \<Rightarrow> pdict result" where
  "json_body cls env limit sh v = (case sh of None \<Rightarrow> Inr [] | Some s \<Rightarrow> json_serialize cls env limit s v PNone [])"

subsection \<open>Errors\<close>

text \<open>
  \<open>attrs\<close> holds what \<open>getattr\<close> finds on the exception. The result is the body and the headers that are
  set for the error.
\<close>

definition json_error_params :: "(ustr \<times> shape) list \<Rightarrow> ustr list \<Rightarrow> (ustr \<times> pyval) list \<Rightarrow> (ustr \<times> pyval) list" where
  "json_error_params ms required attrs =
     fold (\<lambda>(member, _) params.
        case error_attribute attrs member of
          None \<Rightarrow> params
        | Some v \<Rightarrow> if v \<noteq> PNone \<and> (truthy v \<or> member \<in> set required) then dict_set member v params else params)
       ms []"

definition json_error_message :: "service_exception \<Rightarrow> pdict \<Rightarrow> pdict" where
  "json_error_message e body =
     (if pdict_get body (PStr (cp ''message'')) = None \<and> pdict_get body (PStr (cp ''Message'')) = None
      then (case get_error_message e of
              Some m \<Rightarrow> if m \<noteq> [] then pdict_set (PStr (cp ''message'')) (PStr m) body else body
            | None \<Rightarrow> body)
      else body)"

definition json_error ::
    "json_class \<Rightarrow> json_env \<Rightarrow> nat \<Rightarrow> bool \<Rightarrow> shape option \<Rightarrow> (ustr \<times> pyval) list \<Rightarrow> service_exception
     \<Rightarrow> (pdict \<times> (ustr \<times> ustr) list) result" where
  "json_error cls env limit compatible sh attrs e =
     (let code = get_error_code compatible e sh; start = [(PStr (cp ''__type''), PStr code)]
      in bind_r (case sh of
                   Some (Structure i ms) \<Rightarrow>
                     json_serialize cls env limit (Structure i ms) (str_dict (json_error_params ms (required_members i) attrs)) PNone start
                 | _ \<Rightarrow> Inr start)
           (\<lambda>body. Inr (json_error_message e body,
              (cp ''X-Amzn-Errortype'', code) # (if compatible then [query_compatible_error_header e] else []))))"

subsection \<open>Values that fit a shape\<close>

text \<open>
  \<open>json_value k sh v\<close>: \<open>v\<close> conforms to \<open>sh\<close> and is nested at most \<open>k\<close> deep. Members have different JSON
  names and every required one is present; map keys are strings; timestamps are whole seconds in the
  range of \<open>datetime\<close>.
\<close>

inductive json_value :: "nat \<Rightarrow> shape \<Rightarrow> pyval \<Rightarrow> bool" where
  json_string: "ser_location i = None \<Longrightarrow> json_value (Suc k) (ScalarShape i TString) (PStr s)"
| json_boolean: "ser_location i = None \<Longrightarrow> json_value (Suc k) (ScalarShape i TBoolean) (PBool b)"
| json_integer: "ser_location i = None \<Longrightarrow> t = TInteger \<or> t = TLong \<Longrightarrow> json_value (Suc k) (ScalarShape i t) (PInt n)"
| json_float: "ser_location i = None \<Longrightarrow> t = TFloat \<or> t = TDouble \<Longrightarrow> json_value (Suc k) (ScalarShape i t) (PFloat w)"
| json_blob: "ser_location i = None \<Longrightarrow> json_value (Suc k) (ScalarShape i TBlob) (PBytes b)"
| json_time: "ser_location i = None \<Longrightarrow> ser_timestamp_format i \<in> {None, Some (cp ''unixTimestamp'')} \<Longrightarrow>
    - 62135596800 \<le> s \<Longrightarrow> s \<le> 253402300799 \<Longrightarrow> json_value (Suc k) (ScalarShape i TTimestamp) (PTime (10 ^ 6 * s))"
| json_value_list: "ser_location i = None \<Longrightarrow> list_all (json_value k m) vs \<Longrightarrow> json_value (Suc k) (ListShape i m) (PList vs)"
| json_value_map: "ser_location i = None \<Longrightarrow> ser_location ki = None \<Longrightarrow> wf_dict d \<Longrightarrow> 0 < k \<Longrightarrow>
    list_all (\<lambda>(s, v). json_value k x v) d \<Longrightarrow> json_value (Suc k) (MapShape i (ScalarShape ki TString) x) (str_dict d)"
| json_value_structure: "ser_location i = None \<Longrightarrow> \<not> is_document_type i \<Longrightarrow> distinct (map fst ms) \<Longrightarrow>
    distinct (map (\<lambda>(n, sh). serialized_name sh n) ms) \<Longrightarrow> 0 < k \<Longrightarrow>
    list_all (\<lambda>(n, sh). ser_location (shape_info_of sh) = None \<and> (n \<in> set (required_members i) \<longrightarrow> f n \<noteq> None)
      \<and> (\<forall>v. f n = Some v \<longrightarrow> json_value k sh v)) ms \<Longrightarrow>
    json_value (Suc k) (Structure i ms) (str_dict (present_members ms f))"

lemma json_value_not_None: "json_value k sh v \<Longrightarrow> v \<noteq> PNone"
  by (induction rule: json_value.induct) (simp_all add: str_dict_def)

text \<open>The value is set under any key, and the parser reads what was set.\<close>

definition json_back :: "json_class \<Rightarrow> json_env \<Rightarrow> time_parsers \<Rightarrow> request \<Rightarrow> uri_params \<Rightarrow> nat \<Rightarrow> shape \<Rightarrow> pyval \<Rightarrow> bool" where
  "json_back cls env tp rq uri k sh v \<longleftrightarrow>
     (\<forall>l \<ge> k. \<exists>w. (\<forall>s body. json_serialize cls env l sh v (PStr s) body = Inr (pdict_set (PStr s) w body))
        \<and> (\<forall>l' \<ge> k. parse_shape JsonParser tp rq uri l' sh w = Inr v))"

lemma parse_shape_plain:
  "ser_location (shape_info_of sh) = None \<Longrightarrow> v \<noteq> PNone \<Longrightarrow>
     parse_shape cls tp rq uri (Suc l) sh v = convert_type_errors (parse_node cls tp rq (parse_shape cls tp rq uri l) sh v)"
  by (simp add: parse_shape.simps shape_payload_def Let_def)

lemma convert_errors_Inr [simp]: "convert_type_errors (Inr x) = Inr x" "convert_serializer_errors (Inr x) = Inr x"
  by (simp_all add: convert_type_errors_def convert_serializer_errors_def)

lemma json_back_scalar:
  assumes "ser_location i = None" "json_scalar env i t v = Inr w" "w \<noteq> PNone" "parse_scalar JsonParser tp rq i t w = Inr v"
  shows "json_back cls env tp rq uri (Suc k) (ScalarShape i t) v"
  unfolding json_back_def
proof (intro allI impI)
  fix l assume "Suc k \<le> l"
  then obtain l0 where l: "l = Suc l0" by (cases l) auto
  have "parse_shape JsonParser tp rq uri l' (ScalarShape i t) w = Inr v" if l': "Suc k \<le> l'" for l'
  proof -
    obtain l1 where "l' = Suc l1" using l' by (cases l') auto
    with assms show ?thesis by (simp add: parse_shape_plain parse_node_def)
  qed
  then show "\<exists>w. (\<forall>s body. json_serialize cls env l (ScalarShape i t) v (PStr s) body = Inr (pdict_set (PStr s) w body))
      \<and> (\<forall>l' \<ge> Suc k. parse_shape JsonParser tp rq uri l' (ScalarShape i t) w = Inr v)"
    by (intro exI [of _ w]) (simp add: l json_serialize.simps json_put_node_def assms(2) pdict_store_def)
qed

lemmas json_back_plain = json_back_scalar [where v = v and w = v for v]

lemma py_int_seconds:
  assumes "- 62135596800 \<le> s" "s \<le> 253402300799"
  shows "timestamp_unixtimestamp (PFloat (datetime_timestamp (10 ^ 6 * s))) = Inr (PTime (10 ^ 6 * s))"
proof -
  let ?n = "nat \<bar>s\<bar>"
  have n: "?n < 2 ^ 53" using assms by simp
  have dv: "?n * 2 ^ 1074 div 2 ^ 1074 = ?n"
    by (rule nonzero_mult_div_cancel_right) simp
  have "py_int (PFloat (f64_make (s < 0) (round_mag 52 1074 ?n 1))) = Inr s"
    using f64_make_small_int [OF n, of "s < 0"] mag_frac_small_int(1) [OF n] dv
    by (simp add: f64_finite_def f64_is_nan_def f64_is_inf_def zdiv_int [symmetric] del: of_nat_mult)
  then have "py_int (PFloat (datetime_timestamp (10 ^ 6 * s))) = Inr s"
    by (simp only: datetime_timestamp_seconds)
  then show ?thesis
    using assms by (simp add: timestamp_unixtimestamp_def datetime_of_int_def)
qed

lemma json_back_item:
  assumes "json_back cls env tp rq uri k m v" "k \<le> l"
  shows "\<exists>w. json_item (json_serialize cls env l) m v = Inr w \<and> (\<forall>l' \<ge> k. parse_shape JsonParser tp rq uri l' m w = Inr v)"
  using assms by (auto simp: json_back_def json_item_def Let_def)

lemma json_back_list:
  assumes loc: "ser_location i = None" and vs: "\<And>v. v \<in> set vs \<Longrightarrow> json_back cls env tp rq uri k m v \<and> v \<noteq> PNone"
  shows "json_back cls env tp rq uri (Suc k) (ListShape i m) (PList vs)"
  unfolding json_back_def
proof (intro allI impI)
  fix l assume "Suc k \<le> l"
  then obtain l0 where l: "l = Suc l0" "k \<le> l0" by (cases l) auto
  have "\<forall>v \<in> set vs. \<exists>w. json_item (json_serialize cls env l0) m v = Inr w \<and> (\<forall>l' \<ge> k. parse_shape JsonParser tp rq uri l' m w = Inr v)"
    using json_back_item [OF _ l(2)] vs by blast
  then obtain e where e: "\<And>v. v \<in> set vs \<Longrightarrow> json_item (json_serialize cls env l0) m v = Inr (e v)
      \<and> (\<forall>l' \<ge> k. parse_shape JsonParser tp rq uri l' m (e v) = Inr v)"
    by metis
  have filter: "filter (\<lambda>x. x \<noteq> PNone) vs = vs"
    using vs by (simp add: filter_id_conv)
  have "map_r (json_item (json_serialize cls env l0) m) vs = Inr (map e vs)"
    by (rule map_r_all_Inr) (use e in simp)
  then have ser: "json_serialize cls env l (ListShape i m) (PList vs) (PStr s) body = Inr (pdict_set (PStr s) (PList (map e vs)) body)" for s body
    by (simp add: l json_serialize.simps json_put_node_def json_put_list_def pdict_store_def py_iter_def filter)
  have "parse_shape JsonParser tp rq uri l' (ListShape i m) (PList (map e vs)) = Inr (PList vs)" if l': "Suc k \<le> l'" for l'
  proof -
    obtain l1 where l1: "l' = Suc l1" "k \<le> l1" using l' by (cases l') auto
    have "map_r (parse_shape JsonParser tp rq uri l1 m \<circ> e) vs = Inr (map id vs)"
      by (rule map_r_all_Inr) (use e l1(2) in simp)
    moreover have "map_r g (map e vs) = map_r (g \<circ> e) vs" for g :: "pyval \<Rightarrow> pyval result"
      by (induction vs) simp_all
    ultimately show ?thesis
      using loc by (simp add: l1(1) parse_shape_plain parse_node_def parse_list_def py_iter_def)
  qed
  with ser show "\<exists>w. (\<forall>s body. json_serialize cls env l (ListShape i m) (PList vs) (PStr s) body = Inr (pdict_set (PStr s) w body))
      \<and> (\<forall>l' \<ge> Suc k. parse_shape JsonParser tp rq uri l' (ListShape i m) w = Inr (PList vs))"
    by blast
qed

text \<open>The keys that are set one after the other are new.\<close>

lemma pdict_set_new: "s \<notin> fst ` set d \<Longrightarrow> pdict_set (PStr s) w (map (\<lambda>(k, v). (PStr k, v)) d) = map (\<lambda>(k, v). (PStr k, v)) (d @ [(s, w)])"
  by (subst pdict_set_fresh) (auto simp: image_iff)

lemma json_put_entries_all:
  assumes "\<And>s v. (s, v) \<in> set d \<Longrightarrow> v \<noteq> PNone \<and> (\<forall>body. rec x v (PStr s) body = Inr (pdict_set (PStr s) (e v) body))"
    "wf_dict (acc @ d)"
  shows "json_put_entries cls rec x (map (\<lambda>(k, v). (PStr k, v)) d) (map (\<lambda>(k, v). (PStr k, e v)) acc)
    = Inr (map (\<lambda>(k, v). (PStr k, e v)) (acc @ d))"
  using assms
proof (induction d arbitrary: acc)
  case (Cons sv d)
  obtain s v where sv: "sv = (s, v)" by (cases sv)
  have "s \<notin> fst ` set (map (\<lambda>(k, v). (k, e v)) acc)"
    using Cons.prems(2) sv by (auto simp: wf_dict_def image_iff)
  from pdict_set_new [OF this, of "e v"]
  have "pdict_set (PStr s) (e v) (map (\<lambda>(k, v). (PStr k, e v)) acc) = map (\<lambda>(k, v). (PStr k, e v)) (acc @ [(s, v)])"
    by (simp add: comp_def case_prod_unfold)
  moreover have "json_put_entries cls rec x (map (\<lambda>(k, v). (PStr k, v)) d) (map (\<lambda>(k, v). (PStr k, e v)) (acc @ [(s, v)]))
      = Inr (map (\<lambda>(k, v). (PStr k, e v)) ((acc @ [(s, v)]) @ d))"
    by (rule Cons.IH) (use Cons.prems sv in auto)
  ultimately show ?case
    using Cons.prems(1) [of s v] by (simp add: sv)
qed simp

lemma map_entries_back:
  assumes "\<And>s v. (s, v) \<in> set d \<Longrightarrow> rec key (PStr s) = Inr (PStr s) \<and> rec x (e v) = Inr v" "wf_dict (acc @ d)"
  shows "map_entries rec key x (map (\<lambda>(k, v). (PStr k, e v)) d) (map (\<lambda>(k, v). (PStr k, v)) acc)
    = Inr (map (\<lambda>(k, v). (PStr k, v)) (acc @ d))"
  using assms
proof (induction d arbitrary: acc)
  case (Cons sv d)
  obtain s v where sv: "sv = (s, v)" by (cases sv)
  have "s \<notin> fst ` set acc"
    using Cons.prems(2) sv by (auto simp: wf_dict_def)
  then have "pdict_set (PStr s) v (map (\<lambda>(k, v). (PStr k, v)) acc) = map (\<lambda>(k, v). (PStr k, v)) (acc @ [(s, v)])"
    by (rule pdict_set_new)
  moreover have "map_entries rec key x (map (\<lambda>(k, v). (PStr k, e v)) d) (map (\<lambda>(k, v). (PStr k, v)) (acc @ [(s, v)]))
      = Inr (map (\<lambda>(k, v). (PStr k, v)) ((acc @ [(s, v)]) @ d))"
    by (rule Cons.IH) (use Cons.prems sv in auto)
  ultimately show ?case
    using Cons.prems(1) [of s v] by (simp add: sv pdict_store_def)
qed simp

lemma json_back_map:
  assumes loc: "ser_location i = None" "ser_location ki = None" and wf: "wf_dict d"
    and d: "\<And>s v. (s, v) \<in> set d \<Longrightarrow> json_back cls env tp rq uri (Suc k) x v \<and> v \<noteq> PNone"
  shows "json_back cls env tp rq uri (Suc (Suc k)) (MapShape i (ScalarShape ki TString) x) (str_dict d)"
    (is "json_back cls env tp rq uri _ ?sh _")
  unfolding json_back_def
proof (intro allI impI)
  fix l assume "Suc (Suc k) \<le> l"
  then obtain l0 where l: "l = Suc l0" "Suc k \<le> l0" by (cases l) auto
  have "\<forall>v \<in> snd ` set d. \<exists>w. (\<forall>s body. json_serialize cls env l0 x v (PStr s) body = Inr (pdict_set (PStr s) w body))
      \<and> (\<forall>l' \<ge> Suc k. parse_shape JsonParser tp rq uri l' x w = Inr v)"
  proof
    fix v assume "v \<in> snd ` set d"
    then obtain s where "(s, v) \<in> set d" by auto
    then show "\<exists>w. (\<forall>s body. json_serialize cls env l0 x v (PStr s) body = Inr (pdict_set (PStr s) w body))
        \<and> (\<forall>l' \<ge> Suc k. parse_shape JsonParser tp rq uri l' x w = Inr v)"
      using d l(2) unfolding json_back_def by blast
  qed
  then obtain e where e: "\<And>v. v \<in> snd ` set d \<Longrightarrow> (\<forall>s body. json_serialize cls env l0 x v (PStr s) body = Inr (pdict_set (PStr s) (e v) body))
      \<and> (\<forall>l' \<ge> Suc k. parse_shape JsonParser tp rq uri l' x (e v) = Inr v)"
    by metis
  let ?w = "PDict (map (\<lambda>(k, v). (PStr k, e v)) d)"
  have "json_put_entries cls (json_serialize cls env l0) x (map (\<lambda>(k, v). (PStr k, v)) d) (map (\<lambda>(k, v). (PStr k, e v)) [])
      = Inr (map (\<lambda>(k, v). (PStr k, e v)) ([] @ d))"
    by (rule json_put_entries_all) (use d e wf in \<open>force+\<close>)
  then have ser: "json_serialize cls env l ?sh (str_dict d) (PStr s) body = Inr (pdict_set (PStr s) ?w body)" for s body
    by (simp add: l json_serialize.simps json_put_node_def json_put_map_def pdict_store_def str_dict_def py_items_def)
  have "parse_shape JsonParser tp rq uri l' ?sh ?w = Inr (str_dict d)" if l': "Suc (Suc k) \<le> l'" for l'
  proof -
    obtain l1 l2 where l1: "l' = Suc l1" "Suc k \<le> l1" "l1 = Suc l2" using l' by (cases l'; cases "l' - 1") auto
    have "map_entries (parse_shape JsonParser tp rq uri l1) (ScalarShape ki TString) x (map (\<lambda>(k, v). (PStr k, e v)) d) (map (\<lambda>(k, v). (PStr k, v)) [])
        = Inr (map (\<lambda>(k, v). (PStr k, v)) ([] @ d))"
    proof (rule map_entries_back)
      fix s v assume "(s, v) \<in> set d"
      then have "v \<in> snd ` set d" by force
      with e l1(2) have "parse_shape JsonParser tp rq uri l1 x (e v) = Inr v" by blast
      moreover have "parse_shape JsonParser tp rq uri l1 (ScalarShape ki TString) (PStr s) = Inr (PStr s)"
        using loc(2) by (simp add: l1(3) parse_shape_plain parse_node_def)
      ultimately show "parse_shape JsonParser tp rq uri l1 (ScalarShape ki TString) (PStr s) = Inr (PStr s)
          \<and> parse_shape JsonParser tp rq uri l1 x (e v) = Inr v" by simp
    qed (use wf in simp)
    then show ?thesis
      using loc(1) by (simp add: l1(1) parse_shape_plain parse_node_def json_map_def py_items_def str_dict_def)
  qed
  with ser show "\<exists>w. (\<forall>s body. json_serialize cls env l ?sh (str_dict d) (PStr s) body = Inr (pdict_set (PStr s) w body))
      \<and> (\<forall>l' \<ge> Suc (Suc k). parse_shape JsonParser tp rq uri l' ?sh w = Inr (str_dict d))"
    by blast
qed

text \<open>The entries a structure is written to.\<close>

definition json_entries :: "(ustr \<times> shape) list \<Rightarrow> (ustr \<Rightarrow> pyval option) \<Rightarrow> (ustr \<Rightarrow> pyval) \<Rightarrow> (ustr \<times> pyval) list" where
  "json_entries ms f P = map (\<lambda>(n, sh). (serialized_name sh n, P n)) (filter (\<lambda>(n, sh). f n \<noteq> None) ms)"

lemma json_put_members_present:
  assumes "\<And>n sh v. (n, sh) \<in> set ms \<Longrightarrow> f n = Some v \<Longrightarrow> map_of MS n = Some sh \<and> v \<noteq> PNone
      \<and> (\<forall>s body. rec sh v (PStr s) body = Inr (pdict_set (PStr s) (P n) body))"
    "distinct (map fst acc @ map (\<lambda>(n, sh). serialized_name sh n) ms)"
  shows "json_put_members rec MS (map (\<lambda>(k, v). (PStr k, v)) (present_members ms f)) (map (\<lambda>(k, v). (PStr k, v)) acc)
    = Inr (map (\<lambda>(k, v). (PStr k, v)) (acc @ json_entries ms f P))"
  using assms
proof (induction ms arbitrary: acc)
  case (Cons m ms)
  obtain n sh where m: "m = (n, sh)" by (cases m)
  have IH: "json_put_members rec MS (map (\<lambda>(k, v). (PStr k, v)) (present_members ms f)) (map (\<lambda>(k, v). (PStr k, v)) acc')
      = Inr (map (\<lambda>(k, v). (PStr k, v)) (acc' @ json_entries ms f P))"
    if "distinct (map fst acc' @ map (\<lambda>(n, sh). serialized_name sh n) ms)" for acc'
    by (rule Cons.IH) (use Cons.prems that in auto)
  show ?case
  proof (cases "f n")
    case None
    with IH [of acc] Cons.prems(2) m show ?thesis by (simp add: json_entries_def)
  next
    case (Some v)
    have "serialized_name sh n \<notin> fst ` set acc"
      using Cons.prems(2) m by auto
    moreover have h: "dict_get MS n = Some sh" "v \<noteq> PNone"
        "\<forall>s body. rec sh v (PStr s) body = Inr (pdict_set (PStr s) (P n) body)"
      using Cons.prems(1) [of n sh v] Some m by auto
    ultimately have "rec sh v (PStr (serialized_name sh n)) (map (\<lambda>(k, v). (PStr k, v)) acc)
        = Inr (map (\<lambda>(k, v). (PStr k, v)) (acc @ [(serialized_name sh n, P n)]))"
      using pdict_set_new [of "serialized_name sh n" acc] by simp
    with IH [of "acc @ [(serialized_name sh n, P n)]"] Cons.prems(2) h(1,2) Some m show ?thesis
      by (simp add: json_entries_def)
  qed
qed (simp add: json_entries_def)

lemma json_members_present:
  assumes "\<And>n sh. (n, sh) \<in> set ms \<Longrightarrow> dict_get_or_none kvs (serialized_name sh n) = (if f n = None then PNone else P n)
      \<and> rec sh PNone = Inr PNone \<and> (f n = None \<longrightarrow> n \<notin> set required) \<and> (\<forall>v. f n = Some v \<longrightarrow> rec sh (P n) = Inr v \<and> v \<noteq> PNone)"
    "distinct (map fst acc @ map fst ms)"
  shows "json_members rec required ms (PDict kvs) acc = Inr (acc @ present_members ms f)"
  using assms
proof (induction ms arbitrary: acc)
  case (Cons m ms)
  obtain n sh where m: "m = (n, sh)" by (cases m)
  have h: "dict_get_or_none kvs (serialized_name sh n) = (if f n = None then PNone else P n)" "rec sh PNone = Inr PNone"
      "f n = None \<Longrightarrow> n \<notin> set required" "\<And>v. f n = Some v \<Longrightarrow> rec sh (P n) = Inr v \<and> v \<noteq> PNone"
    using Cons.prems(1) [of n sh] m by auto
  have IH: "json_members rec required ms (PDict kvs) acc' = Inr (acc' @ present_members ms f)"
    if "distinct (map fst acc' @ map fst ms)" for acc'
    by (rule Cons.IH) (use Cons.prems that in auto)
  show ?case
  proof (cases "f n")
    case None
    with IH [of acc] Cons.prems(2) h show ?thesis by (simp add: m py_items_def)
  next
    case (Some v)
    moreover have "dict_set n v acc = acc @ [(n, v)]"
      using Cons.prems(2) m by (simp add: dict_set_new)
    ultimately show ?thesis
      using IH [of "acc @ [(n, v)]"] Cons.prems(2) h by (simp add: m py_items_def)
  qed
qed simp

lemma map_of_json_entries:
  assumes "distinct (map (\<lambda>(n, sh). serialized_name sh n) ms)" "(n, sh) \<in> set ms"
  shows "map_of (json_entries ms f P) (serialized_name sh n) = (if f n = None then None else Some (P n))"
  using assms
proof (induction ms)
  case (Cons m ms)
  obtain n' sh' where m: "m = (n', sh')" by (cases m)
  have out: "map_of (json_entries ms f P) key = None" if "key \<notin> set (map (\<lambda>(n, sh). serialized_name sh n) ms)" for key
    using that by (auto simp: map_of_eq_None_iff json_entries_def)
  show ?case
  proof (cases "(n, sh) = m")
    case True
    with Cons.prems(1) m out [of "serialized_name sh n"] show ?thesis
      by (auto simp: json_entries_def)
  next
    case False
    then have mem: "(n, sh) \<in> set ms" using Cons.prems(2) by simp
    then have "serialized_name sh n \<in> set (map (\<lambda>(n, sh). serialized_name sh n) ms)" by force
    then have ne: "serialized_name sh' n' \<noteq> serialized_name sh n" using Cons.prems(1) m by auto
    have "map_of (json_entries ms f P) (serialized_name sh n) = (if f n = None then None else Some (P n))"
      by (rule Cons.IH [OF _ mem]) (use Cons.prems(1) m in simp)
    with ne show ?thesis by (simp add: m json_entries_def)
  qed
qed simp

text \<open>A structure is written to the entries, under a key or at the top of the body.\<close>

lemma json_structure_entries:
  assumes loc: "ser_location i = None" and doc: "\<not> is_document_type i" and names: "distinct (map fst ms)"
    and keys: "distinct (map (\<lambda>(n, sh). serialized_name sh n) ms)" and l: "Suc k \<le> l" and pos: "0 < k"
    and ms: "\<And>n sh. (n, sh) \<in> set ms \<Longrightarrow> ser_location (shape_info_of sh) = None
      \<and> (n \<in> set (required_members i) \<longrightarrow> f n \<noteq> None)
      \<and> (\<forall>v. f n = Some v \<longrightarrow> json_back cls env tp rq uri k sh v \<and> v \<noteq> PNone)"
  shows "\<exists>es. (\<forall>s body. json_serialize cls env l (Structure i ms) (str_dict (present_members ms f)) (PStr s) body
        = Inr (pdict_set (PStr s) (str_dict es) body))
      \<and> json_serialize cls env l (Structure i ms) (str_dict (present_members ms f)) PNone []
        = Inr (map (\<lambda>(k, v). (PStr k, v)) es)
      \<and> (\<forall>l' \<ge> Suc k. parse_shape JsonParser tp rq uri l' (Structure i ms) (str_dict es) = Inr (str_dict (present_members ms f)))"
proof -
  obtain l0 where l0: "l = Suc l0" "k \<le> l0" using l by (cases l) auto
  let ?good = "\<lambda>n w. \<forall>sh v. (n, sh) \<in> set ms \<longrightarrow> f n = Some v \<longrightarrow>
      (\<forall>s body. json_serialize cls env l0 sh v (PStr s) body = Inr (pdict_set (PStr s) w body))
      \<and> (\<forall>l' \<ge> k. parse_shape JsonParser tp rq uri l' sh w = Inr v)"
  have "\<exists>w. ?good n w" for n
  proof (cases "\<exists>sh v. (n, sh) \<in> set ms \<and> f n = Some v")
    case True
    then obtain sh v where sh: "(n, sh) \<in> set ms" "f n = Some v" by blast
    then obtain w where w: "\<forall>s body. json_serialize cls env l0 sh v (PStr s) body = Inr (pdict_set (PStr s) w body)"
        "\<forall>l' \<ge> k. parse_shape JsonParser tp rq uri l' sh w = Inr v"
      using ms [OF sh(1)] l0(2) unfolding json_back_def by blast
    moreover have "sh' = sh" if "(n, sh') \<in> set ms" for sh'
      using names sh(1) that by (metis eq_key_imp_eq_value)
    ultimately have "?good n w" using sh(2) by auto
    then show ?thesis ..
  qed blast
  then obtain P where P: "\<And>n. ?good n (P n)" by metis
  define es where "es = json_entries ms f P"
  have "json_put_members (json_serialize cls env l0) ms (map (\<lambda>(k, v). (PStr k, v)) (present_members ms f)) (map (\<lambda>(k, v). (PStr k, v)) [])
      = Inr (map (\<lambda>(k, v). (PStr k, v)) ([] @ json_entries ms f P))"
  proof (rule json_put_members_present)
    fix n sh v assume "(n, sh) \<in> set ms" "f n = Some v"
    with P [of n] ms [of n sh] names show "map_of ms n = Some sh \<and> v \<noteq> PNone
        \<and> (\<forall>s body. json_serialize cls env l0 sh v (PStr s) body = Inr (pdict_set (PStr s) (P n) body))"
      by auto
  qed (use keys in simp)
  then have put: "json_put_members (json_serialize cls env l0) ms (map (\<lambda>(k, v). (PStr k, v)) (present_members ms f)) []
      = Inr (map (\<lambda>(k, v). (PStr k, v)) es)"
    by (simp add: es_def)
  have read: "parse_shape JsonParser tp rq uri l' (Structure i ms) (str_dict es) = Inr (str_dict (present_members ms f))"
    if l': "Suc k \<le> l'" for l'
  proof -
    obtain l1 l2 where l1: "l' = Suc l1" "k \<le> l1" "l1 = Suc l2" using l' pos by (cases l'; cases "l' - 1") auto
    have "json_members (parse_shape JsonParser tp rq uri l1) (required_members i) ms (PDict (map (\<lambda>(k, v). (PStr k, v)) es)) []
        = Inr ([] @ present_members ms f)"
    proof (rule json_members_present)
      fix n sh assume n: "(n, sh) \<in> set ms"
      have "dict_get_or_none (map (\<lambda>(k, v). (PStr k, v)) es) (serialized_name sh n) = (if f n = None then PNone else P n)"
        using map_of_json_entries [OF keys n, of f P] by (simp add: dict_get_or_none_def es_def)
      moreover have "parse_shape JsonParser tp rq uri l1 sh PNone = Inr PNone"
        using ms [OF n] by (simp add: l1(3) parse_shape.simps shape_payload_def Let_def)
      ultimately show "dict_get_or_none (map (\<lambda>(k, v). (PStr k, v)) es) (serialized_name sh n) = (if f n = None then PNone else P n)
          \<and> parse_shape JsonParser tp rq uri l1 sh PNone = Inr PNone \<and> (f n = None \<longrightarrow> n \<notin> set (required_members i))
          \<and> (\<forall>v. f n = Some v \<longrightarrow> parse_shape JsonParser tp rq uri l1 sh (P n) = Inr v \<and> v \<noteq> PNone)"
        using ms [OF n] P [of n] n l1(2) by blast
    qed (use names in simp)
    then show ?thesis
      using loc doc by (simp add: l1(1) parse_shape_plain parse_node_def json_structure_def str_dict_def)
  qed
  have "json_serialize cls env l (Structure i ms) (str_dict (present_members ms f)) (PStr s) body
        = Inr (pdict_set (PStr s) (str_dict es) body)" for s body
    using put doc by (simp add: l0(1) json_serialize.simps json_put_node_def json_put_structure_def str_dict_def pdict_store_def py_items_def)
  moreover have "json_serialize cls env l (Structure i ms) (str_dict (present_members ms f)) PNone [] = Inr (map (\<lambda>(k, v). (PStr k, v)) es)"
    using put doc by (simp add: l0(1) json_serialize.simps json_put_node_def json_put_structure_def str_dict_def py_items_def)
  ultimately show ?thesis using read by blast
qed

lemma json_time_back:
  assumes aware: "\<And>us. je_aware env (PTime us) = Inr us" and "\<not> je_cbor env" "\<not> cbor_mimetype rq"
    and loc: "ser_location i = None" and fmt: "ser_timestamp_format i \<in> {None, Some (cp ''unixTimestamp'')}" and s: "- 62135596800 \<le> s" "s \<le> 253402300799"
  defines "w \<equiv> PFloat (datetime_timestamp (10 ^ 6 * s))"
  shows "json_scalar env i TTimestamp (PTime (10 ^ 6 * s)) = Inr w \<and> parse_scalar JsonParser tp rq i TTimestamp w = Inr (PTime (10 ^ 6 * s))"
proof
  consider "ser_timestamp_format i = None" | "ser_timestamp_format i = Some (cp ''unixTimestamp'')"
    using fmt by auto
  then show "json_scalar env i TTimestamp (PTime (10 ^ 6 * s)) = Inr w"
    by cases (simp_all add: assms(2) json_scalar_def convert_timestamp_to_str_def aware w_def ustr_lower_def)
  consider "ser_timestamp_format i = None" | "ser_timestamp_format i = Some (cp ''unixTimestamp'')"
    using fmt by auto
  then show "parse_scalar JsonParser tp rq i TTimestamp w = Inr (PTime (10 ^ 6 * s))"
    using py_int_seconds [OF s] assms(3)
    by cases (simp_all add: parse_timestamp_def json_parse_timestamp_def base_parse_timestamp_def convert_str_to_timestamp_def
        timestamp_format_of_def w_def ustr_lower_def loc)
qed

lemma json_value_comes_back:
  assumes "json_value k sh v" and aware: "\<And>us. je_aware env (PTime us) = Inr us" and plain: "\<not> je_cbor env" "\<not> cbor_mimetype rq"
  shows "json_back cls env tp rq uri k sh v"
  using assms(1)
proof (induction rule: json_value.induct)
  case (json_blob i k b)
  then show ?case
    by (rule json_back_scalar [where w = "PStr (b64encode b)"])
      (simp_all add: json_scalar_def plain get_base64_def parse_blob_def b64decode_encode)
next
  case (json_time i s k)
  show ?case
    by (rule json_back_scalar [where w = "PFloat (datetime_timestamp (10 ^ 6 * s))"])
      (use json_time json_time_back [OF aware plain json_time(1-4), of tp] in simp_all)
next
  case (json_value_list i k m vs)
  then show ?case
    by (intro json_back_list) (auto simp: list_all_iff dest: json_value_not_None)
next
  case (json_value_map i ki d k x)
  obtain k' where k: "k = Suc k'" using json_value_map by (cases k) auto
  show ?case
    unfolding k by (rule json_back_map) (use json_value_map in \<open>force simp: list_all_iff k dest: json_value_not_None\<close>)+
next
  case (json_value_structure i ms k f)
  show ?case
    unfolding json_back_def
  proof (intro allI impI)
    fix l assume l: "Suc k \<le> l"
    have "ser_location (shape_info_of sh) = None \<and> (n \<in> set (required_members i) \<longrightarrow> f n \<noteq> None)
        \<and> (\<forall>v. f n = Some v \<longrightarrow> json_back cls env tp rq uri k sh v \<and> v \<noteq> PNone)" if "(n, sh) \<in> set ms" for n sh
      using that json_value_structure by (fastforce simp: list_all_iff dest: json_value_not_None)
    from json_structure_entries [OF json_value_structure(1-4) l json_value_structure(5) this]
    show "\<exists>w. (\<forall>s body. json_serialize cls env l (Structure i ms) (str_dict (present_members ms f)) (PStr s) body = Inr (pdict_set (PStr s) w body))
        \<and> (\<forall>l' \<ge> Suc k. parse_shape JsonParser tp rq uri l' (Structure i ms) w = Inr (str_dict (present_members ms f)))"
      by blast
  qed
qed (rule json_back_plain; auto simp: json_scalar_def parse_boolean_def)+

subsection \<open>Bodies\<close>

inductive_cases json_structureE: "json_value k (Structure i ms) v"

text \<open>
  C19: what the JSON and REST-JSON serializers hand to \<open>json.dumps\<close> for a value that conforms to a
  structure, the JSON request parser reads back as the same value: renamed members, nested structures,
  lists and maps, blobs in base64 and timestamps in seconds.
\<close>

theorem json_body_comes_back:
  assumes "json_value k (Structure i ms) v" and aware: "\<And>us. je_aware env (PTime us) = Inr us"
    and plain: "\<not> je_cbor env" "\<not> cbor_mimetype rq" and depth: "k \<le> l" "k \<le> l'"
  shows "\<exists>d. json_body cls env l (Some (Structure i ms)) v = Inr d \<and> parse_shape JsonParser tp rq uri l' (Structure i ms) (PDict d) = Inr v"
proof -
  obtain k' f where 1: "k = Suc k'" "v = str_dict (present_members ms f)" "ser_location i = None" "\<not> is_document_type i" "distinct (map fst ms)"
    "distinct (map (\<lambda>(n, sh). serialized_name sh n) ms)" "0 < k'"
    "list_all (\<lambda>(n, sh). ser_location (shape_info_of sh) = None \<and> (n \<in> set (required_members i) \<longrightarrow> (\<exists>y. f n = Some y))
      \<and> (\<forall>v. f n = Some v \<longrightarrow> json_value k' sh v)) ms"
    by (rule json_structureE [OF assms(1)]) (rule that)
  have "ser_location (shape_info_of sh) = None \<and> (n \<in> set (required_members i) \<longrightarrow> f n \<noteq> None)
      \<and> (\<forall>v. f n = Some v \<longrightarrow> json_back cls env tp rq uri k' sh v \<and> v \<noteq> PNone)" if "(n, sh) \<in> set ms" for n sh
    using that 1 json_value_comes_back [OF _ aware plain] by (fastforce simp: list_all_iff dest: json_value_not_None)
  from json_structure_entries [OF 1(3-6) _ 1(7) this, of l] depth show ?thesis
    unfolding 1(1,2) json_body_def str_dict_def by auto
qed

text \<open>An example: a member under another name, a nested structure, a blob, a list and a time.\<close>

definition job_members :: "(ustr \<times> shape) list" where
  "job_members =
     [(cp ''Id'', ScalarShape (plain_info [] \<lparr>ser_name := Some (cp ''jobId'')\<rparr>) TString),
      (cp ''Input'', Structure (plain_info []) [(cp ''Data'', ScalarShape (plain_info []) TBlob)]),
      (cp ''Retries'', ListShape (plain_info []) (ScalarShape (plain_info []) TInteger)),
      (cp ''Started'', ScalarShape (plain_info []) TTimestamp),
      (cp ''Ended'', ScalarShape (plain_info []) TTimestamp)]"

definition job_value :: "(ustr \<times> pyval) list" where
  "job_value =
     [(cp ''Id'', PStr (cp ''j-1'')), (cp ''Input'', str_dict [(cp ''Data'', PBytes [0, 255])]),
      (cp ''Retries'', PList [PInt 1, PInt 2]), (cp ''Started'', PTime (10 ^ 6 * 1700000000))]"

definition job_request :: request where
  "job_request = \<lparr>rq_method = ''POST'', rq_path = cp ''/'', rq_headers = [], rq_args = [], rq_data = [], rq_mimetype = cp ''application/json''\<rparr>"

definition job_env :: json_env where
  "job_env = \<lparr>je_aware = (\<lambda>v. case v of PTime us \<Rightarrow> Inr us | _ \<Rightarrow> Inl ValueError), je_cbor = False\<rparr>"

abbreviation job_shape :: shape where
  "job_shape \<equiv> Structure (plain_info (cp ''Job'')) job_members"

lemma job_conforms: "json_value 3 job_shape (str_dict job_value)"
proof -
  have id: "json_value (Suc (Suc 0)) (ScalarShape (plain_info [] \<lparr>ser_name := Some (cp ''jobId'')\<rparr>) TString) (PStr (cp ''j-1''))"
    by (rule json_string) (simp add: plain_info_def)
  have data: "json_value (Suc 0) (ScalarShape (plain_info []) TBlob) (PBytes [0, 255])"
    by (rule json_blob) (simp add: plain_info_def)
  have "json_value (Suc (Suc 0)) (Structure (plain_info []) [(cp ''Data'', ScalarShape (plain_info []) TBlob)])
      (str_dict (present_members [(cp ''Data'', ScalarShape (plain_info []) TBlob)] (map_of [(cp ''Data'', PBytes [0, 255])])))"
    by (rule json_value_structure) (use data in \<open>auto simp: plain_info_def\<close>)
  then have inp: "json_value (Suc (Suc 0)) (Structure (plain_info []) [(cp ''Data'', ScalarShape (plain_info []) TBlob)])
      (str_dict [(cp ''Data'', PBytes [0, 255])])"
    by (simp del: cp_simps)
  have retries: "json_value (Suc (Suc 0)) (ListShape (plain_info []) (ScalarShape (plain_info []) TInteger)) (PList [PInt 1, PInt 2])"
    by (rule json_value_list) (auto intro!: json_integer simp: plain_info_def)
  have started: "json_value (Suc (Suc 0)) (ScalarShape (plain_info []) TTimestamp) (PTime (10 ^ 6 * 1700000000))"
    by (rule json_time) (simp_all add: plain_info_def)
  let ?f = "map_of job_value"
  have f: "?f (cp ''Id'') = Some (PStr (cp ''j-1''))" "?f (cp ''Input'') = Some (str_dict [(cp ''Data'', PBytes [0, 255])])"
      "?f (cp ''Retries'') = Some (PList [PInt 1, PInt 2])" "?f (cp ''Started'') = Some (PTime (10 ^ 6 * 1700000000))" "?f (cp ''Ended'') = None"
    by (simp_all add: job_value_def del: cp_simps)
  have keys: "map (\<lambda>(n, sh). serialized_name sh n) job_members = [cp ''jobId'', cp ''Input'', cp ''Retries'', cp ''Started'', cp ''Ended'']"
    by (simp add: job_members_def serialized_name_def plain_info_def del: cp_simps)
  have "json_value (Suc (Suc (Suc 0))) job_shape (str_dict (present_members job_members ?f))"
  proof (rule json_value_structure)
    have "list_all (\<lambda>(n, sh). \<forall>v. ?f n = Some v \<longrightarrow> json_value (Suc (Suc 0)) sh v) job_members"
      using id inp retries started by (simp add: job_members_def f del: cp_simps)
    moreover have "list_all (\<lambda>(n, sh). ser_location (shape_info_of sh) = None) job_members"
      by (simp add: job_members_def plain_info_def)
    ultimately show "list_all (\<lambda>(n, sh). ser_location (shape_info_of sh) = None
        \<and> (n \<in> set (required_members (plain_info (cp ''Job''))) \<longrightarrow> ?f n \<noteq> None)
        \<and> (\<forall>v. ?f n = Some v \<longrightarrow> json_value (Suc (Suc 0)) sh v)) job_members"
      by (auto simp: list_all_iff plain_info_def)
  qed (simp_all add: keys, simp_all add: job_members_def plain_info_def)
  moreover have "present_members job_members ?f = job_value"
    by (simp add: job_members_def f job_value_def del: cp_simps)
  ultimately show ?thesis by (simp add: numeral_3_eq_3)
qed

theorem json_body_comes_back_witness:
  "\<forall>tp. \<exists>d. json_body RestJsonSer job_env 3 (Some job_shape) (str_dict job_value) = Inr d
     \<and> parse_shape JsonParser tp job_request [] 3 job_shape (PDict d) = Inr (str_dict job_value)"
  by (intro allI json_body_comes_back [OF job_conforms])
    (simp_all add: job_env_def job_request_def cbor_mimetype_def)

end
