(* ===== verification/XmlSerializer.thy ===== *)
theory XmlSerializer
  imports SerializerCore
begin

text \<open>
  The XML responses of \<open>aws/protocol/serializer.py\<close>: \<open>BaseXMLResponseSerializer\<close> and what
  \<open>QueryResponseSerializer\<close>, \<open>EC2ResponseSerializer\<close>, \<open>S3ResponseSerializer\<close> and
  \<open>SqsQueryResponseSerializer\<close> change. The result is the element tree; writing it as text (and, when
  JSON is asked for, converting that text) is left to the libraries. A method that appends to a node is
  modelled by the list of elements it appends.
\<close>

subsection \<open>Scalars\<close>

datatype xml_class = RestXmlSer | QuerySer | Ec2Ser | S3Ser | SqsSer

text \<open>
  \<open>xe_aware\<close> stands for botocore's \<open>parse_to_aware_datetime\<close>, \<open>xe_str\<close> for \<open>str\<close> of floats, bytes, dates and
  containers; \<open>xe_json\<close> says that the accepted mime type is JSON.
\<close>

record xml_env =
  xe_aware :: "pyval \<Rightarrow> int result"
  xe_str :: "pyval \<Rightarrow> ustr"
  xe_json :: bool

definition int_text :: "int \<Rightarrow> ustr" where
  "int_text n = (if n < 0 then 45 # cp (dec_digits (nat (- n))) else cp (dec_digits (nat n)))"

definition py_str :: "xml_env \<Rightarrow> pyval \<Rightarrow> ustr" where
  "py_str env v =
     (case v of
        PNone \<Rightarrow> cp ''None''
      | PBool b \<Rightarrow> if b then cp ''True'' else cp ''False''
      | PInt n \<Rightarrow> int_text n
      | PStr s \<Rightarrow> s
      | _ \<Rightarrow> xe_str env v)"

definition leaf :: "ustr \<Rightarrow> ustr \<Rightarrow> xml" where
  "leaf name text = Element name [] (Some text) []"

text \<open>The texts of SQS carry marks around the characters that are escaped after the tree is written.\<close>

definition sqs_marked :: "ustr \<Rightarrow> ustr" where
  "sqs_marked s =
     concat (map (\<lambda>c. if c = 34 then cp ''__marker__'' @ [34] @ cp ''__marker__''
                      else if c = 13 then cp ''__marker__-r__marker__'' else [c]) s)"

definition default_serialize :: "xml_class \<Rightarrow> xml_env \<Rightarrow> pyval \<Rightarrow> ustr \<Rightarrow> xml" where
  "default_serialize cls env v name = leaf name (if cls = SqsSer then sqs_marked (py_str env v) else py_str env v)"

text \<open>S3 always writes milliseconds, as zeros.\<close>

definition xml_timestamp_text :: "xml_class \<Rightarrow> xml_env \<Rightarrow> shape_info \<Rightarrow> pyval \<Rightarrow> pyval result" where
  "xml_timestamp_text cls env i v =
     (if cls = S3Ser \<and> ustr_lower (case ser_timestamp_format i of None \<Rightarrow> cp ''iso8601'' | Some f \<Rightarrow> f) = cp ''iso8601''
      then bind_r (xe_aware env v) (\<lambda>us. Inr (PStr (date_time_text us @ cp ''.000Z'')))
      else convert_timestamp_to_str (xe_aware env) (cp ''iso8601'') (ser_timestamp_format i) v)"

text \<open>
  A text or an attribute that is no string is refused when the tree is written, with a type error
  outside of the shape handlers.
\<close>

definition xml_string :: "pyval \<Rightarrow> ustr result" where
  "xml_string v = (case v of PStr s \<Rightarrow> Inr s | _ \<Rightarrow> Inl UnknownSerializerError)"

definition xml_scalar_element :: "xml_class \<Rightarrow> xml_env \<Rightarrow> shape_info \<Rightarrow> scalar \<Rightarrow> pyval \<Rightarrow> ustr \<Rightarrow> xml result" where
  "xml_scalar_element cls env i t v name =
     (case t of
        TBoolean \<Rightarrow> Inr (leaf name (if truthy v then cp ''true'' else cp ''false''))
      | TBlob \<Rightarrow> map_sum id (leaf name) (get_base64 v)
      | TTimestamp \<Rightarrow>
          if xe_json env
          then bind_r (convert_timestamp_to_str (xe_aware env) (cp ''iso8601'') (Some (cp ''unixtimestamp'')) v) (\<lambda>w.
               map_sum id (leaf name \<circ> int_text) (py_int w))
          else bind_r (xml_timestamp_text cls env i v) (\<lambda>w. map_sum id (leaf name) (xml_string w))
      | _ \<Rightarrow> Inr (default_serialize cls env v name))"

subsection \<open>Structures, lists and maps\<close>

text \<open>\<open>rec\<close> stands for the recursive call of \<open>_serialize\<close>.\<close>

type_synonym xml_writer = "shape \<Rightarrow> pyval \<Rightarrow> ustr \<Rightarrow> xml list result"

definition namespace_attribs :: "shape_info \<Rightarrow> (ustr \<times> ustr) list" where
  "namespace_attribs i =
     (case ser_xml_namespace i of
        None \<Rightarrow> []
      | Some (uri, prefix) \<Rightarrow>
          [(cp ''xmlns'' @ (case prefix of None \<Rightarrow> [] | Some p \<Rightarrow> if p = [] then [] else 58 # p), uri)])"

definition shape_member :: "(ustr \<times> shape) list \<Rightarrow> pyval \<Rightarrow> (ustr \<times> shape) option" where
  "shape_member ms k = (case k of PStr s \<Rightarrow> map_option (\<lambda>sh. (s, sh)) (map_of ms s) | _ \<Rightarrow> None)"

fun write_members ::
    "xml_writer \<Rightarrow> (ustr \<times> shape) list \<Rightarrow> (pyval \<times> pyval) list \<Rightarrow> (ustr \<times> ustr) list \<times> xml list
     \<Rightarrow> ((ustr \<times> ustr) list \<times> xml list) result" where
  "write_members rec ms [] acc = Inr acc"
| "write_members rec ms ((k, v) # kvs) (attribs, children) =
     (if v = PNone then write_members rec ms kvs (attribs, children)
      else case shape_member ms k of
          None \<Rightarrow> write_members rec ms kvs (attribs, children)
        | Some (n, sh) \<Rightarrow>
            if ser_xml_attribute (shape_info_of sh)
            then (case ser_name (shape_info_of sh) of
                    None \<Rightarrow> Inl KeyError
                  | Some a \<Rightarrow> bind_r (xml_string v) (\<lambda>s. write_members rec ms kvs (dict_set a s attribs, children)))
            else bind_r (rec sh v (serialized_name sh n)) (\<lambda>xs. write_members rec ms kvs (attribs, children @ xs)))"

definition write_structure :: "xml_writer \<Rightarrow> shape_info \<Rightarrow> (ustr \<times> shape) list \<Rightarrow> pyval \<Rightarrow> ustr \<Rightarrow> xml list result" where
  "write_structure rec i ms v name =
     bind_r (py_items v) (\<lambda>kvs.
     bind_r (write_members rec ms kvs (namespace_attribs i, [])) (\<lambda>(attribs, children).
       Inr [Element name attribs None children]))"

definition write_list :: "xml_writer \<Rightarrow> shape_info \<Rightarrow> shape \<Rightarrow> pyval \<Rightarrow> ustr \<Rightarrow> xml list result" where
  "write_list rec i member v name =
     (if v = PNone then Inr []
      else bind_r (py_iter v) (\<lambda>items.
           bind_r (map_r (\<lambda>x. rec member x (serialized_name member (if ser_flattened i then name else cp ''member'')))
                     (filter (\<lambda>x. x \<noteq> PNone) items)) (\<lambda>parts.
             Inr (if ser_flattened i then concat parts else [Element name [] None (concat parts)]))))"

definition write_entry :: "xml_writer \<Rightarrow> shape \<Rightarrow> shape \<Rightarrow> ustr \<Rightarrow> pyval \<times> pyval \<Rightarrow> xml result" where
  "write_entry rec key val name kv =
     bind_r (rec key (fst kv) (serialized_name key (cp ''key''))) (\<lambda>ks.
     bind_r (rec val (snd kv) (serialized_name val (cp ''value''))) (\<lambda>vs.
       Inr (Element name [] None (ks @ vs))))"

definition write_map :: "xml_writer \<Rightarrow> shape_info \<Rightarrow> shape \<Rightarrow> shape \<Rightarrow> pyval \<Rightarrow> ustr \<Rightarrow> xml list result" where
  "write_map rec i key val v name =
     (if v = PNone then Inr []
      else bind_r (py_items v) (\<lambda>kvs.
           bind_r (map_r (write_entry rec key val (if ser_flattened i then name else cp ''entry''))
                     (filter (\<lambda>(k, x). x \<noteq> PNone) kvs)) (\<lambda>entries.
             Inr (if ser_flattened i then entries else [Element name [] None entries]))))"

definition write_node :: "xml_class \<Rightarrow> xml_env \<Rightarrow> xml_writer \<Rightarrow> shape \<Rightarrow> pyval \<Rightarrow> ustr \<Rightarrow> xml list result" where
  "write_node cls env rec sh v name =
     (case sh of
        Structure i ms \<Rightarrow> write_structure rec i ms v name
      | ListShape i m \<Rightarrow> write_list rec i m v name
      | MapShape i k x \<Rightarrow> write_map rec i k x v name
      | ScalarShape i t \<Rightarrow> map_sum id (\<lambda>x. [x]) (xml_scalar_element cls env i t v name))"

text \<open>\<open>_serialize\<close>: the \<open>resultWrapper\<close> of an output shape replaces the name.\<close>

definition wrapped_name :: "shape \<Rightarrow> ustr \<Rightarrow> ustr" where
  "wrapped_name sh name =
     (case ser_result_wrapper (shape_info_of sh) of None \<Rightarrow> name | Some w \<Rightarrow> if w = [] then name else w)"

fun xml_serialize :: "xml_class \<Rightarrow> xml_env \<Rightarrow> nat \<Rightarrow> xml_writer" where
  "xml_serialize cls env 0 sh v name = Inl RecursionError"
| "xml_serialize cls env (Suc limit) sh v name =
     convert_serializer_errors (write_node cls env (xml_serialize cls env limit) sh v (wrapped_name sh name))"

declare xml_serialize.simps(2) [simp del]

subsection \<open>Bodies\<close>

definition first_element :: "xml list \<Rightarrow> xml result" where
  "first_element xs = (case xs of [] \<Rightarrow> Inl IndexError | x # _ \<Rightarrow> Inr x)"

definition base_body_to_xml :: "xml_class \<Rightarrow> xml_env \<Rightarrow> nat \<Rightarrow> shape option \<Rightarrow> pyval \<Rightarrow> xml option result" where
  "base_body_to_xml cls env limit sh v =
     (case sh of
        None \<Rightarrow> Inr None
      | Some s \<Rightarrow> bind_r (xml_serialize cls env limit s v (serialized_name s (sh_name (shape_info_of s))))
                     (\<lambda>xs. map_sum id Some (first_element xs)))"

text \<open>The parts of the operation model the XML serializers read.\<close>

record xml_operation =
  xo_name :: ustr
  xo_namespace :: "ustr option"

definition xmlns_attrib :: "xml_operation \<Rightarrow> (ustr \<times> ustr) list" where
  "xmlns_attrib op = (case xo_namespace op of None \<Rightarrow> [] | Some u \<Rightarrow> [(cp ''xmlns'', u)])"

text \<open>
  Where the code passes None instead of an empty dictionary when there is no namespace, the
  constructor of an element raises.
\<close>

definition xmlns_or_error :: "xml_operation \<Rightarrow> (ustr \<times> ustr) list result" where
  "xmlns_or_error op = (case xo_namespace op of None \<Rightarrow> Inl TypeError | Some u \<Rightarrow> Inr [(cp ''xmlns'', u)])"

definition body_to_xml :: "xml_class \<Rightarrow> xml_env \<Rightarrow> nat \<Rightarrow> xml_operation \<Rightarrow> shape option \<Rightarrow> pyval \<Rightarrow> xml option result" where
  "body_to_xml cls env limit op sh v =
     bind_r (base_body_to_xml cls env limit sh v) (\<lambda>node.
       if cls \<in> {QuerySer, Ec2Ser, SqsSer}
       then bind_r (xmlns_or_error op) (\<lambda>attribs.
              Inr (Some (Element (xo_name op @ cp ''Response'') attribs None (case node of None \<Rightarrow> [] | Some x \<Rightarrow> [x]))))
       else Inr node)"

definition s3_response_root_tags :: "(string \<times> string) list" where
  "s3_response_root_tags =
     [(''CompleteMultipartUploadOutput'', ''CompleteMultipartUploadResult''),
      (''CopyObjectOutput'', ''CopyObjectResult''),
      (''CreateMultipartUploadOutput'', ''InitiateMultipartUploadResult''),
      (''DeleteObjectsOutput'', ''DeleteResult''),
      (''GetBucketAccelerateConfigurationOutput'', ''AccelerateConfiguration''),
      (''GetBucketAclOutput'', ''AccessControlPolicy''),
      (''GetBucketAnalyticsConfigurationOutput'', ''AnalyticsConfiguration''),
      (''GetBucketCorsOutput'', ''CORSConfiguration''),
      (''GetBucketEncryptionOutput'', ''ServerSideEncryptionConfiguration''),
      (''GetBucketIntelligentTieringConfigurationOutput'', ''IntelligentTieringConfiguration''),
      (''GetBucketInventoryConfigurationOutput'', ''InventoryConfiguration''),
      (''GetBucketLifecycleOutput'', ''LifecycleConfiguration''),
      (''GetBucketLifecycleConfigurationOutput'', ''LifecycleConfiguration''),
      (''GetBucketLoggingOutput'', ''BucketLoggingStatus''),
      (''GetBucketMetricsConfigurationOutput'', ''MetricsConfiguration''),
      (''NotificationConfigurationDeprecated'', ''NotificationConfiguration''),
      (''GetBucketOwnershipControlsOutput'', ''OwnershipControls''),
      (''GetBucketPolicyStatusOutput'', ''PolicyStatus''),
      (''GetBucketReplicationOutput'', ''ReplicationConfiguration''),
      (''GetBucketRequestPaymentOutput'', ''RequestPaymentConfiguration''),
      (''GetBucketTaggingOutput'', ''Tagging''),
      (''GetBucketVersioningOutput'', ''VersioningConfiguration''),
      (''GetBucketWebsiteOutput'', ''WebsiteConfiguration''),
      (''GetObjectAclOutput'', ''AccessControlPolicy''),
      (''GetObjectLegalHoldOutput'', ''LegalHold''),
      (''GetObjectLockConfigurationOutput'', ''ObjectLockConfiguration''),
      (''GetObjectRetentionOutput'', ''Retention''),
      (''GetObjectTaggingOutput'', ''Tagging''),
      (''GetObjectAttributesOutput'', ''GetObjectAttributesResponse''),
      (''GetPublicAccessBlockOutput'', ''PublicAccessBlockConfiguration''),
      (''ListBucketAnalyticsConfigurationsOutput'', ''ListBucketAnalyticsConfigurationResult''),
      (''ListBucketInventoryConfigurationsOutput'', ''ListInventoryConfigurationsResult''),
      (''ListBucketMetricsConfigurationsOutput'', ''ListMetricsConfigurationsResult''),
      (''ListBucketsOutput'', ''ListAllMyBucketsResult''),
      (''ListMultipartUploadsOutput'', ''ListMultipartUploadsResult''),
      (''ListObjectsOutput'', ''ListBucketResult''),
      (''ListObjectsV2Output'', ''ListBucketResult''),
      (''ListObjectVersionsOutput'', ''ListVersionsResult''),
      (''ListPartsOutput'', ''ListPartsResult''),
      (''UploadPartCopyOutput'', ''CopyPartResult'')]"

definition s3_root_tag :: "ustr \<Rightarrow> ustr" where
  "s3_root_tag t = (case map_of (map (\<lambda>(k, v). (cp k, cp v)) s3_response_root_tags) t of None \<Rightarrow> t | Some r \<Rightarrow> r)"

text \<open>
  \<open>_prepare_additional_traits_in_xml\<close>. For EC2 the children of the output element move to the root. The
  line break S3 puts behind the root is not part of the tree.
\<close>

fun additional_traits :: "xml_class \<Rightarrow> ustr \<Rightarrow> xml \<Rightarrow> xml" where
  "additional_traits RestXmlSer rid x = x"
| "additional_traits S3Ser rid (Element t as tx cs) =
     Element t (dict_set (cp ''xmlns'') (cp ''http://s3.amazonaws.com/doc/2006-03-01/'') as) tx cs"
| "additional_traits Ec2Ser rid (Element t as tx cs) =
     Element t as tx ((case cs of [] \<Rightarrow> [] | out # rest \<Rightarrow> rest @ xml_children out) @ [leaf (cp ''requestId'') rid])"
| "additional_traits c rid (Element t as tx cs) =
     Element t as tx (cs @ [Element (cp ''ResponseMetadata'') [] None [leaf (cp ''RequestId'') rid]])"

definition serialize_body_params ::
    "xml_class \<Rightarrow> xml_env \<Rightarrow> nat \<Rightarrow> xml_operation \<Rightarrow> ustr \<Rightarrow> shape option \<Rightarrow> pyval \<Rightarrow> xml option result" where
  "serialize_body_params cls env limit op rid sh v =
     bind_r (body_to_xml cls env limit op sh v) (\<lambda>root.
       case root of
         None \<Rightarrow> if cls = S3Ser then Inl AttributeError else Inr None
       | Some (Element t as tx cs) \<Rightarrow>
           Inr (Some (additional_traits cls rid (Element (if cls = S3Ser then s3_root_tag t else t) as tx cs))))"

subsection \<open>Errors\<close>

definition QUERY_PREFIXED_ERRORS :: "string list" where
  "QUERY_PREFIXED_ERRORS =
     [''BatchEntryIdsNotDistinct'', ''BatchRequestTooLong'', ''EmptyBatchRequest'', ''InvalidBatchEntryId'',
      ''MessageNotInflight'', ''PurgeQueueInProgress'', ''QueueDeletedRecently'', ''TooManyEntriesInBatchRequest'',
      ''UnsupportedOperation'']"

definition JSON_TO_QUERY_ERROR_CODES :: "(string \<times> string) list" where
  "JSON_TO_QUERY_ERROR_CODES =
     [(''InvalidParameterValueException'', ''InvalidParameterValue''),
      (''MissingRequiredParameterException'', ''MissingParameter''),
      (''AccessDeniedException'', ''AccessDenied''),
      (''QueueDoesNotExist'', ''AWS.SimpleQueueService.NonExistentQueue''),
      (''QueueNameExists'', ''QueueAlreadyExists'')]"

definition sender_fault_errors :: "string list" where
  "sender_fault_errors = QUERY_PREFIXED_ERRORS @ map fst JSON_TO_QUERY_ERROR_CODES @ [''OverLimit'', ''ResourceNotFoundException'']"

definition sqs_error_code :: "ustr \<Rightarrow> ustr" where
  "sqs_error_code code =
     (case map_of (map (\<lambda>(k, v). (cp k, cp v)) JSON_TO_QUERY_ERROR_CODES) code of
        Some c \<Rightarrow> c
      | None \<Rightarrow> if code \<in> set (map cp QUERY_PREFIXED_ERRORS) then cp ''AWS.SimpleQueueService.'' @ code else code)"

definition sqs_json_error_header :: "service_exception \<Rightarrow> ustr \<times> ustr" where
  "sqs_json_error_header e = (cp ''x-amzn-query-error'', sqs_error_code (se_code e) @ cp '';Sender'')"

definition error_tags :: "xml_class \<Rightarrow> xml_env \<Rightarrow> service_exception \<Rightarrow> xml list" where
  "error_tags cls env e =
     [leaf (cp ''Code'') (if cls = SqsSer then sqs_error_code (se_code e) else se_code e)]
     @ (case get_error_message e of
          Some m \<Rightarrow> if m \<noteq> [] then [default_serialize cls env (PStr m) (cp ''Message'')]
                     else if cls = S3Ser then [Element (cp ''Message'') [] None []] else []
        | None \<Rightarrow> if cls = S3Ser then [Element (cp ''Message'') [] None []] else [])
     @ (if se_sender_fault e \<or> (cls = SqsSer \<and> se_code e \<in> set (map cp sender_fault_errors))
        then [default_serialize cls env (PStr (cp ''Sender'')) (cp ''Type'')] else [])"

text \<open>The further members of a modelled error, \<open>params\<close> being \<open>vars(error)\<close> or its part in the body.\<close>

definition additional_error_tags ::
    "xml_class \<Rightarrow> xml_env \<Rightarrow> nat \<Rightarrow> shape option \<Rightarrow> (ustr \<times> pyval) list \<Rightarrow> xml list result" where
  "additional_error_tags cls env limit sh params =
     (case sh of
        Some (Structure i ms) \<Rightarrow>
          let extra = concat (map (\<lambda>(n, _).
                if ustr_lower n \<in> {cp ''code'', cp ''message''} then []
                else case map_of params n of None \<Rightarrow> [] | Some v \<Rightarrow> [(n, v)]) ms)
          in if extra = [] then Inr []
             else bind_r (xml_serialize cls env limit (Structure i ms) (str_dict extra) (serialized_name (Structure i ms) (sh_name i)))
                    (\<lambda>xs. map_sum id xml_children (first_element xs))
      | _ \<Rightarrow> Inr [])"

definition serialize_error ::
    "xml_class \<Rightarrow> xml_env \<Rightarrow> nat \<Rightarrow> xml_operation \<Rightarrow> ustr \<Rightarrow> shape option \<Rightarrow> (ustr \<times> pyval) list \<Rightarrow> service_exception \<Rightarrow> xml result" where
  "serialize_error cls env limit op rid sh params e =
     (case cls of
        Ec2Ser \<Rightarrow>
          bind_r (xmlns_or_error op) (\<lambda>attribs.
            Inr (Element (cp ''Response'') attribs None
                   [Element (cp ''Errors'') [] None [Element (cp ''Error'') [] None (error_tags cls env e)], leaf (cp ''RequestID'') rid]))
      | S3Ser \<Rightarrow>
          bind_r (additional_error_tags cls env limit sh params) (\<lambda>more_tags.
            Inr (Element (cp ''Error'') (xmlns_attrib op) None (error_tags cls env e @ [leaf (cp ''RequestId'') rid] @ more_tags)))
      | _ \<Rightarrow>
          bind_r (additional_error_tags cls env limit sh params) (\<lambda>more_tags.
            Inr (Element (cp ''ErrorResponse'') (xmlns_attrib op) None
                   ([Element (cp ''Error'') [] None (error_tags cls env e), leaf (cp ''RequestId'') rid] @ more_tags))))"

end
