(* ===== verification/Responses.thy ===== *)
theory Responses
  imports JsonSerializer XmlSerializer
begin

text \<open>
  From the result of a service to an HTTP response, the rest of \<open>aws/protocol/serializer.py\<close>:
  \<open>serialize_to_response\<close> and \<open>serialize_error_to_response\<close> for every serializer class, the placement of
  members in headers, status code and body by the REST serializers, and event streams. The properties
  show where the REST serializers put the members of a result.
\<close>

subsection \<open>Responses and libraries\<close>

text \<open>
  A response body is bytes, or for an event stream the chunks of a generator and the exception that
  ended it. The value of a header is kept as it was given.
\<close>

datatype response_body = Body pyval | Chunks "bytes list" "exn option"

record http_response =
  rs_status :: int
  rs_headers :: "(ustr \<times> pyval) list"
  rs_body :: response_body

text \<open>
  The libraries: the headers of a new response, \<open>set_json\<close>, the choice of a mime type, botocore's
  \<open>parse_to_aware_datetime\<close>, \<open>is_json_value_header\<close> and \<open>calculate_md5\<close>, \<open>json.dumps\<close> with default and with
  compact separators, \<open>cbor2.dumps\<close>, \<open>str\<close>, and \<open>_node_to_string\<close>, which writes an element as text for a
  mime type. \<open>en_limit\<close> is the recursion limit.
\<close>

record serializer_env =
  en_new_headers :: "(ustr \<times> pyval) list"
  en_set_json :: "pyval \<Rightarrow> http_response \<Rightarrow> http_response result"
  en_best_match :: "ustr option \<Rightarrow> ustr list \<Rightarrow> ustr option"
  en_aware :: "pyval \<Rightarrow> int result"
  en_json_value :: "shape \<Rightarrow> bool"
  en_md5 :: "bytes \<Rightarrow> ustr"
  en_dumps :: "pyval \<Rightarrow> ustr result"
  en_dumps_compact :: "pyval \<Rightarrow> ustr result"
  en_cbor_dumps :: "pyval \<Rightarrow> bytes result"
  en_str :: "pyval \<Rightarrow> ustr"
  en_node_to_string :: "xml_class \<Rightarrow> ustr \<Rightarrow> xml \<Rightarrow> pyval result"
  en_limit :: nat

text \<open>What the serializers read of an operation and its service.\<close>

record response_operation =
  ro_name :: ustr
  ro_output_shape :: "shape option"
  ro_method :: "ustr option"
  ro_response_code :: "int option"
  ro_event_stream :: "shape option"
  ro_checksum_required :: bool
  ro_query_compatible :: bool
  ro_json_version :: "ustr option"
  ro_namespace :: "ustr option"
  ro_error_shape :: "ustr \<Rightarrow> shape option"

abbreviation header_set :: "ustr \<Rightarrow> pyval \<Rightarrow> http_response \<Rightarrow> http_response" where
  "header_set n v r \<equiv> r\<lparr>rs_headers := ci_set ustr_lower n v (rs_headers r)\<rparr>"

definition text_header :: "string \<Rightarrow> ustr \<Rightarrow> http_response \<Rightarrow> http_response" where
  "text_header n v = header_set (cp n) (PStr v)"

text \<open>\<open>set_response\<close>: text is encoded, None is the empty body.\<close>

definition set_response :: "pyval \<Rightarrow> http_response \<Rightarrow> http_response result" where
  "set_response v r =
     (case v of
        PNone \<Rightarrow> Inr (r\<lparr>rs_body := Body (PBytes [])\<rparr>)
      | PStr s \<Rightarrow> bind_r (utf8_encode s) (\<lambda>b. Inr (r\<lparr>rs_body := Body (PBytes b)\<rparr>))
      | _ \<Rightarrow> Inr (r\<lparr>rs_body := Body v\<rparr>))"

definition set_content_type :: "ustr \<Rightarrow> http_response \<Rightarrow> http_response" where
  "set_content_type = text_header ''Content-Type''"

subsection \<open>Classes\<close>

definition JSON_TYPES :: "ustr list" where
  "JSON_TYPES = [cp ''application/json'', cp ''application/x-amz-json-1.0'', cp ''application/x-amz-json-1.1'']"

definition CBOR_TYPES :: "ustr list" where
  "CBOR_TYPES = [cp ''application/cbor'', cp ''application/x-amz-cbor-1.1'']"

definition supported_mime_types :: "response_serializer \<Rightarrow> ustr list" where
  "supported_mime_types c =
     (case c of
        S3ResponseSerializer \<Rightarrow> [cp ''application/xml'', cp ''text/xml'']
      | RpcV2CBORResponseSerializer \<Rightarrow> [cp ''application/cbor'']
      | SqsJsonResponseSerializer \<Rightarrow> JSON_TYPES @ CBOR_TYPES
      | JSONResponseSerializer \<Rightarrow> JSON_TYPES @ CBOR_TYPES
      | RestJSONResponseSerializer \<Rightarrow> JSON_TYPES @ CBOR_TYPES
      | _ \<Rightarrow> [cp ''text/xml'', cp ''application/xml'', cp ''application/json''])"

fun xml_class_of :: "response_serializer \<Rightarrow> xml_class option" where
  "xml_class_of RestXMLResponseSerializer = Some RestXmlSer"
| "xml_class_of QueryResponseSerializer = Some QuerySer"
| "xml_class_of EC2ResponseSerializer = Some Ec2Ser"
| "xml_class_of S3ResponseSerializer = Some S3Ser"
| "xml_class_of SqsQueryResponseSerializer = Some SqsSer"
| "xml_class_of c = None"

definition json_class_of :: "response_serializer \<Rightarrow> json_class" where
  "json_class_of c = (if c = RestJSONResponseSerializer then RestJsonSer else JsonSer)"

definition is_rest :: "response_serializer \<Rightarrow> bool" where
  "is_rest c = (c \<in> {RestJSONResponseSerializer, RestXMLResponseSerializer, S3ResponseSerializer})"

definition json_env_for :: "serializer_env \<Rightarrow> ustr \<Rightarrow> json_env" where
  "json_env_for env mime = \<lparr>je_aware = en_aware env, je_cbor = mime \<in> set CBOR_TYPES\<rparr>"

definition xml_env_for :: "serializer_env \<Rightarrow> ustr \<Rightarrow> xml_env" where
  "xml_env_for env mime = \<lparr>xe_aware = en_aware env, xe_str = en_str env, xe_json = (mime = cp ''application/json'')\<rparr>"

definition xml_op :: "response_operation \<Rightarrow> xml_operation" where
  "xml_op op = \<lparr>xo_name = ro_name op, xo_namespace = ro_namespace op\<rparr>"

subsection \<open>Bodies\<close>

text \<open>The \<open>_serialize_body_params\<close> of the classes.\<close>

definition cbor_body :: "serializer_env \<Rightarrow> shape option \<Rightarrow> pyval \<Rightarrow> pyval result" where
  "cbor_body env sh v =
     (case sh of
        None \<Rightarrow> Inr (PBytes [])
      | Some s \<Rightarrow> map_sum id PBytes (serialize_data_item True (en_aware env) (en_limit env) s v))"

definition json_body_text :: "json_class \<Rightarrow> serializer_env \<Rightarrow> ustr \<Rightarrow> shape option \<Rightarrow> pyval \<Rightarrow> pyval result" where
  "json_body_text jc env mime sh v =
     bind_r (json_body jc (json_env_for env mime) (en_limit env) sh v) (\<lambda>body.
       if mime \<in> set CBOR_TYPES then map_sum id PBytes (en_cbor_dumps env (PDict body))
       else map_sum id PStr (en_dumps env (PDict body)))"

definition xml_body_text ::
    "xml_class \<Rightarrow> serializer_env \<Rightarrow> response_operation \<Rightarrow> ustr \<Rightarrow> ustr \<Rightarrow> shape option \<Rightarrow> pyval \<Rightarrow> pyval result" where
  "xml_body_text xc env op mime rid sh v =
     bind_r (serialize_body_params xc (xml_env_for env mime) (en_limit env) (xml_op op) rid sh v) (\<lambda>root.
       case root of None \<Rightarrow> Inr PNone | Some x \<Rightarrow> en_node_to_string env xc mime x)"

definition body_text ::
    "response_serializer \<Rightarrow> serializer_env \<Rightarrow> response_operation \<Rightarrow> ustr \<Rightarrow> ustr \<Rightarrow> shape option \<Rightarrow> pyval \<Rightarrow> pyval result" where
  "body_text c env op mime rid sh v =
     (if c = RpcV2CBORResponseSerializer then cbor_body env sh v
      else case xml_class_of c of
             None \<Rightarrow> json_body_text (json_class_of c) env mime sh v
           | Some xc \<Rightarrow> xml_body_text xc env op mime rid sh v)"

definition set_encoded :: "pyval \<Rightarrow> http_response \<Rightarrow> http_response result" where
  "set_encoded v r = bind_r (encode_payload v) (\<lambda>b. set_response b r)"

subsection \<open>Members in headers\<close>

type_synonym members = "(ustr \<times> shape) list"

definition located :: "shape \<Rightarrow> bool" where
  "located sh = (case ser_location (shape_info_of sh) of None \<Rightarrow> False | Some l \<Rightarrow> l \<noteq> [])"

text \<open>\<open>_partition_members\<close>: the parameters that go to headers and the ones that go to the body.\<close>

definition given_members :: "members \<Rightarrow> pdict \<Rightarrow> (shape \<Rightarrow> bool) \<Rightarrow> (ustr \<times> pyval) list" where
  "given_members ms params p =
     map (\<lambda>(n, sh). (n, the (pdict_get params (PStr n)))) (filter (\<lambda>(n, sh). pdict_get params (PStr n) \<noteq> None \<and> p sh) ms)"

definition partition_members :: "shape option \<Rightarrow> pdict \<Rightarrow> (ustr \<times> pyval) list \<times> pdict" where
  "partition_members sh params =
     (case sh of
        Some (Structure i ms) \<Rightarrow>
          (given_members ms params located,
           map (\<lambda>(k, v). (PStr k, v)) (given_members ms params (\<lambda>s. \<not> located s)))
      | _ \<Rightarrow> ([], params))"

fun join_texts :: "pyval list \<Rightarrow> ustr list result" where
  "join_texts [] = Inr []"
| "join_texts (PStr s # vs) = map_sum id (Cons s) (join_texts vs)"
| "join_texts (v # vs) = Inl TypeError"

text \<open>\<open>_serialize_header_value\<close>.\<close>

definition json_header_value :: "serializer_env \<Rightarrow> shape \<Rightarrow> pyval \<Rightarrow> pyval result" where
  "json_header_value env sh v =
     (if en_json_value env sh
      then bind_r (en_dumps_compact env v) (\<lambda>s. map_sum id PStr (get_base64 (PStr s)))
      else Inr v)"

fun header_value :: "serializer_env \<Rightarrow> nat \<Rightarrow> shape \<Rightarrow> pyval \<Rightarrow> pyval result" where
  "header_value env 0 sh v = Inl RecursionError"
| "header_value env (Suc limit) sh v =
     (case sh of
        ScalarShape i t \<Rightarrow>
          if t = TTimestamp
          then bind_r (en_aware env v) (\<lambda>us.
                 convert_timestamp_to_str (en_aware env) (cp ''iso8601'')
                   (Some (case ser_timestamp_format i of None \<Rightarrow> cp ''rfc822'' | Some f \<Rightarrow> f)) (PTime us))
          else if t = TBoolean then Inr (PStr (if truthy v then cp ''true'' else cp ''false''))
          else json_header_value env sh v
      | ListShape i m \<Rightarrow>
          bind_r (py_iter v) (\<lambda>vs.
          bind_r (map_r (header_value env limit m) (filter (\<lambda>x. x \<noteq> PNone) vs)) (\<lambda>ws.
            map_sum id (PStr \<circ> join_with (cp '','')) (join_texts ws)))
      | _ \<Rightarrow> json_header_value env sh v)"

fun header_map :: "ustr \<Rightarrow> (pyval \<times> pyval) list \<Rightarrow> http_response \<Rightarrow> http_response result" where
  "header_map prefix [] r = Inr r"
| "header_map prefix ((PStr k, v) # kvs) r = header_map prefix kvs (header_set (prefix @ k) v r)"
| "header_map prefix ((k, v) # kvs) r = Inl TypeError"

definition header_member :: "serializer_env \<Rightarrow> ustr \<Rightarrow> shape \<Rightarrow> pyval \<Rightarrow> http_response \<Rightarrow> http_response result" where
  "header_member env n sh v r =
     (let key = serialized_name sh n; loc = ser_location (shape_info_of sh)
      in if loc = Some (cp ''header'') then bind_r (header_value env (en_limit env) sh v) (\<lambda>w. Inr (header_set key w r))
         else if loc = Some (cp ''headers'') then bind_r (py_items v) (\<lambda>kvs. header_map key kvs r)
         else if loc = Some (cp ''statusCode'') then bind_r (py_int v) (\<lambda>k. Inr (r\<lparr>rs_status := k\<rparr>))
         else Inr r)"

fun header_members :: "serializer_env \<Rightarrow> (ustr \<times> pyval) list \<Rightarrow> members \<Rightarrow> http_response \<Rightarrow> http_response result" where
  "header_members env params [] r = Inr r"
| "header_members env params ((n, sh) # ms) r =
     (if \<not> located sh then header_members env params ms r
      else case map_of params n of
             None \<Rightarrow> header_members env params ms r
           | Some v \<Rightarrow>
               if v = PNone then header_members env params ms r
               else bind_r (header_member env n sh v r) (header_members env params ms))"

definition process_header_members ::
    "serializer_env \<Rightarrow> (ustr \<times> pyval) list \<Rightarrow> shape option \<Rightarrow> http_response \<Rightarrow> http_response result" where
  "process_header_members env params sh r =
     (case sh of Some (Structure i ms) \<Rightarrow> header_members env params ms r | _ \<Rightarrow> Inr r)"

subsection \<open>Payloads of the REST serializers\<close>

text \<open>The member marked as the payload; an event has one that is marked by itself and given.\<close>

definition payload_member :: "shape_info \<Rightarrow> members \<Rightarrow> pdict \<Rightarrow> ustr option" where
  "payload_member i ms params =
     (if (ser_payload i = None \<or> ser_payload i = Some []) \<and> ser_event i
      then (case filter (\<lambda>(n, sh). ser_eventpayload (shape_info_of sh) \<and> truthy (dict_get_or_none params n)) ms of
              [] \<Rightarrow> ser_payload i
            | (n, _) # _ \<Rightarrow> Some n)
      else ser_payload i)"

definition is_streaming :: "shape \<Rightarrow> bool" where
  "is_streaming sh = (case sh of ScalarShape i t \<Rightarrow> t = TBlob \<or> t = TString | _ \<Rightarrow> False)"

definition serialize_payload ::
    "response_serializer \<Rightarrow> serializer_env \<Rightarrow> response_operation \<Rightarrow> ustr \<Rightarrow> ustr \<Rightarrow> pdict \<Rightarrow> shape option
     \<Rightarrow> http_response \<Rightarrow> http_response result" where
  "serialize_payload c env op mime rid params sh r =
     (case sh of
        None \<Rightarrow> Inr r
      | Some s \<Rightarrow>
          let ms = (case s of Structure i ms \<Rightarrow> ms | _ \<Rightarrow> [])
          in case payload_member (shape_info_of s) ms params of
               None \<Rightarrow> bind_r (body_text c env op mime rid sh (PDict params)) (\<lambda>b. set_encoded b r)
             | Some n \<Rightarrow>
                 (case map_of ms n of
                    None \<Rightarrow> Inl KeyError
                  | Some msh \<Rightarrow>
                      if is_streaming msh
                      then set_encoded (case pdict_get params (PStr n) of None \<Rightarrow> PBytes [] | Some v \<Rightarrow> v) r
                      else if dict_get_or_none params n = PNone then Inr r
                      else bind_r (body_text c env op mime rid (Some msh) (dict_get_or_none params n)) (\<lambda>b. set_encoded b r)))"

text \<open>\<open>_serialize_content_type\<close>, which only the REST JSON class has.\<close>

definition serialize_content_type ::
    "response_serializer \<Rightarrow> ustr \<Rightarrow> shape option \<Rightarrow> http_response \<Rightarrow> http_response result" where
  "serialize_content_type c mime sh r =
     (if c \<noteq> RestJSONResponseSerializer then Inr r
      else let set_it = (if rs_body r \<noteq> Body (PBytes []) \<and> ci_get ustr_lower (rs_headers r) (cp ''Content-Type'') = None
                         then set_content_type mime r else r)
           in case sh of
                None \<Rightarrow> Inr set_it
              | Some s \<Rightarrow>
                  (case ser_payload (shape_info_of s) of
                     None \<Rightarrow> Inr set_it
                   | Some n \<Rightarrow>
                       (case map_of (case s of Structure i ms \<Rightarrow> ms | _ \<Rightarrow> []) n of
                          None \<Rightarrow> Inl KeyError
                        | Some msh \<Rightarrow> Inr (if is_streaming msh then r else set_it))))"

subsection \<open>Traits\<close>

text \<open>\<open>_prepare_additional_traits_in_response\<close>, from the base class outwards.\<close>

definition checksum_trait :: "serializer_env \<Rightarrow> response_operation \<Rightarrow> http_response \<Rightarrow> http_response" where
  "checksum_trait env op r =
     (case rs_body r of
        Body (PBytes b) \<Rightarrow>
          if ro_checksum_required op \<and> ci_get ustr_lower (rs_headers r) (cp ''Content-MD5'') = None
          then text_header ''Content-MD5'' (en_md5 env b) r else r
      | _ \<Rightarrow> r)"

definition response_traits :: "response_serializer \<Rightarrow> serializer_env \<Rightarrow> response_operation \<Rightarrow> ustr \<Rightarrow> http_response \<Rightarrow> http_response" where
  "response_traits c env op rid r =
     (let amzn_default = r\<lparr>rs_headers := ci_default ustr_lower (cp ''x-amzn-RequestId'') (PStr rid) (rs_headers r)\<rparr>
      in case c of
           RpcV2CBORResponseSerializer \<Rightarrow>
             checksum_trait env op (text_header ''Smithy-Protocol'' (cp ''rpc-v2-cbor'') (text_header ''x-amzn-RequestId'' rid r))
         | RestXMLResponseSerializer \<Rightarrow> text_header ''x-amz-request-id'' rid (checksum_trait env op r)
         | RestJSONResponseSerializer \<Rightarrow> text_header ''x-amz-request-id'' rid (checksum_trait env op amzn_default)
         | S3ResponseSerializer \<Rightarrow>
             text_header ''x-amz-id-2'' (cp ''s9lzHYrFp76ZVxRcpX9+5cjAnEH2ROuNkd2BHfIa6UkFVdtjf5mKR3/eTPFvsiP/XV/VLi31234='')
               (text_header ''x-amz-request-id'' rid (checksum_trait env op r))
         | QueryResponseSerializer \<Rightarrow> checksum_trait env op (text_header ''x-amzn-RequestId'' rid r)
         | EC2ResponseSerializer \<Rightarrow> checksum_trait env op (text_header ''x-amzn-RequestId'' rid r)
         | SqsQueryResponseSerializer \<Rightarrow> checksum_trait env op (text_header ''x-amzn-RequestId'' rid r)
         | _ \<Rightarrow> checksum_trait env op amzn_default)"

subsection \<open>Results\<close>

definition create_default_response :: "response_serializer \<Rightarrow> serializer_env \<Rightarrow> response_operation \<Rightarrow> ustr \<Rightarrow> http_response" where
  "create_default_response c env op mime =
     (let r = \<lparr>rs_status = (case ro_response_code op of None \<Rightarrow> 200 | Some k \<Rightarrow> k), rs_headers = en_new_headers env,
               rs_body = Body (PBytes [])\<rparr>
      in if xml_class_of c \<noteq> None then set_content_type mime r else r)"

text \<open>When the body of an S3 response stays empty: HEAD, redirections, and PUT without a payload member.\<close>

definition s3_has_body :: "response_operation \<Rightarrow> shape option \<Rightarrow> http_response \<Rightarrow> bool" where
  "s3_has_body op sh r =
     (ro_method op \<noteq> Some (cp ''HEAD'') \<and> \<not> (300 \<le> rs_status r \<and> rs_status r < 400)
      \<and> \<not> (ro_method op = Some (cp ''PUT'') \<and> (case sh of None \<Rightarrow> False
            | Some s \<Rightarrow> ser_payload (shape_info_of s) = None \<or> ser_payload (shape_info_of s) = Some [])))"

text \<open>\<open>_serialize_response\<close>, for an output shape or the shape of an event.\<close>

definition rest_response ::
    "response_serializer \<Rightarrow> serializer_env \<Rightarrow> response_operation \<Rightarrow> ustr \<Rightarrow> ustr \<Rightarrow> pdict \<Rightarrow> shape option
     \<Rightarrow> http_response \<Rightarrow> http_response result" where
  "rest_response c env op mime rid params sh r0 =
     (let (header_params, payload_params) = partition_members sh params
      in bind_r (process_header_members env header_params sh r0) (\<lambda>r1.
         bind_r (if (if c = S3ResponseSerializer then s3_has_body op sh r1 else ro_method op \<noteq> Some (cp ''HEAD''))
                 then serialize_payload c env op mime rid payload_params sh r1 else Inr r1) (\<lambda>r2.
         bind_r (serialize_content_type c mime sh r2) (\<lambda>r3.
           Inr (if c = S3ResponseSerializer then r3 else response_traits c env op rid r3)))))"

definition serialize_response ::
    "response_serializer \<Rightarrow> serializer_env \<Rightarrow> response_operation \<Rightarrow> ustr \<Rightarrow> ustr \<Rightarrow> pdict \<Rightarrow> shape option
     \<Rightarrow> http_response \<Rightarrow> http_response result" where
  "serialize_response c env op mime rid params sh r =
     (if is_rest c then rest_response c env op mime rid params sh r
      else let body = body_text c env op mime rid sh (PDict params)
           in if xml_class_of c \<noteq> None then bind_r body (\<lambda>b. set_encoded b r)
              else if c = RpcV2CBORResponseSerializer \<or> mime \<in> set CBOR_TYPES
              then bind_r body (\<lambda>b. set_response b (set_content_type mime r))
              else bind_r body (\<lambda>b. set_response b
                     (case ro_json_version op of
                        None \<Rightarrow> r
                      | Some v \<Rightarrow> set_content_type (cp ''application/x-amz-json-'' @ v) r)))"

text \<open>
  \<open>_serialize_event_stream\<close>: the frames the generator yields for the events it is given, until one
  fails. The response that collects the parts of an event is reused for the next. The parts of an event
  are dictionaries.
\<close>

definition event_member :: "members \<Rightarrow> pdict \<Rightarrow> (ustr \<times> shape) result" where
  "event_member ms event =
     (case filter (\<lambda>(n, sh). ser_event (shape_info_of sh) \<and> pdict_get event (PStr n) \<noteq> None) ms of
        [] \<Rightarrow> Inl UnknownSerializerError
      | m # _ \<Rightarrow> Inr m)"

fun event_frames ::
    "(ustr \<Rightarrow> shape \<Rightarrow> pdict \<Rightarrow> http_response \<Rightarrow> http_response result) \<Rightarrow> members \<Rightarrow> pdict list \<Rightarrow> http_response
     \<Rightarrow> bytes list \<times> exn option" where
  "event_frames ser ms [] r = ([], None)"
| "event_frames ser ms (event # events) r =
     (case bind_r (event_member ms event) (\<lambda>(n, sh).
             bind_r (case dict_get_or_none event n of PDict d \<Rightarrow> Inr d | _ \<Rightarrow> Inl TypeError) (\<lambda>params.
             bind_r (ser n sh params r) (\<lambda>r'.
             bind_r (case rs_body r' of Body v \<Rightarrow> encode_event_payload n v None None | Chunks bs e \<Rightarrow> Inl TypeError) (\<lambda>frame.
               Inr (frame, r'))))) of
        Inl e \<Rightarrow> ([], Some e)
      | Inr (frame, r') \<Rightarrow> (let (frames, e) = event_frames ser ms events r' in (frame # frames, e)))"

text \<open>\<open>events\<close> is what the iterator in the response delivers, None when there is no iterator.\<close>

definition event_stream_response ::
    "response_serializer \<Rightarrow> serializer_env \<Rightarrow> response_operation \<Rightarrow> ustr \<Rightarrow> ustr \<Rightarrow> shape \<Rightarrow> pdict list option \<Rightarrow> http_response" where
  "event_stream_response c env op mime rid stream events =
     (let ms = (case stream of Structure i ms \<Rightarrow> ms | _ \<Rightarrow> []);
          ser = (\<lambda>n sh params r. map_sum id (response_traits c env op rid) (serialize_response c env op mime rid params (Some sh) r));
          chunks = (case encode_event_payload (cp ''initial-response'') (PStr []) None None of
              Inl e \<Rightarrow> ([], Some e)
            | Inr first \<Rightarrow>
                (case events of
                   None \<Rightarrow> ([first], Some ProtocolSerializerError)
                 | Some evs \<Rightarrow> (let (frames, e) = event_frames ser ms evs (create_default_response c env op mime)
                                in (first # frames, e))))
      in \<lparr>rs_status = (case ro_response_code op of None \<Rightarrow> 200 | Some k \<Rightarrow> k), rs_headers = en_new_headers env,
          rs_body = Chunks (fst chunks) (snd chunks)\<rparr>)"

definition serialize_to_response ::
    "response_serializer \<Rightarrow> serializer_env \<Rightarrow> response_operation \<Rightarrow> pdict \<Rightarrow> pdict list option
     \<Rightarrow> (ustr \<times> ustr) list option \<Rightarrow> ustr \<Rightarrow> http_response result" where
  "serialize_to_response c env op params events headers rid =
     handle_serializer_exceptions
       (bind_r (get_mime_type (en_best_match env) (supported_mime_types c) headers) (\<lambda>mime.
          case ro_event_stream op of
            Some stream \<Rightarrow> Inr (event_stream_response c env op mime rid stream events)
          | None \<Rightarrow>
              map_sum id (response_traits c env op rid)
                (serialize_response c env op mime rid params (ro_output_shape op) (create_default_response c env op mime))))"

subsection \<open>Errors\<close>

text \<open>The attributes \<open>attrs\<close> of an exception are what \<open>getattr\<close> finds for the members of its shape.\<close>

definition json_error_response ::
    "response_serializer \<Rightarrow> serializer_env \<Rightarrow> response_operation \<Rightarrow> ustr \<Rightarrow> shape option \<Rightarrow> (ustr \<times> pyval) list
     \<Rightarrow> service_exception \<Rightarrow> http_response \<Rightarrow> http_response result" where
  "json_error_response c env op mime sh attrs e r0 =
     bind_r (json_error (json_class_of c) (json_env_for env mime) (en_limit env) (ro_query_compatible op) sh attrs e)
       (\<lambda>(body, headers).
          let r1 = text_header ''X-Amzn-Errortype'' (get_error_code (ro_query_compatible op) e sh) r0;
              (name, query_error) = (if c = SqsJsonResponseSerializer then sqs_json_error_header e else query_compatible_error_header e)
          in bind_r (if mime \<in> set CBOR_TYPES
                     then bind_r (en_cbor_dumps env (PDict body)) (\<lambda>b. map_sum id (set_content_type mime) (set_response (PBytes b) r1))
                     else en_set_json env (PDict body) r1)
               (\<lambda>r2. Inr (if ro_query_compatible op then header_set name (PStr query_error) r2 else r2)))"

definition cbor_error_response ::
    "serializer_env \<Rightarrow> response_operation \<Rightarrow> ustr \<Rightarrow> shape option \<Rightarrow> (ustr \<times> pyval) list
     \<Rightarrow> service_exception \<Rightarrow> http_response \<Rightarrow> http_response result" where
  "cbor_error_response env op mime sh attrs e r0 =
     bind_r (serialize_error_structure True (en_aware env) (en_limit env) sh attrs (get_error_code (ro_query_compatible op) e sh)) (\<lambda>b.
     bind_r (set_response (PBytes b) (set_content_type mime r0)) (\<lambda>r.
       Inr (if ro_query_compatible op
            then (case query_compatible_error_header e of (name, v) \<Rightarrow> header_set name (PStr v) r) else r)))"

definition xml_error_response ::
    "xml_class \<Rightarrow> serializer_env \<Rightarrow> response_operation \<Rightarrow> ustr \<Rightarrow> ustr \<Rightarrow> shape option
     \<Rightarrow> service_exception \<Rightarrow> http_response \<Rightarrow> http_response result" where
  "xml_error_response xc env op mime rid sh e r0 =
     (let (header_params, payload_params) = partition_members sh (map (\<lambda>(k, v). (PStr k, v)) (se_vars e));
          tag_params = (if xc = S3Ser
                        then concat (map (\<lambda>(k, v). case k of PStr s \<Rightarrow> [(s, v)] | _ \<Rightarrow> []) payload_params)
                        else se_vars e)
      in bind_r (serialize_error xc (xml_env_for env mime) (en_limit env) (xml_op op) rid sh tag_params e) (\<lambda>root.
         bind_r (if xc = S3Ser then process_header_members env header_params sh r0 else Inr r0) (\<lambda>r1.
         bind_r (en_node_to_string env xc mime root) (\<lambda>text. set_encoded text r1))))"

definition serialize_error_response ::
    "response_serializer \<Rightarrow> serializer_env \<Rightarrow> response_operation \<Rightarrow> ustr \<Rightarrow> ustr \<Rightarrow> shape option \<Rightarrow> (ustr \<times> pyval) list
     \<Rightarrow> service_exception \<Rightarrow> http_response \<Rightarrow> http_response result" where
  "serialize_error_response c env op mime rid sh attrs e r =
     (if c = RpcV2CBORResponseSerializer then cbor_error_response env op mime sh attrs e r
      else case xml_class_of c of
             Some xc \<Rightarrow> xml_error_response xc env op mime rid sh e r
           | None \<Rightarrow> json_error_response c env op mime sh attrs e r)"

definition error_status_code ::
    "response_serializer \<Rightarrow> response_operation \<Rightarrow> (ustr \<times> ustr) list option \<Rightarrow> service_exception \<Rightarrow> int" where
  "error_status_code c op headers e =
     (if c = RpcV2CBORResponseSerializer \<or> xml_class_of c = None
      then query_compatible_status_code (ro_query_compatible op) headers e else se_status_code e)"

text \<open>What is not a service exception cannot be serialized as an error; \<open>exc\<close> is None then.\<close>

definition serialize_error_to_response ::
    "response_serializer \<Rightarrow> serializer_env \<Rightarrow> response_operation \<Rightarrow> (service_exception \<times> (ustr \<times> pyval) list) option
     \<Rightarrow> (ustr \<times> ustr) list option \<Rightarrow> ustr \<Rightarrow> http_response result" where
  "serialize_error_to_response c env op exc headers rid =
     handle_serializer_exceptions
       (bind_r (get_mime_type (en_best_match env) (supported_mime_types c) headers) (\<lambda>mime.
          case exc of
            None \<Rightarrow> Inl ProtocolSerializerError
          | Some (e, attrs) \<Rightarrow>
              map_sum id (response_traits c env op rid)
                (serialize_error_response c env op mime rid (ro_error_shape op (se_code e)) attrs e
                   ((create_default_response c env op mime)\<lparr>rs_status := error_status_code c op headers e\<rparr>))))"

subsection \<open>Where the members of a REST response are\<close>

abbreviation response_header :: "http_response \<Rightarrow> ustr \<Rightarrow> pyval option" where
  "response_header r \<equiv> ci_get ustr_lower (rs_headers r)"

lemma set_response_headers: "set_response v r = Inr r' \<Longrightarrow> rs_headers r' = rs_headers r \<and> rs_status r' = rs_status r"
  by (auto simp: set_response_def bind_r_eq_Inr split: pyval.splits)

lemma serialize_payload_headers:
  "serialize_payload c env op mime rid params sh r = Inr r' \<Longrightarrow> rs_headers r' = rs_headers r \<and> rs_status r' = rs_status r"
  by (auto simp: serialize_payload_def set_encoded_def bind_r_eq_Inr Let_def split: option.splits if_splits
      dest!: set_response_headers)

lemma text_header_get:
  "response_header (text_header n v r) m = (if ustr_lower m = ustr_lower (cp n) then Some (PStr v) else response_header r m)"
  "rs_status (text_header n v r) = rs_status r" "rs_body (text_header n v r) = rs_body r"
  by (simp_all add: text_header_def ci_get_set)

definition trait_names :: "string list" where
  "trait_names = [''Content-Type'', ''Content-MD5'', ''x-amz-request-id'', ''x-amzn-RequestId'', ''x-amz-id-2'']"

definition own_header :: "ustr \<Rightarrow> bool" where
  "own_header n \<longleftrightarrow> ustr_lower n \<notin> set (map (\<lambda>t. ustr_lower (cp t)) trait_names)"

lemma own_headerD: "own_header n \<Longrightarrow> t \<in> set trait_names \<Longrightarrow> ustr_lower n \<noteq> ustr_lower (cp t)"
  by (auto simp: own_header_def simp del: cp_simps)

lemma checksum_trait_get: "own_header n \<Longrightarrow> response_header (checksum_trait env op r) n = response_header r n"
  using own_headerD [of n "''Content-MD5''"]
  by (auto simp: checksum_trait_def trait_names_def text_header_get simp del: cp_simps split: response_body.splits pyval.splits)

lemma response_traits_get:
  assumes "is_rest c" "own_header n"
  shows "response_header (response_traits c env op rid r) n = response_header r n"
proof -
  have "ustr_lower n \<noteq> ustr_lower (cp t)" if "t \<in> {''x-amz-request-id'', ''x-amz-id-2'', ''x-amzn-RequestId''}" for t
    using that own_headerD [OF assms(2)] by (auto simp: trait_names_def simp del: cp_simps)
  then have "ustr_lower n \<noteq> ustr_lower (cp ''x-amz-request-id'')" "ustr_lower n \<noteq> ustr_lower (cp ''x-amz-id-2'')"
      "ustr_lower n \<noteq> ustr_lower (cp ''x-amzn-RequestId'')"
    by blast+
  then show ?thesis
    using assms by (cases c) (auto simp: is_rest_def response_traits_def Let_def text_header_get checksum_trait_get ci_get_default simp del: cp_simps)
qed

lemma checksum_trait_body [simp]: "rs_body (checksum_trait env op r) = rs_body r" "rs_status (checksum_trait env op r) = rs_status r"
  by (auto simp: checksum_trait_def text_header_get split: response_body.splits pyval.splits)

lemma response_traits_body [simp]: "rs_body (response_traits c env op rid r) = rs_body r" "rs_status (response_traits c env op rid r) = rs_status r"
  by (cases c; simp add: response_traits_def Let_def text_header_get)+

lemma content_type_get:
  assumes "serialize_content_type c mime sh r = Inr r'"
  shows "own_header n \<Longrightarrow> response_header r' n = response_header r n" "rs_body r' = rs_body r" "rs_status r' = rs_status r"
  using assms
  by (auto simp: serialize_content_type_def Let_def set_content_type_def text_header_get own_header_def trait_names_def
      simp del: cp_simps split: if_splits option.splits)

text \<open>Members for single headers and the status code; each header has a name of its own.\<close>

definition header_key :: "ustr \<times> shape \<Rightarrow> ustr" where
  "header_key = (\<lambda>(n, sh). ustr_lower (serialized_name sh n))"

definition in_header :: "shape \<Rightarrow> bool" where
  "in_header sh \<longleftrightarrow> ser_location (shape_info_of sh) = Some (cp ''header'')"

definition in_status :: "shape \<Rightarrow> bool" where
  "in_status sh \<longleftrightarrow> ser_location (shape_info_of sh) = Some (cp ''statusCode'')"

definition plain_headers :: "members \<Rightarrow> bool" where
  "plain_headers ms \<longleftrightarrow> distinct (map fst ms) \<and> distinct (map header_key (filter (\<lambda>(n, sh). in_header sh) ms))
     \<and> (\<forall>(n, sh) \<in> set ms. ser_location (shape_info_of sh) \<noteq> Some (cp ''headers''))"

lemma header_member_cases:
  assumes "header_member env n sh v r = Inr r'" "ser_location (shape_info_of sh) \<noteq> Some (cp ''headers'')"
  obtains w where "in_header sh" "header_value env (en_limit env) sh v = Inr w" "r' = header_set (serialized_name sh n) w r"
  | k where "\<not> in_header sh" "in_status sh" "py_int v = Inr k" "r' = r\<lparr>rs_status := k\<rparr>"
  | "\<not> in_header sh" "\<not> in_status sh" "r' = r"
  using assms by (auto simp: header_member_def in_header_def in_status_def Let_def bind_r_eq_Inr simp del: cp_simps split: if_splits)

lemma header_members_keep:
  assumes "header_members env ps ms r = Inr r'" "\<forall>(n, sh) \<in> set ms. ser_location (shape_info_of sh) \<noteq> Some (cp ''headers'')"
    "ustr_lower key \<notin> header_key ` set (filter (\<lambda>(n, sh). in_header sh) ms)"
  shows "response_header r' key = response_header r key"
  using assms
proof (induction ms arbitrary: r)
  case (Cons m ms)
  obtain n sh where m: "m = (n, sh)" by (cases m)
  have IH: "response_header r' key = response_header r1 key" if "header_members env ps ms r1 = Inr r'" for r1
    by (rule Cons.IH [OF that]) (use Cons.prems in \<open>auto split: if_splits\<close>)
  show ?case
  proof (cases "located sh \<and> map_of ps n \<noteq> None \<and> map_of ps n \<noteq> Some PNone")
    case True
    then obtain v r1 where r1: "header_member env n sh v r = Inr r1" "header_members env ps ms r1 = Inr r'"
      using Cons.prems(1) m by (auto simp: bind_r_eq_Inr)
    have "response_header r1 key = response_header r key"
      by (rule header_member_cases [OF r1(1)]) (use Cons.prems m in \<open>auto simp: ci_get_set header_key_def split: if_splits\<close>)
    with IH [OF r1(2)] show ?thesis by simp
  next
    case False
    with Cons.prems(1) m IH show ?thesis by (auto split: option.splits if_splits)
  qed
qed simp

lemma header_members_sets:
  assumes "header_members env ps ms r = Inr r'" "plain_headers ms" "(n, sh) \<in> set ms" "in_header sh"
    "map_of ps n = Some v" "v \<noteq> PNone"
  shows "\<exists>w. header_value env (en_limit env) sh v = Inr w \<and> response_header r' (serialized_name sh n) = Some w"
  using assms
proof (induction ms arbitrary: r)
  case (Cons m ms)
  obtain n' sh' where m: "m = (n', sh')" by (cases m)
  have plain: "plain_headers ms" "\<forall>(n, sh) \<in> set ms. ser_location (shape_info_of sh) \<noteq> Some (cp ''headers'')"
    using Cons.prems(2) by (auto simp: plain_headers_def split: if_splits simp del: cp_simps)
  have loc: "located sh" using Cons.prems(4) by (simp add: in_header_def located_def)
  show ?case
  proof (cases "(n, sh) = m")
    case True
    then obtain r1 where r1: "header_member env n sh v r = Inr r1" "header_members env ps ms r1 = Inr r'"
      using Cons.prems(1,5,6) loc by (auto simp: bind_r_eq_Inr)
    have "ser_location (shape_info_of sh) \<noteq> Some (cp ''headers'')" using Cons.prems(4) by (simp add: in_header_def)
    then obtain w where w: "header_value env (en_limit env) sh v = Inr w" "r1 = header_set (serialized_name sh n) w r"
      using r1(1) Cons.prems(4) by (auto elim: header_member_cases)
    have "ustr_lower (serialized_name sh n) \<notin> header_key ` set (filter (\<lambda>(n, sh). in_header sh) ms)"
      using Cons.prems(2,4) True by (auto simp: plain_headers_def header_key_def)
    from header_members_keep [OF r1(2) plain(2) this] w show ?thesis
      by (simp add: ci_get_set)
  next
    case False
    then have mem: "(n, sh) \<in> set ms" using Cons.prems(3) by simp
    obtain r1 where "header_members env ps ms r1 = Inr r'"
      using Cons.prems(1) m by (auto simp: bind_r_eq_Inr split: if_splits option.splits)
    from Cons.IH [OF this plain(1) mem Cons.prems(4-6)] show ?thesis .
  qed
qed simp

lemma map_of_given:
  assumes "distinct (map fst ms)" "(n, sh) \<in> set ms" "p sh" "pdict_get params (PStr n) = Some v"
  shows "map_of (given_members ms params p) n = Some v"
proof -
  have "(n, v) \<in> set (given_members ms params p)"
    using assms(2-4) by (force simp: given_members_def)
  moreover have "distinct (map fst (given_members ms params p))"
  proof -
    have "map fst (given_members ms params p) = map fst (filter (\<lambda>(n, sh). pdict_get params (PStr n) \<noteq> None \<and> p sh) ms)"
      by (simp add: given_members_def case_prod_unfold)
    then show ?thesis using distinct_map_filter [OF assms(1)] by simp
  qed
  ultimately show ?thesis by (simp add: map_of_eq_Some_iff)
qed

lemma set_response_body: "set_response v r = Inr r' \<Longrightarrow> set_response v s = Inr s' \<Longrightarrow> rs_body r' = rs_body s'"
  by (auto simp: set_response_def bind_r_eq_Inr split: pyval.splits)

lemma serialize_payload_body:
  "serialize_payload c env op mime rid params sh r = Inr r' \<Longrightarrow> serialize_payload c env op mime rid params sh s = Inr s'
     \<Longrightarrow> rs_body r = rs_body s \<Longrightarrow> rs_body r' = rs_body s'"
  by (auto simp: serialize_payload_def set_encoded_def bind_r_eq_Inr Let_def split: option.splits if_splits
      dest: set_response_body)

lemma header_map_body: "header_map key kvs r = Inr r' \<Longrightarrow> rs_body r' = rs_body r"
  by (induction key kvs r rule: header_map.induct) auto

lemma header_members_body: "header_members env ps ms r = Inr r' \<Longrightarrow> rs_body r' = rs_body r"
proof (induction ms arbitrary: r)
  case (Cons m ms)
  have "rs_body r1 = rs_body r" if "header_member env n sh v r = Inr r1" for n sh v r1
    using that by (auto simp: header_member_def Let_def bind_r_eq_Inr dest: header_map_body split: if_splits)
  with Cons show ?case
    by (cases m) (fastforce simp: bind_r_eq_Inr split: if_splits option.splits)
qed simp

lemma rest_response_steps:
  assumes "rest_response c env op mime rid params (Some (Structure i ms)) r0 = Inr r"
  obtains r1 r2 r3 where "header_members env (given_members ms params located) ms r0 = Inr r1"
    "(if if c = S3ResponseSerializer then s3_has_body op (Some (Structure i ms)) r1 else ro_method op \<noteq> Some (cp ''HEAD'')
      then serialize_payload c env op mime rid (map (\<lambda>(k, v). (PStr k, v)) (given_members ms params (\<lambda>s. \<not> located s))) (Some (Structure i ms)) r1
      else Inr r1) = Inr r2"
    "serialize_content_type c mime (Some (Structure i ms)) r2 = Inr r3"
    "r = (if c = S3ResponseSerializer then r3 else response_traits c env op rid r3)"
  using assms by (auto simp: rest_response_def partition_members_def process_header_members_def bind_r_eq_Inr simp del: cp_simps)

lemma given_members_cong:
  "(\<And>n sh. (n, sh) \<in> set ms \<Longrightarrow> p sh \<Longrightarrow> pdict_get d (PStr n) = pdict_get e (PStr n)) \<Longrightarrow> given_members ms d p = given_members ms e p"
proof (induction ms)
  case (Cons m ms)
  obtain n sh where m: "m = (n, sh)" by (cases m)
  have "given_members ms d p = given_members ms e p" by (rule Cons.IH) (use Cons.prems in auto)
  moreover have "p sh \<Longrightarrow> pdict_get d (PStr n) = pdict_get e (PStr n)" using Cons.prems [of n sh] m by simp
  ultimately show ?case by (cases "p sh") (simp_all add: given_members_def m)
qed (simp add: given_members_def)


text \<open>An example: an object with an entity tag in a header, a status code and a description.\<close>

definition object_members :: members where
  "object_members =
     [(cp ''Tag'', ScalarShape (plain_info [] \<lparr>ser_location := Some (cp ''header''), ser_name := Some (cp ''ETag'')\<rparr>) TString),
      (cp ''Status'', ScalarShape (plain_info [] \<lparr>ser_location := Some (cp ''statusCode'')\<rparr>) TInteger),
      (cp ''Text'', ScalarShape (plain_info []) TString)]"

definition object_operation :: response_operation where
  "object_operation = \<lparr>ro_name = cp ''GetIt'', ro_output_shape = Some (Structure (plain_info (cp ''Out'')) object_members),
     ro_method = Some (cp ''GET''), ro_response_code = None, ro_event_stream = None, ro_checksum_required = False,
     ro_query_compatible = False, ro_json_version = None, ro_namespace = None, ro_error_shape = (\<lambda>_. None)\<rparr>"

definition object_env :: serializer_env where
  "object_env = \<lparr>en_new_headers = [], en_set_json = (\<lambda>v r. Inr r), en_best_match = (\<lambda>_ _. None), en_aware = (\<lambda>_. Inl TypeError),
     en_json_value = (\<lambda>_. False), en_md5 = (\<lambda>_. []), en_dumps = (\<lambda>_. Inr (cp ''{}'')), en_dumps_compact = (\<lambda>_. Inr []),
     en_cbor_dumps = (\<lambda>_. Inr []), en_str = (\<lambda>_. []), en_node_to_string = (\<lambda>_ _ _. Inr PNone), en_limit = Suc (Suc (Suc 0))\<rparr>"

definition object_result :: pdict where
  "object_result = [(PStr (cp ''Tag''), PStr (cp ''abc'')), (PStr (cp ''Status''), PInt 201), (PStr (cp ''Text''), PStr (cp ''x''))]"

lemma object_response:
  "\<exists>r. rest_response RestJSONResponseSerializer object_env object_operation (cp ''application/json'') [] object_result
      (Some (Structure (plain_info (cp ''Out'')) object_members)) (create_default_response RestJSONResponseSerializer object_env object_operation []) = Inr r"
  by (simp add: rest_response_def partition_members_def given_members_def process_header_members_def object_members_def object_result_def
      object_operation_def object_env_def create_default_response_def plain_info_def located_def header_member_def serialized_name_def
      json_header_value_def serialize_payload_def payload_member_def body_text_def json_body_text_def json_body_def json_class_of_def
      json_env_for_def json_serialize.simps json_put_node_def json_put_structure_def py_items_def json_scalar_def pdict_store_def
      set_encoded_def encode_payload_def set_response_def serialize_content_type_def CBOR_TYPES_def convert_serializer_errors_def
      utf8_char_def is_scalar_def)


end
