(* ===== verification/QueryParser.thy ===== *)
theory QueryParser
  imports ShapeParser Accounts
begin

text \<open>
  The request parsers of the query protocols in \<open>aws/protocol/parser.py\<close>:
  \<open>QueryRequestParser\<close>, \<open>EC2RequestParser\<close> and \<open>SQSQueryRequestParser\<close>. Lists and maps are loops
  over numbered keys that end at the first number without a value; the fuel of the model is shown to
  be enough. The properties say which values a list and a map collect and which members a structure has.
\<close>

subsection \<open>Nodes\<close>

text \<open>
  A node is the dictionary of the request values, later the part of it below a name. Shapes of these
  protocols have no location other than the body.
\<close>

type_synonym qnode = "(ustr, pyval) dict"

datatype query_class = QueryProtocol | Ec2Protocol | SqsProtocol

definition node_of :: "pyval \<Rightarrow> qnode result" where
  "node_of v = map_sum id (map (\<lambda>(k, x). ((case k of PStr s \<Rightarrow> s | _ \<Rightarrow> []), x))) (py_items v)"

text \<open>\<open>_filter_node\<close>: the name and one more character are cut off, whatever that character is.\<close>

definition filter_node :: "ustr \<Rightarrow> qnode \<Rightarrow> qnode option" where
  "filter_node name node =
     (let filtered = fold (\<lambda>(k, v) d. if starts_with name k then dict_set (drop (length name + 1) k) v d else d) node []
      in if filtered = [] then None else Some filtered)"

definition unumber :: "nat \<Rightarrow> ustr" where
  "unumber n = cp (dec_digits n)"

fun is_complex :: "shape \<Rightarrow> bool" where
  "is_complex (ScalarShape i t) = False"
| "is_complex sh = True"

fun is_map_shape :: "shape \<Rightarrow> bool" where
  "is_map_shape (MapShape i k v) = True"
| "is_map_shape sh = False"

subsection \<open>Names\<close>

text \<open>\<open>name[0].upper() + name[1:]\<close>; names of the specifications are ASCII.\<close>

definition capitalized :: "ustr \<Rightarrow> ustr result" where
  "capitalized name =
     (case name of [] \<Rightarrow> Inl IndexError | c # cs \<Rightarrow> Inr ((if 97 \<le> c \<and> c \<le> 122 then c - 32 else c) # cs))"

text \<open>The suffixes that show which name a client used for a map or a list.\<close>

definition name_suffixes :: "shape \<Rightarrow> ustr list" where
  "name_suffixes sh =
     (if is_map_shape sh
      then (if ser_flattened (shape_info_of sh) then [cp ''.1.Key'', cp ''.1.Name'']
            else [cp ''.entry.1.Key'', cp ''.entry.1.Name''])
      else if is_list_shape sh
      then (if ser_flattened (shape_info_of sh) then [cp ''.1''] else [cp ''.member.1''])
      else [])"

definition node_has :: "qnode \<Rightarrow> ustr \<Rightarrow> bool" where
  "node_has node k = (map_of node k \<noteq> None)"

definition get_serialized_name :: "query_class \<Rightarrow> shape \<Rightarrow> ustr \<Rightarrow> qnode \<Rightarrow> ustr result" where
  "get_serialized_name cls sh default_name node =
     (case cls of
        QueryProtocol \<Rightarrow> Inr (serialized_name sh default_name)
      | Ec2Protocol \<Rightarrow>
          (case ser_query_name (shape_info_of sh) of
             Some n \<Rightarrow> Inr n
           | None \<Rightarrow> (case ser_name (shape_info_of sh) of Some n \<Rightarrow> capitalized n | None \<Rightarrow> Inr default_name))
      | SqsProtocol \<Rightarrow>
          (let primary_name = serialized_name sh default_name; suffixes = name_suffixes sh
           in Inr (if \<not> list_ex (\<lambda>s. node_has node (primary_name @ s)) suffixes
                     \<and> list_ex (\<lambda>s. node_has node (default_name @ s)) suffixes
                   then default_name else primary_name)))"

definition list_key_prefix :: "query_class \<Rightarrow> shape_info \<Rightarrow> shape \<Rightarrow> qnode \<Rightarrow> ustr result" where
  "list_key_prefix cls i member node =
     (if cls = Ec2Protocol \<or> ser_flattened i then Inr []
      else map_sum id (\<lambda>n. n @ cp ''.'') (get_serialized_name cls member (cp ''member'') node))"

subsection \<open>Members, lists and maps\<close>

definition process_member :: "shape_parser \<Rightarrow> ustr \<Rightarrow> shape \<Rightarrow> qnode \<Rightarrow> pyval result" where
  "process_member rec name sh node =
     (if is_complex sh
      then (case filter_node name node of None \<Rightarrow> Inr PNone | Some sub \<Rightarrow> rec sh (str_dict sub))
      else (case map_of node name of None \<Rightarrow> Inr PNone | Some v \<Rightarrow> if v = PNone then Inr PNone else rec sh v))"

definition member_key :: "query_class \<Rightarrow> ustr \<Rightarrow> shape \<Rightarrow> qnode \<Rightarrow> ustr result" where
  "member_key cls n sh node =
     (case sh of
        ListShape i member \<Rightarrow> if ser_flattened i then get_serialized_name cls member n node else get_serialized_name cls sh n node
      | _ \<Rightarrow> get_serialized_name cls sh n node)"

fun query_members ::
    "query_class \<Rightarrow> shape_parser \<Rightarrow> ustr list \<Rightarrow> (ustr \<times> shape) list \<Rightarrow> qnode \<Rightarrow> (ustr \<times> pyval) list \<Rightarrow> (ustr \<times> pyval) list result" where
  "query_members cls rec required [] node acc = Inr acc"
| "query_members cls rec required ((n, sh) # ms) node acc =
     bind_r (member_key cls n sh node) (\<lambda>name.
     bind_r (process_member rec name sh node) (\<lambda>v.
       query_members cls rec required ms node
         (if v \<noteq> PNone \<or> n \<in> set required then dict_set n v acc else acc)))"

definition query_structure :: "query_class \<Rightarrow> shape_parser \<Rightarrow> shape_info \<Rightarrow> (ustr \<times> shape) list \<Rightarrow> qnode \<Rightarrow> pyval result" where
  "query_structure cls rec i ms node =
     bind_r (query_members cls rec (required_members i) ms node []) (\<lambda>d. Inr (if d = [] then PNone else str_dict d))"

text \<open>The loops, with the number of iterations as fuel and \<open>i\<close> as the running number.\<close>

fun list_items :: "shape_parser \<Rightarrow> ustr \<Rightarrow> shape \<Rightarrow> qnode \<Rightarrow> nat \<Rightarrow> nat \<Rightarrow> pyval list result" where
  "list_items rec prefix member node 0 i = Inr []"
| "list_items rec prefix member node (Suc fuel) i =
     bind_r (process_member rec (prefix @ unumber i) member node) (\<lambda>v.
       if v = PNone then Inr []
       else bind_r (list_items rec prefix member node fuel (Suc i)) (\<lambda>vs. Inr (v # vs)))"

fun map_items ::
    "shape_parser \<Rightarrow> ustr \<Rightarrow> ustr \<Rightarrow> ustr \<Rightarrow> shape \<Rightarrow> shape \<Rightarrow> qnode \<Rightarrow> nat \<Rightarrow> nat \<Rightarrow> (pyval \<times> pyval) list \<Rightarrow> (pyval \<times> pyval) list result" where
  "map_items rec prefix kname vname key val node 0 i acc = Inr acc"
| "map_items rec prefix kname vname key val node (Suc fuel) i acc =
     bind_r (process_member rec (prefix @ unumber i @ 46 # kname) key node) (\<lambda>k.
     bind_r (process_member rec (prefix @ unumber i @ 46 # vname) val node) (\<lambda>v.
       if k = PNone \<or> v = PNone then Inr acc
       else bind_r (pdict_store k v acc) (\<lambda>acc'. map_items rec prefix kname vname key val node fuel (Suc i) acc')))"

text \<open>More numbers than the keys of a node have characters cannot all be prefixes of its keys.\<close>

definition node_bound :: "qnode \<Rightarrow> nat" where
  "node_bound node = Suc (sum_list (map (Suc \<circ> length) (map fst node)))"

definition query_list :: "query_class \<Rightarrow> shape_parser \<Rightarrow> shape_info \<Rightarrow> shape \<Rightarrow> qnode \<Rightarrow> pyval result" where
  "query_list cls rec i member node =
     bind_r (list_key_prefix cls i member node) (\<lambda>prefix.
     bind_r (list_items rec prefix member node (node_bound node) 1) (\<lambda>vs. Inr (if vs = [] then PNone else PList vs)))"

definition query_map :: "query_class \<Rightarrow> shape_parser \<Rightarrow> shape_info \<Rightarrow> shape \<Rightarrow> shape \<Rightarrow> qnode \<Rightarrow> pyval result" where
  "query_map cls rec i key val node =
     bind_r (get_serialized_name cls key (cp ''key'') node) (\<lambda>kname.
     bind_r (get_serialized_name cls val (cp ''value'') node) (\<lambda>vname.
     bind_r (map_items rec (if ser_flattened i then [] else cp ''entry.'') kname vname key val node (node_bound node) 1 [])
       (\<lambda>d. Inr (if d = [] then PNone else PDict d))))"

subsection \<open>Shapes and requests\<close>

fun query_scalar :: "time_parsers \<Rightarrow> shape_info \<Rightarrow> scalar \<Rightarrow> pyval \<Rightarrow> pyval result" where
  "query_scalar tp i TInteger v = map_sum id PInt (py_int v)"
| "query_scalar tp i TLong v = map_sum id PInt (py_int v)"
| "query_scalar tp i TFloat v = map_sum id PFloat (py_float v)"
| "query_scalar tp i TDouble v = map_sum id PFloat (py_float v)"
| "query_scalar tp i TBlob v = map_sum id PBytes (b64decode v)"
| "query_scalar tp i TTimestamp v = base_parse_timestamp tp (cp ''iso8601'') i v"
| "query_scalar tp i TBoolean v = base_parse_boolean v"
| "query_scalar tp i t v = Inr v"

definition query_node :: "query_class \<Rightarrow> time_parsers \<Rightarrow> shape_parser \<Rightarrow> shape \<Rightarrow> pyval \<Rightarrow> pyval result" where
  "query_node cls tp rec sh v =
     (case sh of
        Structure i ms \<Rightarrow> bind_r (node_of v) (query_structure cls rec i ms)
      | ListShape i m \<Rightarrow> bind_r (node_of v) (query_list cls rec i m)
      | MapShape i k x \<Rightarrow> bind_r (node_of v) (query_map cls rec i k x)
      | ScalarShape i t \<Rightarrow> query_scalar tp i t v)"

fun query_shape :: "query_class \<Rightarrow> time_parsers \<Rightarrow> request \<Rightarrow> nat \<Rightarrow> shape \<Rightarrow> pyval \<Rightarrow> pyval result" where
  "query_shape cls tp rq 0 sh v = Inl RecursionError"
| "query_shape cls tp rq (Suc limit) sh v =
     (if ser_location (shape_info_of sh) = Some (cp ''headers'') then Inr (parse_header_map sh rq)
      else bind_r (shape_payload rq [] sh v) (\<lambda>payload.
        if payload = PNone then Inr PNone
        else convert_type_errors (query_node cls tp (query_shape cls tp rq limit) sh payload)))"

declare query_shape.simps(2) [simp del]

text \<open>
  \<open>parse\<close>. The argument \<open>values\<close> is werkzeug's combination of the query string and the form, the first
  value of each name.
\<close>

definition query_operation :: "service_model \<Rightarrow> (ustr \<times> ustr) list \<Rightarrow> operation result" where
  "query_operation svc values =
     (case map_of values (cp ''Action'') of
        None \<Rightarrow> Inl ProtocolParserError
      | Some action \<Rightarrow>
          (case operation_model svc action of
             Inl e \<Rightarrow> if e = UserError ''OperationNotFoundError'' '''' then Inl OperationNotFoundParserError else Inl e
           | Inr op \<Rightarrow> Inr op))"

definition query_parse ::
    "query_class \<Rightarrow> time_parsers \<Rightarrow> nat \<Rightarrow> service_model \<Rightarrow> request \<Rightarrow> (ustr \<times> ustr) list \<Rightarrow> (operation \<times> pyval) result" where
  "query_parse cls tp limit svc rq values = handle_exceptions (
     bind_r (query_operation svc values) (\<lambda>op.
     bind_r (case op_input_shape op of
               None \<Rightarrow> Inr PNone
             | Some sh \<Rightarrow> query_shape cls tp rq limit sh (str_dict (map (\<lambda>(k, v). (k, PStr v)) values)))
       (\<lambda>parsed. Inr (op, if parsed = PNone then PDict [] else parsed))))"

subsection \<open>Numbers\<close>

lemma num_of_dec_digits: "num_of_digits (map (\<lambda>c. of_char c - 48) (dec_digits n)) = n"
proof (induction n rule: dec_digits.induct)
  case (1 n)
  have d: "of_char (char_of (48 + m) :: char) = 48 + m" if "m < 10" for m :: nat
    using that by (simp add: of_char_of)
  show ?case
  proof (cases "n < 10")
    case True
    then show ?thesis by (subst dec_digits.simps) (simp add: d num_of_digits_def)
  next
    case False
    then have "dec_digits n = dec_digits (n div 10) @ [char_of (48 + n mod 10)]"
      by (subst dec_digits.simps) simp
    moreover have "(of_char (char_of (48 + n mod 10)) :: nat) - 48 = n mod 10"
      by (subst d) auto
    ultimately show ?thesis
      using 1 [OF False] by (simp add: num_of_digits_def)
  qed
qed

lemma unumber_inject [simp]: "unumber m = unumber n \<longleftrightarrow> m = n"
proof
  assume "unumber m = unumber n"
  then have "num_of_digits (map (\<lambda>c. c - 48) (unumber m)) = num_of_digits (map (\<lambda>c. c - 48) (unumber n))"
    by simp
  then show "m = n"
    by (simp add: unumber_def cp_def num_of_dec_digits comp_def)
qed simp

subsection \<open>The loops end\<close>

text \<open>A number that starts no key of a node: there is one within the bound.\<close>

definition free_number :: "ustr \<Rightarrow> qnode \<Rightarrow> nat \<Rightarrow> bool" where
  "free_number prefix node j \<longleftrightarrow> (\<forall>k \<in> fst ` set node. \<not> starts_with (prefix @ unumber j) k)"

lemma free_number_exists: "\<exists>j \<le> node_bound node. 1 \<le> j \<and> free_number prefix node j"
proof (rule ccontr)
  assume none: "\<not> ?thesis"
  define P where "P = concat (map (\<lambda>k. map (\<lambda>n. take n k) [0..<Suc (length k)]) (map fst node))"
  let ?js = "{1..node_bound node}"
  have "prefix @ unumber j \<in> set P" if jb: "j \<in> ?js" for j
  proof -
    have "\<not> free_number prefix node j"
      using none jb by auto
    then obtain k t where k: "k \<in> fst ` set node" "k = (prefix @ unumber j) @ t"
      unfolding free_number_def starts_with_iff by blast
    then have "prefix @ unumber j = take (length (prefix @ unumber j)) k"
        "length (prefix @ unumber j) < Suc (length k)"
      by simp_all
    then have "prefix @ unumber j \<in> set (map (\<lambda>n. take n k) [0..<Suc (length k)])"
      by (metis atLeastLessThan_iff image_eqI le0 list.set_map set_upt)
    with k(1) show ?thesis
      by (auto simp: P_def)
  qed
  then have "card ((\<lambda>j. prefix @ unumber j) ` ?js) \<le> card (set P)"
    by (intro card_mono) auto
  also have "card (set P) \<le> length P"
    by (rule card_length)
  also have "length P = sum_list (map (Suc \<circ> length) (map fst node))"
    by (simp add: P_def length_concat comp_def)
  also have "\<dots> < node_bound node"
    by (simp add: node_bound_def)
  finally show False
    by (simp add: card_image inj_on_def)
qed

lemma filter_node_None: "\<forall>k \<in> fst ` set node. \<not> starts_with name k \<Longrightarrow> filter_node name node = None"
proof -
  assume a: "\<forall>k \<in> fst ` set node. \<not> starts_with name k"
  have "fold (\<lambda>(k, v) d. if starts_with name k then dict_set (drop (length name + 1) k) v d else d) node acc = acc" for acc
    using a by (induction node arbitrary: acc) auto
  then show ?thesis by (simp add: filter_node_def)
qed

lemma starts_with_longer: "starts_with (p @ q) s \<Longrightarrow> starts_with p s"
  by (auto simp: str_simps)

lemma process_member_free:
  assumes "\<forall>k \<in> fst ` set node. \<not> starts_with name k"
  shows "process_member rec (name @ rest) sh node = Inr PNone"
proof -
  have n: "\<forall>k \<in> fst ` set node. \<not> starts_with (name @ rest) k"
    using assms starts_with_longer by blast
  then have "map_of node (name @ rest) = None"
    using starts_with_append [of "name @ rest" "[]"] by (force simp: map_of_eq_None_iff)
  with filter_node_None [OF n] show ?thesis
    by (simp add: process_member_def)
qed

lemma list_items_more:
  assumes "process_member rec (prefix @ unumber j) member node = Inr PNone" "i \<le> j" "j < i + fuel"
  shows "list_items rec prefix member node (fuel + extra) i = list_items rec prefix member node fuel i"
  using assms
proof (induction fuel arbitrary: i)
  case (Suc fuel)
  show ?case
  proof (cases "i = j")
    case False
    with Suc.prems have "Suc i \<le> j" "j < Suc i + fuel" by simp_all
    from Suc.IH [OF Suc.prems(1) this] show ?thesis by (simp cong: if_cong)
  qed (use Suc.prems in simp)
qed simp

lemma map_items_more:
  assumes "process_member rec (prefix @ unumber j @ 46 # kname) key node = Inr PNone"
    "process_member rec (prefix @ unumber j @ 46 # vname) val node = Inr PNone"
    "i \<le> j" "j < i + fuel"
  shows "map_items rec prefix kname vname key val node (fuel + extra) i acc = map_items rec prefix kname vname key val node fuel i acc"
  using assms
proof (induction fuel arbitrary: i acc)
  case (Suc fuel)
  show ?case
  proof (cases "i = j")
    case False
    with Suc.prems have "Suc i \<le> j" "j < Suc i + fuel" by simp_all
    from Suc.IH [OF Suc.prems(1,2) this]
    have "map_items rec prefix kname vname key val node (fuel + extra) (Suc i)
        = map_items rec prefix kname vname key val node fuel (Suc i)"
      by (rule ext)
    then show ?thesis by (simp cong: if_cong)
  qed (use Suc.prems in simp)
qed simp

lemma list_items_bound:
  "list_items rec prefix member node (node_bound node + extra) 1 = list_items rec prefix member node (node_bound node) 1"
proof -
  obtain j where j: "j \<le> node_bound node" "1 \<le> j" "free_number prefix node j"
    using free_number_exists by blast
  have "process_member rec (prefix @ unumber j) member node = Inr PNone"
    using process_member_free [OF j(3) [unfolded free_number_def], of rec "[]"] by simp
  then show ?thesis
    by (rule list_items_more) (use j in simp_all)
qed

lemma map_items_bound:
  "map_items rec prefix kname vname key val node (node_bound node + extra) 1 acc
   = map_items rec prefix kname vname key val node (node_bound node) 1 acc"
proof -
  obtain j where j: "j \<le> node_bound node" "1 \<le> j" "free_number prefix node j"
    using free_number_exists by blast
  note free = process_member_free [OF j(3) [unfolded free_number_def]]
  have "process_member rec (prefix @ unumber j @ 46 # kname) key node = Inr PNone"
    "process_member rec (prefix @ unumber j @ 46 # vname) val node = Inr PNone"
    using free [of rec "46 # kname"] free [of rec "46 # vname"] by simp_all
  then show ?thesis
    by (rule map_items_more) (use j in simp_all)
qed

text \<open>
  the loops of \<open>_parse_list\<close> and \<open>_parse_map\<close>, which the source writes as \<open>while True\<close>, end: no
  number of iterations beyond the bound computed from the keys of the node changes what they collect,
  whatever the request, the element shapes and the parser of the elements.
\<close>

theorem query_loops_end:
  "list_items rec prefix member node (node_bound node + extra) 1 = list_items rec prefix member node (node_bound node) 1
   \<and> map_items rec prefix kname vname key val node (node_bound node + extra) 1 acc
     = map_items rec prefix kname vname key val node (node_bound node) 1 acc"
  by (simp only: list_items_bound map_items_bound)

subsection \<open>What lists and structures hold\<close>

lemma list_items_upto_gap:
  assumes "\<And>k. k < length ws \<Longrightarrow> process_member rec (prefix @ unumber (i + k)) member node = Inr (ws ! k) \<and> ws ! k \<noteq> PNone"
    "process_member rec (prefix @ unumber (i + length ws)) member node = Inr PNone" "length ws < fuel"
  shows "list_items rec prefix member node fuel i = Inr ws"
  using assms
proof (induction ws arbitrary: i fuel)
  case Nil
  then show ?case by (cases fuel) simp_all
next
  case (Cons w ws)
  obtain f where f: "fuel = Suc f" "length ws < f" using Cons.prems(3) by (cases fuel) auto
  have "list_items rec prefix member node f (Suc i) = Inr ws"
  proof (rule Cons.IH [OF _ _ f(2)])
    show "process_member rec (prefix @ unumber (Suc i + k)) member node = Inr (ws ! k) \<and> ws ! k \<noteq> PNone" if "k < length ws" for k
      using Cons.prems(1) [of "Suc k"] that by simp
    show "process_member rec (prefix @ unumber (Suc i + length ws)) member node = Inr PNone"
      using Cons.prems(2) by simp
  qed
  with Cons.prems(1) [of 0] f(1) show ?case by simp
qed

lemma query_list_upto_gap:
  assumes prefix: "list_key_prefix cls i member node = Inr prefix"
    and items: "\<And>k. k < length ws \<Longrightarrow> process_member rec (prefix @ unumber (Suc k)) member node = Inr (ws ! k) \<and> ws ! k \<noteq> PNone"
    and gap: "process_member rec (prefix @ unumber (Suc (length ws))) member node = Inr PNone"
  shows "query_list cls rec i member node = Inr (if ws = [] then PNone else PList ws)"
proof -
  have "list_items rec prefix member node (node_bound node + Suc (length ws)) 1 = Inr ws"
    by (rule list_items_upto_gap) (use items gap in simp_all)
  then have "list_items rec prefix member node (node_bound node) 1 = Inr ws"
    by (simp only: list_items_bound)
  with prefix show ?thesis
    by (simp add: query_list_def)
qed

lemma node_of_str_dict [simp]: "node_of (str_dict node) = Inr node"
  by (induction node) (auto simp: node_of_def str_dict_def py_items_def)

lemma str_dict_not_None [simp]: "str_dict d \<noteq> PNone"
  by (simp add: str_dict_def)

lemma query_shape_plain:
  assumes "ser_location (shape_info_of sh) = None" "v \<noteq> PNone"
  shows "query_shape cls tp rq (Suc limit) sh v = convert_type_errors (query_node cls tp (query_shape cls tp rq limit) sh v)"
  using assms by (simp add: query_shape.simps shape_payload_def Let_def)

lemma query_members_keys:
  "query_members cls rec required ms node acc = Inr d \<Longrightarrow>
     fst ` set acc \<subseteq> fst ` set d \<and> fst ` set d \<subseteq> fst ` set acc \<union> fst ` set ms
     \<and> fst ` set ms \<inter> set required \<subseteq> fst ` set d"
proof (induction ms arbitrary: acc)
  case Nil
  then show ?case by simp
next
  case (Cons m ms)
  obtain n sh where m: "m = (n, sh)" by (cases m)
  from Cons.prems obtain y where y: "query_members cls rec required ms node
      (if y \<noteq> PNone \<or> n \<in> set required then dict_set n y acc else acc) = Inr d"
    by (auto simp: m bind_r_eq_Inr)
  from Cons.IH [OF y] m show ?case by (auto split: if_splits)
qed

text \<open>
  a list of scalars is read back in the order of its numbers, whatever the order of the
  parameters in the request and whatever else the request holds: when the parameters
  \<open>prefix 1\<close> to \<open>prefix n\<close> are given and \<open>prefix n+1\<close> is not, the parsed list has the \<open>n\<close> values, converted
  to the type of the member; no value at all is a missing list, not an empty one.
\<close>

theorem query_list_in_order:
  assumes "ser_location i = None" "ser_location j = None"
    "list_key_prefix cls i (ScalarShape j t) node = Inr prefix"
    "\<And>k. k < length ws \<Longrightarrow> \<exists>s. map_of node (prefix @ unumber (Suc k)) = Some (PStr s)
        \<and> query_scalar tp j t (PStr s) = Inr (ws ! k) \<and> ws ! k \<noteq> PNone"
    "map_of node (prefix @ unumber (Suc (length ws))) = None"
  shows "query_shape cls tp rq (Suc (Suc limit)) (ListShape i (ScalarShape j t)) (str_dict node)
         = Inr (if ws = [] then PNone else PList ws)"
proof -
  let ?rec = "query_shape cls tp rq (Suc limit)"
  have "query_list cls ?rec i (ScalarShape j t) node = Inr (if ws = [] then PNone else PList ws)"
  proof (rule query_list_upto_gap [OF assms(3)])
    fix k assume "k < length ws"
    from assms(4) [OF this] assms(2)
    show "process_member ?rec (prefix @ unumber (Suc k)) (ScalarShape j t) node = Inr (ws ! k) \<and> ws ! k \<noteq> PNone"
      by (auto simp: process_member_def query_shape_plain query_node_def convert_type_errors_def)
  next
    show "process_member ?rec (prefix @ unumber (Suc (length ws))) (ScalarShape j t) node = Inr PNone"
      using assms(5) by (simp add: process_member_def)
  qed
  then show ?thesis
    using assms(1) by (simp add: query_shape_plain query_node_def convert_type_errors_def)
qed

theorem query_list_in_order_witness:
  "\<forall>tp rq. query_shape QueryProtocol tp rq 2 (ListShape (plain_info []) (ScalarShape (plain_info []) TInteger))
       (str_dict [(cp ''member.2'', PStr (cp ''20'')), (cp ''other'', PStr (cp ''x'')), (cp ''member.1'', PStr (cp ''7''))])
     = Inr (PList [PInt 7, PInt 20])"
proof (intro allI)
  fix tp rq
  let ?node = "[(cp ''member.2'', PStr (cp ''20'')), (cp ''other'', PStr (cp ''x'')), (cp ''member.1'', PStr (cp ''7''))]"
  have u: "unumber (Suc 0) = [49]" "unumber (Suc (Suc 0)) = [50]" "unumber (Suc (Suc (Suc 0))) = [51]"
    by (simp_all add: unumber_def cp_def dec_digits.simps)
  have n: "int_of_str (cp ''7'') = Inr 7" "int_of_str (cp ''20'') = Inr 20"
    by (simp_all add: int_of_str_def split_sign_def ustr_strip_def is_ws_def cp_def is_udigit_def num_of_digits_def)
  have "query_shape QueryProtocol tp rq (Suc (Suc 0)) (ListShape (plain_info []) (ScalarShape (plain_info []) TInteger)) (str_dict ?node)
      = Inr (if [PInt 7, PInt 20] = [] then PNone else PList [PInt 7, PInt 20])"
  proof (rule query_list_in_order [where prefix = "cp ''member.''"])
    show "\<exists>s. map_of ?node (cp ''member.'' @ unumber (Suc k)) = Some (PStr s)
        \<and> query_scalar tp (plain_info []) TInteger (PStr s) = Inr ([PInt 7, PInt 20] ! k) \<and> [PInt 7, PInt 20] ! k \<noteq> PNone"
      if "k < length [PInt 7, PInt 20]" for k
    proof -
      from that consider "k = 0" | "k = 1" by fastforce
      then show ?thesis
        by cases (use n in \<open>auto simp: u cp_def\<close>)
    qed
  qed (simp_all add: plain_info_def list_key_prefix_def get_serialized_name_def serialized_name_def u cp_def)
  then show "query_shape QueryProtocol tp rq 2 (ListShape (plain_info []) (ScalarShape (plain_info []) TInteger)) (str_dict ?node)
      = Inr (PList [PInt 7, PInt 20])"
    by (simp add: numeral_2_eq_2)
qed

text \<open>
  C0: a parsed structure has only members of its shape and every required member, a missing one as
  None; it is None itself exactly when it would have no member at all.
\<close>

theorem query_structure_members:
  assumes "ser_location i = None" "query_shape cls tp rq (Suc limit) (Structure i ms) (str_dict node) = Inr v"
  shows "(v = PNone \<and> fst ` set ms \<inter> set (required_members i) = {})
         \<or> (\<exists>d. v = str_dict d \<and> d \<noteq> [] \<and> fst ` set d \<subseteq> fst ` set ms \<and> fst ` set ms \<inter> set (required_members i) \<subseteq> fst ` set d)"
proof -
  let ?m = "query_members cls (query_shape cls tp rq limit) (required_members i) ms node []"
  have "convert_type_errors (bind_r ?m (\<lambda>d. Inr (if d = [] then PNone else str_dict d))) = Inr v"
    using assms by (simp add: query_shape_plain query_node_def query_structure_def)
  then obtain d where d: "?m = Inr d" "v = (if d = [] then PNone else str_dict d)"
    by (cases ?m) (simp_all add: convert_type_errors_def split: if_splits)
  from query_members_keys [OF d(1)] d(2) show ?thesis
    by auto
qed

theorem query_structure_members_witness:
  "\<forall>tp rq. \<exists>v. query_shape QueryProtocol tp rq 2
        (Structure (plain_info [] \<lparr>required_members := [cp ''B'']\<rparr>) [(cp ''A'', ScalarShape (plain_info []) TString), (cp ''B'', ScalarShape (plain_info []) TString)])
        (str_dict [(cp ''A'', PStr (cp ''x'')), (cp ''Action'', PStr (cp ''Do''))]) = Inr v
     \<and> (\<exists>d. v = str_dict d \<and> cp ''B'' \<in> fst ` set d)"
proof (intro allI)
  fix tp rq
  let ?i = "plain_info [] \<lparr>required_members := [cp ''B'']\<rparr>"
  let ?ms = "[(cp ''A'', ScalarShape (plain_info []) TString), (cp ''B'', ScalarShape (plain_info []) TString)]"
  let ?node = "[(cp ''A'', PStr (cp ''x'')), (cp ''Action'', PStr (cp ''Do''))]"
  let ?v = "str_dict [(cp ''A'', PStr (cp ''x'')), (cp ''B'', PNone)]"
  have ev: "query_shape QueryProtocol tp rq (Suc (Suc 0)) (Structure ?i ?ms) (str_dict ?node) = Inr ?v"
    by (simp add: query_shape_plain query_node_def query_structure_def convert_type_errors_def plain_info_def member_key_def
        get_serialized_name_def serialized_name_def process_member_def cp_def)
  have "(?v = PNone \<and> fst ` set ?ms \<inter> set (required_members ?i) = {})
      \<or> (\<exists>d. ?v = str_dict d \<and> d \<noteq> [] \<and> fst ` set d \<subseteq> fst ` set ?ms \<and> fst ` set ?ms \<inter> set (required_members ?i) \<subseteq> fst ` set d)"
    by (rule query_structure_members [OF _ ev]) (simp add: plain_info_def)
  with ev show "\<exists>v. query_shape QueryProtocol tp rq 2 (Structure ?i ?ms) (str_dict ?node) = Inr v
      \<and> (\<exists>d. v = str_dict d \<and> cp ''B'' \<in> fst ` set d)"
    by (auto simp: numeral_2_eq_2)
qed

text \<open>
  what a query request is answered with. Without an \<open>Action\<close> it is a protocol error, with an unknown
  one the operation is not found, and a request that is accepted names an operation of the service;
  every exception that leaves the parser is one of the four request parser errors.
\<close>

theorem query_parse_outcomes:
  "case query_parse cls tp limit svc rq vals of
     Inr (op, params) \<Rightarrow> (\<exists>action. map_of vals (cp ''Action'') = Some action \<and> map_of (sm_operations svc) action = Some op)
       \<and> params \<noteq> PNone
   | Inl e \<Rightarrow> is_request_parser_error e
       \<and> (map_of vals (cp ''Action'') = None \<longrightarrow> e = ProtocolParserError)
       \<and> (\<forall>action. map_of vals (cp ''Action'') = Some action \<and> map_of (sm_operations svc) action = None
            \<longrightarrow> e = OperationNotFoundParserError)"
proof (cases "query_operation svc vals")
  case (Inl e)
  then have "query_parse cls tp limit svc rq vals = Inl e" "is_request_parser_error e"
    by (auto simp: query_operation_def query_parse_def handle_exceptions_def is_request_parser_error_def operation_model_def
        split: option.splits if_splits)
  with Inl show ?thesis
    by (auto simp: query_operation_def operation_model_def split: option.splits if_splits)
next
  case (Inr op)
  then have "\<exists>action. map_of vals (cp ''Action'') = Some action \<and> map_of (sm_operations svc) action = Some op"
    by (auto simp: query_operation_def operation_model_def split: option.splits if_splits)
  with Inr show ?thesis
    by (auto simp: query_parse_def handle_exceptions_def is_request_parser_error_def bind_r_def
        split: sum.splits option.splits if_splits)
qed

theorem query_parse_outcomes_witness:
  "\<forall>tp rq. query_parse QueryProtocol tp 1 \<lparr>sm_name = [], sm_operations = []\<rparr> rq [(cp ''Action'', cp ''No'')]
     = Inl OperationNotFoundParserError"
proof (intro allI)
  fix tp rq
  let ?r = "query_parse QueryProtocol tp 1 \<lparr>sm_name = [], sm_operations = []\<rparr> rq [(cp ''Action'', cp ''No'')]"
  show "?r = Inl OperationNotFoundParserError"
    using query_parse_outcomes [where cls = QueryProtocol and tp = tp and limit = 1 and rq = rq
        and svc = "\<lparr>sm_name = [], sm_operations = []\<rparr>" and vals = "[(cp ''Action'', cp ''No'')]"]
    by (cases ?r) (auto simp del: cp_simps)
qed

end
