(* ===== verification/OpRouter.thy ===== *)
theory OpRouter
  imports ShapeParser "HOL-Library.Multiset"
begin

text \<open>
  The operation router of the REST protocols: \<open>aws/protocol/op_router.py\<close> and the rule strings of
  \<open>aws/protocol/routing.py\<close>. Werkzeug's matching of a path and a method against rule strings is a
  parameter; which operations share a rule, the required arguments that tell them apart and the
  state of the rules between requests are modelled. The properties say that every operation is
  reachable by exactly one rule, which rule wins, and what a rule checks when it is used again.
\<close>

subsection \<open>URL decoding of the standard library\<close>

definition hex_value :: "nat \<Rightarrow> nat option" where
  "hex_value c =
     (if 48 \<le> c \<and> c \<le> 57 then Some (c - 48)
      else if 65 \<le> c \<and> c \<le> 70 then Some (c - 55)
      else if 97 \<le> c \<and> c \<le> 102 then Some (c - 87)
      else None)"

fun unquote_to_bytes :: "ustr \<Rightarrow> bytes" where
  "unquote_to_bytes (c # a # b # cs) =
     (case (if c = 37 then hex_value a else None, hex_value b) of
        (Some h, Some l) \<Rightarrow> byte (16 * h + l) # unquote_to_bytes cs
      | _ \<Rightarrow> byte c # unquote_to_bytes (a # b # cs))"
| "unquote_to_bytes cs = map byte cs"

text \<open>
  \<open>bs.decode("utf-8", "replace")\<close>: an ill-formed sequence, as long as it is the start of a well-formed
  one, becomes one replacement character. \<open>bad_tail\<close> counts its continuation bytes.
\<close>

definition bad_tail :: "8 word \<Rightarrow> bytes \<Rightarrow> nat" where
  "bad_tail b bs =
     (let n = unat b;
          lo = (if n = 224 then 160 else if n = 240 then 144 else 128);
          hi = (if n = 237 then 159 else if n = 244 then 143 else 191)
      in case bs of
           [] \<Rightarrow> 0
         | b1 # bs' \<Rightarrow>
             if 224 \<le> n \<and> n \<le> 244 \<and> lo \<le> unat b1 \<and> unat b1 \<le> hi
             then (if 240 \<le> n then (case bs' of [] \<Rightarrow> 1 | b2 # _ \<Rightarrow> if is_cont b2 then 2 else 1) else 1)
             else 0)"

function utf8_decode_replace :: "bytes \<Rightarrow> ustr" where
  "utf8_decode_replace [] = []"
| "utf8_decode_replace (b # bs) =
     (case utf8_first b bs of
        None \<Rightarrow> 65533 # utf8_decode_replace (drop (bad_tail b bs) bs)
      | Some (c, bs') \<Rightarrow> c # utf8_decode_replace bs')"
  by pat_completeness auto
termination utf8_decode_replace
  by (relation "measure length") (auto dest: utf8_first_length)

text \<open>\<open>urllib.parse.unquote\<close>: ASCII runs are decoded, other characters stay.\<close>

function unquote :: "ustr \<Rightarrow> ustr" where
  "unquote [] = []"
| "unquote (c # cs) =
     (if c < 128
      then utf8_decode_replace (unquote_to_bytes (takeWhile (\<lambda>x. x < 128) (c # cs))) @ unquote (dropWhile (\<lambda>x. x < 128) cs)
      else c # unquote cs)"
  by pat_completeness auto
termination unquote
  by (relation "measure length") (auto simp: le_imp_less_Suc length_dropWhile_le)

definition plus_to_space :: "ustr \<Rightarrow> ustr" where
  "plus_to_space s = map (\<lambda>c. if c = 43 then 32 else c) s"

text \<open>\<open>parse_qs(qs, keep_blank_values=True)\<close>.\<close>

definition qs_pair :: "ustr \<Rightarrow> ustr \<times> ustr" where
  "qs_pair f = (let (n, v) = split_once 61 f in (unquote (plus_to_space n), unquote (plus_to_space v)))"

definition parse_qs :: "ustr \<Rightarrow> (ustr, ustr list) dict" where
  "parse_qs qs =
     fold (\<lambda>f d. let (n, v) = qs_pair f in dict_set n ((case dict_get d n of None \<Rightarrow> [] | Some vs \<Rightarrow> vs) @ [v]) d)
       (filter (\<lambda>f. f \<noteq> []) (split_on 38 qs)) []"

subsection \<open>Rule strings\<close>

text \<open>
  \<open>path_param_regex.sub(transform_path_params_to_rule_vars, path)\<close>: a parameter is the shortest text
  between braces that is not empty and has no line break.
\<close>

definition strip_char :: "nat \<Rightarrow> ustr \<Rightarrow> ustr" where
  "strip_char c s = rev (dropWhile (\<lambda>x. x = c) (rev (dropWhile (\<lambda>x. x = c) s)))"

definition rstrip_char :: "nat \<Rightarrow> ustr \<Rightarrow> ustr" where
  "rstrip_char c s = rev (dropWhile (\<lambda>x. x = c) (rev s))"

definition rule_var :: "ustr \<Rightarrow> ustr" where
  "rule_var s = concat (map (\<lambda>c. if c = 45 then cp ''_0_'' else [c]) s)"

definition transform_path_params_to_rule_vars :: "ustr \<Rightarrow> ustr" where
  "transform_path_params_to_rule_vars variable =
     (if variable \<noteq> [] \<and> last variable = 43
      then cp ''<path:'' @ rule_var (strip_char 43 variable) @ cp ''>''
      else cp ''<'' @ rule_var variable @ cp ''>'')"

definition param_at :: "ustr \<Rightarrow> ustr option" where
  "param_at s =
     (case s of
        c # cs \<Rightarrow>
          let v = c # takeWhile (\<lambda>x. x \<noteq> 125) cs
          in if length v \<le> length cs \<and> 10 \<notin> set v then Some v else None
      | [] \<Rightarrow> None)"

lemma param_at_length: "param_at s = Some v \<Longrightarrow> length (drop (Suc (length v)) s) \<le> length s"
  by simp

function rule_string :: "ustr \<Rightarrow> ustr" where
  "rule_string [] = []"
| "rule_string (c # s) =
     (case (if c = 123 then param_at s else None) of
        Some v \<Rightarrow> transform_path_params_to_rule_vars v @ rule_string (drop (Suc (length v)) s)
      | None \<Rightarrow> c # rule_string s)"
  by pat_completeness auto
termination rule_string
  by (relation "measure length") (auto simp: le_imp_less_Suc)

text \<open>\<open>arg_key.replace("_0_", "-")\<close>.\<close>

fun post_process_arg_name :: "ustr \<Rightarrow> ustr" where
  "post_process_arg_name (a # b # c # s) =
     (if a = 95 \<and> b = 48 \<and> c = 95 then 45 # post_process_arg_name s else a # post_process_arg_name (b # c # s))"
| "post_process_arg_name s = s"

subsection \<open>HTTP operations\<close>

text \<open>The \<open>http\<close> block of an operation as botocore gives it.\<close>

record rest_operation = operation +
  http_auth_path :: "ustr option"
  http_request_uri :: ustr
  http_method :: ustr
  op_deprecated :: bool

record http_operation =
  ho_operation :: rest_operation
  ho_path :: ustr
  ho_method :: ustr
  ho_query_args :: "(ustr, ustr list) dict"
  ho_header_args :: "ustr list"
  ho_deprecated :: bool

definition operation_uri :: "rest_operation \<Rightarrow> ustr" where
  "operation_uri op =
     (case http_auth_path op of
        Some a \<Rightarrow> if a = [] then http_request_uri op else rstrip_char 47 a @ dropWhile (\<lambda>c. c \<noteq> 63) (http_request_uri op)
      | None \<Rightarrow> http_request_uri op)"

text \<open>The required members of the input that are sent as headers or query parameters.\<close>

fun required_args ::
    "(ustr \<times> shape) list \<Rightarrow> ustr list \<Rightarrow> (ustr, ustr list) dict \<times> ustr list \<Rightarrow> ((ustr, ustr list) dict \<times> ustr list) result" where
  "required_args members [] acc = Inr acc"
| "required_args members (r # rs) (query, headers) =
     (case map_of members r of
        None \<Rightarrow> Inl KeyError
      | Some sh \<Rightarrow>
          let name = serialized_name sh []
          in if ser_location (shape_info_of sh) = Some (cp ''header'')
             then required_args members rs (query, headers @ [name])
             else if ser_location (shape_info_of sh) = Some (cp ''querystring'') \<and> dict_get query name = None
             then required_args members rs (dict_set name [] query, headers)
             else required_args members rs (query, headers))"

definition input_args :: "shape option \<Rightarrow> (ustr, ustr list) dict \<Rightarrow> ((ustr, ustr list) dict \<times> ustr list) result" where
  "input_args input query =
     (case input of
        Some (Structure i ms) \<Rightarrow> required_args ms (required_members i) (query, [])
      | _ \<Rightarrow> Inr (query, []))"

definition from_operation :: "rest_operation \<Rightarrow> http_operation result" where
  "from_operation op =
     (let path_query = split_on 63 (operation_uri op);
          query = (case path_query of
                     p # q # _ \<Rightarrow> map (\<lambda>(k, vs). (k, filter (\<lambda>v. v \<noteq> []) vs)) (parse_qs q)
                   | _ \<Rightarrow> [])
      in bind_r (input_args (op_input_shape op) query) (\<lambda>(query_args, header_args).
           Inr \<lparr>ho_operation = op, ho_path = hd path_query, ho_method = http_method op,
                ho_query_args = query_args, ho_header_args = header_args, ho_deprecated = op_deprecated op\<rparr>))"

subsection \<open>Rules\<close>

text \<open>
  The values a query parameter must have come from \<open>filter(None, v)\<close>, an iterator: a rule keeps what the
  iterator has not yielded yet, and checking a request takes values from it.
\<close>

record args_rule =
  ar_endpoint :: rest_operation
  ar_query_args :: "(ustr, ustr list) dict"
  ar_header_args :: "ustr list"
  ar_score :: int

definition args_rule_of :: "http_operation \<Rightarrow> args_rule" where
  "args_rule_of ho =
     \<lparr>ar_endpoint = ho_operation ho, ar_query_args = ho_query_args ho, ar_header_args = ho_header_args ho,
      ar_score = 10 + 10 * int (length (ho_query_args ho)) + 10 * int (length (ho_header_args ho))
        - (if ho_deprecated ho then 5 else 0)\<rparr>"

text \<open>\<open>for value in values\<close>: the value that differs has been taken too.\<close>

fun take_values :: "ustr list \<Rightarrow> ustr list \<Rightarrow> bool \<times> ustr list" where
  "take_values given [] = (True, [])"
| "take_values given (v # vs) = (if v \<in> set given then take_values given vs else (False, vs))"

fun take_query_args :: "(ustr \<times> ustr) list \<Rightarrow> (ustr, ustr list) dict \<Rightarrow> bool \<times> (ustr, ustr list) dict" where
  "take_query_args args [] = (True, [])"
| "take_query_args args ((k, vs) # qs) =
     (if k \<notin> fst ` set args then (False, (k, vs) # qs)
      else (case take_values (map snd (filter (\<lambda>(k', v). k' = k) args)) vs of
              (False, vs') \<Rightarrow> (False, (k, vs') # qs)
            | (True, vs') \<Rightarrow> (case take_query_args args qs of (b, qs') \<Rightarrow> (b, (k, vs') # qs'))))"

definition rule_matches :: "args_rule \<Rightarrow> request \<Rightarrow> bool \<times> args_rule" where
  "rule_matches r rq =
     (case take_query_args (rq_args rq) (ar_query_args r) of
        (b, qs) \<Rightarrow> (b \<and> list_all (\<lambda>h. header_list rq h \<noteq> []) (ar_header_args r), r\<lparr>ar_query_args := qs\<rparr>))"

fun match_request :: "args_rule list \<Rightarrow> request \<Rightarrow> args_rule option \<times> args_rule list" where
  "match_request [] rq = (None, [])"
| "match_request (r # rs) rq =
     (case rule_matches r rq of
        (True, r') \<Rightarrow> (Some r', r' # rs)
      | (False, r') \<Rightarrow> (case match_request rs rq of (found, rs') \<Rightarrow> (found, r' # rs')))"

subsection \<open>The map of a service\<close>

datatype op_rule =
    StrictRule ustr ustr rest_operation
  | MatchingRule ustr ustr "args_rule list"

definition matching_rules :: "http_operation list \<Rightarrow> args_rule list" where
  "matching_rules hos = sort_key (\<lambda>r. - ar_score r) (map args_rule_of hos)"

definition path_index :: "http_operation list \<Rightarrow> (ustr \<times> ustr, http_operation list) dict" where
  "path_index hos =
     fold (\<lambda>ho d. let k = (ho_path ho, ho_method ho)
                  in dict_set k ((case dict_get d k of None \<Rightarrow> [] | Some l \<Rightarrow> l) @ [ho]) d) hos []"

definition upper :: "ustr \<Rightarrow> ustr" where
  "upper s = map (\<lambda>c. if 97 \<le> c \<and> c \<le> 122 then c - 32 else c) s"

fun make_rule :: "(ustr \<times> ustr) \<times> http_operation list \<Rightarrow> op_rule" where
  "make_rule ((path, method), [ho]) = StrictRule (rule_string path) (upper method) (ho_operation ho)"
| "make_rule ((path, method), hos) = MatchingRule (rule_string path) (upper method) (matching_rules hos)"

definition create_service_map :: "rest_operation list \<Rightarrow> op_rule list result" where
  "create_service_map ops = bind_r (map_r from_operation ops) (\<lambda>hos. Inr (map make_rule (path_index hos)))"

subsection \<open>Matching a request\<close>

text \<open>Werkzeug matches a host, a path and a method against the rule strings: the number of the rule and its variables.\<close>

datatype werkzeug_outcome = WzRule nat uri_params | WzNotFound | WzMethodNotAllowed

type_synonym werkzeug_map = "(ustr \<times> ustr) list \<Rightarrow> ustr \<Rightarrow> ustr \<Rightarrow> ustr \<Rightarrow> werkzeug_outcome"

fun rule_key :: "op_rule \<Rightarrow> ustr \<times> ustr" where
  "rule_key (StrictRule s m op) = (s, m)"
| "rule_key (MatchingRule s m rs) = (s, m)"

abbreviation NotFound :: exn where
  "NotFound \<equiv> UserError ''NotFound'' ''''"

definition processed_args :: "uri_params \<Rightarrow> uri_params" where
  "processed_args args = fold (\<lambda>(k, v). dict_set (post_process_arg_name k) (unquote v)) args []"

definition router_match ::
    "werkzeug_map \<Rightarrow> op_rule list \<Rightarrow> ustr \<Rightarrow> ustr \<Rightarrow> request \<Rightarrow> (rest_operation \<times> uri_params) result \<times> op_rule list" where
  "router_match wz rules host raw_path rq =
     (let method = (if rq_method rq = ''OPTIONS'' then cp ''GET'' else cp (rq_method rq))
      in case wz (map rule_key rules) host (rstrip_char 47 raw_path) method of
           WzRule n args \<Rightarrow>
             (case rules ! n of
                StrictRule s m op \<Rightarrow> (Inr (op, processed_args args), rules)
              | MatchingRule s m rs \<Rightarrow>
                  (case match_request rs rq of
                     (Some r, rs') \<Rightarrow> (Inr (ar_endpoint r, processed_args args), rules[n := MatchingRule s m rs'])
                   | (None, rs') \<Rightarrow> (Inl NotFound, rules[n := MatchingRule s m rs'])))
         | _ \<Rightarrow> (Inl NotFound, rules))"

subsection \<open>Names of path parameters\<close>

lemma post_process_no_underscore: "95 \<notin> set s \<Longrightarrow> post_process_arg_name s = s"
  by (induction s rule: post_process_arg_name.induct) auto

lemma post_process_rule_var: "95 \<notin> set s \<Longrightarrow> post_process_arg_name (rule_var s) = s"
proof (induction s)
  case Nil
  then show ?case by (simp add: rule_var_def)
next
  case (Cons c s)
  then have IH: "post_process_arg_name (rule_var s) = s" and c: "c \<noteq> 95" by simp_all
  show ?case
  proof (cases "c = 45")
    case True
    have "rule_var (c # s) = 95 # 48 # 95 # rule_var s"
      by (simp add: rule_var_def True cp_def)
    with IH True show ?thesis by simp
  next
    case False
    have "rule_var (c # s) = c # rule_var s"
      by (simp add: rule_var_def False)
    moreover have "post_process_arg_name (c # t) = c # post_process_arg_name t" for t
      by (rule list.exhaust [of t]; rule list.exhaust [of "tl t"]) (use c in auto)
    ultimately show ?thesis using IH by simp
  qed
qed

subsection \<open>Every operation has its rule\<close>

fun rule_operations :: "op_rule \<Rightarrow> rest_operation list" where
  "rule_operations (StrictRule s m op) = [op]"
| "rule_operations (MatchingRule s m rs) = map ar_endpoint rs"

fun rule_sorted :: "op_rule \<Rightarrow> bool" where
  "rule_sorted (StrictRule s m op) = True"
| "rule_sorted (MatchingRule s m rs) = sorted_wrt (\<lambda>r r'. ar_score r' \<le> ar_score r) rs"

definition router_inv :: "rest_operation list \<Rightarrow> op_rule list \<Rightarrow> bool" where
  "router_inv ops rules \<longleftrightarrow>
     mset (concat (map rule_operations rules)) = mset ops \<and> list_all rule_sorted rules"

lemma mset_groups_set:
  "mset (concat (map snd (dict_set k ((case dict_get d k of None \<Rightarrow> [] | Some l \<Rightarrow> l) @ [x]) d)))
   = add_mset x (mset (concat (map snd d)))"
  by (induction d) (auto split: option.splits)

lemma mset_path_index: "mset (concat (map snd (path_index hos))) = mset hos"
proof -
  define step where "step = (\<lambda>(ho :: http_operation) d. dict_set (ho_path ho, ho_method ho)
      ((case dict_get d (ho_path ho, ho_method ho) of None \<Rightarrow> [] | Some l \<Rightarrow> l) @ [ho]) d)"
  have "mset (concat (map snd (fold step hos d))) = mset (concat (map snd d)) + mset hos" for d
    by (induction hos arbitrary: d) (simp_all add: step_def mset_groups_set)
  from this [of "[]"] show ?thesis
    by (simp add: path_index_def step_def Let_def)
qed

lemma mset_matching_rules: "mset (map ar_endpoint (matching_rules hos)) = mset (map ho_operation hos)"
  unfolding matching_rules_def by (simp add: args_rule_of_def multiset.map_comp comp_def)

lemma sorted_matching_rules: "sorted_wrt (\<lambda>r r'. ar_score r' \<le> ar_score r) (matching_rules hos)"
  using sorted_sort_key [of "\<lambda>r. - ar_score r" "map args_rule_of hos"]
  by (simp add: matching_rules_def sorted_map)

lemma make_rule_ok: "mset (rule_operations (make_rule g)) = mset (map ho_operation (snd g)) \<and> rule_sorted (make_rule g)"
proof (cases g)
  case (Pair k hos)
  obtain p q where k: "k = (p, q)" by (cases k)
  consider ho where "hos = [ho]" | "make_rule g = MatchingRule (rule_string p) (upper q) (matching_rules hos)"
    by (cases "(k, hos)" rule: make_rule.cases) (use Pair k in auto)
  then show ?thesis
    by cases (use Pair k mset_matching_rules sorted_matching_rules in simp_all)
qed

lemma from_operation_endpoint: "from_operation op = Inr ho \<Longrightarrow> ho_operation ho = op"
  by (auto simp: from_operation_def Let_def bind_r_eq_Inr)

lemma map_r_from_operation: "map_r from_operation ops = Inr hos \<Longrightarrow> map ho_operation hos = ops"
  by (induction ops arbitrary: hos) (auto simp: bind_r_eq_Inr from_operation_endpoint)

lemma mset_concat_rules:
  "mset (concat (map rule_operations (map make_rule gs))) = mset (map ho_operation (concat (map snd gs)))"
  by (induction gs) (simp_all add: make_rule_ok del: mset_map)

lemma create_service_map_inv: "create_service_map ops = Inr rules \<Longrightarrow> router_inv ops rules"
proof -
  assume "create_service_map ops = Inr rules"
  then obtain hos where h: "map_r from_operation ops = Inr hos" "rules = map make_rule (path_index hos)"
    by (auto simp: create_service_map_def bind_r_eq_Inr)
  have "mset (concat (map rule_operations rules)) = image_mset ho_operation (mset hos)"
    by (simp only: h(2) mset_concat_rules mset_map mset_path_index)
  also have "\<dots> = mset ops"
    using map_r_from_operation [OF h(1)] by (metis mset_map)
  finally show ?thesis
    by (simp add: router_inv_def h(2) list_all_iff make_rule_ok)
qed

subsection \<open>Matching\<close>

lemma rule_matches_same [simp]:
  "ar_endpoint (snd (rule_matches r rq)) = ar_endpoint r"
  "ar_score (snd (rule_matches r rq)) = ar_score r"
  by (simp_all add: rule_matches_def split: prod.splits)

lemma match_request_same:
  "match_request rs rq = (found, rs') \<Longrightarrow>
     map ar_endpoint rs' = map ar_endpoint rs \<and> map ar_score rs' = map ar_score rs"
proof (induction rs arbitrary: rs' found)
  case (Cons r rs)
  obtain b r' where r: "rule_matches r rq = (b, r')" by fastforce
  then have e: "ar_endpoint r' = ar_endpoint r" "ar_score r' = ar_score r"
    using rule_matches_same [of r rq] by simp_all
  show ?case
  proof (cases b)
    case True
    with Cons.prems r e show ?thesis by auto
  next
    case False
    obtain f rs'' where m: "match_request rs rq = (f, rs'')" by fastforce
    from Cons.IH [OF this] Cons.prems False r m e show ?thesis by auto
  qed
qed simp

lemma match_request_first:
  "match_request rs rq = (Some r', rs') \<Longrightarrow>
     \<exists>i < length rs. rule_matches (rs ! i) rq = (True, r') \<and> (\<forall>j < i. \<not> fst (rule_matches (rs ! j) rq))"
proof (induction rs arbitrary: rs')
  case (Cons r rs)
  obtain b r1 where r: "rule_matches r rq = (b, r1)" by fastforce
  show ?case
  proof (cases b)
    case True
    with Cons.prems r show ?thesis by (intro exI [of _ 0]) auto
  next
    case False
    obtain rs'' where m: "match_request rs rq = (Some r', rs'')"
      using Cons.prems r False by (auto split: prod.splits)
    from Cons.IH [OF m] obtain i where i: "i < length rs" "rule_matches (rs ! i) rq = (True, r')"
        "\<forall>j < i. \<not> fst (rule_matches (rs ! j) rq)" by blast
    have "\<not> fst (rule_matches ((r # rs) ! j) rq)" if "j < Suc i" for j
      using that i(3) r False by (cases j) auto
    with i(1,2) show ?thesis by (intro exI [of _ "Suc i"]) auto
  qed
qed simp

lemma match_request_none: "match_request rs rq = (None, rs') \<Longrightarrow> r \<in> set rs \<Longrightarrow> \<not> fst (rule_matches r rq)"
  by (induction rs arbitrary: rs') (auto split: prod.splits bool.splits)

lemma match_request_best:
  assumes "sorted_wrt (\<lambda>r r'. ar_score r' \<le> ar_score r) rs" "match_request rs rq = (Some r', rs')"
    "r \<in> set rs" "fst (rule_matches r rq)"
  shows "ar_score r \<le> ar_score r'"
proof -
  obtain i where i: "i < length rs" "rule_matches (rs ! i) rq = (True, r')" "\<forall>j < i. \<not> fst (rule_matches (rs ! j) rq)"
    using match_request_first [OF assms(2)] by blast
  obtain j where j: "j < length rs" "r = rs ! j"
    using assms(3) by (auto simp: in_set_conv_nth)
  have "i \<le> j"
    using i(3) j(2) assms(4) by (meson not_le)
  then have "ar_score (rs ! j) \<le> ar_score (rs ! i)"
    using assms(1) j(1) by (cases "i = j") (auto simp: sorted_wrt_iff_nth_less)
  moreover have "ar_score r' = ar_score (rs ! i)"
    using rule_matches_same(2) [of "rs ! i" rq] i(2) by simp
  ultimately show ?thesis by (simp add: j(2))
qed

lemma router_inv_update:
  assumes "router_inv ops rules" "n < length rules" "rules ! n = MatchingRule s m rs" "match_request rs rq = (found, rs')"
  shows "router_inv ops (rules[n := MatchingRule s m rs'])"
proof -
  have same: "map ar_endpoint rs' = map ar_endpoint rs" "map ar_score rs' = map ar_score rs"
    using match_request_same [OF assms(4)] by simp_all
  have "map rule_operations (rules[n := MatchingRule s m rs']) = (map rule_operations rules)[n := rule_operations (rules ! n)]"
    using assms(3) same(1) by (simp add: map_update)
  also have "\<dots> = map rule_operations rules"
    using assms(2) by (simp flip: map_update add: list_update_id)
  finally have ops: "map rule_operations (rules[n := MatchingRule s m rs']) = map rule_operations rules" .
  have "rule_sorted (rules ! n)"
    using assms(1,2) by (simp add: router_inv_def list_all_length)
  then have "sorted (map (\<lambda>r. - ar_score r) rs)"
    by (simp add: assms(3) sorted_map)
  moreover have "map (\<lambda>r. - ar_score r) rs' = map (\<lambda>r. - ar_score r) rs"
    using arg_cong [OF same(2), of "map uminus"] by (simp add: comp_def)
  ultimately have "sorted_wrt (\<lambda>r r'. ar_score r' \<le> ar_score r) rs'"
    by (metis (no_types, lifting) neg_le_iff_le sorted_map sorted_wrt_mono_rel)
  then show ?thesis
    using assms(1) ops by (auto simp: router_inv_def list_all_iff dest!: set_update_subset_insert [THEN subsetD])
qed

text \<open>A router that has answered any number of requests.\<close>

fun serve :: "werkzeug_map \<Rightarrow> op_rule list \<Rightarrow> (ustr \<times> ustr \<times> request) list \<Rightarrow> op_rule list" where
  "serve wz rules [] = rules"
| "serve wz rules ((host, path, rq) # rqs) = serve wz (snd (router_match wz rules host path rq)) rqs"

text \<open>What the code relies on: werkzeug answers with one of the rules it was given.\<close>

definition answers_rules :: "werkzeug_map \<Rightarrow> bool" where
  "answers_rules wz \<longleftrightarrow> (\<forall>keys host path method n args. wz keys host path method = WzRule n args \<longrightarrow> n < length keys)"

lemma router_match_inv:
  assumes "answers_rules wz" "router_inv ops rules"
  shows "router_inv ops (snd (router_match wz rules host path rq))"
proof (cases "wz (map rule_key rules) host (rstrip_char 47 path) (if rq_method rq = ''OPTIONS'' then cp ''GET'' else cp (rq_method rq))")
  case (WzRule n args)
  then have n: "n < length rules"
    using assms(1) unfolding answers_rules_def by (metis length_map)
  show ?thesis
  proof (cases "rules ! n")
    case (StrictRule s m op)
    with WzRule assms(2) show ?thesis by (simp add: router_match_def Let_def)
  next
    case (MatchingRule s m rs)
    obtain found rs' where m: "match_request rs rq = (found, rs')" by fastforce
    from WzRule MatchingRule m have "snd (router_match wz rules host path rq) = rules[n := MatchingRule s m rs']"
      by (simp add: router_match_def Let_def split: option.splits)
    with router_inv_update [OF assms(2) n MatchingRule m] show ?thesis by simp
  qed
qed (use assms(2) in \<open>simp_all add: router_match_def Let_def\<close>)

lemma serve_inv: "answers_rules wz \<Longrightarrow> router_inv ops rules \<Longrightarrow> router_inv ops (serve wz rules rqs)"
  by (induction wz rules rqs rule: serve.induct) (simp_all add: router_match_inv)

lemma router_match_operation:
  assumes "answers_rules wz" "router_match wz rules host path rq = (Inr (op, args), rules')"
  shows "op \<in> set (concat (map rule_operations rules))"
proof -
  obtain n as where n: "wz (map rule_key rules) host (rstrip_char 47 path)
      (if rq_method rq = ''OPTIONS'' then cp ''GET'' else cp (rq_method rq)) = WzRule n as"
    using assms(2) by (auto simp: router_match_def Let_def split: werkzeug_outcome.splits)
  then have "n < length rules"
    using assms(1) unfolding answers_rules_def by (metis length_map)
  then have mem: "rules ! n \<in> set rules" by simp
  have "op \<in> set (rule_operations (rules ! n))"
  proof (cases "rules ! n")
    case (StrictRule s m op')
    with n assms(2) show ?thesis by (simp add: router_match_def Let_def)
  next
    case (MatchingRule s m rs)
    obtain found rs' where m: "match_request rs rq = (found, rs')" by fastforce
    with n assms(2) MatchingRule obtain r where r: "found = Some r" "op = ar_endpoint r"
      by (auto simp: router_match_def Let_def split: option.splits)
    obtain i where "i < length rs" "rule_matches (rs ! i) rq = (True, r)"
      using match_request_first m r(1) by blast
    with rule_matches_same(1) [of "rs ! i" rq] r(2) MatchingRule show ?thesis by simp
  qed
  with mem show ?thesis by auto
qed

text \<open>
  C16: the operation router of a REST service loses and invents no operation: each operation of the
  specification is the endpoint of exactly one rule, also after any sequence of requests has been
  answered, and an operation the router answers with is one of the service.
\<close>

theorem router_keeps_operations:
  assumes "create_service_map ops = Inr rules" "answers_rules wz"
  shows "mset (concat (map rule_operations (serve wz rules rqs))) = mset ops
    \<and> (\<forall>host path rq op args rules'. router_match wz (serve wz rules rqs) host path rq = (Inr (op, args), rules') \<longrightarrow> op \<in> set ops)"
proof -
  have m: "mset (concat (map rule_operations (serve wz rules rqs))) = mset ops"
    using serve_inv [OF assms(2) create_service_map_inv [OF assms(1)]] by (simp add: router_inv_def)
  then have "set (concat (map rule_operations (serve wz rules rqs))) = set ops"
    by (rule mset_eq_setD)
  with m router_match_operation [OF assms(2)] show ?thesis by blast
qed

text \<open>
  C17: among the operations that share a path and a method, the one with the highest score whose required
  arguments the request has answers it, also after other requests; the request is not found exactly when
  none of them matches.
\<close>

theorem best_rule_answers:
  assumes "create_service_map ops = Inr rules" "answers_rules wz" "MatchingRule s m rs \<in> set (serve wz rules rqs)"
  shows "case match_request rs rq of
           (Some r', rs') \<Rightarrow> (\<exists>r \<in> set rs. rule_matches r rq = (True, r'))
              \<and> (\<forall>r \<in> set rs. fst (rule_matches r rq) \<longrightarrow> ar_score r \<le> ar_score r')
         | (None, rs') \<Rightarrow> (\<forall>r \<in> set rs. \<not> fst (rule_matches r rq))"
proof -
  have "router_inv ops (serve wz rules rqs)"
    by (rule serve_inv [OF assms(2) create_service_map_inv [OF assms(1)]])
  with assms(3) have sorted: "sorted_wrt (\<lambda>r r'. ar_score r' \<le> ar_score r) rs"
    by (auto simp: router_inv_def list_all_iff)
  obtain found rs' where m: "match_request rs rq = (found, rs')" by fastforce
  show ?thesis
  proof (cases found)
    case None
    with m show ?thesis by (auto dest: match_request_none)
  next
    case (Some r')
    obtain i where "i < length rs" "rule_matches (rs ! i) rq = (True, r')"
      using match_request_first m Some by blast
    then have "\<exists>r \<in> set rs. rule_matches r rq = (True, r')" by auto
    with Some m match_request_best [OF sorted] show ?thesis by auto
  qed
qed

subsection \<open>Required values\<close>

lemma take_values_True: "take_values given vs = (True, vs') \<Longrightarrow> vs' = []"
  by (induction vs) (auto split: if_splits)

lemma take_query_args_True:
  "take_query_args args qs = (True, qs') \<Longrightarrow> qs' = map (\<lambda>(k, vs). (k, [])) qs"
  by (induction args qs arbitrary: qs' rule: take_query_args.induct)
    (auto split: if_splits prod.splits bool.splits dest: take_values_True)

lemma take_query_args_empty:
  "fst (take_query_args args (map (\<lambda>(k, vs). (k, [])) qs)) = (fst ` set qs \<subseteq> fst ` set args)"
  by (induction qs) (auto split: prod.splits)

text \<open>
  the values a query parameter must have are checked until a request has matched, not longer: after
  one request that a rule accepted, the rule accepts every request that has its query parameters and
  headers, whatever the values are.
\<close>

theorem required_values_used_up:
  assumes "rule_matches r rq = (True, r')"
  shows "fst (rule_matches r' rq') \<longleftrightarrow>
           fst ` set (ar_query_args r) \<subseteq> fst ` set (rq_args rq') \<and> list_all (\<lambda>h. header_list rq' h \<noteq> []) (ar_header_args r)"
proof -
  obtain qs where "take_query_args (rq_args rq) (ar_query_args r) = (True, qs)" "r' = r\<lparr>ar_query_args := qs\<rparr>"
    using assms by (auto simp: rule_matches_def split: prod.splits)
  then have "r' = r\<lparr>ar_query_args := map (\<lambda>(k, vs). (k, [])) (ar_query_args r)\<rparr>"
    using take_query_args_True by blast
  with take_query_args_empty [of "rq_args rq'" "ar_query_args r"] show ?thesis
    by (auto simp: rule_matches_def split: prod.splits)
qed

subsection \<open>An example: two operations on one path\<close>

definition example_op :: "string \<Rightarrow> string \<Rightarrow> rest_operation" where
  "example_op n uri =
     \<lparr>op_name = cp n, op_input_shape = None, http_auth_path = None, http_request_uri = cp uri, http_method = cp ''GET'',
      op_deprecated = False\<rparr>"

definition example_ops :: "rest_operation list" where
  "example_ops = [example_op ''ListObjects'' ''/{Bucket}'', example_op ''ListObjectsV2'' ''/{Bucket}?list-type=2'']"

definition example_query :: "string \<Rightarrow> request" where
  "example_query v =
     \<lparr>rq_method = ''GET'', rq_path = cp ''/b'', rq_headers = [], rq_args = [(cp ''list-type'', cp v)], rq_data = [], rq_mimetype = []\<rparr>"

definition example_wz :: werkzeug_map where
  "example_wz keys host path method = (if keys = [] then WzNotFound else WzRule 0 [(cp ''Bucket'', cp ''b'')])"

definition v2_rule :: args_rule where
  "v2_rule = \<lparr>ar_endpoint = example_op ''ListObjectsV2'' ''/{Bucket}?list-type=2'', ar_query_args = [(cp ''list-type'', [cp ''2''])],
     ar_header_args = [], ar_score = 20\<rparr>"

theorem required_values_used_up_witness:
  "\<not> fst (rule_matches v2_rule (example_query ''1''))
   \<and> fst (rule_matches (snd (rule_matches v2_rule (example_query ''2''))) (example_query ''1''))"
proof -
  have m: "rule_matches v2_rule (example_query ''2'') = (True, v2_rule\<lparr>ar_query_args := [(cp ''list-type'', [])]\<rparr>)"
    by (simp add: rule_matches_def v2_rule_def example_query_def)
  have "\<not> fst (rule_matches v2_rule (example_query ''1''))"
    by (simp add: rule_matches_def v2_rule_def example_query_def)
  moreover have "fst (rule_matches (v2_rule\<lparr>ar_query_args := [(cp ''list-type'', [])]\<rparr>) (example_query ''1''))"
    using required_values_used_up [OF m, of "example_query ''1''"] by (simp add: v2_rule_def example_query_def)
  ultimately show ?thesis by (simp add: m)
qed

definition v1_rule :: args_rule where
  "v1_rule = \<lparr>ar_endpoint = example_op ''ListObjects'' ''/{Bucket}'', ar_query_args = [], ar_header_args = [], ar_score = 10\<rparr>"

lemma example_parse: "parse_qs (cp ''list-type=2'') = [(cp ''list-type'', [cp ''2''])]"
  by (simp add: parse_qs_def qs_pair_def split_once_def plus_to_space_def utf8_first_def Let_def byte_def)

lemma example_map: "create_service_map example_ops = Inr [MatchingRule (cp ''/<Bucket>'') (cp ''GET'') [v2_rule, v1_rule]]"
proof -
  have split: "split_on 63 (cp ''/{Bucket}'') = [cp ''/{Bucket}'']"
      "split_on 63 (cp ''/{Bucket}?list-type=2'') = [cp ''/{Bucket}'', cp ''list-type=2'']"
    by simp_all
  have two: "cp ''2'' \<noteq> []"
    by simp
  have f: "map_r from_operation example_ops = Inr [
      \<lparr>ho_operation = example_op ''ListObjects'' ''/{Bucket}'', ho_path = cp ''/{Bucket}'', ho_method = cp ''GET'',
       ho_query_args = [], ho_header_args = [], ho_deprecated = False\<rparr>,
      \<lparr>ho_operation = example_op ''ListObjectsV2'' ''/{Bucket}?list-type=2'', ho_path = cp ''/{Bucket}'', ho_method = cp ''GET'',
       ho_query_args = [(cp ''list-type'', [cp ''2''])], ho_header_args = [], ho_deprecated = False\<rparr>]"
    by (simp add: example_ops_def example_op_def from_operation_def operation_uri_def split example_parse input_args_def two del: cp_simps)
  have param: "param_at (cp ''Bucket}'') = Some (cp ''Bucket'')"
    unfolding param_at_def by (simp add: Let_def)
  have "rule_string (123 # cp ''Bucket}'') = transform_path_params_to_rule_vars (cp ''Bucket'') @ rule_string []"
    by (subst rule_string.simps, simp only: param if_True refl) simp
  also have "\<dots> = cp ''<Bucket>''"
    by (simp add: transform_path_params_to_rule_vars_def rule_var_def)
  finally have "rule_string (123 # cp ''Bucket}'') = cp ''<Bucket>''" .
  then have r: "rule_string (cp ''/{Bucket}'') = cp ''/<Bucket>''"
    by simp
  have u: "upper (cp ''GET'') = cp ''GET''"
    by (simp add: upper_def)
  show ?thesis
    by (simp add: create_service_map_def f path_index_def Let_def r u matching_rules_def args_rule_of_def
        v1_rule_def v2_rule_def del: cp_simps)
qed

theorem router_keeps_operations_witness:
  "mset (concat (map rule_operations (serve example_wz [MatchingRule (cp ''/<Bucket>'') (cp ''GET'') [v2_rule, v1_rule]]
      [(cp ''h'', cp ''/b'', example_query ''2'')]))) = mset example_ops"
proof -
  have "answers_rules example_wz"
    by (simp add: answers_rules_def example_wz_def)
  from router_keeps_operations [OF example_map this] show ?thesis by blast
qed

theorem best_rule_answers_witness:
  "\<exists>r'. fst (match_request [v2_rule, v1_rule] (example_query ''2'')) = Some r' \<and> ar_score v1_rule \<le> ar_score r'"
proof -
  have "answers_rules example_wz"
    by (simp add: answers_rules_def example_wz_def)
  from best_rule_answers [OF example_map this, of "cp ''/<Bucket>''" "cp ''GET''" "[v2_rule, v1_rule]" "[]" "example_query ''2''"]
  have b: "case match_request [v2_rule, v1_rule] (example_query ''2'') of
           (Some r', rs') \<Rightarrow> (\<exists>r \<in> set [v2_rule, v1_rule]. rule_matches r (example_query ''2'') = (True, r'))
              \<and> (\<forall>r \<in> set [v2_rule, v1_rule]. fst (rule_matches r (example_query ''2'')) \<longrightarrow> ar_score r \<le> ar_score r')
         | (None, rs') \<Rightarrow> (\<forall>r \<in> set [v2_rule, v1_rule]. \<not> fst (rule_matches r (example_query ''2'')))"
    by simp
  have "fst (rule_matches v1_rule (example_query ''2''))"
    by (simp add: rule_matches_def v1_rule_def)
  with b show ?thesis by (auto split: prod.splits option.splits)
qed

end
