(* ===== verification/RestParser.thy ===== *)
theory RestParser
  imports QueryParser OpRouter
begin

text \<open>
  The request parsers of the REST protocols in \<open>aws/protocol/parser.py\<close>: \<open>BaseRestRequestParser\<close>,
  \<open>RestJSONRequestParser\<close>, \<open>RestXMLRequestParser\<close> and \<open>S3RequestParser\<close>, and \<open>create_parser\<close>, which
  chooses among all parsers. The text of a body is read by the XML and JSON parsers of the standard
  library, which are arguments; everything the classes do with the tree they get is modelled.
\<close>

subsection \<open>Elements\<close>

text \<open>\<open>_text_content\<close>: a scalar handler sees the text of an element, other nodes unchanged.\<close>

definition text_content :: "pyval \<Rightarrow> pyval" where
  "text_content v =
     (case v of
        PElem x \<Rightarrow> PStr (case xml_text x of None \<Rightarrow> [] | Some t \<Rightarrow> t)
      | _ \<Rightarrow> v)"

text \<open>\<open>_namespace_re.sub(replacement, s)\<close> for the greedy pattern \<open>{.*}\<close>, which stays within a line.\<close>

definition after_brace :: "ustr \<Rightarrow> ustr option" where
  "after_brace s =
     (let line = takeWhile (\<lambda>c. c \<noteq> 10) s
      in if 125 \<in> set line then Some (snd (snd (rpartition 125 line)) @ drop (length line) s) else None)"

lemma after_brace_length: "after_brace s = Some t \<Longrightarrow> length t \<le> length s"
proof -
  assume a: "after_brace s = Some t"
  define line where "line = takeWhile (\<lambda>c. c \<noteq> 10) s"
  have "length line + length (drop (length line) s) = length s"
    using length_takeWhile_le [of "\<lambda>c. c \<noteq> 10" s] by (simp add: line_def)
  moreover have "length (takeWhile (\<lambda>c. c \<noteq> 125) (rev line)) \<le> length line"
    using length_takeWhile_le [of "\<lambda>c. c \<noteq> 125" "rev line"] by simp
  ultimately show ?thesis
    using a by (auto simp: after_brace_def rpartition_def Let_def line_def [symmetric] split: if_splits)
qed

function sub_namespace :: "ustr \<Rightarrow> ustr \<Rightarrow> ustr" where
  "sub_namespace repl [] = []"
| "sub_namespace repl (c # s) =
     (case (if c = 123 then after_brace s else None) of
        Some t \<Rightarrow> repl @ sub_namespace repl t
      | None \<Rightarrow> c # sub_namespace repl s)"
  by pat_completeness auto
termination sub_namespace
  by (relation "measure (length \<circ> snd)") (auto dest: after_brace_length split: if_splits)

definition node_tag :: "pyval \<Rightarrow> ustr result" where
  "node_tag v = (case v of PElem x \<Rightarrow> Inr (sub_namespace [] (xml_tag x)) | _ \<Rightarrow> Inl AttributeError)"

text \<open>\<open>_build_name_to_xml_node\<close>: elements by tag, repeated ones collected in a list.\<close>

definition add_xml_node :: "ustr \<Rightarrow> pyval \<Rightarrow> (ustr, pyval) dict \<Rightarrow> (ustr, pyval) dict" where
  "add_xml_node key item d =
     dict_set key (case dict_get d key of
        None \<Rightarrow> item
      | Some (PList vs) \<Rightarrow> PList (vs @ [item])
      | Some v \<Rightarrow> PList [v, item]) d"

fun name_to_xml_nodes :: "pyval list \<Rightarrow> (ustr, pyval) dict \<Rightarrow> (ustr, pyval) dict result" where
  "name_to_xml_nodes [] d = Inr d"
| "name_to_xml_nodes (item # items) d = bind_r (node_tag item) (\<lambda>key. name_to_xml_nodes items (add_xml_node key item d))"

fun build_name_to_xml_node :: "pyval \<Rightarrow> (ustr, pyval) dict result" where
  "build_name_to_xml_node (PList []) = Inl IndexError"
| "build_name_to_xml_node (PList (v # vs)) = build_name_to_xml_node v"
| "build_name_to_xml_node v = bind_r (py_iter v) (\<lambda>items. name_to_xml_nodes items [])"

subsection \<open>Structures, lists and maps in XML\<close>

definition xml_member_key_name :: "shape \<Rightarrow> ustr \<Rightarrow> ustr" where
  "xml_member_key_name sh n =
     (case sh of
        ListShape i m \<Rightarrow>
          (case if ser_flattened i then ser_name (shape_info_of m) else None of
             Some x \<Rightarrow> x
           | None \<Rightarrow> serialized_name sh n)
      | _ \<Rightarrow> serialized_name sh n)"

text \<open>\<open>{new_key: value}\<close> over the attributes, the namespace of a name replaced by the prefix of the location name.\<close>

definition xml_attributes :: "ustr \<Rightarrow> pyval \<Rightarrow> (ustr, ustr) dict result" where
  "xml_attributes location_name node =
     (case node of
        PElem x \<Rightarrow> Inr (fold (\<lambda>(k, v). dict_set (sub_namespace (hd (split_on 58 location_name) @ [58]) k) v) (xml_attrib x) [])
      | _ \<Rightarrow> Inl AttributeError)"

definition xml_member ::
    "shape_parser \<Rightarrow> ustr list \<Rightarrow> (ustr, pyval) dict \<Rightarrow> pyval \<Rightarrow> ustr \<Rightarrow> shape \<Rightarrow> pyval option result" where
  "xml_member rec required nodes node n sh =
     (let i = shape_info_of sh; member_node = dict_get nodes (xml_member_key_name sh n)
      in if member_node \<noteq> None \<or> ser_location i \<noteq> None \<or> ser_eventheader i
         then map_sum id Some (rec sh (case member_node of None \<Rightarrow> PNone | Some v \<Rightarrow> v))
         else if ser_xml_attribute i
         then bind_r (case ser_name i of None \<Rightarrow> Inl KeyError | Some l \<Rightarrow> Inr l) (\<lambda>l.
              bind_r (xml_attributes l node) (\<lambda>attributes. Inr (map_option PStr (dict_get attributes l))))
         else Inr (if n \<in> set required then Some PNone else None))"

fun xml_members ::
    "shape_parser \<Rightarrow> ustr list \<Rightarrow> (ustr, pyval) dict \<Rightarrow> pyval \<Rightarrow> (ustr \<times> shape) list \<Rightarrow> (ustr \<times> pyval) list \<Rightarrow> (ustr \<times> pyval) list result" where
  "xml_members rec required nodes node [] acc = Inr acc"
| "xml_members rec required nodes node ((n, sh) # ms) acc =
     bind_r (xml_member rec required nodes node n sh) (\<lambda>v.
       xml_members rec required nodes node ms (case v of None \<Rightarrow> acc | Some x \<Rightarrow> dict_set n x acc))"

definition xml_structure :: "shape_parser \<Rightarrow> shape_info \<Rightarrow> (ustr \<times> shape) list \<Rightarrow> pyval \<Rightarrow> pyval result" where
  "xml_structure rec i ms node =
     bind_r (build_name_to_xml_node node) (\<lambda>nodes.
       map_sum id str_dict (xml_members rec (required_members i) nodes node ms []))"

text \<open>A flattened list or map may be a single element.\<close>

fun is_py_list :: "pyval \<Rightarrow> bool" where
  "is_py_list (PList vs) = True"
| "is_py_list v = False"

definition as_flattened :: "shape_info \<Rightarrow> pyval \<Rightarrow> pyval" where
  "as_flattened i node = (if ser_flattened i \<and> \<not> is_py_list node then PList [node] else node)"

definition xml_list :: "shape_parser \<Rightarrow> shape_info \<Rightarrow> shape \<Rightarrow> pyval \<Rightarrow> pyval result" where
  "xml_list rec i member node = parse_list rec member (as_flattened i node)"

fun xml_pair :: "shape_parser \<Rightarrow> shape \<Rightarrow> shape \<Rightarrow> pyval list \<Rightarrow> pyval \<times> pyval \<Rightarrow> (pyval \<times> pyval) result" where
  "xml_pair rec key val [] kv = Inr kv"
| "xml_pair rec key val (p # ps) (k, v) =
     bind_r (node_tag p) (\<lambda>tag.
       if tag = serialized_name key (cp ''key'') then bind_r (rec key p) (\<lambda>k'. xml_pair rec key val ps (k', v))
       else if tag = serialized_name val (cp ''value'') then bind_r (rec val p) (\<lambda>v'. xml_pair rec key val ps (k, v'))
       else Inl ProtocolParserError)"

fun xml_entries :: "shape_parser \<Rightarrow> shape \<Rightarrow> shape \<Rightarrow> pyval list \<Rightarrow> (pyval \<times> pyval) list \<Rightarrow> (pyval \<times> pyval) list result" where
  "xml_entries rec key val [] acc = Inr acc"
| "xml_entries rec key val (e # es) acc =
     bind_r (py_iter e) (\<lambda>ps. bind_r (xml_pair rec key val ps (PNone, PNone)) (\<lambda>(k, v).
     bind_r (pdict_store k v acc) (\<lambda>acc'. xml_entries rec key val es acc')))"

definition xml_map :: "shape_parser \<Rightarrow> shape_info \<Rightarrow> shape \<Rightarrow> shape \<Rightarrow> pyval \<Rightarrow> pyval result" where
  "xml_map rec i key val node =
     bind_r (py_iter (as_flattened i node)) (\<lambda>es. map_sum id PDict (xml_entries rec key val es []))"

subsection \<open>Shapes\<close>

text \<open>
  Only \<open>_parse_integer\<close> is overridden for S3; the handler for longs is the one the base class was
  created with.
\<close>

datatype rest_class = RestJson | RestXml | S3

definition xml_scalar :: "rest_class \<Rightarrow> time_parsers \<Rightarrow> shape_info \<Rightarrow> scalar \<Rightarrow> pyval \<Rightarrow> pyval result" where
  "xml_scalar cls tp i t node =
     (let v = text_content node
      in if cls = S3 \<and> t = TInteger \<and> v = PStr [] \<and> ser_location i = Some (cp ''querystring'') then Inr PNone
         else query_scalar tp i t v)"

definition xml_node :: "rest_class \<Rightarrow> time_parsers \<Rightarrow> shape_parser \<Rightarrow> shape \<Rightarrow> pyval \<Rightarrow> pyval result" where
  "xml_node cls tp rec sh v =
     (case sh of
        Structure i ms \<Rightarrow> xml_structure rec i ms v
      | ListShape i m \<Rightarrow> xml_list rec i m v
      | MapShape i k x \<Rightarrow> xml_map rec i k x v
      | ScalarShape i t \<Rightarrow> xml_scalar cls tp i t v)"

text \<open>
  \<open>path.rpartition(key)[2]\<close>: the text after the last occurrence, the whole text when there is none.
\<close>

fun after_last :: "'a list \<Rightarrow> 'a list \<Rightarrow> 'a list option" where
  "after_last p [] = (if p = [] then Some [] else None)"
| "after_last p (c # s) =
     (case after_last p s of
        Some t \<Rightarrow> Some t
      | None \<Rightarrow> if starts_with p (c # s) then Some (drop (length p) (c # s)) else None)"

definition rpartition_tail :: "ustr \<Rightarrow> ustr \<Rightarrow> ustr result" where
  "rpartition_tail sep s =
     (if sep = [] then Inl ValueError else Inr (case after_last sep s of None \<Rightarrow> s | Some t \<Rightarrow> t))"

text \<open>\<open>S3RequestParser._parse_shape\<close>: the slashes the URL matcher removed are put back at the end of the key.\<close>

definition s3_uri_params :: "request \<Rightarrow> uri_params \<Rightarrow> shape \<Rightarrow> uri_params result" where
  "s3_uri_params rq uri sh =
     (if ser_location (shape_info_of sh) = Some (cp ''uri'') \<and> ser_name (shape_info_of sh) = Some (cp ''Key'')
      then (case map_of uri (cp ''Key'') of
              None \<Rightarrow> Inl KeyError
            | Some key \<Rightarrow> bind_r (rpartition_tail key (rq_path rq)) (\<lambda>slashes.
                Inr (if slashes \<noteq> [] \<and> list_all (\<lambda>c. c = 47) slashes then dict_set (cp ''Key'') (key @ slashes) uri else uri)))
      else Inr uri)"

fun xml_shape :: "rest_class \<Rightarrow> time_parsers \<Rightarrow> request \<Rightarrow> nat \<Rightarrow> uri_params \<Rightarrow> shape \<Rightarrow> pyval \<Rightarrow> pyval result" where
  "xml_shape cls tp rq 0 uri sh node = Inl RecursionError"
| "xml_shape cls tp rq (Suc limit) uri sh node =
     bind_r (if cls = S3 then s3_uri_params rq uri sh else Inr uri) (\<lambda>uri'.
       if ser_location (shape_info_of sh) = Some (cp ''headers'') then Inr (parse_header_map sh rq)
       else bind_r (shape_payload rq uri' sh node) (\<lambda>payload.
         if payload = PNone then Inr PNone
         else convert_type_errors (xml_node cls tp (xml_shape cls tp rq limit uri') sh payload)))"

declare xml_shape.simps(2) [simp del]

definition rest_shape :: "rest_class \<Rightarrow> time_parsers \<Rightarrow> request \<Rightarrow> nat \<Rightarrow> uri_params \<Rightarrow> shape \<Rightarrow> pyval \<Rightarrow> pyval result" where
  "rest_shape cls tp rq limit uri sh node =
     (if cls = RestJson then parse_shape JsonParser tp rq uri limit sh node else xml_shape cls tp rq limit uri sh node)"

subsection \<open>Bodies and requests\<close>

text \<open>What the parsers need from the body: the third-party decoders, the XML parser and the declared length.\<close>

record rest_body = body_decoders +
  rb_xml :: "bytes \<Rightarrow> xml option"
  rb_content_length :: "int option"

definition rest_initial_body :: "rest_class \<Rightarrow> rest_body \<Rightarrow> request \<Rightarrow> pyval result" where
  "rest_initial_body cls b rq =
     (if cls = RestJson then parse_body_as_json (body_decoders.truncate b) rq
      else if rq_data rq = [] then Inr (PElem (Element [] [] None []))
      else (case rb_xml b (rq_data rq) of None \<Rightarrow> Inl ProtocolParserError | Some x \<Rightarrow> Inr (PElem x)))"

fun scalar_type :: "shape \<Rightarrow> scalar option" where
  "scalar_type (ScalarShape i t) = Some t"
| "scalar_type sh = None"

definition payload_member ::
    "rest_class \<Rightarrow> time_parsers \<Rightarrow> rest_body \<Rightarrow> nat \<Rightarrow> request \<Rightarrow> uri_params \<Rightarrow> shape \<Rightarrow> pyval option result" where
  "payload_member cls tp b limit rq uri sh =
     (if ser_eventstream (shape_info_of sh) then Inl NotImplementedError
      else if scalar_type sh = Some TString
      then (if rq_data rq = [] then Inr None else map_sum id (Some \<circ> PStr) (utf8_decode (rq_data rq)))
      else if scalar_type sh = Some TBlob
      then Inr (if rb_content_length b \<noteq> Some 0 then Some (PStream (rq_data rq)) else None)
      else bind_r (rest_initial_body cls b rq) (\<lambda>body. map_sum id Some (rest_shape cls tp rq limit uri sh body)))"

definition body_or_ignored :: "rest_class \<Rightarrow> request \<Rightarrow> pyval result \<Rightarrow> pyval result" where
  "body_or_ignored cls rq r =
     (case r of
        Inr v \<Rightarrow> Inr v
      | Inl e \<Rightarrow>
          if e \<in> {ProtocolParserError, OperationNotFoundParserError} \<and> rq_method rq \<in> {''GET'', ''HEAD''} \<and> cls \<noteq> RestJson
          then Inr (PDict []) else Inl e)"

definition rest_parse_payload ::
    "rest_class \<Rightarrow> time_parsers \<Rightarrow> rest_body \<Rightarrow> nat \<Rightarrow> request \<Rightarrow> uri_params \<Rightarrow> shape \<Rightarrow> (pyval \<times> pyval) list result" where
  "rest_parse_payload cls tp b limit rq uri sh =
     bind_r (case ser_payload (shape_info_of sh) of
               Some n \<Rightarrow>
                 (case (case sh of Structure i ms \<Rightarrow> map_of ms n | _ \<Rightarrow> None) of
                    None \<Rightarrow> Inl KeyError
                  | Some body_shape \<Rightarrow>
                      bind_r (payload_member cls tp b limit rq uri body_shape) (\<lambda>v.
                        Inr (case v of None \<Rightarrow> [] | Some x \<Rightarrow> [(PStr n, x)], PDict [])))
             | None \<Rightarrow> bind_r (body_or_ignored cls rq (rest_initial_body cls b rq)) (\<lambda>v. Inr ([], v)))
       (\<lambda>(payload_parsed, node).
     bind_r (rest_shape cls tp rq limit uri sh node) (\<lambda>v.
     bind_r (pdict_update [] v) (\<lambda>final. pdict_update final (PDict payload_parsed))))"

text \<open>\<open>parse\<close>: the router may change the state of its rules.\<close>

definition rest_parse ::
    "rest_class \<Rightarrow> time_parsers \<Rightarrow> rest_body \<Rightarrow> nat \<Rightarrow> werkzeug_map \<Rightarrow> op_rule list \<Rightarrow> ustr \<Rightarrow> ustr \<Rightarrow> request
     \<Rightarrow> (rest_operation \<times> pyval) result \<times> op_rule list" where
  "rest_parse cls tp b limit wz rules host raw_path rq =
     (case router_match wz rules host raw_path rq of
        (r, rules') \<Rightarrow>
          (handle_exceptions (
             bind_r (case r of Inl e \<Rightarrow> if e = NotFound then Inl OperationNotFoundParserError else Inl e | Inr x \<Rightarrow> Inr x)
               (\<lambda>(op, uri). case op_input_shape op of
                   None \<Rightarrow> Inr (op, PDict [])
                 | Some sh \<Rightarrow> map_sum id (\<lambda>d. (op, PDict d)) (rest_parse_payload cls tp b limit rq uri sh))), rules'))"

subsection \<open>Virtual host addressing of S3\<close>

text \<open>
  The rewriting context around \<open>S3RequestParser.parse\<close>. In this repository the test for a virtual host
  finds no bucket, so the request is parsed as it is; the rewriting itself is modelled for any bucket.
\<close>

record addressing =
  ad_path :: ustr
  ad_host :: ustr
  ad_raw_uri :: "ustr option"

definition is_vhost_address_get_bucket :: "addressing \<Rightarrow> ustr option" where
  "is_vhost_address_get_bucket a = None"

definition set_request_props :: "ustr \<Rightarrow> ustr \<Rightarrow> ustr option \<Rightarrow> addressing \<Rightarrow> addressing" where
  "set_request_props path host raw_uri a =
     a\<lparr>ad_path := path, ad_host := host,
       ad_raw_uri := (case raw_uri of Some u \<Rightarrow> if u = [] then ad_raw_uri a else Some u | None \<Rightarrow> ad_raw_uri a)\<rparr>"

definition remove_prefix :: "ustr \<Rightarrow> ustr \<Rightarrow> ustr" where
  "remove_prefix p s = (if starts_with p s then drop (length p) s else s)"

definition vhost_enter :: "ustr \<Rightarrow> ustr \<Rightarrow> addressing \<Rightarrow> addressing" where
  "vhost_enter bucket query_string a =
     set_request_props (47 # bucket @ ad_path a) (remove_prefix (bucket @ [46]) (ad_host a))
       (case ad_raw_uri a of
          Some u \<Rightarrow> if u = [] then None else Some (47 # bucket @ u @ (if query_string = [] then [] else 63 # query_string))
        | None \<Rightarrow> None) a"

definition vhost_exit :: "addressing \<Rightarrow> addressing \<Rightarrow> addressing" where
  "vhost_exit old a =
     (if ad_host old \<noteq> [] \<or> ad_path old \<noteq> [] then set_request_props (ad_path old) (ad_host old) (ad_raw_uri old) a else a)"

subsection \<open>Choosing a parser\<close>

datatype request_parser =
    S3RequestParser | SQSQueryRequestParser | QueryRequestParser | JSONRequestParser | RestJSONRequestParser
  | RestXMLRequestParser | EC2RequestParser | RpcV2CBORRequestParser

definition service_specific_parsers :: "(string \<times> (string \<times> request_parser) list) list" where
  "service_specific_parsers = [(''s3'', [(''rest-xml'', S3RequestParser)]), (''sqs'', [(''query'', SQSQueryRequestParser)])]"

definition protocol_specific_parsers :: "(string \<times> request_parser) list" where
  "protocol_specific_parsers =
     [(''query'', QueryRequestParser), (''json'', JSONRequestParser), (''rest-json'', RestJSONRequestParser),
      (''rest-xml'', RestXMLRequestParser), (''ec2'', EC2RequestParser), (''smithy-rpc-v2-cbor'', RpcV2CBORRequestParser)]"

definition create_parser :: "string \<Rightarrow> string \<Rightarrow> string option \<Rightarrow> request_parser result" where
  "create_parser service_name service_protocol protocol =
     (let p = (case protocol of Some x \<Rightarrow> if x = [] then service_protocol else x | None \<Rightarrow> service_protocol);
          specific = (case map_of service_specific_parsers service_name of None \<Rightarrow> None | Some ps \<Rightarrow> map_of ps p)
      in case specific of
           Some c \<Rightarrow> Inr c
         | None \<Rightarrow> (case map_of protocol_specific_parsers p of None \<Rightarrow> Inl KeyError | Some c \<Rightarrow> Inr c))"

end
