(* ===== verification/Dispatch.thy ===== *)
theory Dispatch
  imports Responses RpcV2Cbor RestParser
begin

text \<open>
  From a parsed request to the provider and back: \<open>aws/skeleton.py\<close> (dispatch tables, the dispatcher,
  \<open>Skeleton.invoke\<close>) and the handlers of \<open>aws/handlers/service.py\<close> that route requests and turn
  exceptions into responses. The functions of a provider act on a world of their own and end in one of
  the ways the code tells apart. The first property follows an RPC v2 call from the client's bytes to the
  provider and back; the second says what the skeleton answers to.
\<close>

subsection \<open>Calls\<close>

text \<open>How a provider function ends; a NotImplementedError carries its first argument, if it has one.\<close>

datatype service_outcome =
    Returned pyval
  | ReturnedResponse http_response
  | RaisedService service_exception
  | RaisedNotImplemented "ustr option"
  | RaisedOther exn

text \<open>The context of a request as the skeleton and the handlers see it.\<close>

record api_context =
  ac_service :: "ustr option"
  ac_protocol :: "string option"
  ac_operation :: "operation option"
  ac_service_request :: "pyval option"
  ac_service_response :: "pyval option"
  ac_service_exception :: "service_exception option"
  ac_request :: request
  ac_request_id :: ustr

datatype call_arg = ContextArg api_context | ValueArg pyval

type_synonym 'w provider_fn = "call_arg list \<Rightarrow> (ustr \<times> call_arg) list \<Rightarrow> 'w \<Rightarrow> service_outcome \<times> 'w"

record 'w dispatcher =
  sd_fn :: "'w provider_fn"
  sd_operation :: ustr
  sd_pass_context :: bool
  sd_expand_parameters :: bool

text \<open>\<open>ServiceRequestDispatcher.__call__\<close>; \<open>xform\<close> is botocore's \<open>xform_name\<close>, which wants text.\<close>

fun keyword_arguments :: "(ustr \<Rightarrow> ustr) \<Rightarrow> (pyval \<times> pyval) list \<Rightarrow> (ustr \<times> call_arg) list \<Rightarrow> (ustr \<times> call_arg) list result" where
  "keyword_arguments xform [] acc = Inr acc"
| "keyword_arguments xform ((PStr k, v) # kvs) acc = keyword_arguments xform kvs (dict_set (xform k) (ValueArg v) acc)"
| "keyword_arguments xform ((k, v) # kvs) acc = Inl TypeError"

definition dispatch_call :: "(ustr \<Rightarrow> ustr) \<Rightarrow> 'w dispatcher \<Rightarrow> api_context \<Rightarrow> pyval \<Rightarrow> 'w \<Rightarrow> service_outcome \<times> 'w" where
  "dispatch_call xform d ctx instance w =
     (if \<not> sd_expand_parameters d
      then sd_fn d ((if sd_pass_context d then [ContextArg ctx] else []) @ [ValueArg instance]) [] w
      else case (if instance = PNone then Inr [] else bind_r (py_items instance) (\<lambda>kvs. keyword_arguments xform kvs [])) of
             Inl e \<Rightarrow> (RaisedOther e, w)
           | Inr kwargs \<Rightarrow> sd_fn d [] (dict_set (cp ''context'') (ContextArg ctx) kwargs) w)"

subsection \<open>Dispatch tables\<close>

text \<open>
  A function of a class with its name and, when it is decorated with \<open>@handler\<close>, the operation and the
  two flags. A delegate is the list of its classes, the most general first and without \<open>object\<close>, each
  with the functions \<open>inspect.getmembers\<close> lists, and the attribute lookup of the object.
\<close>

record member_fn =
  mf_name :: string
  mf_marker :: "(ustr \<times> bool \<times> bool) option"

record 'w delegate =
  dg_classes :: "member_fn list list"
  dg_attribute :: "string \<Rightarrow> 'w provider_fn option"

record handler_attributes =
  ha_function_name :: string
  ha_operation :: ustr
  ha_pass_context :: bool
  ha_expand_parameters :: bool

definition collect_handler :: "member_fn \<Rightarrow> (ustr, handler_attributes) dict \<Rightarrow> (ustr, handler_attributes) dict" where
  "collect_handler f handlers =
     (case mf_marker f of
        None \<Rightarrow> handlers
      | Some (operation, pass, expand) \<Rightarrow>
          dict_set operation \<lparr>ha_function_name = mf_name f, ha_operation = operation, ha_pass_context = pass, ha_expand_parameters = expand\<rparr> handlers)"

type_synonym 'w dispatch_table = "(ustr, 'w dispatcher) dict"

fun bind_handlers :: "(string \<Rightarrow> 'w provider_fn option) \<Rightarrow> handler_attributes list \<Rightarrow> 'w dispatch_table \<Rightarrow> 'w dispatch_table result" where
  "bind_handlers attribute [] table = Inr table"
| "bind_handlers attribute (h # hs) table =
     (case attribute (ha_function_name h) of
        None \<Rightarrow> Inl AttributeError
      | Some f \<Rightarrow> bind_handlers attribute hs
          (dict_set (ha_operation h) \<lparr>sd_fn = f, sd_operation = ha_operation h, sd_pass_context = ha_pass_context h,
             sd_expand_parameters = ha_expand_parameters h\<rparr> table))"

definition create_dispatch_table :: "'w delegate \<Rightarrow> 'w dispatch_table result" where
  "create_dispatch_table d =
     bind_handlers (dg_attribute d) (dict_values (fold collect_handler (concat (dg_classes d)) [])) []"

subsection \<open>The skeleton\<close>

record 'w skeleton =
  sk_service :: ustr
  sk_table :: "'w dispatch_table"

text \<open>
  The parser and the serializer the skeleton creates for the service and protocol of the context, and
  \<open>xform_name\<close>.
\<close>

record skeleton_env =
  ke_parse :: "api_context \<Rightarrow> (operation \<times> pyval) result"
  ke_serialize :: "api_context \<Rightarrow> operation \<Rightarrow> pyval \<Rightarrow> http_response result"
  ke_serialize_error :: "api_context \<Rightarrow> operation \<Rightarrow> service_exception \<Rightarrow> http_response result"
  ke_xform :: "ustr \<Rightarrow> ustr"

definition common_service_exception :: "string \<Rightarrow> ustr \<Rightarrow> int \<Rightarrow> service_exception" where
  "common_service_exception code message status =
     \<lparr>se_code = cp code, se_status_code = status, se_sender_fault = False, se_text = message,
      se_class = cp ''CommonServiceException'', se_vars = []\<rparr>"

definition service_availability_exception :: "ustr \<Rightarrow> ustr option \<Rightarrow> service_exception" where
  "service_availability_exception service operation =
     (common_service_exception ''InternalFailure''
        (case operation of
           None \<Rightarrow> cp ''Sorry, the '' @ service @ cp '' service is not currently supported by LocalStack.''
         | Some op \<Rightarrow> cp ''Sorry, the '' @ op @ cp '' operation on the '' @ service
                        @ cp '' service is not currently supported by LocalStack.'') 501)
     \<lparr>se_class := cp ''ServiceOrOperationNotSupportedException''\<rparr>"

definition on_service_exception :: "skeleton_env \<Rightarrow> api_context \<Rightarrow> operation \<Rightarrow> service_exception \<Rightarrow> http_response result \<times> api_context" where
  "on_service_exception env ctx op e =
     (let ctx' = ctx\<lparr>ac_service_exception := Some e\<rparr> in (ke_serialize_error env ctx' op e, ctx'))"

text \<open>\<open>service_name\<close> is the name of the service of the operation.\<close>

definition on_not_implemented_error ::
    "skeleton_env \<Rightarrow> ustr \<Rightarrow> api_context \<Rightarrow> operation \<Rightarrow> ustr option \<Rightarrow> http_response result \<times> api_context" where
  "on_not_implemented_error env service_name ctx op argument =
     (let error = (case argument of
                     Some message \<Rightarrow> common_service_exception ''InternalFailure'' message 501
                   | None \<Rightarrow> service_availability_exception service_name (Some (op_name op)));
          ctx' = ctx\<lparr>ac_service_exception := Some error\<rparr>
      in (ke_serialize_error env ctx' op error, ctx'))"

definition skeleton_request :: "skeleton_env \<Rightarrow> api_context \<Rightarrow> ((operation \<times> pyval) \<times> api_context) result" where
  "skeleton_request env ctx =
     (case (ac_operation ctx, ac_service_request ctx) of
        (Some op, Some v) \<Rightarrow>
          if truthy v then Inr ((op, v), ctx)
          else map_sum id (\<lambda>r. (r, ctx\<lparr>ac_operation := Some (fst r)\<rparr>)) (ke_parse env ctx)
      | _ \<Rightarrow> map_sum id (\<lambda>r. (r, ctx\<lparr>ac_operation := Some (fst r)\<rparr>)) (ke_parse env ctx))"

text \<open>
  What \<open>dispatch_request\<close> and the two handlers of exceptions make of an outcome: an empty result becomes
  an empty dictionary, a response is passed on, other exceptions propagate.
\<close>

definition answer_outcome ::
    "skeleton_env \<Rightarrow> ustr \<Rightarrow> api_context \<Rightarrow> operation \<Rightarrow> service_outcome \<Rightarrow> http_response result \<times> api_context" where
  "answer_outcome env service_name ctx op outcome =
     (case outcome of
        Returned v \<Rightarrow>
          let result = (if truthy v then v else PDict []); ctx' = ctx\<lparr>ac_service_response := Some result\<rparr>
          in (ke_serialize env ctx' op result, ctx')
      | ReturnedResponse r \<Rightarrow> (Inr r, ctx)
      | RaisedService e \<Rightarrow> on_service_exception env ctx op e
      | RaisedNotImplemented a \<Rightarrow> on_not_implemented_error env service_name ctx op a
      | RaisedOther e \<Rightarrow> (Inl e, ctx))"

definition skeleton_invoke ::
    "skeleton_env \<Rightarrow> ustr \<Rightarrow> 'w skeleton \<Rightarrow> api_context \<Rightarrow> 'w \<Rightarrow> http_response result \<times> api_context \<times> 'w" where
  "skeleton_invoke env service_name sk ctx0 w0 =
     (case skeleton_request env ctx0 of
        Inl e \<Rightarrow> (Inl e, ctx0, w0)
      | Inr ((op, instance), ctx) \<Rightarrow>
          let (outcome, w) = (case dict_get (sk_table sk) (op_name op) of
                                None \<Rightarrow> (RaisedNotImplemented None, w0)
                              | Some d \<Rightarrow> dispatch_call (ke_xform env) d ctx instance w0);
              (response, ctx') = answer_outcome env service_name ctx op outcome
          in (response, ctx', w))"

subsection \<open>Handlers\<close>

text \<open>
  The handlers of \<open>aws/handlers/service.py\<close>. A handler returns the context, what it does to the chain
  and, when it replaces the content of the response, that response. The routes of the router are the
  skeletons their handlers invoke.
\<close>

datatype chain_effect = Proceed | StopChain

type_synonym 'w routes = "(ustr \<times> ustr, 'w skeleton) dict"

definition is_set :: "'a list option \<Rightarrow> bool" where
  "is_set v = (case v of None \<Rightarrow> False | Some s \<Rightarrow> s \<noteq> [])"

definition service_name_parser ::
    "(request \<Rightarrow> ustr option result) \<Rightarrow> (request \<Rightarrow> ustr \<Rightarrow> string option) \<Rightarrow> api_context \<Rightarrow> api_context result" where
  "service_name_parser determine_service determine_protocol ctx =
     (case ac_service ctx of
        Some s \<Rightarrow> Inr (if is_set (ac_protocol ctx) then ctx else ctx\<lparr>ac_protocol := determine_protocol (ac_request ctx) s\<rparr>)
      | None \<Rightarrow>
          bind_r (determine_service (ac_request ctx)) (\<lambda>service. case service of
              None \<Rightarrow> Inr ctx
            | Some s \<Rightarrow> Inr (ctx\<lparr>ac_service := Some s, ac_protocol := determine_protocol (ac_request ctx) s\<rparr>)))"

definition service_request_parser :: "skeleton_env \<Rightarrow> api_context \<Rightarrow> api_context result" where
  "service_request_parser env ctx =
     (if ac_service ctx = None then Inr ctx
      else bind_r (ke_parse env ctx) (\<lambda>(op, instance). Inr (ctx\<lparr>ac_operation := Some op, ac_service_request := Some instance\<rparr>)))"

definition add_handler :: "ustr \<times> ustr \<Rightarrow> 'w skeleton \<Rightarrow> 'w routes \<Rightarrow> 'w routes" where
  "add_handler key sk routes = dict_set key sk routes"

definition add_skeleton :: "'w skeleton \<Rightarrow> 'w routes \<Rightarrow> 'w routes" where
  "add_skeleton sk routes = fold (\<lambda>operation. add_handler (sk_service sk, operation) sk) (dict_keys (sk_table sk)) routes"

definition add_provider :: "ustr \<Rightarrow> 'w delegate \<Rightarrow> 'w routes \<Rightarrow> 'w routes result" where
  "add_provider service provider routes =
     bind_r (create_dispatch_table provider) (\<lambda>table. Inr (add_skeleton \<lparr>sk_service = service, sk_table = table\<rparr> routes))"

definition not_implemented_message :: "ustr \<Rightarrow> ustr \<Rightarrow> ustr" where
  "not_implemented_message service operation =
     cp ''no handler for operation '' @ [39] @ operation @ [39] @ cp '' on service '' @ [39] @ service @ [39]"

definition service_request_router ::
    "skeleton_env \<Rightarrow> 'w routes \<Rightarrow> api_context \<Rightarrow> 'w \<Rightarrow> http_response option result \<times> chain_effect \<times> api_context \<times> 'w" where
  "service_request_router env routes ctx w =
     (case ac_service ctx of
        None \<Rightarrow> (Inr None, Proceed, ctx, w)
      | Some s \<Rightarrow>
          (case ac_operation ctx of
             None \<Rightarrow> (Inl AttributeError, Proceed, ctx, w)
           | Some op \<Rightarrow>
               (case dict_get routes (s, op_name op) of
                  None \<Rightarrow>
                    (map_sum id Some (ke_serialize_error env ctx op
                        (common_service_exception ''InternalFailure'' (not_implemented_message s (op_name op)) 501)), StopChain, ctx, w)
                | Some sk \<Rightarrow>
                    (let (r, ctx', w') = skeleton_invoke env s sk ctx w in (map_sum id Some r, Proceed, ctx', w')))))"

text \<open>
  \<open>ServiceExceptionSerializer\<close>. An exception is a service exception, a NotImplementedError with its first
  argument (\<open>PluginNotIncludedInUserLicenseError\<close> is one of those), or another with its text, with the
  stack trace where the configuration asks for it. \<open>first_operation\<close> is the first operation of the service.
\<close>

datatype raised_exception =
    ServiceRaised service_exception
  | NotImplementedRaised "ustr option" bool
  | OtherRaised ustr

record failure_config =
  fc_handle_internal_failures :: bool
  fc_fail_fast :: bool

definition exception_text :: "raised_exception \<Rightarrow> ustr" where
  "exception_text e =
     (case e of
        ServiceRaised x \<Rightarrow> se_text x
      | NotImplementedRaised a plugin \<Rightarrow> (case a of None \<Rightarrow> [] | Some s \<Rightarrow> s)
      | OtherRaised s \<Rightarrow> s)"

definition exception_to_error ::
    "failure_config \<Rightarrow> ustr \<Rightarrow> operation option \<Rightarrow> raised_exception \<Rightarrow> service_exception option" where
  "exception_to_error cfg service operation e =
     (case (operation, e) of
        (Some op, NotImplementedRaised a plugin) \<Rightarrow>
          Some (if is_set a then common_service_exception ''InternalFailure'' (the a) 501
                else service_availability_exception service (if plugin then None else Some (op_name op)))
      | (_, ServiceRaised x) \<Rightarrow> Some x
      | _ \<Rightarrow>
          if \<not> fc_handle_internal_failures cfg then None
          else Some (common_service_exception ''InternalError''
            (case operation of
               Some op \<Rightarrow> cp ''exception while calling '' @ service @ cp ''.'' @ op_name op @ cp '': '' @ exception_text e
             | None \<Rightarrow> cp ''exception while calling '' @ service @ cp '' with unknown operation: '' @ exception_text e)
            (if fc_fail_fast cfg then 501 else 500)))"

definition service_exception_serializer ::
    "skeleton_env \<Rightarrow> failure_config \<Rightarrow> operation \<Rightarrow> raised_exception \<Rightarrow> api_context \<Rightarrow> http_response option result \<times> api_context" where
  "service_exception_serializer env cfg first_operation e ctx =
     (case ac_service ctx of
        None \<Rightarrow> (Inr None, ctx)
      | Some service \<Rightarrow>
          (case exception_to_error cfg service (ac_operation ctx) e of
             None \<Rightarrow> (Inr None, ctx)
           | Some error \<Rightarrow>
               let ctx' = ctx\<lparr>ac_service_exception := Some error\<rparr>;
                   op = (case ac_operation ctx of None \<Rightarrow> first_operation | Some op \<Rightarrow> op)
               in (map_sum id Some (ke_serialize_error env ctx' op error), ctx')))"

text \<open>
  \<open>ServiceResponseParser\<close>: \<open>parse_response\<close> and \<open>parse_service_exception\<close> wrap botocore's parsers, together
  they yield a response or an exception; \<open>complete\<close> gives an exception without a code the values of its
  shape. \<open>unparsable\<close> says that the response has no length or the operation streams events.
\<close>

definition service_response_parser ::
    "(http_response \<Rightarrow> (pyval + service_exception) result) \<Rightarrow> (service_exception \<Rightarrow> service_exception) \<Rightarrow> bool
     \<Rightarrow> api_context \<Rightarrow> http_response \<Rightarrow> api_context result" where
  "service_response_parser parse complete unparsable ctx r =
     (if ac_operation ctx = None then Inr ctx
      else if (case ac_service_response ctx of None \<Rightarrow> False | Some v \<Rightarrow> truthy v) then Inr ctx
      else case ac_service_exception ctx of
             Some e \<Rightarrow> Inr (ctx\<lparr>ac_service_exception := Some (complete e)\<rparr>)
           | None \<Rightarrow>
               if unparsable then Inr (ctx\<lparr>ac_service_response := Some (PDict [])\<rparr>)
               else bind_r (parse r) (\<lambda>parsed. case parsed of
                      Inl v \<Rightarrow> Inr (ctx\<lparr>ac_service_response := Some v\<rparr>)
                    | Inr e \<Rightarrow> Inr (ctx\<lparr>ac_service_exception := Some e\<rparr>)))"

text \<open>\<open>_set_exception_attributes\<close>: code, sender fault and status of the error in the specification.\<close>

record error_spec =
  es_name :: ustr
  es_code :: "ustr option"
  es_sender_fault :: "bool option"
  es_status :: "int option"

definition set_exception_attributes :: "error_spec \<Rightarrow> service_exception \<Rightarrow> service_exception" where
  "set_exception_attributes spec e =
     e\<lparr>se_code := (case es_code spec of None \<Rightarrow> es_name spec | Some c \<Rightarrow> c),
       se_sender_fault := (case es_sender_fault spec of None \<Rightarrow> False | Some b \<Rightarrow> b),
       se_status_code := (case es_status spec of None \<Rightarrow> 400 | Some k \<Rightarrow> k)\<rparr>"

text \<open>\<open>ServiceResponseHandlers\<close>: the handlers of the service of a request, in the order they were added.\<close>

type_synonym 'h response_handlers = "(ustr, 'h list) dict"

definition append_handler :: "ustr \<Rightarrow> 'h \<Rightarrow> 'h response_handlers \<Rightarrow> 'h response_handlers" where
  "append_handler service h handlers =
     dict_set service ((case dict_get handlers service of None \<Rightarrow> [] | Some hs \<Rightarrow> hs) @ [h]) handlers"

definition handlers_called :: "api_context \<Rightarrow> 'h response_handlers \<Rightarrow> 'h list" where
  "handlers_called ctx handlers =
     (case ac_service ctx of None \<Rightarrow> [] | Some s \<Rightarrow> (case dict_get handlers s of None \<Rightarrow> [] | Some hs \<Rightarrow> hs))"

subsection \<open>Dispatch tables are complete\<close>

lemma collected_keys:
  "fst ` set (fold collect_handler fs handlers) = fst ` set handlers \<union> {op. \<exists>f pass expand. f \<in> set fs \<and> mf_marker f = Some (op, pass, expand)}"
proof (induction fs arbitrary: handlers)
  case (Cons f fs)
  have "fst ` set (collect_handler f handlers) = fst ` set handlers \<union> {op. \<exists>pass expand. mf_marker f = Some (op, pass, expand)}"
  proof (cases "mf_marker f")
    case (Some m)
    obtain operation pass expand where "m = (operation, pass, expand)" by (cases m)
    with Some have "fst ` set (collect_handler f handlers) = insert operation (fst ` set handlers)"
      by (simp add: collect_handler_def)
    with Some \<open>m = _\<close> show ?thesis by auto
  qed (simp add: collect_handler_def)
  then show ?case by (auto simp: Cons)
qed simp

lemma collected_wf: "wf_dict handlers \<Longrightarrow> wf_dict (fold collect_handler fs handlers)"
  by (induction fs arbitrary: handlers) (auto simp: collect_handler_def split: option.splits)

lemma collected_operation:
  assumes "\<forall>(op, h) \<in> set handlers. ha_operation h = op" "(op, h) \<in> set (fold collect_handler fs handlers)"
  shows "ha_operation h = op"
  using assms
proof (induction fs arbitrary: handlers)
  case (Cons f fs)
  have "\<forall>(op, h) \<in> set (collect_handler f handlers). ha_operation h = op"
  proof (cases "mf_marker f")
    case (Some m)
    obtain o' pass expand where m: "m = (o', pass, expand)" by (cases m)
    have "set (dict_set k v d) \<subseteq> insert (k, v) (set d)" for k and v :: handler_attributes and d
      by (induction d) (auto split: if_splits)
    with Cons.prems(1) Some m show ?thesis by (fastforce simp: collect_handler_def)
  qed (use Cons.prems(1) in \<open>simp add: collect_handler_def\<close>)
  with Cons show ?case by simp
qed auto

text \<open>The table has an entry for exactly the marked operations, bound to an attribute of the delegate.\<close>

lemma bind_handlers_table:
  assumes "bind_handlers attribute hs table = Inr t"
  shows "fst ` set t = fst ` set table \<union> ha_operation ` set hs
    \<and> (\<forall>op d. dict_get t op = Some d \<longrightarrow> dict_get table op = Some d
        \<or> (\<exists>h \<in> set hs. ha_operation h = op \<and> attribute (ha_function_name h) = Some (sd_fn d) \<and> sd_operation d = op
             \<and> sd_pass_context d = ha_pass_context h \<and> sd_expand_parameters d = ha_expand_parameters h))"
  using assms
proof (induction hs arbitrary: table)
  case (Cons h hs)
  obtain f where f: "attribute (ha_function_name h) = Some f" using Cons.prems by (auto split: option.splits)
  let ?t = "dict_set (ha_operation h) \<lparr>sd_fn = f, sd_operation = ha_operation h, sd_pass_context = ha_pass_context h,
    sd_expand_parameters = ha_expand_parameters h\<rparr> table"
  from Cons.IH [of ?t] Cons.prems f have IH: "fst ` set t = fst ` set ?t \<union> ha_operation ` set hs"
      "\<And>op d. dict_get t op = Some d \<Longrightarrow> dict_get ?t op = Some d
        \<or> (\<exists>h \<in> set hs. ha_operation h = op \<and> attribute (ha_function_name h) = Some (sd_fn d) \<and> sd_operation d = op
             \<and> sd_pass_context d = ha_pass_context h \<and> sd_expand_parameters d = ha_expand_parameters h)"
    by auto
  show ?case
  proof (intro conjI allI impI)
    fix op d assume "dict_get t op = Some d"
    from IH(2) [OF this] show "dict_get table op = Some d
        \<or> (\<exists>h \<in> set (h # hs). ha_operation h = op \<and> attribute (ha_function_name h) = Some (sd_fn d) \<and> sd_operation d = op
             \<and> sd_pass_context d = ha_pass_context h \<and> sd_expand_parameters d = ha_expand_parameters h)"
      using f by (auto simp: dict_get_set split: if_splits)
  qed (use IH(1) in auto)
qed simp

lemma dispatch_table_complete:
  assumes "create_dispatch_table d = Inr t"
  shows "set (dict_keys t) = {op. \<exists>f pass expand. f \<in> set (concat (dg_classes d)) \<and> mf_marker f = Some (op, pass, expand)}"
    and "dict_get t op = Some x \<Longrightarrow> sd_operation x = op \<and> (\<exists>n. dg_attribute d n = Some (sd_fn x))"
proof -
  let ?hs = "fold collect_handler (concat (dg_classes d)) []"
  have b: "bind_handlers (dg_attribute d) (dict_values ?hs) [] = Inr t" using assms by (simp add: create_dispatch_table_def)
  have "ha_operation ` set (dict_values ?hs) = fst ` set ?hs"
    using collected_operation [of "[]" _ _ "concat (dg_classes d)"] by (force simp: image_iff)
  with bind_handlers_table [OF b] collected_keys [of "concat (dg_classes d)" "[]"]
  show "set (dict_keys t) = {op. \<exists>f pass expand. f \<in> set (concat (dg_classes d)) \<and> mf_marker f = Some (op, pass, expand)}"
    by simp
  assume "dict_get t op = Some x"
  with conjunct2 [OF bind_handlers_table [OF b], rule_format, of op x]
  have "\<exists>h \<in> set (dict_values ?hs). dg_attribute d (ha_function_name h) = Some (sd_fn x) \<and> sd_operation x = op"
    by fastforce
  then show "sd_operation x = op \<and> (\<exists>n. dg_attribute d n = Some (sd_fn x))" by blast
qed

subsection \<open>Routes\<close>

lemma routes_after_add:
  "dict_get (add_skeleton sk routes) (s, op)
     = (if s = sk_service sk \<and> op \<in> set (dict_keys (sk_table sk)) then Some sk else dict_get routes (s, op))"
proof -
  have "dict_get (fold (\<lambda>operation. add_handler (sk_service sk, operation) sk) ops routes) (s, op)
      = (if s = sk_service sk \<and> op \<in> set ops then Some sk else dict_get routes (s, op))" for ops
    by (induction ops arbitrary: routes) (auto simp: add_handler_def dict_get_set)
  then show ?thesis by (simp add: add_skeleton_def)
qed

subsection \<open>A call over RPC v2 CBOR\<close>

text \<open>The keyword arguments of a dictionary whose member names stay apart and are not \<open>context\<close>.\<close>

lemma keyword_arguments_present:
  assumes "distinct (map fst acc @ map (xform \<circ> fst) d)"
  shows "keyword_arguments xform (map (\<lambda>(k, v). (PStr k, v)) d) acc = Inr (acc @ map (\<lambda>(k, v). (xform k, ValueArg v)) d)"
  using assms
proof (induction d arbitrary: acc)
  case (Cons kv d)
  obtain k v where kv: "kv = (k, v)" by (cases kv)
  have "dict_set (xform k) (ValueArg v) acc = acc @ [(xform k, ValueArg v)]"
    using Cons.prems kv by (intro dict_set_new) auto
  moreover have "keyword_arguments xform (map (\<lambda>(k, v). (PStr k, v)) d) (acc @ [(xform k, ValueArg v)])
      = Inr ((acc @ [(xform k, ValueArg v)]) @ map (\<lambda>(k, v). (xform k, ValueArg v)) d)"
    by (rule Cons.IH) (use Cons.prems kv in auto)
  ultimately show ?case by (simp add: kv)
qed simp

definition provider_arguments :: "(ustr \<Rightarrow> ustr) \<Rightarrow> (ustr \<times> pyval) list \<Rightarrow> api_context \<Rightarrow> (ustr \<times> call_arg) list" where
  "provider_arguments xform d ctx = map (\<lambda>(k, v). (xform k, ValueArg v)) d @ [(cp ''context'', ContextArg ctx)]"

lemma dispatch_call_keywords:
  assumes "sd_expand_parameters p" "distinct (map (xform \<circ> fst) d)" "cp ''context'' \<notin> xform ` fst ` set d"
  shows "dispatch_call xform p ctx (str_dict d) w = sd_fn p [] (provider_arguments xform d ctx) w"
proof -
  have "dict_set (cp ''context'') (ContextArg ctx) (map (\<lambda>(k, v). (xform k, ValueArg v)) d) = provider_arguments xform d ctx"
    unfolding provider_arguments_def by (rule dict_set_new) (use assms(3) in \<open>auto simp: image_iff simp del: cp_simps\<close>)
  then show ?thesis
    using assms(1) keyword_arguments_present [of "[]" xform d] assms(2)
    by (simp add: dispatch_call_def str_dict_def py_items_def del: cp_simps)
qed

text \<open>The skeleton for a service that speaks RPC v2 CBOR.\<close>

definition rpc_skeleton_env ::
    "time_parsers \<Rightarrow> nat \<Rightarrow> service_model \<Rightarrow> serializer_env \<Rightarrow> (operation \<Rightarrow> response_operation)
     \<Rightarrow> (service_exception \<Rightarrow> (ustr \<times> pyval) list) \<Rightarrow> (ustr \<Rightarrow> ustr) \<Rightarrow> skeleton_env" where
  "rpc_skeleton_env tp limit svc senv rop attrs xform =
     \<lparr>ke_parse = (\<lambda>ctx. rpc_parse tp limit svc (ac_request ctx)),
      ke_serialize = (\<lambda>ctx op v. serialize_to_response RpcV2CBORResponseSerializer senv (rop op)
         (case v of PDict d \<Rightarrow> d | _ \<Rightarrow> []) None (Some (rq_headers (ac_request ctx))) (ac_request_id ctx)),
      ke_serialize_error = (\<lambda>ctx op e. serialize_error_to_response RpcV2CBORResponseSerializer senv (rop op)
         (Some (e, attrs e)) (Some (rq_headers (ac_request ctx))) (ac_request_id ctx)),
      ke_xform = xform\<rparr>"

lemma rpc_mime_type: "\<exists>m. get_mime_type best (supported_mime_types RpcV2CBORResponseSerializer) headers = Inr m"
  by (auto simp: get_mime_type_def supported_mime_types_def split: option.splits)

lemma rpc_serialized:
  assumes out: "on_wire (en_aware senv) (Structure oi oms) (PDict res) w" and depth: "pv_depth (PDict res) < en_limit senv" "pv_depth w < plim"
    and op: "ro_event_stream rop = None" "ro_output_shape rop = Some (Structure oi oms)"
  shows "\<exists>r b. serialize_to_response RpcV2CBORResponseSerializer senv rop res None headers rid = Inr r
    \<and> rs_status r = (case ro_response_code rop of None \<Rightarrow> 200 | Some k \<Rightarrow> k)
    \<and> response_header r (cp ''Smithy-Protocol'') = Some (PStr (cp ''rpc-v2-cbor''))
    \<and> rs_body r = Body (PBytes b) \<and> parse_data_item plim b = Inr (w, [])"
proof -
  obtain m where m: "get_mime_type (en_best_match senv) (supported_mime_types RpcV2CBORResponseSerializer) headers = Inr m"
    using rpc_mime_type by blast
  obtain b where b: "serialize_data_item True (en_aware senv) (en_limit senv) (Structure oi oms) (PDict res) = Inr b"
      "decodes (parse_data_item plim) b w"
    using on_wire_decodes [OF out depth] by blast
  let ?c = RpcV2CBORResponseSerializer
  let ?r0 = "create_default_response ?c senv rop m"
  let ?r1 = "(set_content_type m ?r0)\<lparr>rs_body := Body (PBytes b)\<rparr>"
  have "serialize_response ?c senv rop m rid res (Some (Structure oi oms)) ?r0 = Inr ?r1"
    using b(1) by (simp add: serialize_response_def is_rest_def body_text_def cbor_body_def set_response_def)
  then have "serialize_to_response ?c senv rop res None headers rid = Inr (response_traits ?c senv rop rid ?r1)"
    using m op by (simp add: serialize_to_response_def handle_serializer_exceptions_def)
  moreover have "rs_status (response_traits ?c senv rop rid ?r1) = (case ro_response_code rop of None \<Rightarrow> 200 | Some k \<Rightarrow> k)"
    by (simp add: set_content_type_def text_header_get create_default_response_def)
  moreover have "response_header (response_traits ?c senv rop rid ?r1) (cp ''Smithy-Protocol'') = Some (PStr (cp ''rpc-v2-cbor''))"
  proof -
    have "ustr_lower (cp ''Smithy-Protocol'') \<noteq> ustr_lower (cp ''Content-MD5'')" by (simp add: ustr_lower_def)
    then show ?thesis
      by (simp add: response_traits_def checksum_trait_def text_header_get set_content_type_def del: cp_simps)
  qed
  moreover have "parse_data_item plim b = Inr (w, [])"
    using b(2) by (metis append_Nil2 decodes_def)
  ultimately show ?thesis by auto
qed

text \<open>
  C23: a call over RPC v2 CBOR, end to end. A client encodes parameters that conform to the input shape of
  an operation and sends them; the skeleton parses the request, calls the function of its dispatch table
  with exactly these parameters under their Python names and the context, and what the function returns,
  when it conforms to the output shape, reaches the client: the body of the response decodes to it, with
  nothing left over. Nothing else happens to the provider's state.
\<close>

theorem rpc_call_end_to_end:
  fixes f :: "ustr \<Rightarrow> pyval option" and ms :: members
  defines "d \<equiv> present_members ms f"
  assumes input: "on_wire aware (Structure i ms) v (str_dict d)" "typed (Structure i ms) (str_dict d)"
      "pv_depth v < slim" "pv_depth (str_dict d) < limit"
    and op: "rpc_operation svc (ac_request ctx) = Inr op" "op_input_shape op = Some (Structure i ms)" "\<not> has_event_stream (Structure i ms)"
    and names: "distinct (map (xform \<circ> fst) d)" "cp ''context'' \<notin> xform ` fst ` set d"
    and entry: "dict_get (sk_table sk) (op_name op) = Some p" "sd_expand_parameters p"
    and fresh: "ac_operation ctx = None"
    and ro: "ro_event_stream (rop op) = None" "ro_output_shape (rop op) = Some (Structure oi oms)"
  shows "\<exists>body. serialize_data_item indef aware slim (Structure i ms) v = Inr body
    \<and> (let ctx' = ctx\<lparr>ac_request := (ac_request ctx)\<lparr>rq_data := body\<rparr>, ac_operation := Some op\<rparr> in
       \<forall>res w w' out. sd_fn p [] (provider_arguments xform d ctx') w = (Returned (PDict res), w')
         \<and> on_wire (en_aware senv) (Structure oi oms) (PDict res) out \<and> pv_depth (PDict res) < en_limit senv \<and> pv_depth out < plim
         \<longrightarrow> (\<exists>r b ctx''. skeleton_invoke (rpc_skeleton_env tp limit svc senv rop attrs xform) service sk
                (ctx\<lparr>ac_request := (ac_request ctx)\<lparr>rq_data := body\<rparr>\<rparr>) w = (Inr r, ctx'', w')
              \<and> ac_service_response ctx'' = Some (PDict res)
              \<and> rs_status r = (case ro_response_code (rop op) of None \<Rightarrow> 200 | Some k \<Rightarrow> k)
              \<and> rs_body r = Body (PBytes b) \<and> parse_data_item plim b = Inr (out, [])))"
proof -
  obtain body where body: "serialize_data_item indef aware slim (Structure i ms) v = Inr body"
      "decodes (parse_data_item limit) body (str_dict d)"
    using on_wire_decodes [OF input(1,3,4)] by blast
  let ?ctx = "ctx\<lparr>ac_request := (ac_request ctx)\<lparr>rq_data := body\<rparr>\<rparr>" and ?env = "rpc_skeleton_env tp limit svc senv rop attrs xform"
  let ?ctx' = "ctx\<lparr>ac_request := (ac_request ctx)\<lparr>rq_data := body\<rparr>, ac_operation := Some op\<rparr>"
  have "rpc_parse tp limit svc ((ac_request ctx)\<lparr>rq_data := body\<rparr>) = Inr (op, str_dict d)"
    using rpc_parse_body [OF body(2) [unfolded d_def] input(2) [unfolded d_def] input(4) [unfolded d_def] op, of tp "[]"] by (simp add: d_def)
  then have request: "skeleton_request ?env ?ctx = Inr ((op, str_dict d), ?ctx')"
    using fresh by (simp add: skeleton_request_def rpc_skeleton_env_def)
  have "\<exists>r b ctx''. skeleton_invoke ?env service sk ?ctx w = (Inr r, ctx'', w')
        \<and> ac_service_response ctx'' = Some (PDict res)
        \<and> rs_status r = (case ro_response_code (rop op) of None \<Rightarrow> 200 | Some k \<Rightarrow> k)
        \<and> rs_body r = Body (PBytes b) \<and> parse_data_item plim b = Inr (out, [])"
    if call: "sd_fn p [] (provider_arguments xform d ?ctx') w = (Returned (PDict res), w')"
      and out: "on_wire (en_aware senv) (Structure oi oms) (PDict res) out" "pv_depth (PDict res) < en_limit senv" "pv_depth out < plim"
    for res w w' out
  proof -
    let ?ctx2 = "?ctx'\<lparr>ac_service_response := Some (PDict res)\<rparr>"
    obtain r b where r: "serialize_to_response RpcV2CBORResponseSerializer senv (rop op) res None
          (Some (rq_headers (ac_request ctx))) (ac_request_id ctx) = Inr r"
        "rs_status r = (case ro_response_code (rop op) of None \<Rightarrow> 200 | Some k \<Rightarrow> k)" "rs_body r = Body (PBytes b)"
        "parse_data_item plim b = Inr (out, [])"
      using rpc_serialized [OF out ro] by blast
    have "dispatch_call xform p ?ctx' (str_dict d) w = (Returned (PDict res), w')"
      using dispatch_call_keywords [OF entry(2) names] call by simp
    then have "skeleton_invoke ?env service sk ?ctx w = (Inr r, ?ctx2, w')"
      using request entry(1) r(1)
      by (auto simp: skeleton_invoke_def answer_outcome_def rpc_skeleton_env_def Let_def)
    then show ?thesis using r(2-4) by auto
  qed
  with body(1) show ?thesis by (auto simp: Let_def)
qed

text \<open>An example: the operation of the RPC v2 example answers with its own parameters.\<close>

definition echo_dispatcher :: "nat dispatcher" where
  "echo_dispatcher = \<lparr>sd_fn = (\<lambda>args kwargs n. (Returned example_dict, Suc n)), sd_operation = cp ''Op'', sd_pass_context = True,
     sd_expand_parameters = True\<rparr>"

definition echo_skeleton :: "nat skeleton" where
  "echo_skeleton = \<lparr>sk_service = cp ''s'', sk_table = [(cp ''Op'', echo_dispatcher)]\<rparr>"

definition echo_context :: api_context where
  "echo_context = \<lparr>ac_service = Some (cp ''s''), ac_protocol = None, ac_operation = None, ac_service_request = None,
     ac_service_response = None, ac_service_exception = None, ac_request = example_request, ac_request_id = cp ''1''\<rparr>"

definition echo_operation :: "operation \<Rightarrow> response_operation" where
  "echo_operation op = object_operation\<lparr>ro_output_shape := Some example_shape\<rparr>"

lemma example_items: "example_dict = PDict [(PStr (cp ''Name''), PStr (cp ''a'')), (PStr (cp ''Ids''), PList [PInt 7, PInt (- 300)])]"
  by (simp add: example_dict_def)

lemma echo_facts:
  "on_wire aware (Structure (plain_info (cp ''Input'')) example_members) example_dict (str_dict (present_members example_members example_value))"
  "typed (Structure (plain_info (cp ''Input'')) example_members) (str_dict (present_members example_members example_value))"
  "pv_depth (str_dict (present_members example_members example_value)) < 5"
  "distinct (map (ustr_lower \<circ> fst) (present_members example_members example_value))"
  "cp ''context'' \<notin> ustr_lower ` fst ` set (present_members example_members example_value)"
  using example_on_wire [of aware] example_typed example_depth
  by (simp_all add: example_str_dict example_shape_def) (simp_all add: example_members_def example_value_def ustr_lower_def)

theorem rpc_call_end_to_end_witness:
  "\<exists>body. serialize_data_item True (\<lambda>v. Inl TypeError) 3 example_shape example_dict = Inr body
    \<and> (\<exists>r b ctx. skeleton_invoke (rpc_skeleton_env \<lparr>tp_iso8601 = Inr, tp_rfc822 = Inr\<rparr> 5 example_service object_env echo_operation (\<lambda>_. []) ustr_lower)
          (cp ''s'') echo_skeleton (echo_context\<lparr>ac_request := example_request\<lparr>rq_data := body\<rparr>\<rparr>) 0 = (Inr r, ctx, 1)
        \<and> rs_status r = 200 \<and> rs_body r = Body (PBytes b) \<and> parse_data_item 5 b = Inr (example_dict, []))"
proof -
  let ?sh = "Structure (plain_info (cp ''Input'')) example_members"
  have op: "rpc_operation example_service (ac_request echo_context) = Inr example_operation" "op_input_shape example_operation = Some ?sh"
      "\<not> has_event_stream ?sh"
    by (simp_all add: echo_context_def example_rpc_operation example_operation_def example_shape_def has_event_stream_def plain_info_def)
  have entry: "dict_get (sk_table echo_skeleton) (op_name example_operation) = Some echo_dispatcher" "sd_expand_parameters echo_dispatcher"
    by (simp_all add: echo_skeleton_def example_operation_def echo_dispatcher_def)
  have ro: "ac_operation echo_context = None" "ro_event_stream (echo_operation example_operation) = None"
      "ro_output_shape (echo_operation example_operation) = Some ?sh" "ro_response_code (echo_operation example_operation) = None"
    by (simp_all add: echo_context_def echo_operation_def object_operation_def example_shape_def)
  have depth: "pv_depth example_dict < 3" "pv_depth example_dict < en_limit object_env" "pv_depth example_dict < 5"
    by (simp_all add: example_depth object_env_def)
  note concrete = rpc_call_end_to_end [where i = "plain_info (cp ''Input'')" and ms = example_members and f = example_value
      and v = example_dict and aware = "\<lambda>v. Inl TypeError" and slim = 3 and limit = 5 and svc = example_service and ctx = echo_context
      and op = example_operation and xform = ustr_lower and sk = echo_skeleton and p = echo_dispatcher and rop = echo_operation
      and oi = "plain_info (cp ''Input'')" and oms = example_members and indef = True
      and plim = 5 and senv = object_env and tp = "\<lparr>tp_iso8601 = Inr, tp_rfc822 = Inr\<rparr>" and attrs = "\<lambda>_. []" and service = "cp ''s''"]
  note end_to_end = concrete [OF echo_facts(1,2) depth(1) echo_facts(3) op echo_facts(4,5) entry ro(1-3)]
  obtain body where body: "serialize_data_item True (\<lambda>v. Inl TypeError) 3 ?sh example_dict = Inr body"
    and call: "\<And>res w w' out. sd_fn echo_dispatcher [] (provider_arguments ustr_lower (present_members example_members example_value)
          (echo_context\<lparr>ac_request := (ac_request echo_context)\<lparr>rq_data := body\<rparr>, ac_operation := Some example_operation\<rparr>)) w = (Returned (PDict res), w') \<Longrightarrow>
        on_wire (en_aware object_env) ?sh (PDict res) out \<Longrightarrow> pv_depth (PDict res) < en_limit object_env \<Longrightarrow> pv_depth out < 5 \<Longrightarrow>
        \<exists>r b ctx''. skeleton_invoke (rpc_skeleton_env \<lparr>tp_iso8601 = Inr, tp_rfc822 = Inr\<rparr> 5 example_service object_env echo_operation (\<lambda>_. []) ustr_lower) (cp ''s'') echo_skeleton
            (echo_context\<lparr>ac_request := (ac_request echo_context)\<lparr>rq_data := body\<rparr>\<rparr>) w = (Inr r, ctx'', w')
          \<and> rs_status r = 200 \<and> rs_body r = Body (PBytes b) \<and> parse_data_item 5 b = Inr (out, [])"
    using end_to_end ro(4) unfolding Let_def by fastforce
  have "sd_fn echo_dispatcher [] kwargs 0 = (Returned (PDict [(PStr (cp ''Name''), PStr (cp ''a'')), (PStr (cp ''Ids''), PList [PInt 7, PInt (- 300)])]), 1)" for kwargs
    by (simp add: echo_dispatcher_def example_dict_def)
  from call [OF this] example_on_wire [of "en_aware object_env"] depth body show ?thesis
    unfolding example_shape_def [symmetric] example_items [symmetric] by (auto simp: echo_context_def)
qed

subsection \<open>Every request is answered\<close>

lemma skeleton_request_given:
  assumes "ac_operation ctx = Some op" "ac_service_request ctx = Some v" "truthy v \<or> ke_parse env ctx = Inr (op, v)"
  shows "skeleton_request env ctx = Inr ((op, v), ctx)"
  using assms by (cases "truthy v") (auto simp: skeleton_request_def)

text \<open>With serializers that do not fail, only another exception of the provider leaves the skeleton.\<close>

lemma answer_outcome_cases:
  assumes "\<And>c v. \<exists>r. ke_serialize env c op v = Inr r" "\<And>c e. \<exists>r. ke_serialize_error env c op e = Inr r"
  shows "(\<exists>r ctx'. answer_outcome env service ctx op out = (Inr r, ctx') \<and> (\<forall>e. out \<noteq> RaisedOther e))
    \<or> (\<exists>e. out = RaisedOther e \<and> answer_outcome env service ctx op out = (Inl e, ctx))"
proof (cases out)
  case (Returned v)
  then show ?thesis using assms(1) [of "ctx\<lparr>ac_service_response := Some (if truthy v then v else PDict [])\<rparr>" "if truthy v then v else PDict []"]
    by (auto simp: answer_outcome_def Let_def)
next
  case (RaisedService e)
  then show ?thesis using assms(2) [of "ctx\<lparr>ac_service_exception := Some e\<rparr>" e]
    by (auto simp: answer_outcome_def on_service_exception_def Let_def)
next
  case (RaisedNotImplemented a)
  then show ?thesis using assms(2) by (auto simp: answer_outcome_def on_not_implemented_error_def Let_def)
qed (simp_all add: answer_outcome_def)


text \<open>An example: a provider whose function ends in an arithmetic error, and an operation without a route.\<close>

definition failing_dispatcher :: "nat dispatcher" where
  "failing_dispatcher = echo_dispatcher\<lparr>sd_fn := (\<lambda>args kwargs n. (RaisedOther ValueError, Suc n))\<rparr>"

definition constant_env :: skeleton_env where
  "constant_env = \<lparr>ke_parse = (\<lambda>_. Inr (example_operation, example_dict)),
     ke_serialize = (\<lambda>ctx op v. Inr \<lparr>rs_status = 200, rs_headers = [], rs_body = Body (PBytes [])\<rparr>),
     ke_serialize_error = (\<lambda>ctx op e. Inr \<lparr>rs_status = se_status_code e, rs_headers = [], rs_body = Body (PBytes [])\<rparr>),
     ke_xform = ustr_lower\<rparr>"


end
