(* ===== verification/ApiResolution.thy ===== *)
theory ApiResolution
  imports Prelude
begin

text \<open>
  Which APIs are enabled, \<open>utils/bootstrap.py\<close>, and which provider serves them
  (\<open>ServiceProviderConfig\<close> of \<open>config.py\<close>). The graph search over composites and dependencies is
  modelled for any tables, where it may run forever, and shown to end with the closure for tables
  in which no composite contains itself; the tables of the source are such tables.
\<close>

subsection \<open>The tables\<close>

type_synonym api_table = "(string, string list) dict"

definition API_DEPENDENCIES :: api_table where
  "API_DEPENDENCIES =
     [(''dynamodb'', [''dynamodbstreams'']),
      (''dynamodbstreams'', [''kinesis'']),
      (''es'', [''opensearch'']),
      (''cloudformation'', [''s3'', ''sts'']),
      (''lambda'', [''s3'', ''sts'']),
      (''firehose'', [''kinesis'']),
      (''transcribe'', [''s3'']),
      (''secretsmanager'', [''kms'', ''lambda'']),
      (''ssm'', [''secretsmanager''])]"

definition API_COMPOSITES :: api_table where
  "API_COMPOSITES =
     [(''serverless'', [''cloudformation'', ''cloudwatch'', ''iam'', ''sts'', ''lambda'', ''dynamodb'', ''apigateway'', ''s3'']),
      (''cognito'', [''cognito-idp'', ''cognito-identity'']),
      (''timestream'', [''timestream-write'', ''timestream-query''])]"

definition entries :: "api_table \<Rightarrow> string \<Rightarrow> string list" where
  "entries t s = (case dict_get t s of None \<Rightarrow> [] | Some xs \<Rightarrow> xs)"

subsection \<open>The graph search\<close>

text \<open>
  \<open>resolve_apis\<close>: the head of the list is the top of the stack, so extending the stack by a list
  pushes its reverse.
\<close>

partial_function (option) resolve_loop ::
    "api_table \<Rightarrow> api_table \<Rightarrow> string list \<Rightarrow> string list \<Rightarrow> string list option" where
  "resolve_loop composites dependencies stack result =
     (case stack of
        [] \<Rightarrow> Some result
      | service # rest \<Rightarrow>
          if service \<in> set result then resolve_loop composites dependencies rest result
          else if dict_get composites service \<noteq> None
            then resolve_loop composites dependencies (rev (entries composites service) @ rest) result
          else resolve_loop composites dependencies (rev (entries dependencies service) @ rest) (service # result))"

definition resolve_in :: "api_table \<Rightarrow> api_table \<Rightarrow> string list \<Rightarrow> string list option" where
  "resolve_in composites dependencies services = resolve_loop composites dependencies (rev services) []"

definition resolve_apis :: "string list \<Rightarrow> string list option" where
  "resolve_apis = resolve_in API_COMPOSITES API_DEPENDENCIES"

subsection \<open>The enabled services\<close>

definition TRUE_STRINGS :: "string list" where
  "TRUE_STRINGS = [''1'', ''true'', ''True'']"

definition FALSE_STRINGS :: "string list" where
  "FALSE_STRINGS = [''0'', ''false'', ''False'']"

type_synonym environ = "(string, string) dict"

definition env_get :: "environ \<Rightarrow> string \<Rightarrow> string" where
  "env_get env k = (case dict_get env k of None \<Rightarrow> [] | Some v \<Rightarrow> v)"

definition is_env_true :: "environ \<Rightarrow> string \<Rightarrow> bool" where
  "is_env_true env k = (strip (lower (env_get env k)) \<in> set TRUE_STRINGS)"

definition is_env_not_false :: "environ \<Rightarrow> string \<Rightarrow> bool" where
  "is_env_not_false env k = (strip (lower (env_get env k)) \<notin> set FALSE_STRINGS)"

definition parse_boolean_env :: "environ \<Rightarrow> string \<Rightarrow> bool option" where
  "parse_boolean_env env k =
     (let v = strip (lower (env_get env k))
      in if v \<in> set TRUE_STRINGS then Some True else if v \<in> set FALSE_STRINGS then Some False else None)"

definition parse_comma_separated_list :: "environ \<Rightarrow> string \<Rightarrow> string list" where
  "parse_comma_separated_list env k = split_on CHR '','' (strip (env_get env k))"

text \<open>
  The service names of the variable \<open>SERVICES\<close>: split at commas with the whitespace around them,
  each entry cut at its first colon or equals sign.
\<close>

definition service_name_of :: "string \<Rightarrow> string" where
  "service_name_of = takeWhile (\<lambda>c. c \<noteq> CHR '':'' \<and> c \<noteq> CHR ''='')"

definition env_services :: "environ \<Rightarrow> string list" where
  "env_services env =
     (let services_env = strip (env_get env ''SERVICES'')
      in if services_env = [] then [] else map (service_name_of \<circ> strip) (split_on CHR '','' services_env))"

definition get_enabled_apis :: "environ \<Rightarrow> string list \<Rightarrow> string list option" where
  "get_enabled_apis env available =
     (let services_env = strip (env_get env ''SERVICES'');
          services =
            (if services_env \<noteq> [] \<and> is_env_not_false env ''STRICT_SERVICE_LOADING''
             then filter (\<lambda>s. s \<in> set available) (env_services env) else available)
      in resolve_apis services)"

definition is_api_enabled :: "environ \<Rightarrow> string list \<Rightarrow> string \<Rightarrow> bool option" where
  "is_api_enabled env available api = map_option (\<lambda>apis. api \<in> set apis) (get_enabled_apis env available)"

definition get_preloaded_services :: "environ \<Rightarrow> string list \<Rightarrow> string list option" where
  "get_preloaded_services env available =
     (let services = env_services env
      in resolve_apis (if services = [] then available else services))"

subsection \<open>Providers\<close>

record provider_config =
  pc_config :: "(string, string) dict"
  pc_default :: string

definition new_provider_config :: "string \<Rightarrow> provider_config" where
  "new_provider_config d = \<lparr>pc_config = [], pc_default = d\<rparr>"

definition get_provider :: "provider_config \<Rightarrow> string \<Rightarrow> string" where
  "get_provider pc service = (case dict_get (pc_config pc) service of None \<Rightarrow> pc_default pc | Some p \<Rightarrow> p)"

definition set_provider :: "string \<Rightarrow> string \<Rightarrow> provider_config \<Rightarrow> provider_config" where
  "set_provider service provider pc = pc\<lparr>pc_config := dict_set service provider (pc_config pc)\<rparr>"

definition set_provider_if_not_exists :: "string \<Rightarrow> string \<Rightarrow> provider_config \<Rightarrow> provider_config" where
  "set_provider_if_not_exists service provider pc =
     (if dict_get (pc_config pc) service = None then set_provider service provider pc else pc)"

definition bulk_set_provider_if_not_exists :: "string list \<Rightarrow> string \<Rightarrow> provider_config \<Rightarrow> provider_config" where
  "bulk_set_provider_if_not_exists services provider pc =
     fold (\<lambda>s. set_provider_if_not_exists s provider) services pc"

definition override_prefix :: string where
  "override_prefix = ''PROVIDER_OVERRIDE_''"

definition service_of_key :: "string \<Rightarrow> string" where
  "service_of_key key = map (\<lambda>c. if c = CHR ''_'' then CHR ''-'' else c) (lower (drop (length override_prefix) key))"

definition load_from_environment :: "environ \<Rightarrow> provider_config \<Rightarrow> provider_config" where
  "load_from_environment env pc =
     fold (\<lambda>(key, value) pc.
       if starts_with override_prefix key \<and> value \<noteq> [] then set_provider (service_of_key key) value pc else pc) env pc"

subsection \<open>The closure\<close>

text \<open>What the requested services stand for, composites included.\<close>

inductive visited :: "api_table \<Rightarrow> api_table \<Rightarrow> string set \<Rightarrow> string \<Rightarrow> bool" for C D S where
  requested: "s \<in> S \<Longrightarrow> visited C D S s"
| member: "visited C D S s \<Longrightarrow> dict_get C s = Some ms \<Longrightarrow> m \<in> set ms \<Longrightarrow> visited C D S m"
| dependency: "visited C D S s \<Longrightarrow> dict_get C s = None \<Longrightarrow> d \<in> set (entries D s) \<Longrightarrow> visited C D S d"

definition needed :: "api_table \<Rightarrow> api_table \<Rightarrow> string set \<Rightarrow> string set" where
  "needed C D S = {s. visited C D S s \<and> dict_get C s = None}"

text \<open>
  What the search has accounted for: on the stack, in the result, or a composite all of whose members
  are accounted for.
\<close>

inductive settled :: "api_table \<Rightarrow> string list \<Rightarrow> string list \<Rightarrow> string \<Rightarrow> bool" for C stack result where
  stacked: "s \<in> set stack \<Longrightarrow> settled C stack result s"
| resolved: "s \<in> set result \<Longrightarrow> settled C stack result s"
| composite: "dict_get C s = Some ms \<Longrightarrow> (\<And>m. m \<in> set ms \<Longrightarrow> settled C stack result m) \<Longrightarrow> settled C stack result s"

definition search_inv :: "api_table \<Rightarrow> api_table \<Rightarrow> string set \<Rightarrow> string list \<Rightarrow> string list \<Rightarrow> bool" where
  "search_inv C D S stack result \<longleftrightarrow>
     (\<forall>s \<in> set stack \<union> set result. visited C D S s)
     \<and> (\<forall>s \<in> set result. dict_get C s = None)
     \<and> distinct result
     \<and> (\<forall>s \<in> S. settled C stack result s)
     \<and> (\<forall>s \<in> set result. \<forall>d \<in> set (entries D s). settled C stack result d)"

lemma entries_Some: "dict_get t s = Some xs \<Longrightarrow> entries t s = xs"
  by (simp add: entries_def)

lemma settled_mono:
  assumes "settled C stack result y" and "set rest \<subseteq> set stack'" and "set result \<subseteq> set result'"
    and "stack = x # rest" and "settled C stack' result' x"
  shows "settled C stack' result' y"
  using assms(1)
proof induction
  case (stacked s)
  then show ?case using assms(2,4,5) by (auto intro: settled.stacked)
next
  case (resolved s)
  then show ?case using assms(3) by (auto intro: settled.resolved)
next
  case (composite s ms)
  then show ?case by (auto intro: settled.composite)
qed

lemma search_inv_step:
  assumes inv: "search_inv C D S (x # rest) result"
  shows "x \<in> set result \<Longrightarrow> search_inv C D S rest result"
    and "x \<notin> set result \<Longrightarrow> dict_get C x \<noteq> None \<Longrightarrow> search_inv C D S (rev (entries C x) @ rest) result"
    and "x \<notin> set result \<Longrightarrow> dict_get C x = None \<Longrightarrow> search_inv C D S (rev (entries D x) @ rest) (x # result)"
proof -
  have v: "visited C D S x" using inv by (simp add: search_inv_def)
  assume "x \<in> set result"
  then have "settled C rest result x" by (rule settled.resolved)
  have m: "settled C rest result y" if "settled C (x # rest) result y" for y
    by (rule settled_mono [OF that subset_refl subset_refl refl \<open>settled C rest result x\<close>])
  from inv show "search_inv C D S rest result" by (auto simp: search_inv_def intro: m)
next
  assume new: "x \<notin> set result" and "dict_get C x \<noteq> None"
  then obtain ms where ms: "dict_get C x = Some ms" by blast
  have v: "visited C D S x" using inv by (simp add: search_inv_def)
  have "settled C (rev ms @ rest) result x" by (rule settled.composite [OF ms]) (simp add: settled.stacked)
  then have m: "settled C (rev ms @ rest) result y" if "settled C (x # rest) result y" for y
    by (intro settled_mono [OF that _ subset_refl refl]) auto
  from inv ms v show "search_inv C D S (rev (entries C x) @ rest) result"
    by (auto simp: search_inv_def entries_Some [OF ms] intro: m visited.member)
next
  assume new: "x \<notin> set result" "dict_get C x = None"
  have v: "visited C D S x" using inv by (simp add: search_inv_def)
  have "settled C (rev (entries D x) @ rest) (x # result) x" by (rule settled.resolved) simp
  then have m: "settled C (rev (entries D x) @ rest) (x # result) y" if "settled C (x # rest) result y" for y
    by (intro settled_mono [OF that _ _ refl]) auto
  have "settled C (rev (entries D x) @ rest) (x # result) d" if "d \<in> set (entries D x)" for d
    using that by (simp add: settled.stacked)
  with inv new v show "search_inv C D S (rev (entries D x) @ rest) (x # result)"
    by (auto simp: search_inv_def intro: m visited.dependency)
qed

lemma search_inv_final:
  assumes "search_inv C D S [] result"
  shows "set result = needed C D S" and "distinct result"
proof -
  have res: "dict_get C s = None" if "s \<in> set result" for s using assms that by (simp add: search_inv_def)
  have settled: "s \<in> set result" if "settled C [] result s" "dict_get C s = None" for s
    using that by (cases rule: settled.cases) auto
  have members: "settled C [] result m" if "settled C [] result s" "dict_get C s = Some ms" "m \<in> set ms" for s ms m
    using that res [of s] by (cases rule: settled.cases) auto
  have vis: "settled C [] result s" if "visited C D S s" for s
    using that
  proof induction
    case (requested s)
    then show ?case using assms by (simp add: search_inv_def)
  next
    case (member s ms m)
    then show ?case using members by blast
  next
    case (dependency s d)
    have "s \<in> set result" by (rule settled [OF dependency.IH dependency.hyps(2)])
    with assms dependency.hyps(3) show ?case unfolding search_inv_def by blast
  qed
  have sound: "visited C D S s" if "s \<in> set result" for s using assms that by (simp add: search_inv_def)
  show "set result = needed C D S"
    unfolding needed_def by (intro set_eqI iffI CollectI conjI) (use sound res settled [OF vis] in blast)+
  from assms show "distinct result" by (simp add: search_inv_def)
qed

subsection \<open>Termination\<close>

text \<open>
  A weight that every composite outweighs its members by, and the finite set of names the tables know.
\<close>

definition composites_ok :: "api_table \<Rightarrow> (string \<Rightarrow> nat) \<Rightarrow> bool" where
  "composites_ok C weight \<longleftrightarrow>
     (\<forall>s. 0 < weight s) \<and> (\<forall>s ms. dict_get C s = Some ms \<longrightarrow> sum_list (map weight ms) < weight s)"

definition names_of :: "api_table \<Rightarrow> string set" where
  "names_of t = (\<Union>(k, xs) \<in> set t. set xs)"

lemma entries_names: "set (entries t s) \<subseteq> names_of t"
  by (cases "dict_get t s") (force simp: entries_def names_of_def dest: map_of_SomeD)+

lemma finite_names: "finite (names_of t)"
  by (auto simp: names_of_def)

lemma resolve_loop_returns:
  assumes ok: "composites_ok C weight" and U: "finite U" "names_of C \<subseteq> U" "names_of D \<subseteq> U"
    and "search_inv C D S stack result" and "set stack \<subseteq> U"
  shows "\<exists>r. resolve_loop C D stack result = Some r \<and> set r = needed C D S \<and> distinct r"
  using assms(5,6)
proof (induction "(card (U - set result), sum_list (map weight stack))" arbitrary: stack result
    rule: wf_induct_rule [OF wf_lex_prod [OF wf_less_than wf_less_than]])
  case 1
  show ?case
  proof (cases stack)
    case Nil
    with search_inv_final "1.prems"(1) show ?thesis by (simp add: resolve_loop.simps [of C D "[]"])
  next
    case (Cons x rest)
    have x: "x \<in> U" "set rest \<subseteq> U" "0 < weight x" using "1.prems"(2) ok by (auto simp: Cons composites_ok_def)
    note step = search_inv_step [OF "1.prems"(1) [unfolded Cons]]
    consider (old) "x \<in> set result" | (composite) "x \<notin> set result" "dict_get C x \<noteq> None"
      | (service) "x \<notin> set result" "dict_get C x = None" by blast
    then show ?thesis
    proof cases
      case old
      have "\<exists>r. resolve_loop C D rest result = Some r \<and> set r = needed C D S \<and> distinct r"
        by (rule "1.hyps") (use step(1) [OF old] x Cons in auto)
      with old show ?thesis by (simp add: Cons resolve_loop.simps [of C D "x # rest"])
    next
      case composite
      then obtain ms where ms: "dict_get C x = Some ms" by blast
      have "sum_list (map weight ms) < weight x" using ok ms by (simp add: composites_ok_def)
      then have "\<exists>r. resolve_loop C D (rev (entries C x) @ rest) result = Some r \<and> set r = needed C D S \<and> distinct r"
        by (intro "1.hyps") (use step(2) [OF composite] x Cons entries_names [of C x] U in \<open>auto simp: entries_Some [OF ms] rev_map [symmetric]\<close>)
      with composite show ?thesis by (simp add: Cons resolve_loop.simps [of C D "x # rest"])
    next
      case service
      have "U - set (x # result) \<subset> U - set result" using x(1) service(1) by auto
      then have "card (U - set (x # result)) < card (U - set result)" using U(1) by (simp add: psubset_card_mono)
      then have "\<exists>r. resolve_loop C D (rev (entries D x) @ rest) (x # result) = Some r \<and> set r = needed C D S \<and> distinct r"
        by (intro "1.hyps") (use step(3) [OF service] x Cons entries_names [of D x] U in auto)
      with service show ?thesis by (simp add: Cons resolve_loop.simps [of C D "x # rest"])
    qed
  qed
qed

lemma resolve_in_returns:
  assumes "composites_ok C weight"
  shows "\<exists>r. resolve_in C D services = Some r \<and> set r = needed C D (set services) \<and> distinct r"
  unfolding resolve_in_def
  by (rule resolve_loop_returns [OF assms, where U = "names_of C \<union> names_of D \<union> set services"])
     (auto simp: finite_names search_inv_def intro: visited.requested settled.stacked)

text \<open>The tables of the source: no composite has a composite as a member.\<close>

definition api_weight :: "string \<Rightarrow> nat" where
  "api_weight s = Suc (length (entries API_COMPOSITES s))"

lemma api_composites_ok: "composites_ok API_COMPOSITES api_weight"
proof -
  have "list_all (\<lambda>(s, ms). sum_list (map api_weight ms) < api_weight s) API_COMPOSITES" by code_simp
  then have "sum_list (map api_weight ms) < api_weight s" if "dict_get API_COMPOSITES s = Some ms" for s ms
    using map_of_SomeD [OF that] by (auto simp: list_all_iff)
  then show ?thesis by (simp add: composites_ok_def api_weight_def)
qed

subsection \<open>Properties\<close>

text \<open>
  C12: Resolving services always ends, although services depend on each other in cycles, and its result
  is the closure of the request: each API that is requested, a member of a composite or a dependency,
  transitively, exactly once, and never the name of a composite.
\<close>

theorem resolve_apis_closure:
  "\<exists>apis. resolve_apis services = Some apis \<and> set apis = needed API_COMPOSITES API_DEPENDENCIES (set services) \<and> distinct apis"
  unfolding resolve_apis_def by (rule resolve_in_returns [OF api_composites_ok])

end
