(* ===== verification/Sync.thy ===== *)
theory Sync
  imports Prelude Complex_Main
begin

text \<open>
  Waiting and running once, \<open>utils/sync.py\<close>, and the error-swallowing calls of
  \<open>utils/functions.py\<close>. What happens while a thread sleeps, the steps of the other threads, is an
  argument \<open>sleep\<close>; seconds are rationals. The lemmas count the attempts a loop makes and name the
  states in which it makes them.
\<close>

subsection \<open>Polling\<close>

type_synonym 's sleep = "rat \<Rightarrow> 's \<Rightarrow> 's"

text \<open>The loop of \<open>poll_condition\<close>. Without a timeout it may run forever.\<close>

partial_function (option) poll_loop ::
    "'s sleep \<Rightarrow> ('s, bool) prog \<Rightarrow> bool \<Rightarrow> rat \<Rightarrow> rat \<Rightarrow> 's \<Rightarrow> (bool result \<times> 's) option" where
  "poll_loop sleep condition timed interval remaining s =
     (case condition s of
        (Inl e, s') \<Rightarrow> Some (Inl e, s')
      | (Inr ok, s') \<Rightarrow>
          if ok then Some (Inr True, s')
          else let remaining' = (if timed then remaining - interval else remaining)
               in if timed \<and> remaining' \<le> 0 then Some (Inr False, s')
                  else poll_loop sleep condition timed interval remaining' (sleep interval s'))"

definition poll_condition ::
    "'s sleep \<Rightarrow> ('s, bool) prog \<Rightarrow> rat option \<Rightarrow> rat \<Rightarrow> 's \<Rightarrow> (bool result \<times> 's) option" where
  "poll_condition sleep condition timeout interval =
     poll_loop sleep condition (timeout \<noteq> None) interval (case timeout of None \<Rightarrow> 0 | Some t \<Rightarrow> t)"

text \<open>A condition that only reads the state.\<close>

definition reads :: "('s \<Rightarrow> 'a) \<Rightarrow> ('s, 'a) prog" where
  "reads f s = (Inr (f s), s)"

text \<open>The number of evaluations a timeout allows.\<close>

definition poll_attempts :: "rat \<Rightarrow> rat \<Rightarrow> nat" where
  "poll_attempts t i = max 1 (nat \<lceil>t / i\<rceil>)"

subsection \<open>Waiting with growing pauses\<close>

datatype wait_strategy = Exponential | Static | Linear

abbreviation ShortCircuitWait :: "string \<Rightarrow> exn" where
  "ShortCircuitWait \<equiv> UserError ''ShortCircuitWaitException''"

definition is_short_circuit :: "exn \<Rightarrow> bool" where
  "is_short_circuit e = (case e of UserError c m \<Rightarrow> c = ''ShortCircuitWaitException'' | _ \<Rightarrow> False)"

fun next_wait :: "wait_strategy \<Rightarrow> rat \<Rightarrow> int \<Rightarrow> rat" where
  "next_wait Linear wait retries = (wait / of_int retries) * (of_int retries + 1)"
| "next_wait Exponential wait retries = wait * 2"
| "next_wait Static wait retries = wait"

function wait_until ::
    "'s sleep \<Rightarrow> ('s, bool) prog \<Rightarrow> rat \<Rightarrow> int \<Rightarrow> wait_strategy \<Rightarrow> int \<Rightarrow> rat \<Rightarrow> ('s, bool) prog" where
  "wait_until sleep fn wait max_retries strategy retries max_wait s =
     (if \<not> 0 < retries then (Inl AssertionError, s)
      else if max_retries < retries then (Inr False, s)
      else case fn s of
             (Inl e, s') \<Rightarrow>
               if is_short_circuit e then (Inr False, s')
               else if wait > max_wait then (Inr False, s')
               else wait_until sleep fn (next_wait strategy wait retries) max_retries strategy (retries + 1) max_wait (sleep wait s')
           | (Inr completed, s') \<Rightarrow>
               if completed then (Inr True, s')
               else if wait > max_wait then (Inr False, s')
               else wait_until sleep fn (next_wait strategy wait retries) max_retries strategy (retries + 1) max_wait (sleep wait s'))"
  by pat_completeness auto
termination
  by (relation "measure (\<lambda>(sleep, fn, wait, max_retries, strategy, retries, max_wait, s). nat (max_retries + 1 - retries))") auto

declare wait_until.simps [simp del]

text \<open>The pause after attempt \<open>k\<close>, and the state of attempt \<open>k\<close>.\<close>

fun wait_after :: "wait_strategy \<Rightarrow> rat \<Rightarrow> nat \<Rightarrow> rat" where
  "wait_after Exponential w k = w * 2 ^ k"
| "wait_after Static w k = w"
| "wait_after Linear w k = w * of_nat (Suc k)"

primrec attempt_state :: "'s sleep \<Rightarrow> (nat \<Rightarrow> rat) \<Rightarrow> nat \<Rightarrow> 's \<Rightarrow> 's" where
  "attempt_state sleep p 0 s = s"
| "attempt_state sleep p (Suc k) s = sleep (p k) (attempt_state sleep p k s)"

subsection \<open>Retrying\<close>

text \<open>The attempts that are left, and the last error.\<close>

primrec retry_loop :: "'s sleep \<Rightarrow> rat \<Rightarrow> ('s, 'a) prog \<Rightarrow> nat \<Rightarrow> exn \<Rightarrow> ('s, 'a) prog" where
  "retry_loop sleep pause fn 0 err s = (Inl err, s)"
| "retry_loop sleep pause fn (Suc n) err s =
     (case fn s of
        (Inr x, s') \<Rightarrow> (Inr x, s')
      | (Inl e, s') \<Rightarrow> retry_loop sleep pause fn n e (sleep pause s'))"

text \<open>With a negative number of retries nothing is called and \<open>raise None\<close> is a type error.\<close>

definition retry :: "'s sleep \<Rightarrow> ('s, 'a) prog \<Rightarrow> int \<Rightarrow> rat \<Rightarrow> rat \<Rightarrow> ('s, 'a) prog" where
  "retry sleep fn retries pause sleep_before s =
     (let s' = (if sleep_before > 0 then sleep sleep_before s else s)
      in retry_loop sleep pause fn (nat (retries + 1)) TypeError s')"

text \<open>The state in which attempt \<open>k\<close> of a function that keeps failing is made.\<close>

primrec retry_state :: "'s sleep \<Rightarrow> rat \<Rightarrow> ('s, 'a) prog \<Rightarrow> nat \<Rightarrow> 's \<Rightarrow> 's" where
  "retry_state sleep pause fn 0 s = s"
| "retry_state sleep pause fn (Suc k) s = retry_state sleep pause fn k (sleep pause (snd (fn s)))"

subsection \<open>Running once\<close>

text \<open>\<open>Once.do\<close>: the flag is set even when the function raises.\<close>

record once =
  is_done :: bool

definition once_do :: "('s, unit) prog \<Rightarrow> (once \<times> 's, unit) prog" where
  "once_do fn = (\<lambda>(o', s).
     if is_done o' then (Inr (), (o', s))
     else case fn s of (r, s') \<Rightarrow> (r, (o'\<lparr>is_done := True\<rparr>, s')))"

text \<open>\<open>once_func\<close>: the variables the closure captures.\<close>

record 'a once_cell = once +
  oc_result :: "'a option"
  oc_exception :: "exn option"

definition new_once_cell :: "'a once_cell" where
  "new_once_cell = \<lparr>is_done = False, oc_result = None, oc_exception = None\<rparr>"

definition once_func :: "('s, 'a) prog \<Rightarrow> ('a once_cell \<times> 's, 'a option) prog" where
  "once_func fn = (\<lambda>(c, s).
     let (r, c', s') =
       (if is_done c then (Inr (), c, s)
        else case fn s of
               (Inr x, s') \<Rightarrow> (Inr (), c\<lparr>oc_result := Some x, is_done := True\<rparr>, s')
             | (Inl e, s') \<Rightarrow> (Inl e, c\<lparr>oc_exception := Some e, is_done := True\<rparr>, s'))
     in case r of
          Inl e \<Rightarrow> (Inl e, (c', s'))
        | Inr _ \<Rightarrow>
            (case oc_exception c' of
               Some e \<Rightarrow> (Inl e, (c', s'))
             | None \<Rightarrow> (Inr (oc_result c'), (c', s'))))"

subsection \<open>Calls that swallow errors\<close>

text \<open>\<open>run_safe\<close> and \<open>call_safe\<close>; the log messages are left out.\<close>

definition run_safe :: "('s, 'a) prog \<Rightarrow> 'a option \<Rightarrow> ('s, 'a option) prog" where
  "run_safe fn dflt s = (case fn s of (Inr x, s') \<Rightarrow> (Inr (Some x), s') | (Inl e, s') \<Rightarrow> (Inr dflt, s'))"

definition call_safe :: "('s, 'a) prog \<Rightarrow> ('s, 'a option) prog" where
  "call_safe fn = run_safe fn None"

subsection \<open>Lemmas\<close>

lemma poll_attempts_Suc:
  assumes "0 < i" and "0 < t - i"
  shows "poll_attempts t i = Suc (poll_attempts (t - i) i)"
proof -
  have "(t - i) / i = t / i - 1" using assms(1) by (simp add: field_simps)
  then have eq: "\<lceil>(t - i) / i\<rceil> = \<lceil>t / i\<rceil> - 1" by simp
  have "0 < (t - i) / i" using assms by simp
  then have "0 < \<lceil>(t - i) / i\<rceil>" by (simp only: zero_less_ceiling)
  moreover have "max 1 (nat z) = Suc (max 1 (nat (z - 1)))" if "0 < z - 1" for z :: int using that by linarith
  ultimately show ?thesis unfolding poll_attempts_def eq by blast
qed

lemma poll_attempts_last:
  assumes "0 < i" and "t - i \<le> 0"
  shows "poll_attempts t i = 1"
proof -
  have "t / i \<le> 1" using assms by (simp add: divide_le_eq)
  then have "\<lceil>t / i\<rceil> \<le> 1" by (simp add: ceiling_le_iff)
  moreover have "max 1 (nat z) = 1" if "z \<le> 1" for z :: int using that by linarith
  ultimately show ?thesis unfolding poll_attempts_def by blast
qed

lemma poll_loop_step:
  "\<not> p s \<Longrightarrow> 0 < t - i \<Longrightarrow> poll_loop sleep (reads p) True i t s = poll_loop sleep (reads p) True i (t - i) (sleep i s)"
  "\<not> p s \<Longrightarrow> t - i \<le> 0 \<Longrightarrow> poll_loop sleep (reads p) True i t s = Some (Inr False, s)"
  "p s \<Longrightarrow> poll_loop sleep (reads p) b i t s = Some (Inr True, s)"
  by (simp_all add: poll_loop.simps [of sleep "reads p"] reads_def Let_def)

lemma poll_loop_hit:
  assumes "0 < i" and "k < poll_attempts t i" and "p ((sleep i ^^ k) s)" and "\<And>j. j < k \<Longrightarrow> \<not> p ((sleep i ^^ j) s)"
  shows "poll_loop sleep (reads p) True i t s = Some (Inr True, (sleep i ^^ k) s)"
  using assms(2-4)
proof (induction k arbitrary: t s)
  case 0
  then show ?case by (simp add: poll_loop_step(3))
next
  case (Suc k)
  have later: "0 < t - i"
  proof (rule ccontr)
    assume "\<not> 0 < t - i"
    with poll_attempts_last [OF assms(1), of t] Suc.prems(1) show False by simp
  qed
  have no: "\<not> p s" using Suc.prems(3) [of 0] by simp
  have "poll_loop sleep (reads p) True i (t - i) (sleep i s) = Some (Inr True, (sleep i ^^ k) (sleep i s))"
  proof (rule Suc.IH)
    show "k < poll_attempts (t - i) i" using Suc.prems(1) poll_attempts_Suc [OF assms(1) later] by simp
    show "p ((sleep i ^^ k) (sleep i s))" using Suc.prems(2) by (simp add: funpow_swap1)
    fix j assume "j < k"
    then show "\<not> p ((sleep i ^^ j) (sleep i s))" using Suc.prems(3) [of "Suc j"] by (simp add: funpow_swap1)
  qed
  then show ?case by (simp add: poll_loop_step(1) [of p, OF no later] funpow_swap1)
qed

lemma poll_loop_miss:
  assumes "0 < i" and "\<And>j. j < poll_attempts t i \<Longrightarrow> \<not> p ((sleep i ^^ j) s)"
  shows "poll_loop sleep (reads p) True i t s = Some (Inr False, (sleep i ^^ (poll_attempts t i - 1)) s)"
  using assms(2)
proof (induction "poll_attempts t i" arbitrary: t s)
  case 0
  then show ?case by (simp add: poll_attempts_def)
next
  case (Suc n)
  have no: "\<not> p s" using Suc.prems [of 0] Suc.hyps(2) by simp
  show ?case
  proof (cases "0 < t - i")
    case True
    then have n: "n = poll_attempts (t - i) i" using Suc.hyps(2) poll_attempts_Suc [OF assms(1) True] by simp
    have "poll_loop sleep (reads p) True i (t - i) (sleep i s)
        = Some (Inr False, (sleep i ^^ (poll_attempts (t - i) i - 1)) (sleep i s))"
    proof (rule Suc.hyps(1) [OF n])
      fix j assume "j < poll_attempts (t - i) i"
      then show "\<not> p ((sleep i ^^ j) (sleep i s))" using Suc.prems [of "Suc j"] Suc.hyps(2) n by (simp add: funpow_swap1)
    qed
    moreover have "0 < n" unfolding n by (simp add: poll_attempts_def)
    ultimately show ?thesis
      by (cases n) (simp_all add: poll_loop_step(1) [of p, OF no True] funpow_swap1 flip: n Suc.hyps(2))
  next
    case False
    with poll_attempts_last [OF assms(1), of t] show ?thesis by (simp add: poll_loop_step(2) [of p, OF no])
  qed
qed

lemma poll_condition_result:
  assumes "0 < i"
  shows "\<exists>b k. poll_condition sleep (reads p) (Some t) i s = Some (Inr b, (sleep i ^^ k) s) \<and> (b \<longrightarrow> p ((sleep i ^^ k) s))"
proof (cases "\<exists>k < poll_attempts t i. p ((sleep i ^^ k) s)")
  case True
  define k where "k = (LEAST k. k < poll_attempts t i \<and> p ((sleep i ^^ k) s))"
  from True have k: "k < poll_attempts t i" "p ((sleep i ^^ k) s)"
    using LeastI_ex [of "\<lambda>k. k < poll_attempts t i \<and> p ((sleep i ^^ k) s)"] by (auto simp: k_def)
  have "\<not> p ((sleep i ^^ j) s)" if "j < k" for j
    using not_less_Least [OF that [unfolded k_def]] that k(1) by auto
  then have "poll_loop sleep (reads p) True i t s = Some (Inr True, (sleep i ^^ k) s)"
    by (intro poll_loop_hit assms k)
  with k(2) show ?thesis by (auto simp: poll_condition_def)
next
  case False
  then have "poll_condition sleep (reads p) (Some t) i s = Some (Inr False, (sleep i ^^ (poll_attempts t i - 1)) s)"
    using poll_loop_miss [OF assms, of t p sleep s] by (simp add: poll_condition_def)
  then show ?thesis by blast
qed

text \<open>The pause grows as the strategy says.\<close>

lemma next_wait_after: "next_wait strategy (wait_after strategy w k) (int (Suc k)) = wait_after strategy w (Suc k)"
  by (cases strategy) (simp_all add: field_simps)

lemma attempt_state_step:
  "attempt_state sleep p (Suc k) s = sleep (p k) (attempt_state sleep p k s)"
  by simp

text \<open>One attempt of a condition that only reads the state.\<close>

lemma wait_until_attempt:
  "wait_until sleep (reads p) wait (int n) strategy (int (Suc k)) max_wait s =
     (if n \<le> k then (Inr False, s)
      else if p s then (Inr True, s)
      else if wait > max_wait then (Inr False, s)
      else wait_until sleep (reads p) (next_wait strategy wait (int (Suc k))) (int n) strategy (int (Suc (Suc k))) max_wait (sleep wait s))"
  by (subst wait_until.simps) (auto simp: reads_def add.commute)

lemma wait_until_from:
  fixes sleep strategy w s
  defines "S \<equiv> \<lambda>k. attempt_state sleep (wait_after strategy w) k s"
  assumes "k \<le> n"
  shows "fst (wait_until sleep (reads p) (wait_after strategy w k) (int n) strategy (int (Suc k)) max_wait (S k)) =
    Inr (\<exists>m. k \<le> m \<and> m < n \<and> (\<forall>j. k \<le> j \<longrightarrow> j < m \<longrightarrow> wait_after strategy w j \<le> max_wait) \<and> p (S m))"
  using assms(2)
proof (induction "n - k" arbitrary: k)
  case 0
  then show ?case by (subst wait_until_attempt) auto
next
  case (Suc d)
  let ?ok = "\<lambda>k m. k \<le> m \<and> m < n \<and> (\<forall>j. k \<le> j \<longrightarrow> j < m \<longrightarrow> wait_after strategy w j \<le> max_wait) \<and> p (S m)"
  have lt: "k < n" using Suc.hyps(2) by simp
  have next_S: "sleep (wait_after strategy w k) (S k) = S (Suc k)" by (simp add: S_def)
  show ?case
  proof (cases "p (S k)")
    case True
    then have "\<exists>m. ?ok k m" using lt by auto
    with True lt show ?thesis by (subst wait_until_attempt) auto
  next
    case no: False
    show ?thesis
    proof (cases "wait_after strategy w k > max_wait")
      case True
      have "\<not> ?ok k m" for m
        using True no by (cases "m = k") (auto simp: not_le dest: spec [of _ k])
      with True no lt show ?thesis by (subst wait_until_attempt) simp
    next
      case False
      have "?ok k m \<longleftrightarrow> ?ok (Suc k) m" for m
        using False no by (auto simp: Suc_le_eq not_less) (metis le_neq_implies_less not_le)+
      moreover have "fst (wait_until sleep (reads p) (wait_after strategy w (Suc k)) (int n) strategy (int (Suc (Suc k))) max_wait (S (Suc k))) =
          Inr (\<exists>m. ?ok (Suc k) m)"
        using Suc.hyps lt by (intro Suc.hyps(1)) auto
      ultimately show ?thesis using False no lt
        by (subst wait_until_attempt) (simp only: next_S next_wait_after not_le [symmetric] if_False simp_thms)
    qed
  qed
qed

text \<open>A function that fails \<open>k\<close> times and then returns is retried exactly that often.\<close>

lemma retry_loop_hit:
  assumes "k < n" and "\<And>j. j < k \<Longrightarrow> \<exists>e. fst (fn (retry_state sleep q fn j s)) = Inl e"
    and "fn (retry_state sleep q fn k s) = (Inr x, s')"
  shows "retry_loop sleep q fn n err s = (Inr x, s')"
  using assms
proof (induction k arbitrary: n s err)
  case 0
  then show ?case by (cases n) simp_all
next
  case (Suc k)
  obtain m where n: "n = Suc m" using Suc.prems(1) by (cases n) auto
  obtain e t where fail: "fn s = (Inl e, t)" using Suc.prems(2) [of 0] by (cases "fn s") auto
  have "retry_loop sleep q fn m e (sleep q t) = (Inr x, s')"
    by (rule Suc.IH) (use Suc.prems(1,3) Suc.prems(2) [of "Suc j" for j] in \<open>auto simp: n fail\<close>)
  then show ?case by (simp add: n fail)
qed

lemma retry_loop_miss:
  assumes "\<And>j. j \<le> n \<Longrightarrow> \<exists>e. fst (fn (retry_state sleep q fn j s)) = Inl e"
  shows "fst (retry_loop sleep q fn (Suc n) err s) = Inl (projl (fst (fn (retry_state sleep q fn n s))))"
  using assms
proof (induction n arbitrary: s err)
  case 0
  obtain e t where "fn s = (Inl e, t)" using 0 [of 0] by (cases "fn s") auto
  then show ?case by simp
next
  case (Suc n)
  obtain e t where fail: "fn s = (Inl e, t)" using Suc.prems [of 0] by (cases "fn s") auto
  have "fst (retry_loop sleep q fn (Suc n) e (sleep q t)) = Inl (projl (fst (fn (retry_state sleep q fn n (sleep q t)))))"
    by (rule Suc.IH) (use Suc.prems [of "Suc j" for j] in \<open>auto simp: fail\<close>)
  then show ?case by (simp add: fail)
qed

text \<open>A list of calls of the same function, with their results.\<close>

primrec calls :: "nat \<Rightarrow> ('s, 'a) prog \<Rightarrow> 's \<Rightarrow> 'a result list \<times> 's" where
  "calls 0 m s = ([], s)"
| "calls (Suc n) m s = (case m s of (r, s') \<Rightarrow> case calls n m s' of (rs, s'') \<Rightarrow> (r # rs, s''))"

lemma calls_fixed: "m s = (r, s) \<Longrightarrow> calls n m s = (replicate n r, s)"
  by (induction n) simp_all

subsection \<open>Properties\<close>



text \<open>
  Waiting returns True exactly when the condition holds in one of the first \<open>max_retries\<close>
  attempts that come before a pause longer than the maximal wait, where the pauses double, stay or grow
  linearly as the strategy says; otherwise it returns False, and it never raises.
\<close>

theorem wait_until_attempts:
  "fst (wait_until sleep (reads p) w (int n) strategy 1 max_wait s) =
     Inr (\<exists>k<n. \<not> (\<exists>j<k. max_wait < wait_after strategy w j) \<and> p (attempt_state sleep (wait_after strategy w) k s))"
proof -
  have "wait_after strategy w 0 = w" by (cases strategy) simp_all
  then have "fst (wait_until sleep (reads p) w (int n) strategy 1 max_wait s) =
      Inr (\<exists>m. m < n \<and> (\<forall>j. j < m \<longrightarrow> wait_after strategy w j \<le> max_wait) \<and> p (attempt_state sleep (wait_after strategy w) m s))"
    using wait_until_from [of 0 n sleep p strategy w max_wait s] by simp
  then show ?thesis by (simp add: not_less Ball_def Bex_def) (metis not_le)
qed

text \<open>
  A function whose first \<open>k\<close> calls fail and whose next call returns is retried until it returns,
  when \<open>k\<close> is within the number of retries: \<open>retry\<close> returns its value and none of the errors.
\<close>

theorem retry_returns:
  assumes "int k \<le> retries" and "sleep_before \<le> 0"
    and "\<And>j. j < k \<Longrightarrow> \<exists>e. fst (fn (retry_state sleep q fn j s)) = Inl e"
    and "fn (retry_state sleep q fn k s) = (Inr x, s')"
  shows "retry sleep fn retries q sleep_before s = (Inr x, s')"
  using retry_loop_hit [of k "nat (retries + 1)" fn sleep q s x s' TypeError] assms by (simp add: retry_def)

definition third_time_lucky :: "(nat, nat) prog" where
  "third_time_lucky n = (if n < 3 then (Inl ValueError, n + 1) else (Inr n, n))"

lemma retry_returns_witness: "retry (\<lambda>t n. n) third_time_lucky 3 1 0 0 = (Inr 3, 3)"
proof (rule retry_returns [where k = 3])
  have "retry_state (\<lambda>t n. n) q third_time_lucky j s = min (j + s) (max s 3)" for q j s
    by (induction j arbitrary: s) (auto simp: third_time_lucky_def min_def max_def)
  then have st: "retry_state (\<lambda>t n. n) q third_time_lucky j 0 = min j 3" for q j by simp
  show "third_time_lucky (retry_state (\<lambda>t n. n) 1 third_time_lucky 3 0) = (Inr 3, 3)"
    by (simp add: st third_time_lucky_def)
  show "\<exists>e. fst (third_time_lucky (retry_state (\<lambda>t n. n) 1 third_time_lucky j 0)) = Inl e" if "j < 3" for j
    using that by (simp add: st third_time_lucky_def)
qed simp_all

text \<open>
  However often the function \<open>once_func\<close> returns is called, the wrapped function runs once, in
  the first call: every call gives the outcome of that run, the value it returned or the error it
  raised, and the state is the one the run left.
\<close>

theorem once_func_constant:
  "\<exists>c. calls (Suc n) (once_func fn) (new_once_cell, s) = (replicate (Suc n) (map_sum id Some (fst (fn s))), (c, snd (fn s)))"
proof -
  obtain r s' where fn: "fn s = (r, s')" by (cases "fn s")
  let ?c = "new_once_cell\<lparr>is_done := True, oc_result := (case r of Inr x \<Rightarrow> Some x | Inl e \<Rightarrow> None),
    oc_exception := (case r of Inr x \<Rightarrow> None | Inl e \<Rightarrow> Some e)\<rparr>"
  have 1: "once_func fn (new_once_cell, s) = (map_sum id Some r, (?c, s'))"
    by (cases r) (simp_all add: once_func_def new_once_cell_def fn)
  have 2: "once_func fn (?c, s') = (map_sum id Some r, (?c, s'))"
    by (cases r) (simp_all add: once_func_def new_once_cell_def)
  have "calls n (once_func fn) (?c, s') = (replicate n (map_sum id Some r), (?c, s'))" by (rule calls_fixed) (rule 2)
  with 1 fn show ?thesis by auto
qed

end
