(* ===== verification/ServiceLifecycle.thy ===== *)
theory ServiceLifecycle
  imports ApiResolution Sync
begin

text \<open>
  The lifecycle of services, \<open>services/plugins.py\<close>: services and their callbacks, containers with
  their state, the service manager and its plugin-loading subclass. The callbacks of a service run
  on a world of their own; the plugin framework is a parameter; what other threads do while a
  thread waits is an argument. The properties show that every operation moves a container along a
  fixed transition relation, and what \<open>require\<close> and \<open>stop_all_services\<close> guarantee.
\<close>

subsection \<open>Services\<close>

text \<open>The start function may be missing, the sentinel default, or a function of the update listener.\<close>

datatype 'w start_function = NoStart | DefaultStart | StartWith "bool \<Rightarrow> ('w, unit) prog"

record 'w service =
  plugin_name :: string
  start_function :: "'w start_function"
  has_skeleton :: bool
  check_function :: "('w, unit) prog option"
  stop_function :: "('w, unit) prog option"
  on_before_start :: "('w, unit) prog"
  on_before_stop :: "('w, unit) prog"

definition service_start :: "'w service \<Rightarrow> ('w, unit) prog" where
  "service_start s =
     bind_s (call_safe (on_before_start s)) (\<lambda>_.
       case start_function s of
         NoStart \<Rightarrow> return_s ()
       | DefaultStart \<Rightarrow> return_s ()
       | StartWith f \<Rightarrow> f (has_skeleton s))"

definition service_stop :: "'w service \<Rightarrow> ('w, unit) prog" where
  "service_stop s =
     bind_s (call_safe (on_before_stop s)) (\<lambda>_.
       case stop_function s of None \<Rightarrow> return_s () | Some f \<Rightarrow> f)"

definition service_check :: "'w service \<Rightarrow> ('w, unit) prog" where
  "service_check s = (case check_function s of None \<Rightarrow> return_s () | Some f \<Rightarrow> f)"

subsection \<open>Containers\<close>

datatype service_state = Unknown | Available | Disabled | Starting | Running | Stopping | Stopped | Error

text \<open>\<open>ServiceState(...).value\<close>.\<close>

fun state_value :: "service_state \<Rightarrow> string" where
  "state_value Unknown = ''unknown''"
| "state_value Available = ''available''"
| "state_value Disabled = ''disabled''"
| "state_value Starting = ''starting''"
| "state_value Running = ''running''"
| "state_value Stopping = ''stopping''"
| "state_value Stopped = ''stopped''"
| "state_value Error = ''error''"

record 'w container =
  co_service :: "'w service"
  co_state :: service_state
  co_errors :: "exn list"

definition new_container :: "'w service \<Rightarrow> service_state \<Rightarrow> 'w container" where
  "new_container s state = \<lparr>co_service = s, co_state = state, co_errors = []\<rparr>"

definition failed :: "exn \<Rightarrow> 'w container \<Rightarrow> 'w container" where
  "failed e c = c\<lparr>co_state := Error, co_errors := co_errors c @ [e]\<rparr>"

text \<open>The methods of \<open>ServiceContainer\<close>, on the container and the world of its service.\<close>

definition container_check :: "'w container \<times> 'w \<Rightarrow> bool \<times> 'w container \<times> 'w" where
  "container_check = (\<lambda>(c, w).
     case service_check (co_service c) w of
       (Inr _, w') \<Rightarrow> (True, c\<lparr>co_state := Running\<rparr>, w')
     | (Inl e, w') \<Rightarrow> (False, failed e c, w'))"

definition container_start :: "'w container \<times> 'w \<Rightarrow> bool \<times> 'w container \<times> 'w" where
  "container_start = (\<lambda>(c, w).
     let c1 = c\<lparr>co_state := Starting\<rparr>
     in case service_start (co_service c1) w of
          (Inl e, w') \<Rightarrow> (False, failed e c1, w')
        | (Inr _, w') \<Rightarrow> container_check (c1, w'))"

definition container_stop :: "'w container \<times> 'w \<Rightarrow> 'w container \<times> 'w" where
  "container_stop = (\<lambda>(c, w).
     let c1 = c\<lparr>co_state := Stopping\<rparr>
     in case service_stop (co_service c1) w of
          (Inr _, w') \<Rightarrow> (c1\<lparr>co_state := Stopped\<rparr>, w')
        | (Inl e, w') \<Rightarrow> (failed e c1, w'))"

subsection \<open>Plugin errors\<close>

text \<open>\<open>ServicePluginErrorCollector\<close>: the key of a plugin is its name split at the first colon.\<close>

type_synonym plugin_errors = "(string list, exn) dict"

definition get_key :: "string \<Rightarrow> string list" where
  "get_key name = (if CHR '':'' \<in> set name then (let (api, provider) = split_once CHR '':'' name in [api, provider]) else [name])"

datatype plugin_event = OnResolveException string exn | OnInitException string exn | OnLoadException string exn

fun record_event :: "plugin_event \<Rightarrow> plugin_errors \<Rightarrow> plugin_errors" where
  "record_event (OnResolveException name e) errors = dict_set (get_key name) e errors"
| "record_event (OnInitException name e) errors = dict_set (get_key name) e errors"
| "record_event (OnLoadException name e) errors = dict_set (get_key name) e errors"

text \<open>The loop of \<open>has_errors\<close>; a key that is not a pair cannot be unpacked.\<close>

fun has_errors :: "string list list \<Rightarrow> string \<Rightarrow> string option \<Rightarrow> bool result" where
  "has_errors [] api provider = Inr False"
| "has_errors ([e_api, e_provider] # keys) api provider =
     (if api = e_api
      then (case provider of
              None \<Rightarrow> Inr True
            | Some p \<Rightarrow> if p = [] then Inr True else Inr (e_provider = p))
      else has_errors keys api provider)"
| "has_errors (key # keys) api provider = Inl ValueError"

subsection \<open>The manager\<close>

text \<open>
  The environment of a manager: the provider configuration, the environment variables, and the plugin
  framework, which lists the names of the plugins and loads the service of a plugin while it reports
  events to the listener.
\<close>

record 'w plugin_env =
  pe_config :: provider_config
  pe_environ :: environ
  pe_specs :: "string list"
  pe_load :: "string \<Rightarrow> ('w, plugin_event list \<times> 'w service option result) prog"

type_synonym api_specs = "(string, string list) dict"

record 'w manager =
  mg_services :: "(string, 'w container) dict"
  mg_specs :: "api_specs option"
  mg_errors :: plugin_errors
  mg_world :: 'w

definition new_manager :: "'w \<Rightarrow> 'w manager" where
  "new_manager w = \<lparr>mg_services = [], mg_specs = None, mg_errors = [], mg_world = w\<rparr>"

definition container_of :: "'w manager \<Rightarrow> string \<Rightarrow> 'w container option" where
  "container_of m name = dict_get (mg_services m) name"

definition state_of :: "'w manager \<Rightarrow> string \<Rightarrow> service_state option" where
  "state_of m name = map_option co_state (container_of m name)"

text \<open>\<open>_resolve_api_provider_specs\<close>: a name without exactly one colon ends the loop with an error.\<close>

fun resolve_api_provider_specs :: "string list \<Rightarrow> api_specs \<Rightarrow> api_specs result" where
  "resolve_api_provider_specs [] result = Inr result"
| "resolve_api_provider_specs (name # names) result =
     (case split_on CHR '':'' name of
        [api, provider] \<Rightarrow> resolve_api_provider_specs names (dict_set api (entries result api @ [provider]) result)
      | _ \<Rightarrow> Inl ValueError)"

definition api_provider_specs :: "'w plugin_env \<Rightarrow> ('w manager, api_specs) prog" where
  "api_provider_specs env m =
     (case mg_specs m of
        Some specs \<Rightarrow> (Inr specs, m)
      | None \<Rightarrow>
          (case resolve_api_provider_specs (pe_specs env) [] of
             Inl e \<Rightarrow> (Inl e, m)
           | Inr specs \<Rightarrow> (Inr specs, m\<lparr>mg_specs := Some specs\<rparr>)))"

definition get_active_provider :: "'w plugin_env \<Rightarrow> string \<Rightarrow> string" where
  "get_active_provider env service = get_provider (pe_config env) service"

definition available_in :: "'w plugin_env \<Rightarrow> api_specs \<Rightarrow> string list" where
  "available_in env specs = map fst (filter (\<lambda>(service, providers). get_active_provider env service \<in> set providers) specs)"

definition list_available :: "'w plugin_env \<Rightarrow> ('w manager, string list) prog" where
  "list_available env = bind_s (api_provider_specs env) (\<lambda>specs. return_s (available_in env specs))"

definition apis_with_provider :: "'w plugin_env \<Rightarrow> string \<Rightarrow> ('w manager, string list) prog" where
  "apis_with_provider env provider =
     bind_s (api_provider_specs env) (\<lambda>specs. return_s (map fst (filter (\<lambda>(api, providers). provider \<in> set providers) specs)))"

definition exists_service :: "'w plugin_env \<Rightarrow> string \<Rightarrow> ('w manager, bool) prog" where
  "exists_service env name = bind_s (list_available env) (\<lambda>av. return_s (name \<in> set av))"

text \<open>\<open>is_api_enabled\<close> asks the manager for the available services; the resolution always ends.\<close>

definition api_enabled :: "'w plugin_env \<Rightarrow> string \<Rightarrow> ('w manager, bool) prog" where
  "api_enabled env name =
     bind_s (list_available env) (\<lambda>av. return_s (is_api_enabled (pe_environ env) av name = Some True))"

definition add_service :: "'w plugin_env \<Rightarrow> 'w service \<Rightarrow> ('w manager, bool) prog" where
  "add_service env s =
     bind_s (api_enabled env (plugin_name s)) (\<lambda>enabled m.
       (Inr True, m\<lparr>mg_services := dict_set (plugin_name s)
          (new_container s (if enabled then Available else Disabled)) (mg_services m)\<rparr>))"

definition load_service_plugin :: "'w plugin_env \<Rightarrow> string \<Rightarrow> ('w manager, 'w service option) prog" where
  "load_service_plugin env name =
     bind_s (api_provider_specs env) (\<lambda>specs.
       let providers = entries specs name;
           preferred = get_active_provider env name;
           provider = (if preferred \<in> set providers then preferred else pc_default (pe_config env))
       in if providers = [] then return_s None
          else (\<lambda>m. case pe_load env (name @ '':'' @ provider) (mg_world m) of
                  (Inl e, w) \<Rightarrow> (Inl e, m\<lparr>mg_world := w\<rparr>)
                | (Inr (events, r), w) \<Rightarrow>
                    (r, m\<lparr>mg_world := w, mg_errors := fold record_event events (mg_errors m)\<rparr>)))"

text \<open>\<open>ServicePluginManager.get_service_container\<close>: a service is loaded when it is first asked for.\<close>

definition get_service_container :: "'w plugin_env \<Rightarrow> string \<Rightarrow> ('w manager, 'w container option) prog" where
  "get_service_container env name m =
     (case container_of m name of
        Some c \<Rightarrow> (Inr (Some c), m)
      | None \<Rightarrow>
          bind_s (exists_service env name) (\<lambda>known.
            if \<not> known then return_s None
            else bind_s (load_service_plugin env name) (\<lambda>service.
              case service of
                None \<Rightarrow> return_s None
              | Some s \<Rightarrow> bind_s (add_service env s) (\<lambda>_ m'. (Inr (container_of m' name), m')))) m)"

definition get_service :: "'w plugin_env \<Rightarrow> string \<Rightarrow> ('w manager, 'w service option) prog" where
  "get_service env name = bind_s (get_service_container env name) (\<lambda>c. return_s (map_option co_service c))"

definition get_state :: "'w plugin_env \<Rightarrow> string \<Rightarrow> ('w manager, service_state option) prog" where
  "get_state env name m =
     (if container_of m name \<noteq> None then (Inr (state_of m name), m)
      else bind_s (exists_service env name) (\<lambda>known.
        if \<not> known then return_s None
        else (\<lambda>m'. case has_errors (dict_keys (mg_errors m')) name (Some (get_active_provider env name)) of
               Inl e \<Rightarrow> (Inl e, m')
             | Inr True \<Rightarrow> (Inr (Some Error), m')
             | Inr False \<Rightarrow> bind_s (api_enabled env name) (\<lambda>en. return_s (Some (if en then Available else Disabled))) m')) m)"

definition is_running :: "'w plugin_env \<Rightarrow> string \<Rightarrow> ('w manager, bool) prog" where
  "is_running env name = bind_s (get_state env name) (\<lambda>s. return_s (s = Some Running))"

text \<open>A method call on the container stored under a name.\<close>

definition update_container ::
    "string \<Rightarrow> ('w container \<times> 'w \<Rightarrow> 'a \<times> 'w container \<times> 'w) \<Rightarrow> ('w manager, 'a) prog" where
  "update_container name f m =
     (case container_of m name of
        None \<Rightarrow> (Inl AttributeError, m)
      | Some c \<Rightarrow>
          (case f (c, mg_world m) of
             (x, c', w) \<Rightarrow> (Inr x, m\<lparr>mg_services := dict_set name c' (mg_services m), mg_world := w\<rparr>)))"

definition check :: "'w plugin_env \<Rightarrow> string \<Rightarrow> ('w manager, bool option) prog" where
  "check env name =
     bind_s (get_state env name) (\<lambda>state.
       if state = Some Running \<or> state = Some Error
       then bind_s (get_service_container env name) (\<lambda>c.
              case c of
                None \<Rightarrow> raise_s AttributeError
              | Some _ \<Rightarrow> bind_s (update_container name container_check) (\<lambda>b. return_s (Some b)))
       else return_s None)"

text \<open>\<open>any(...)\<close> stops at the first service that is up.\<close>

fun check_any :: "'w plugin_env \<Rightarrow> string list \<Rightarrow> ('w manager, bool) prog" where
  "check_any env [] = return_s False"
| "check_any env (name # names) =
     bind_s (check env name) (\<lambda>b. if b = Some True then return_s True else check_any env names)"

definition check_all :: "'w plugin_env \<Rightarrow> ('w manager, bool) prog" where
  "check_all env = bind_s (list_available env) (check_any env)"

fun states_of :: "'w plugin_env \<Rightarrow> string list \<Rightarrow> ('w manager, (string \<times> service_state option) list) prog" where
  "states_of env [] = return_s []"
| "states_of env (name # names) =
     bind_s (get_state env name) (\<lambda>s. bind_s (states_of env names) (\<lambda>ss. return_s ((name, s) # ss)))"

definition get_states :: "'w plugin_env \<Rightarrow> ('w manager, (string \<times> service_state option) list) prog" where
  "get_states env = bind_s (list_available env) (states_of env)"

subsection \<open>Requiring a service\<close>

abbreviation ServiceDisabled :: exn where
  "ServiceDisabled \<equiv> UserError ''ServiceDisabled'' []"

abbreviation ServiceStateException :: exn where
  "ServiceStateException \<equiv> UserError ''ServiceStateException'' []"

text \<open>
  A thread that finds a service starting or stopping polls its state for 30 seconds, twice a second;
  \<open>sleep\<close> is what the other threads do in the meantime.
\<close>

definition wait_for ::
    "'w manager sleep \<Rightarrow> string \<Rightarrow> service_state \<Rightarrow> (service_state option \<Rightarrow> bool) \<Rightarrow> 'w manager \<Rightarrow> (unit result \<times> 'w manager) option" where
  "wait_for sleep name busy ready m =
     (if state_of m name = Some busy
      then (case poll_condition sleep (reads (\<lambda>m. ready (state_of m name))) (Some 30) (1 / 2) m of
              None \<Rightarrow> None
            | Some (Inl e, m') \<Rightarrow> Some (Inl e, m')
            | Some (Inr ok, m') \<Rightarrow> Some (if ok then Inr () else Inl TimeoutError, m'))
      else Some (Inr (), m))"

text \<open>\<open>errors[-1]\<close>.\<close>

definition last_error :: "exn list \<Rightarrow> exn" where
  "last_error errors = (if errors = [] then IndexError else last errors)"

definition start_required :: "string \<Rightarrow> ('w manager, 'w service) prog" where
  "start_required name =
     bind_s (update_container name container_start) (\<lambda>started m.
       case container_of m name of
         None \<Rightarrow> (Inl AttributeError, m)
       | Some c \<Rightarrow> (if started then Inr (co_service c) else Inl (last_error (co_errors c)), m))"

text \<open>The part of \<open>require\<close> under the lock of the container.\<close>

definition require_locked :: "string \<Rightarrow> ('w manager, 'w service) prog" where
  "require_locked name m =
     (case container_of m name of
        None \<Rightarrow> (Inl AttributeError, m)
      | Some c \<Rightarrow>
          (case co_state c of
             Disabled \<Rightarrow> (Inl ServiceDisabled, m)
           | Running \<Rightarrow> (Inr (co_service c), m)
           | Error \<Rightarrow> (Inl (last_error (co_errors c)), m)
           | Available \<Rightarrow> start_required name m
           | Stopped \<Rightarrow> start_required name m
           | Unknown \<Rightarrow> (Inl ServiceStateException, m)
           | Starting \<Rightarrow> (Inl ServiceStateException, m)
           | Stopping \<Rightarrow> (Inl ServiceStateException, m)))"

text \<open>
  \<open>require\<close>, where the value None would stand for a call that never returns. Waiting for the lock of
  the container is a sleep of no fixed length.
\<close>

definition require :: "'w plugin_env \<Rightarrow> 'w manager sleep \<Rightarrow> string \<Rightarrow> 'w manager \<Rightarrow> ('w service result \<times> 'w manager) option" where
  "require env sleep name m =
     (case get_service_container env name m of
        (Inl e, m1) \<Rightarrow> Some (Inl e, m1)
      | (Inr None, m1) \<Rightarrow> Some (Inl ValueError, m1)
      | (Inr (Some _), m1) \<Rightarrow>
          (case wait_for sleep name Starting (\<lambda>s. s \<noteq> Some Starting) m1 of
             None \<Rightarrow> None
           | Some (Inl e, m2) \<Rightarrow> Some (Inl e, m2)
           | Some (Inr _, m2) \<Rightarrow>
               (case wait_for sleep name Stopping (\<lambda>s. s = Some Stopped) m2 of
                  None \<Rightarrow> None
                | Some (Inl e, m3) \<Rightarrow> Some (Inl e, m3)
                | Some (Inr _, m3) \<Rightarrow> Some (require_locked name (sleep 0 m3)))))"

text \<open>\<open>eager_load_services\<close>: errors of single services are logged.\<close>

fun eager_load_services :: "'w plugin_env \<Rightarrow> 'w manager sleep \<Rightarrow> string list \<Rightarrow> 'w manager \<Rightarrow> 'w manager option" where
  "eager_load_services env sleep [] m = Some m"
| "eager_load_services env sleep (api # apis) m =
     (case require env sleep api m of
        None \<Rightarrow> None
      | Some (r, m') \<Rightarrow> eager_load_services env sleep apis m')"

subsection \<open>Stopping services\<close>

text \<open>The loaded services among the given ones, all available ones if none are given.\<close>

definition loaded_services :: "'w plugin_env \<Rightarrow> string list option \<Rightarrow> ('w manager, string list) prog" where
  "loaded_services env services =
     bind_s (case services of
               Some (s # ss) \<Rightarrow> return_s (s # ss)
             | _ \<Rightarrow> list_available env)
       (\<lambda>names m. (Inr (filter (\<lambda>s. container_of m s \<noteq> None) names), m))"

definition list_active_services :: "'w plugin_env \<Rightarrow> ('w manager, string list) prog" where
  "list_active_services env =
     bind_s (loaded_services env None) (\<lambda>names m.
       (Inr (map (\<lambda>s. plugin_name (co_service (the (container_of m s)))) (filter (\<lambda>s. state_of m s = Some Running) names)), m))"

definition stop_one :: "string \<Rightarrow> 'w manager \<Rightarrow> 'w manager" where
  "stop_one name m =
     (if state_of m name = Some Starting \<or> state_of m name = Some Running
      then snd (update_container name (\<lambda>cw. ((), container_stop cw)) m) else m)"

definition stop_services :: "'w plugin_env \<Rightarrow> string list option \<Rightarrow> ('w manager, unit) prog" where
  "stop_services env services =
     bind_s (loaded_services env services) (\<lambda>names m. (Inr (), fold stop_one names m))"

definition stop_all_services :: "'w plugin_env \<Rightarrow> ('w manager, unit) prog" where
  "stop_all_services env = stop_services env None"

text \<open>\<open>check_service_health\<close>: the comparison \<open>None == False\<close> is False.\<close>

definition check_service_health :: "'w plugin_env \<Rightarrow> string \<Rightarrow> bool \<Rightarrow> ('w manager, unit) prog" where
  "check_service_health env api expect_shutdown =
     bind_s (check env api) (\<lambda>status.
       if status = Some expect_shutdown then raise_s (UserError ''Exception'' ''Service check failed'') else return_s ())"

subsection \<open>The transition relation of a container\<close>

text \<open>
  What can happen to a container: it starts when it was available or stopped, it stops when it was
  starting or running, a check decides between running and error, and an error is always recorded.
\<close>

inductive container_step :: "'w container \<Rightarrow> 'w container \<Rightarrow> bool" where
  begin_start: "co_state c \<in> {Available, Stopped} \<Longrightarrow> container_step c (c\<lparr>co_state := Starting\<rparr>)"
| checked: "co_state c \<in> {Starting, Running, Error} \<Longrightarrow> container_step c (c\<lparr>co_state := Running\<rparr>)"
| begin_stop: "co_state c \<in> {Starting, Running} \<Longrightarrow> container_step c (c\<lparr>co_state := Stopping\<rparr>)"
| stopped: "co_state c = Stopping \<Longrightarrow> container_step c (c\<lparr>co_state := Stopped\<rparr>)"
| fails: "co_state c \<in> {Starting, Running, Stopping, Error} \<Longrightarrow> container_step c (failed e c)"

text \<open>The containers of a manager move along the relation, none is lost and new ones are fresh.\<close>

definition fresh_container :: "string \<Rightarrow> 'w container \<Rightarrow> bool" where
  "fresh_container name c \<longleftrightarrow>
     co_state c \<in> {Available, Disabled} \<and> co_errors c = [] \<and> plugin_name (co_service c) = name"

definition evolves :: "'w manager \<Rightarrow> 'w manager \<Rightarrow> bool" where
  "evolves m m' \<longleftrightarrow>
     (\<forall>name c. container_of m name = Some c \<longrightarrow> (\<exists>c'. container_of m' name = Some c' \<and> container_step\<^sup>*\<^sup>* c c'))
     \<and> (\<forall>name c'. container_of m name = None \<longrightarrow> container_of m' name = Some c' \<longrightarrow>
          (\<exists>c0. fresh_container name c0 \<and> container_step\<^sup>*\<^sup>* c0 c'))"

subsection \<open>Lemmas: programs that only look\<close>

definition quiet :: "('w manager, 'a) prog \<Rightarrow> bool" where
  "quiet p \<longleftrightarrow> (\<forall>m. mg_services (snd (p m)) = mg_services m)"

lemma quietD: "quiet p \<Longrightarrow> p m = (r, m') \<Longrightarrow> mg_services m' = mg_services m"
  unfolding quiet_def by (metis snd_conv)

lemma quiet_bind [intro]: "quiet p \<Longrightarrow> (\<And>x. quiet (f x)) \<Longrightarrow> quiet (bind_s p f)"
  by (auto simp: quiet_def bind_s_def split: prod.split sum.split) (metis snd_conv)+

lemma quiet_return [simp, intro]: "quiet (return_s x)" "quiet (raise_s e)"
  by (simp_all add: quiet_def)

lemma quiet_Pair [simp, intro]: "quiet (Pair r)"
  by (simp add: quiet_def)

lemma quiet_specs [intro]: "quiet (api_provider_specs env)"
  by (simp add: quiet_def api_provider_specs_def split: option.split sum.split)

lemma quiet_available [intro]: "quiet (list_available env)" "quiet (exists_service env name)" "quiet (api_enabled env name)"
  unfolding list_available_def exists_service_def api_enabled_def by blast+

lemma quiet_get_state [intro]: "quiet (get_state env name)"
proof -
  have q: "quiet (bind_s (api_enabled env name) (\<lambda>en. return_s (Some (if en then Available else Disabled))))"
    by (intro quiet_bind quiet_available quiet_return)
  have "quiet (\<lambda>m'. case has_errors (dict_keys (mg_errors m')) name (Some (get_active_provider env name)) of
               Inl e \<Rightarrow> (Inl e, m')
             | Inr True \<Rightarrow> (Inr (Some Error), m')
             | Inr False \<Rightarrow> bind_s (api_enabled env name) (\<lambda>en. return_s (Some (if en then Available else Disabled))) m')"
    using q by (auto simp: quiet_def split: sum.split bool.split)
  then have "quiet (bind_s (exists_service env name) (\<lambda>known.
        if \<not> known then return_s None
        else (\<lambda>m'. case has_errors (dict_keys (mg_errors m')) name (Some (get_active_provider env name)) of
               Inl e \<Rightarrow> (Inl e, m')
             | Inr True \<Rightarrow> (Inr (Some Error), m')
             | Inr False \<Rightarrow> bind_s (api_enabled env name) (\<lambda>en. return_s (Some (if en then Available else Disabled))) m')))"
    by (auto intro!: quiet_bind)
  then show ?thesis by (auto simp: quiet_def get_state_def)
qed

lemma quiet_load [intro]: "quiet (load_service_plugin env name)"
  unfolding load_service_plugin_def
  by (intro quiet_bind quiet_specs) (auto simp: quiet_def Let_def split: prod.split sum.split)

lemma container_of_cong: "mg_services m' = mg_services m \<Longrightarrow> container_of m' = container_of m"
  by (simp add: container_of_def fun_eq_iff)

subsection \<open>Lemmas: containers move along the relation\<close>

lemma container_check_steps:
  assumes "co_state c \<in> {Starting, Running, Error}" and "container_check (c, w) = (b, c', w')"
  shows "container_step c c'" and "b \<longleftrightarrow> co_state c' = Running"
  using assms by (auto simp: container_check_def failed_def split: prod.splits sum.splits
    intro: container_step.checked container_step.fails [unfolded failed_def])

lemma container_start_steps:
  assumes "co_state c \<in> {Available, Stopped}" and "container_start (c, w) = (b, c', w')"
  shows "container_step\<^sup>*\<^sup>* c c'" and "b \<longleftrightarrow> co_state c' = Running"
proof -
  let ?c = "c\<lparr>co_state := Starting\<rparr>"
  have 1: "container_step c ?c" using assms(1) by (rule container_step.begin_start)
  show "container_step\<^sup>*\<^sup>* c c'"
  proof (cases "service_start (co_service ?c) w")
    case (Pair r w1)
    show ?thesis
    proof (cases r)
      case (Inl e)
      have "container_step ?c (failed e ?c)" by (rule container_step.fails) simp
      with 1 assms(2) Pair Inl show ?thesis by (auto simp: container_start_def Let_def)
    next
      case (Inr u)
      then have "container_check (?c, w1) = (b, c', w')" using assms(2) Pair by (simp add: container_start_def Let_def)
      from container_check_steps(1) [OF _ this] 1 show ?thesis by auto
    qed
  qed
  show "b \<longleftrightarrow> co_state c' = Running"
    using assms(2) by (auto simp: container_start_def container_check_def failed_def Let_def split: prod.splits sum.splits)
qed

lemma container_stop_steps:
  assumes "co_state c \<in> {Starting, Running}" and "container_stop (c, w) = (c', w')"
  shows "container_step\<^sup>*\<^sup>* c c'" and "co_state c' \<in> {Stopped, Error}"
proof -
  let ?c = "c\<lparr>co_state := Stopping\<rparr>"
  have 1: "container_step c ?c" using assms(1) by (rule container_step.begin_stop)
  have 2: "container_step ?c (?c\<lparr>co_state := Stopped\<rparr>)" "container_step ?c (failed e ?c)" for e
    by (rule container_step.stopped container_step.fails; simp)+
  from assms(2) have "c' = ?c\<lparr>co_state := Stopped\<rparr> \<or> (\<exists>e. c' = failed e ?c)"
    by (auto simp: container_stop_def Let_def split: prod.splits sum.splits)
  with 1 2 show "container_step\<^sup>*\<^sup>* c c'" by (meson converse_rtranclp_into_rtranclp r_into_rtranclp)
  show "co_state c' \<in> {Stopped, Error}"
    using assms(2) by (auto simp: container_stop_def failed_def Let_def split: prod.splits sum.splits)
qed

text \<open>What the relation keeps: the service, the recorded errors, and never leaving DISABLED.\<close>

lemma steps_keep:
  assumes "container_step\<^sup>*\<^sup>* c c'"
  shows "co_service c' = co_service c" and "co_state c = Disabled \<Longrightarrow> c' = c"
    and "co_state c \<noteq> Unknown \<Longrightarrow> co_state c' \<noteq> Unknown"
    and "(co_state c = Error \<longrightarrow> co_errors c \<noteq> []) \<Longrightarrow> (co_state c' = Error \<longrightarrow> co_errors c' \<noteq> [])"
    and "length (co_errors c) \<le> length (co_errors c')"
  using assms by (induction, auto simp: failed_def elim!: container_step.cases)

lemma evolvesD:
  assumes "evolves m m'"
  shows "container_of m name = Some c \<Longrightarrow> \<exists>c'. container_of m' name = Some c' \<and> container_step\<^sup>*\<^sup>* c c'"
    and "container_of m name = None \<Longrightarrow> container_of m' name = Some c' \<Longrightarrow>
      \<exists>c0. fresh_container name c0 \<and> container_step\<^sup>*\<^sup>* c0 c'"
  using assms unfolding evolves_def by blast+

lemma evolves_refl: "evolves m m"
  by (auto simp: evolves_def)

lemma evolves_trans:
  assumes 1: "evolves m m'" and 2: "evolves m' m''"
  shows "evolves m m''"
  unfolding evolves_def
proof (intro conjI allI impI)
  fix name c assume "container_of m name = Some c"
  then show "\<exists>c'. container_of m'' name = Some c' \<and> container_step\<^sup>*\<^sup>* c c'"
    using evolvesD(1) [OF 1] evolvesD(1) [OF 2] by (meson rtranclp_trans)
next
  fix name c'' assume none: "container_of m name = None" and some: "container_of m'' name = Some c''"
  show "\<exists>c0. fresh_container name c0 \<and> container_step\<^sup>*\<^sup>* c0 c''"
  proof (cases "container_of m' name")
    case None
    then show ?thesis using evolvesD(2) [OF 2 _ some] by blast
  next
    case (Some c')
    then have "container_step\<^sup>*\<^sup>* c' c''" using evolvesD(1) [OF 2 Some] some by auto
    with evolvesD(2) [OF 1 none Some] show ?thesis by (meson rtranclp_trans)
  qed
qed

lemma evolves_same:
  assumes "mg_services m' = mg_services m"
  shows "evolves m m'"
  using evolves_refl [of m] unfolding evolves_def container_of_cong [OF assms] .

text \<open>An update of one container along the relation.\<close>

lemma evolves_update:
  assumes "container_of m name = Some c" and "f (c, mg_world m) = (x, c', w)" and "container_step\<^sup>*\<^sup>* c c'"
  shows "\<exists>m'. update_container name f m = (Inr x, m') \<and> evolves m m' \<and> container_of m' name = Some c' \<and> mg_world m' = w"
  using assms by (auto simp: update_container_def evolves_def container_of_def dict_get_set split: option.split)

text \<open>
  The convention of the plugin framework: the plugin \<open>name:provider\<close> creates the service \<open>name\<close>.
\<close>

definition plugins_ok :: "'w plugin_env \<Rightarrow> bool" where
  "plugins_ok env \<longleftrightarrow>
     (\<forall>name provider w events s w'. pe_load env (name @ '':'' @ provider) w = (Inr (events, Inr (Some s)), w') \<longrightarrow> plugin_name s = name)"

lemma load_service_plugin_name:
  assumes "plugins_ok env" and "load_service_plugin env name m = (Inr (Some s), m')"
  shows "plugin_name s = name"
proof -
  obtain specs m1 where "api_provider_specs env m = (Inr specs, m1)"
    using assms(2) by (auto simp: load_service_plugin_def bind_s_result)
  with assms(2) obtain provider events w' where
      "pe_load env (name @ '':'' @ provider) (mg_world m1) = (Inr (events, Inr (Some s)), w')"
    unfolding load_service_plugin_def by (auto simp: Let_def split: prod.splits sum.splits if_splits)
  with assms(1) show ?thesis unfolding plugins_ok_def by blast
qed

text \<open>Loading a container keeps the ones there are; the new one is fresh.\<close>

lemma get_service_container_evolves:
  assumes ok: "plugins_ok env" and get: "get_service_container env name m = (r, m')"
  shows "evolves m m'" and "r = Inr (Some c) \<Longrightarrow> container_of m' name = Some c"
    and "container_of m name = Some c \<Longrightarrow> r = Inr (Some c) \<and> m' = m"
proof -
  show "container_of m name = Some c \<Longrightarrow> r = Inr (Some c) \<and> m' = m"
    using get by (simp add: get_service_container_def)
  have "evolves m m' \<and> (\<forall>c. r = Inr (Some c) \<longrightarrow> container_of m' name = Some c)"
  proof (cases "container_of m name")
    case (Some c)
    with get show ?thesis by (auto simp: get_service_container_def evolves_refl)
  next
    case None
    let ?add = "\<lambda>s. bind_s (add_service env s) (\<lambda>_ m'. (Inr (container_of m' name), m'))"
    have get': "bind_s (exists_service env name) (\<lambda>known.
            if \<not> known then return_s None
            else bind_s (load_service_plugin env name) (\<lambda>service. case service of None \<Rightarrow> return_s None | Some s \<Rightarrow> ?add s)) m = (r, m')"
      using get None by (simp add: get_service_container_def)
    obtain r1 m1 where 1: "exists_service env name m = (r1, m1)" by (cases "exists_service env name m")
    obtain r2 m2 where 2: "load_service_plugin env name m1 = (r2, m2)" by (cases "load_service_plugin env name m1")
    have same1: "mg_services m1 = mg_services m" using quietD [OF quiet_available(2) 1] .
    have same2: "mg_services m2 = mg_services m" using quietD [OF quiet_load 2] same1 by simp
    show ?thesis
    proof (cases "r1 = Inr True \<and> (\<exists>s. r2 = Inr (Some s))")
      case False
      then have "(m' = m1 \<or> m' = m2) \<and> (\<forall>c. r \<noteq> Inr (Some c))"
        using get' 1 2 by (cases r1; cases r2) (auto simp: bind_s_def split: option.splits if_splits)
      with same1 same2 show ?thesis by (auto intro: evolves_same)
    next
      case True
      then obtain s where s: "r1 = Inr True" "r2 = Inr (Some s)" by blast
      have name: "plugin_name s = name" using load_service_plugin_name [OF ok] 2 s(2) by simp
      have get2: "?add s m2 = (r, m')" using get' 1 2 s by (simp add: bind_s_def)
      obtain r3 m3 where 3: "api_enabled env name m2 = (r3, m3)" by (cases "api_enabled env name m2")
      have same3: "mg_services m3 = mg_services m" using quietD [OF quiet_available(3) 3] same2 by simp
      show ?thesis
      proof (cases r3)
        case (Inl e)
        with get2 3 have "m' = m3" "r = Inl e" by (auto simp: add_service_def name bind_s_def)
        with same3 show ?thesis by (auto intro: evolves_same)
      next
        case (Inr en)
        let ?c = "new_container s (if en then Available else Disabled)"
        have m': "m' = m3\<lparr>mg_services := dict_set name ?c (mg_services m3)\<rparr>" "r = Inr (container_of m' name)"
          using get2 3 Inr by (auto simp: add_service_def name bind_s_def)
        have "container_of m' n = (if n = name then Some ?c else container_of m n)" for n
          by (simp add: m'(1) container_of_def dict_get_set same3)
        then have "evolves m m'" "container_of m' name = Some ?c"
          using None name by (auto simp: evolves_def fresh_container_def new_container_def
            intro!: exI [of _ ?c, unfolded new_container_def])
        with m'(2) show ?thesis by simp
      qed
    qed
  qed
  then show "evolves m m'" "r = Inr (Some c) \<Longrightarrow> container_of m' name = Some c" by blast+
qed

subsection \<open>Lemmas: requiring and stopping\<close>

text \<open>The other threads obey the transition relation too.\<close>

definition orderly :: "'w manager sleep \<Rightarrow> bool" where
  "orderly sleep \<longleftrightarrow> (\<forall>t m. evolves m (sleep t m))"

lemma orderly_iterate: "orderly sleep \<Longrightarrow> evolves m ((sleep t ^^ k) m)"
  by (induction k) (auto simp: orderly_def intro: evolves_refl evolves_trans)

lemma wait_for_cases:
  obtains k where "wait_for sleep name busy ready m = Some (Inr (), (sleep (1 / 2) ^^ k) m)"
      "ready (state_of ((sleep (1 / 2) ^^ k) m) name) \<or> (k = 0 \<and> state_of m name \<noteq> Some busy)"
  | k where "wait_for sleep name busy ready m = Some (Inl TimeoutError, (sleep (1 / 2) ^^ k) m)"
proof (cases "state_of m name = Some busy")
  case False
  then have "wait_for sleep name busy ready m = Some (Inr (), (sleep (1 / 2) ^^ 0) m)" by (simp add: wait_for_def)
  with False that(1) show ?thesis by blast
next
  case True
  obtain b k where r: "poll_condition sleep (reads (\<lambda>m. ready (state_of m name))) (Some 30) (1 / 2) m
      = Some (Inr b, (sleep (1 / 2) ^^ k) m)" "b \<longrightarrow> ready (state_of ((sleep (1 / 2) ^^ k) m) name)"
    using poll_condition_result [of "1 / 2" sleep "\<lambda>m. ready (state_of m name)" 30 m] by auto
  then have "wait_for sleep name busy ready m = Some (if b then Inr () else Inl TimeoutError, (sleep (1 / 2) ^^ k) m)"
    using True by (simp add: wait_for_def)
  with r(2) that show ?thesis by (cases b) auto
qed

text \<open>The outcomes of \<open>require\<close>: it fails while it looks up or waits, or it reaches the locked part.\<close>

lemma require_cases:
  obtains (fails) r1 m1 e k j where "get_service_container env name m = (r1, m1)"
      "require env sleep name m = Some (Inl e, (sleep (1 / 2) ^^ j) ((sleep (1 / 2) ^^ k) m1))"
  | (locked) r1 m1 k j where "get_service_container env name m = (r1, m1)"
      "require env sleep name m = Some (require_locked name (sleep 0 ((sleep (1 / 2) ^^ j) ((sleep (1 / 2) ^^ k) m1))))"
proof -
  obtain r1 m1 where get: "get_service_container env name m = (r1, m1)" by (cases "get_service_container env name m")
  consider (err) e where "require env sleep name m = Some (Inl e, m1)" | (found) c where "r1 = Inr (Some c)"
    using get by (cases r1; cases "projr r1") (simp_all add: require_def)
  then show ?thesis
  proof cases
    case (err e)
    then have "require env sleep name m = Some (Inl e, (sleep (1 / 2) ^^ 0) ((sleep (1 / 2) ^^ 0) m1))" by simp
    with fails get show ?thesis by blast
  next
    case (found c)
    let ?w = "wait_for sleep name Starting (\<lambda>s. s \<noteq> Some Starting) m1"
    show ?thesis
    proof (cases rule: wait_for_cases [of sleep name Starting "\<lambda>s. s \<noteq> Some Starting" m1])
      case (2 k)
      then have "require env sleep name m = Some (Inl TimeoutError, (sleep (1 / 2) ^^ 0) ((sleep (1 / 2) ^^ k) m1))"
        using get found by (simp add: require_def)
      with fails get show ?thesis by blast
    next
      case (1 k)
      let ?m2 = "(sleep (1 / 2) ^^ k) m1"
      show ?thesis
      proof (cases rule: wait_for_cases [of sleep name Stopping "\<lambda>s. s = Some Stopped" ?m2])
        case (1 j)
        with \<open>?w = Some (Inr (), ?m2)\<close> have "require env sleep name m = Some (require_locked name (sleep 0 ((sleep (1 / 2) ^^ j) ?m2)))"
          using get found by (simp add: require_def)
        with locked get show ?thesis by blast
      next
        case (2 j)
        with \<open>?w = Some (Inr (), ?m2)\<close> have "require env sleep name m = Some (Inl TimeoutError, (sleep (1 / 2) ^^ j) ?m2)"
          using get found by (simp add: require_def)
        with fails get show ?thesis by blast
      qed
    qed
  qed
qed

lemma start_required_facts:
  assumes "container_of m name = Some c" and "co_state c \<in> {Available, Stopped}"
  shows "evolves m (snd (start_required name m))"
    and "fst (start_required name m) = Inr s \<Longrightarrow> \<exists>c'. container_of (snd (start_required name m)) name = Some c' \<and> co_state c' = Running \<and> co_service c' = s"
proof -
  obtain b c' w where st: "container_start (c, mg_world m) = (b, c', w)" by (cases "container_start (c, mg_world m)")
  note steps = container_start_steps [OF assms(2) st]
  obtain m' where u: "update_container name container_start m = (Inr b, m')" "evolves m m'" "container_of m' name = Some c'"
    using evolves_update [where f = container_start, OF assms(1) st steps(1)] by blast
  then show "evolves m (snd (start_required name m))" by (simp add: start_required_def)
  show "fst (start_required name m) = Inr s \<Longrightarrow> \<exists>c'. container_of (snd (start_required name m)) name = Some c' \<and> co_state c' = Running \<and> co_service c' = s"
    using u(1,3) steps(2) by (auto simp: start_required_def split: if_splits)
qed

lemma require_locked_facts:
  shows "evolves m (snd (require_locked name m))"
    and "fst (require_locked name m) = Inr s \<Longrightarrow> \<exists>c'. container_of (snd (require_locked name m)) name = Some c' \<and> co_state c' = Running \<and> co_service c' = s"
  using start_required_facts [of m name] by (cases "container_of m name"; cases "co_state (the (container_of m name))";
    auto simp: require_locked_def evolves_refl)+

lemma require_evolves:
  assumes "plugins_ok env" and "orderly sleep" and "require env sleep name m = Some (r, m')"
  shows "evolves m m'"
proof -
  note get = get_service_container_evolves(1) [OF assms(1)]
  note it = orderly_iterate [OF assms(2)]
  have 0: "evolves m (sleep 0 m)" for m using assms(2) by (simp add: orderly_def)
  show ?thesis
  proof (cases rule: require_cases [of env name m sleep])
    case (fails r1 m1 e k j)
    with assms(3) have "m' = (sleep (1 / 2) ^^ j) ((sleep (1 / 2) ^^ k) m1)" by simp
    with get [OF fails(1)] it show ?thesis by (metis evolves_trans)
  next
    case (locked r1 m1 k j)
    let ?m = "sleep 0 ((sleep (1 / 2) ^^ j) ((sleep (1 / 2) ^^ k) m1))"
    have "evolves m ?m" using get [OF locked(1)] it 0 by (metis evolves_trans)
    moreover have "m' = snd (require_locked name ?m)" using assms(3) locked(2) by (metis option.inject snd_conv)
    ultimately show ?thesis using require_locked_facts(1) by (metis evolves_trans)
  qed
qed

lemma stop_one_facts:
  shows "evolves m (stop_one name m)" and "state_of (stop_one name m) name \<notin> {Some Starting, Some Running}"
    and "n \<noteq> name \<or> state_of m n \<notin> {Some Starting, Some Running} \<Longrightarrow> container_of (stop_one name m) n = container_of m n"
proof -
  have "evolves m (stop_one name m) \<and> state_of (stop_one name m) name \<notin> {Some Starting, Some Running}
    \<and> (\<forall>n. n \<noteq> name \<or> state_of m n \<notin> {Some Starting, Some Running} \<longrightarrow> container_of (stop_one name m) n = container_of m n)"
  proof (cases "state_of m name \<in> {Some Starting, Some Running}")
    case False
    then show ?thesis by (auto simp: stop_one_def evolves_refl)
  next
    case True
    then obtain c where c: "container_of m name = Some c" "co_state c \<in> {Starting, Running}" by (auto simp: state_of_def)
    obtain c' w where st: "container_stop (c, mg_world m) = (c', w)" by (cases "container_stop (c, mg_world m)")
    let ?m = "m\<lparr>mg_services := dict_set name c' (mg_services m), mg_world := w\<rparr>"
    have m: "stop_one name m = ?m" using True by (auto simp: stop_one_def update_container_def c(1) st)
    have cs: "container_of ?m n = (if n = name then Some c' else container_of m n)" for n
      by (simp add: container_of_def dict_get_set)
    have "evolves m ?m"
      using container_stop_steps(1) [OF c(2) st] c(1) unfolding evolves_def cs by auto
    moreover have "state_of ?m name \<notin> {Some Starting, Some Running}"
      using container_stop_steps(2) [OF c(2) st] by (auto simp: state_of_def cs)
    ultimately show ?thesis using True unfolding m cs by auto
  qed
  then show "evolves m (stop_one name m)" "state_of (stop_one name m) name \<notin> {Some Starting, Some Running}"
    "n \<noteq> name \<or> state_of m n \<notin> {Some Starting, Some Running} \<Longrightarrow> container_of (stop_one name m) n = container_of m n"
    by blast+
qed

lemma fold_stop_facts:
  shows "evolves m (fold stop_one names m)"
    and "name \<in> set names \<or> state_of m name \<notin> {Some Starting, Some Running} \<Longrightarrow>
      state_of (fold stop_one names m) name \<notin> {Some Starting, Some Running}"
    and "n \<notin> set names \<or> state_of m n \<notin> {Some Starting, Some Running} \<Longrightarrow> container_of (fold stop_one names m) n = container_of m n"
proof (induction names arbitrary: m)
  case (Cons x names)
  {
    case 1
    show ?case using Cons.IH(1) [of "stop_one x m"] stop_one_facts(1) [of m x] by (auto intro: evolves_trans)
  next
    case 2
    show ?case
    proof (cases "name = x")
      case True
      then show ?thesis using Cons.IH(2) [where m = "stop_one x m"] stop_one_facts(2) [of x m] by simp
    next
      case False
      then have "state_of (stop_one x m) name = state_of m name"
        using stop_one_facts(3) [of name x m] by (simp add: state_of_def)
      with False 2 show ?thesis using Cons.IH(2) [where m = "stop_one x m"] by auto
    qed
  next
    case 3
    have "container_of (stop_one x m) n = container_of m n" using stop_one_facts(3) [of n x m] 3 by auto
    then have "container_of (fold stop_one names (stop_one x m)) n = container_of (stop_one x m) n"
      using Cons.IH(3) [where m = "stop_one x m"] 3 by (auto simp: state_of_def)
    with \<open>container_of (stop_one x m) n = container_of m n\<close> show ?case by simp
  }
qed (simp_all add: evolves_refl)

lemma quiet_loaded [intro]: "quiet (loaded_services env services)"
proof -
  have "quiet (\<lambda>m. (Inr (filter (\<lambda>s. container_of m s \<noteq> None) names), m))" for names by (simp add: quiet_def)
  then show ?thesis unfolding loaded_services_def by (intro quiet_bind) (auto split: option.split list.split)
qed

lemma stop_services_evolves: "evolves m (snd (stop_services env services m))"
proof -
  obtain r m1 where 1: "loaded_services env services m = (r, m1)" by (cases "loaded_services env services m")
  then have "evolves m m1" by (intro evolves_same quietD [OF quiet_loaded])
  with 1 show ?thesis
    by (cases r) (auto simp: stop_services_def intro: evolves_trans fold_stop_facts(1))
qed

text \<open>A check of a container that exists, in a state in which \<open>check\<close> reaches it.\<close>

lemma check_evolves:
  assumes ok: "plugins_ok env" and c: "container_of m name = Some c"
  shows "evolves m (snd (check env name m))"
proof (cases "co_state c \<in> {Running, Error}")
  case False
  then show ?thesis using c by (auto simp: check_def get_state_def state_of_def bind_s_def evolves_refl)
next
  case True
  obtain b c' w where st: "container_check (c, mg_world m) = (b, c', w)" by (cases "container_check (c, mg_world m)")
  have "container_step c c'" using container_check_steps(1) [OF _ st] True by auto
  then obtain m' where "update_container name container_check m = (Inr b, m')" "evolves m m'"
    using evolves_update [where f = container_check, OF c st] by blast
  with True c show ?thesis by (auto simp: check_def get_state_def state_of_def bind_s_def get_service_container_def)
qed

text \<open>The operations of a manager whose containers are asked about by name.\<close>

inductive operation :: "'w plugin_env \<Rightarrow> 'w manager sleep \<Rightarrow> 'w manager \<Rightarrow> 'w manager \<Rightarrow> bool" for env sleep where
  requires: "require env sleep name m = Some (r, m') \<Longrightarrow> operation env sleep m m'"
| stops: "stop_services env services m = (r, m') \<Longrightarrow> operation env sleep m m'"
| checks: "container_of m name \<noteq> None \<Longrightarrow> check env name m = (r, m') \<Longrightarrow> operation env sleep m m'"
| looks: "get_states env m = (r, m') \<Longrightarrow> operation env sleep m m'"

lemma quiet_states: "quiet (get_states env)"
proof -
  have "quiet (states_of env names)" for names by (induction names) (auto intro: quiet_bind)
  then show ?thesis unfolding get_states_def by (intro quiet_bind quiet_available)
qed

lemma operation_evolves:
  assumes "plugins_ok env" and "orderly sleep" and "operation env sleep m m'"
  shows "evolves m m'"
  using assms(3)
proof cases
  case requires
  then show ?thesis using require_evolves assms(1,2) by blast
next
  case (stops services r)
  then show ?thesis using stop_services_evolves [of m env services] by simp
next
  case (checks name r)
  then show ?thesis using check_evolves [OF assms(1)] by (metis not_None_eq snd_conv)
next
  case looks
  then show ?thesis using evolves_same quietD [OF quiet_states] by blast
qed

lemma operations_evolve:
  assumes "plugins_ok env" and "orderly sleep" and "(operation env sleep)\<^sup>*\<^sup>* m m'"
  shows "evolves m m'"
  using assms(3)
  by induction (auto intro: evolves_refl evolves_trans operation_evolves [OF assms(1,2)])

subsection \<open>Properties\<close>

text \<open>
  C13: \<open>require\<close> always returns, whatever the other threads do: it hands out a service or raises, and a
  service it hands out is the one of the container stored under the name, which is running.
\<close>

theorem require_running_or_error:
  "\<exists>r m'. require env sleep name m = Some (r, m')
    \<and> (case r of Inl e \<Rightarrow> True
       | Inr s \<Rightarrow> state_of m' name = Some Running \<and> map_option co_service (container_of m' name) = Some s)"
proof (cases rule: require_cases [of env name m sleep])
  case (fails r1 m1 e k j)
  then show ?thesis by auto
next
  case (locked r1 m1 k j)
  let ?m = "sleep 0 ((sleep (1 / 2) ^^ j) ((sleep (1 / 2) ^^ k) m1))"
  obtain r m' where rm: "require_locked name ?m = (r, m')" by (cases "require_locked name ?m")
  show ?thesis
  proof (cases r)
    case (Inl e)
    with locked(2) rm show ?thesis by auto
  next
    case (Inr s)
    with require_locked_facts(2) [of name ?m s] locked(2) rm show ?thesis by (auto simp: state_of_def)
  qed
qed


text \<open>
  \<open>stop_all_services\<close> leaves no available service starting or running, also when a stop function
  fails, and it does not touch the containers that were neither.
\<close>

theorem stop_all_services_stops:
  assumes "stop_all_services env m = (Inr u, m')" and "list_available env m = (Inr available, m1)"
  shows "list_all (\<lambda>name. state_of m' name \<notin> {Some Starting, Some Running}) available
    \<and> (state_of m n \<in> {Some Starting, Some Running} \<or> container_of m' n = container_of m n)"
proof -
  let ?names = "filter (\<lambda>s. container_of m1 s \<noteq> None) available"
  have same: "container_of m1 = container_of m"
    by (rule container_of_cong) (rule quietD [OF quiet_available(1) assms(2)])
  have m': "m' = fold stop_one ?names m1"
    using assms by (auto simp: stop_all_services_def stop_services_def loaded_services_def bind_s_def)
  have "state_of m' name \<notin> {Some Starting, Some Running}" if "name \<in> set available" for name
  proof (cases "container_of m1 name")
    case None
    then show ?thesis using fold_stop_facts(2) [of name ?names m1] by (simp add: m' state_of_def)
  next
    case (Some c)
    then show ?thesis using fold_stop_facts(2) [of name ?names m1] that by (simp add: m')
  qed
  moreover have "container_of m' n = container_of m n" if "state_of m n \<notin> {Some Starting, Some Running}"
    using fold_stop_facts(3) [of n ?names m1] that same by (auto simp: m' state_of_def)
  ultimately show ?thesis by (auto simp: list_all_iff)
qed

subsection \<open>Concrete managers\<close>

text \<open>A service that counts its starts and stops in the world; its plugin always loads.\<close>

definition example_service :: "nat service" where
  "example_service =
     \<lparr>plugin_name = ''sqs'', start_function = StartWith (\<lambda>listener n. (Inr (), n + 1)), has_skeleton = True,
      check_function = None, stop_function = Some (\<lambda>n. (Inr (), n + 10)),
      on_before_start = return_s (), on_before_stop = raise_s RuntimeError\<rparr>"

definition example_env :: "nat plugin_env" where
  "example_env =
     \<lparr>pe_config = new_provider_config ''default'', pe_environ = [], pe_specs = [''sqs:default''],
      pe_load = (\<lambda>name w. if name = ''sqs:default'' then (Inr ([], Inr (Some example_service)), w) else (Inl KeyError, w))\<rparr>"

definition running_example :: "nat manager" where
  "running_example =
     \<lparr>mg_services = [(''sqs'', \<lparr>co_service = example_service, co_state = Running, co_errors = []\<rparr>)],
      mg_specs = Some [(''sqs'', [''default''])], mg_errors = [], mg_world = 1\<rparr>"

lemma example_plugins_ok: "plugins_ok example_env"
proof -
  have "name = ''sqs''" if "name @ CHR '':'' # provider = ''sqs:default''" for name provider
  proof -
    have "''sqs'' @ CHR '':'' # ''default'' = name @ CHR '':'' # provider" using that by simp
    then show ?thesis by (subst (asm) append_Cons_eq_iff) auto
  qed
  then show ?thesis by (auto simp: plugins_ok_def example_env_def example_service_def split: if_splits)
qed

lemma example_orderly: "orderly (\<lambda>t m. m)"
  by (simp add: orderly_def evolves_refl)

lemmas lookup_simps =
  get_service_container_def exists_service_def list_available_def api_provider_specs_def available_in_def
  get_active_provider_def load_service_plugin_def add_service_def api_enabled_def is_api_enabled_def
  get_enabled_apis_def resolve_apis_def resolve_in_def resolve_loop.simps entries_def get_provider_def
  new_provider_config_def container_of_def new_manager_def bind_s_def

lemma example_loads:
  "get_service_container example_env ''sqs'' (new_manager 0) =
     (Inr (Some (new_container example_service Available)),
      \<lparr>mg_services = [(''sqs'', new_container example_service Available)], mg_specs = Some [(''sqs'', [''default''])],
       mg_errors = [], mg_world = 0\<rparr>)"
  by (simp add: lookup_simps example_env_def example_service_def env_get_def strip_def API_COMPOSITES_def API_DEPENDENCIES_def)

lemma example_required:
  "require example_env (\<lambda>t m. m) ''sqs'' (new_manager 0) = Some (Inr example_service, running_example)"
  by (simp add: require_def example_loads wait_for_def state_of_def container_of_def new_container_def require_locked_def
      start_required_def update_container_def container_start_def container_check_def service_start_def service_check_def
      call_safe_def run_safe_def example_service_def running_example_def bind_s_def)


text \<open>The hook before the stop raises, the service is stopped all the same.\<close>

lemma stop_all_services_stops_witness:
  "state_of (snd (stop_all_services example_env running_example)) ''sqs'' \<notin> {Some Starting, Some Running}"
proof -
  have av: "list_available example_env running_example = (Inr [''sqs''], running_example)"
    by (simp add: lookup_simps example_env_def running_example_def)
  have "stop_all_services example_env running_example = (Inr (), snd (stop_all_services example_env running_example))"
    by (simp add: stop_all_services_def stop_services_def loaded_services_def av bind_s_def)
  from stop_all_services_stops [OF this av] show ?thesis by simp
qed

text \<open>A plugin that fails to load once and loads later, of an API that is not enabled.\<close>

definition flaky_env :: "nat plugin_env" where
  "flaky_env =
     \<lparr>pe_config = new_provider_config ''default'', pe_environ = [(''SERVICES'', ''sqs'')], pe_specs = [''s3:default''],
      pe_load = (\<lambda>name w. if w = 0 then (Inr ([OnLoadException name RuntimeError], Inl RuntimeError), 1)
                         else (Inr ([], Inr (Some (example_service\<lparr>plugin_name := ''s3''\<rparr>))), w))\<rparr>"

text \<open>
  The exception to the lifecycle: a failed load makes \<open>get_state\<close> report an error although no
  container exists, and the check that this lets through loads the plugin and marks the service as
  running although its API is disabled.
\<close>

theorem check_revives_disabled:
  defines "m1 \<equiv> snd (get_service_container flaky_env ''s3'' (new_manager 0))"
  shows "fst (api_enabled flaky_env ''s3'' m1) = Inr False
    \<and> fst (check flaky_env ''s3'' m1) = Inr (Some True)
    \<and> state_of (snd (check flaky_env ''s3'' m1)) ''s3'' = Some Running"
proof -
  have av: "strip ''sqs'' = ''sqs''" "strip [] = []" by code_simp+
  have m1: "m1 = \<lparr>mg_services = [], mg_specs = Some [(''s3'', [''default''])], mg_errors = [([''s3'', ''default''], RuntimeError)], mg_world = 1\<rparr>"
  proof -
    let ?m = "(new_manager 0)\<lparr>mg_specs := Some [(''s3'', [''default''])]\<rparr>"
    have ex: "exists_service flaky_env ''s3'' (new_manager 0) = (Inr True, ?m)"
      by (simp add: lookup_simps flaky_env_def)
    have "load_service_plugin flaky_env ''s3'' ?m
        = (Inl RuntimeError, ?m\<lparr>mg_world := 1, mg_errors := [([''s3'', ''default''], RuntimeError)]\<rparr>)"
      by (simp add: load_service_plugin_def api_provider_specs_def entries_def get_active_provider_def get_provider_def
          new_provider_config_def new_manager_def bind_s_def flaky_env_def get_key_def split_once_def Let_def)
    with ex show ?thesis
      by (simp add: m1_def get_service_container_def container_of_def bind_s_def new_manager_def)
  qed
  have en: "api_enabled flaky_env ''s3'' m = (Inr False, m)" if "mg_specs m = Some [(''s3'', [''default''])]" for m
    using that by (simp add: lookup_simps flaky_env_def env_get_def av env_services_def service_name_of_def is_env_not_false_def FALSE_STRINGS_def
        lower_def)
  let ?svc = "example_service\<lparr>plugin_name := ''s3''\<rparr>"
  let ?m2 = "m1\<lparr>mg_services := [(''s3'', new_container ?svc Disabled)]\<rparr>"
  have specs: "mg_specs m1 = Some [(''s3'', [''default''])]" and none: "mg_services m1 = []" by (simp_all add: m1)
  have ex: "exists_service flaky_env ''s3'' m1 = (Inr True, m1)"
    by (simp add: lookup_simps flaky_env_def specs)
  have ld: "load_service_plugin flaky_env ''s3'' m1 = (Inr (Some ?svc), m1)"
    by (simp add: load_service_plugin_def api_provider_specs_def entries_def get_active_provider_def get_provider_def
        new_provider_config_def bind_s_def flaky_env_def Let_def m1)
  have add: "add_service flaky_env ?svc m1 = (Inr True, ?m2)"
    using en [OF specs] by (simp add: add_service_def bind_s_def none)
  have get: "get_service_container flaky_env ''s3'' m1 = (Inr (Some (new_container ?svc Disabled)), ?m2)"
    by (simp add: get_service_container_def container_of_def none ex ld add bind_s_def)
  have st: "get_state flaky_env ''s3'' m1 = (Inr (Some Error), m1)"
    using ex by (simp add: get_state_def container_of_def bind_s_def m1 get_active_provider_def get_provider_def flaky_env_def new_provider_config_def)
  have "check flaky_env ''s3'' m1 = (Inr (Some True), ?m2\<lparr>mg_services := [(''s3'', (new_container ?svc Disabled)\<lparr>co_state := Running\<rparr>)]\<rparr>)"
    by (simp add: check_def st get bind_s_def update_container_def container_of_def container_check_def service_check_def
        new_container_def example_service_def)
  then show ?thesis by (simp add: en [OF specs] state_of_def container_of_def)
qed

text \<open>Only the first recorded provider of an API is compared with the one that is asked about.\<close>

lemma has_errors_first_only:
  "has_errors [[api, p], [api, q]] api (Some q) = Inr (q = [] \<or> p = q)"
  by simp

end
