(* ===== verification/ServiceLoader.thy ===== *)
theory ServiceLoader
  imports Dispatch ServiceLifecycle ServiceRouter
begin

text \<open>
  Lazy loading of services, \<open>aws/handlers/service_plugin.py\<close>: the loader asks the service manager for a
  running service and routes the operations of its skeleton, once per service. First the handler as one
  thread runs it, composed with the manager; then its accesses to the shared state as steps of several
  threads, with the invariant the lock of a service is there for, and what a request can still see.
\<close>

subsection \<open>The handler\<close>

text \<open>
  What \<open>require\<close> yields has a skeleton to attach, has none (the attribute is None), or is not a Service.
  The loader keeps the names of the services it loaded and the routes of the router.
\<close>

datatype 'v attachable = NotAService | NoSkeleton | WithSkeleton "'v skeleton"

record 'v loader =
  ld_loaded :: "string set"
  ld_routes :: "'v routes"

definition new_loader :: "'v loader" where
  "new_loader = \<lparr>ld_loaded = {}, ld_routes = []\<rparr>"

text \<open>The body of the \<open>with\<close> statement: without a skeleton, the attribute access on None raises.\<close>

definition attach_service :: "string \<Rightarrow> 'v attachable \<Rightarrow> 'v loader \<Rightarrow> unit result \<times> 'v loader" where
  "attach_service name plugin l =
     (if name \<in> ld_loaded l then (Inr (), l)
      else let l' = l\<lparr>ld_loaded := insert name (ld_loaded l)\<rparr>
           in case plugin of
                NotAService \<Rightarrow> (Inr (), l')
              | NoSkeleton \<Rightarrow> (Inl AttributeError, l')
              | WithSkeleton sk \<Rightarrow> (Inr (), l'\<lparr>ld_routes := add_skeleton sk (ld_routes l')\<rparr>))"

text \<open>A disabled plugin is an exception with the reason as its message.\<close>

definition plugin_disabled :: "exn \<Rightarrow> exn" where
  "plugin_disabled e =
     (if e = UserError ''PluginDisabled'' ''This feature is not part of the active license agreement''
      then UserError ''PluginNotIncludedInUserLicenseError'' '''' else e)"

text \<open>\<open>require_service\<close>; \<open>skeleton_of\<close> is the skeleton of a service, None stands for a call that never ends.\<close>

definition require_service ::
    "'w plugin_env \<Rightarrow> 'w manager sleep \<Rightarrow> ('w service \<Rightarrow> 'v attachable) \<Rightarrow> string option \<Rightarrow> 'w manager \<times> 'v loader
     \<Rightarrow> (unit result \<times> 'w manager \<times> 'v loader) option" where
  "require_service env sleep skeleton_of service st =
     (case (service, st) of
        (None, m, l) \<Rightarrow> Some (Inr (), m, l)
      | (Some name, m, l) \<Rightarrow>
          if name \<in> ld_loaded l then Some (Inr (), m, l)
          else
            (case exists_service env name m of
               (Inl e, m1) \<Rightarrow> Some (Inl e, m1, l)
             | (Inr False, m1) \<Rightarrow> Some (Inl NotImplementedError, m1, l)
             | (Inr True, m1) \<Rightarrow>
                 (case api_enabled env name m1 of
                    (Inl e, m2) \<Rightarrow> Some (Inl e, m2, l)
                  | (Inr False, m2) \<Rightarrow> Some (Inl NotImplementedError, m2, l)
                  | (Inr True, m2) \<Rightarrow>
                      (case require env sleep name m2 of
                         None \<Rightarrow> None
                       | Some (Inl e, m3) \<Rightarrow> Some (Inl (plugin_disabled e), m3, l)
                       | Some (Inr s, m3) \<Rightarrow> (let (r, l') = attach_service name (skeleton_of s) l in Some (r, m3, l'))))))"

text \<open>
  \<open>ServiceLoaderForDataPlane\<close>: \<open>determine\<close> is \<open>determine_aws_service_model_for_data_plane\<close> on the request;
  the result is the service of the context afterwards.
\<close>

definition load_for_data_plane ::
    "'w plugin_env \<Rightarrow> 'w manager sleep \<Rightarrow> ('w service \<Rightarrow> 'v attachable) \<Rightarrow> string option result \<Rightarrow> string option
     \<Rightarrow> 'w manager \<times> 'v loader \<Rightarrow> (unit result \<times> string option \<times> 'w manager \<times> 'v loader) option" where
  "load_for_data_plane env sleep skeleton_of determine service st =
     (if service \<noteq> None then Some (Inr (), service, st)
      else (case determine of
              Inl e \<Rightarrow> Some (Inl e, service, st)
            | Inr None \<Rightarrow> Some (Inr (), service, st)
            | Inr (Some s) \<Rightarrow>
                (case require_service env sleep skeleton_of (Some s) st of
                   None \<Rightarrow> None
                 | Some (r, st') \<Rightarrow> Some (r, Some s, st'))))"

subsection \<open>The handler on several threads\<close>

text \<open>
  A request on a thread: it checks whether its service is loaded, has the manager require it, waits for
  the lock, checks again and routes one operation after the other. \<open>AtRouter s waited\<close> is a request that
  goes on to the router, \<open>waited\<close> when it went through the lock.
\<close>

datatype 'v request_pc =
    Checking string
  | Requiring string
  | Acquiring string
  | Holding string
  | Attaching string "'v skeleton" "ustr list"
  | Leaving string "exn option"
  | AtRouter string bool
  | Failed string exn

record 'v loader_state = "'v loader" +
  ls_lock :: "string \<Rightarrow> nat option"
  ls_pc :: "nat \<Rightarrow> 'v request_pc"

definition goto :: "nat \<Rightarrow> 'v request_pc \<Rightarrow> 'v loader_state \<Rightarrow> 'v loader_state" where
  "goto t pc l = l\<lparr>ls_pc := (ls_pc l)(t := pc)\<rparr>"

definition set_lock :: "string \<Rightarrow> nat option \<Rightarrow> 'v loader_state \<Rightarrow> 'v loader_state" where
  "set_lock s holder l = l\<lparr>ls_lock := (ls_lock l)(s := holder)\<rparr>"

definition mark_loaded :: "string \<Rightarrow> 'v loader_state \<Rightarrow> 'v loader_state" where
  "mark_loaded s l = l\<lparr>ld_loaded := insert s (ld_loaded l)\<rparr>"

text \<open>After marking a service as loaded: what the plugin of the service, \<open>plugin s\<close>, has to attach.\<close>

definition attach_pc :: "string \<Rightarrow> 'v attachable \<Rightarrow> 'v request_pc" where
  "attach_pc s plugin =
     (case plugin of
        NotAService \<Rightarrow> Leaving s None
      | NoSkeleton \<Rightarrow> Leaving s (Some AttributeError)
      | WithSkeleton sk \<Rightarrow> Attaching s sk (dict_keys (sk_table sk)))"

inductive loader_step :: "(string \<Rightarrow> 'v attachable) \<Rightarrow> 'v loader_state \<Rightarrow> 'v loader_state \<Rightarrow> bool" for plugin where
  found: "ls_pc l t = Checking s \<Longrightarrow> s \<in> ld_loaded l \<Longrightarrow> loader_step plugin l (goto t (AtRouter s False) l)"
| missing: "ls_pc l t = Checking s \<Longrightarrow> s \<notin> ld_loaded l \<Longrightarrow> loader_step plugin l (goto t (Requiring s) l)"
| unavailable: "ls_pc l t = Requiring s \<Longrightarrow> loader_step plugin l (goto t (Failed s e) l)"
| required: "ls_pc l t = Requiring s \<Longrightarrow> loader_step plugin l (goto t (Acquiring s) l)"
| acquire: "ls_pc l t = Acquiring s \<Longrightarrow> ls_lock l s = None \<Longrightarrow> loader_step plugin l (goto t (Holding s) (set_lock s (Some t) l))"
| again: "ls_pc l t = Holding s \<Longrightarrow> s \<in> ld_loaded l \<Longrightarrow> loader_step plugin l (goto t (Leaving s None) l)"
| mark: "ls_pc l t = Holding s \<Longrightarrow> s \<notin> ld_loaded l \<Longrightarrow> loader_step plugin l (goto t (attach_pc s (plugin s)) (mark_loaded s l))"
| attach: "ls_pc l t = Attaching s sk (op # ops) \<Longrightarrow>
    loader_step plugin l (goto t (Attaching s sk ops) (l\<lparr>ld_routes := add_handler (sk_service sk, op) sk (ld_routes l)\<rparr>))"
| attached: "ls_pc l t = Attaching s sk [] \<Longrightarrow> loader_step plugin l (goto t (Leaving s None) l)"
| leave: "ls_pc l t = Leaving s None \<Longrightarrow> loader_step plugin l (goto t (AtRouter s True) (set_lock s None l))"
| fail: "ls_pc l t = Leaving s (Some e) \<Longrightarrow> loader_step plugin l (goto t (Failed s e) (set_lock s None l))"
| again_later: "ls_pc l t = AtRouter s b \<Longrightarrow> loader_step plugin l (goto t (Checking s') l)"
| retried: "ls_pc l t = Failed s e \<Longrightarrow> loader_step plugin l (goto t (Checking s') l)"

definition loader_start :: "(nat \<Rightarrow> string) \<Rightarrow> 'v loader_state" where
  "loader_start name = \<lparr>ld_loaded = {}, ld_routes = [], ls_lock = (\<lambda>_. None), ls_pc = (\<lambda>t. Checking (name t))\<rparr>"

definition loader_reachable :: "(string \<Rightarrow> 'v attachable) \<Rightarrow> 'v loader_state \<Rightarrow> bool" where
  "loader_reachable plugin l \<longleftrightarrow> (\<exists>name. (loader_step plugin)\<^sup>*\<^sup>* (loader_start name) l)"

text \<open>The operations of a skeleton that have their route.\<close>

definition routed :: "'v loader_state \<Rightarrow> string \<Rightarrow> 'v skeleton \<Rightarrow> ustr set \<Rightarrow> bool" where
  "routed l s sk ops \<longleftrightarrow> (\<forall>op \<in> ops. dict_get (ld_routes l) (cp s, op) = Some sk)"

fun holds :: "string \<Rightarrow> 'v request_pc \<Rightarrow> bool" where
  "holds s (Holding s') \<longleftrightarrow> s = s'"
| "holds s (Attaching s' sk ops) \<longleftrightarrow> s = s'"
| "holds s (Leaving s' e) \<longleftrightarrow> s = s'"
| "holds s _ \<longleftrightarrow> False"

definition skeletons_named :: "(string \<Rightarrow> 'v attachable) \<Rightarrow> bool" where
  "skeletons_named plugin \<longleftrightarrow> (\<forall>s sk. plugin s = WithSkeleton sk \<longrightarrow> sk_service sk = cp s)"

text \<open>
  The invariant: the lock of a service is held by the thread that is inside; a thread that attaches the
  operations of a service marked it and has routed all but the remaining ones; a request that went through
  the lock finds the routes of its service complete; those of a loaded service are, or are being attached.
\<close>

definition lock_inv :: "'v loader_state \<Rightarrow> bool" where
  "lock_inv l \<longleftrightarrow> (\<forall>s t. holds s (ls_pc l t) \<longleftrightarrow> ls_lock l s = Some t)"

definition attach_inv :: "(string \<Rightarrow> 'v attachable) \<Rightarrow> 'v loader_state \<Rightarrow> bool" where
  "attach_inv plugin l \<longleftrightarrow>
     (\<forall>t s sk ops. ls_pc l t = Attaching s sk ops \<longrightarrow>
        plugin s = WithSkeleton sk \<and> s \<in> ld_loaded l \<and> routed l s sk (set (dict_keys (sk_table sk)) - set ops))"

definition fully_routed :: "(string \<Rightarrow> 'v attachable) \<Rightarrow> 'v loader_state \<Rightarrow> string \<Rightarrow> bool" where
  "fully_routed plugin l s \<longleftrightarrow> s \<in> ld_loaded l \<and> (\<forall>sk. plugin s = WithSkeleton sk \<longrightarrow> routed l s sk (set (dict_keys (sk_table sk))))"

definition waited_inv :: "(string \<Rightarrow> 'v attachable) \<Rightarrow> 'v loader_state \<Rightarrow> bool" where
  "waited_inv plugin l \<longleftrightarrow> (\<forall>t s. ls_pc l t \<in> {AtRouter s True, Leaving s None} \<longrightarrow> fully_routed plugin l s)"

definition loaded_inv :: "(string \<Rightarrow> 'v attachable) \<Rightarrow> 'v loader_state \<Rightarrow> bool" where
  "loaded_inv plugin l \<longleftrightarrow> (\<forall>s \<in> ld_loaded l. fully_routed plugin l s \<or> (\<exists>t sk ops. ls_pc l t = Attaching s sk ops))"

subsection \<open>Lemmas: the invariant\<close>

lemma loader_simps [simp]:
  "ls_pc (goto t pc l) = (ls_pc l)(t := pc)" "ls_lock (goto t pc l) = ls_lock l" "ld_loaded (goto t pc l) = ld_loaded l"
  "ld_routes (goto t pc l) = ld_routes l"
  "ls_pc (set_lock s h l) = ls_pc l" "ls_lock (set_lock s h l) = (ls_lock l)(s := h)" "ld_loaded (set_lock s h l) = ld_loaded l"
  "ld_routes (set_lock s h l) = ld_routes l"
  "ls_pc (mark_loaded s l) = ls_pc l" "ls_lock (mark_loaded s l) = ls_lock l" "ld_loaded (mark_loaded s l) = insert s (ld_loaded l)"
  "ld_routes (mark_loaded s l) = ld_routes l"
  by (simp_all add: goto_def set_lock_def mark_loaded_def)

lemma attach_pc_holds [simp]: "holds s (attach_pc s' plugin) \<longleftrightarrow> s = s'"
  by (simp add: attach_pc_def split: attachable.split)

lemma attach_pc_eq:
  "attach_pc s plugin = Attaching s' sk ops \<longleftrightarrow> s = s' \<and> plugin = WithSkeleton sk \<and> ops = dict_keys (sk_table sk)"
  "attach_pc s plugin = Leaving s' None \<longleftrightarrow> s = s' \<and> plugin = NotAService"
  "attach_pc s plugin \<noteq> AtRouter s' b"
  by (auto simp: attach_pc_def split: attachable.split)

lemma lock_kept:
  "lock_inv l \<Longrightarrow> (\<And>s. holds s pc \<longleftrightarrow> holds s (ls_pc l t)) \<Longrightarrow> ls_pc l' = (ls_pc l)(t := pc) \<Longrightarrow> ls_lock l' = ls_lock l \<Longrightarrow> lock_inv l'"
  by (simp add: lock_inv_def)

lemma lock_taken:
  assumes "lock_inv l" "\<And>s'. \<not> holds s' (ls_pc l t)" "ls_lock l s = None"
    and "\<And>s'. holds s' pc \<longleftrightarrow> s' = s" "ls_pc l' = (ls_pc l)(t := pc)" "ls_lock l' = (ls_lock l)(s := Some t)"
  shows "lock_inv l'"
  using assms unfolding lock_inv_def by (metis fun_upd_apply option.distinct(1) option.inject)

lemma lock_released:
  assumes "lock_inv l" "\<And>s'. holds s' (ls_pc l t) \<longleftrightarrow> s' = s"
    and "\<And>s'. \<not> holds s' pc" "ls_pc l' = (ls_pc l)(t := pc)" "ls_lock l' = (ls_lock l)(s := None)"
  shows "lock_inv l'"
  using assms unfolding lock_inv_def by (metis fun_upd_apply option.distinct(1) option.inject)

lemma lock_step:
  assumes "loader_step plugin l l'" and "lock_inv l"
  shows "lock_inv l'"
  using assms(1)
proof cases
  case (acquire t s)
  then show ?thesis by (intro lock_taken [OF assms(2), of t s "Holding s"]) auto
next
  case (leave t s)
  then show ?thesis by (intro lock_released [OF assms(2), of t s "AtRouter s True"]) auto
next
  case (fail t s e)
  then show ?thesis by (intro lock_released [OF assms(2), of t s "Failed s e"]) auto
qed (rule lock_kept [OF assms(2)], simp_all)+

lemma loaded_step: "loader_step plugin l l' \<Longrightarrow> s \<in> ld_loaded l \<Longrightarrow> s \<in> ld_loaded l'"
  by (induction rule: loader_step.induct) auto

text \<open>No step takes away a route that is there, since only the skeleton of a service is attached under its name.\<close>

lemma attaching:
  assumes "attach_inv plugin l" "skeletons_named plugin" "ls_pc l t = Attaching s sk ops"
  shows "plugin s = WithSkeleton sk" "sk_service sk = cp s" "s \<in> ld_loaded l" "routed l s sk (set (dict_keys (sk_table sk)) - set ops)"
  using assms unfolding attach_inv_def skeletons_named_def by blast+

lemma routed_step:
  assumes "loader_step plugin l l'" and "attach_inv plugin l" "skeletons_named plugin" and "plugin s = WithSkeleton sk" "routed l s sk ops"
  shows "routed l' s sk ops"
  using assms(1)
proof cases
  case (attach t s' sk' op ops')
  have "s' = s \<Longrightarrow> sk' = sk" using attaching(1) [OF assms(2,3) attach(2)] assms(4) by simp
  then show ?thesis
    using assms(5) attach(1) attaching(2) [OF assms(2,3) attach(2)] by (auto simp: routed_def add_handler_def dict_get_set)
qed (use assms(5) in \<open>simp_all add: routed_def\<close>)

lemma fully_routed_step:
  "loader_step plugin l l' \<Longrightarrow> attach_inv plugin l \<Longrightarrow> skeletons_named plugin \<Longrightarrow> fully_routed plugin l s \<Longrightarrow> fully_routed plugin l' s"
  unfolding fully_routed_def using loaded_step routed_step by blast

lemma attach_step:
  assumes "loader_step plugin l l'" and "attach_inv plugin l" and "skeletons_named plugin"
  shows "attach_inv plugin l'"
  unfolding attach_inv_def
proof (intro allI impI)
  fix t s sk ops assume now: "ls_pc l' t = Attaching s sk ops"
  consider (before) "ls_pc l t = Attaching s sk ops"
    | (one) op where "ls_pc l t = Attaching s sk (op # ops)" "dict_get (ld_routes l') (cp s, op) = Some sk"
    | (marked) "plugin s = WithSkeleton sk" "ops = dict_keys (sk_table sk)" "s \<in> ld_loaded l'"
    using assms(1)
  proof cases
    case (attach t' s' sk' op ops')
    then have "sk_service sk' = cp s'" using attaching(2) [OF assms(2,3)] by blast
    with attach now that(1,2) show ?thesis by (cases "t' = t") (auto simp: add_handler_def dict_get_set)
  next
    case (mark t' s')
    with now that(1,3) show ?thesis by (cases "t' = t") (auto simp: attach_pc_eq)
  qed (use now that(1) in \<open>auto split: if_splits\<close>)
  then show "plugin s = WithSkeleton sk \<and> s \<in> ld_loaded l' \<and> routed l' s sk (set (dict_keys (sk_table sk)) - set ops)"
  proof cases
    case before
    then show ?thesis using attaching [OF assms(2,3)] routed_step [OF assms] loaded_step [OF assms(1)] by metis
  next
    case (one op)
    note was = attaching [OF assms(2,3) one(1)]
    from routed_step [OF assms was(1,4)] loaded_step [OF assms(1) was(3)] was(1) one(2) show ?thesis by (auto simp: routed_def)
  qed (simp add: routed_def)
qed

lemma nothing_left:
  assumes "attach_inv plugin l" "ls_pc l t = Attaching s sk []"
  shows "fully_routed plugin l s"
proof -
  have "plugin s = WithSkeleton sk \<and> s \<in> ld_loaded l \<and> routed l s sk (set (dict_keys (sk_table sk)) - set [])"
    using assms unfolding attach_inv_def by blast
  then show ?thesis by (simp add: fully_routed_def)
qed

lemma waited_step:
  assumes "loader_step plugin l l'" and "lock_inv l" "attach_inv plugin l" "loaded_inv plugin l" "waited_inv plugin l" and "skeletons_named plugin"
  shows "waited_inv plugin l'"
  unfolding waited_inv_def
proof (intro allI impI)
  fix t s assume now: "ls_pc l' t \<in> {AtRouter s True, Leaving s None}"
  consider (before) "ls_pc l t \<in> {AtRouter s True, Leaving s None}"
    | (again) "ls_pc l t = Holding s" "s \<in> ld_loaded l"
    | (attached) sk where "ls_pc l t = Attaching s sk []"
    | (marked) "plugin s = NotAService" "s \<in> ld_loaded l'"
    using assms(1)
  proof cases
    case (mark t' s')
    with now that(1,4) show ?thesis by (cases "t' = t") (auto simp: attach_pc_eq)
  next
    case (again t' s')
    with now that(1,2) show ?thesis by (cases "t' = t") auto
  next
    case (attached t' s' sk)
    with now that(1,3) show ?thesis by (cases "t' = t") auto
  qed (use now that(1) in \<open>auto split: if_splits\<close>)
  then show "fully_routed plugin l' s"
  proof cases
    case before
    then show ?thesis using assms(5) fully_routed_step [OF assms(1,3,6)] by (auto simp: waited_inv_def)
  next
    case again
    have held: "holds s (ls_pc l t') \<longleftrightarrow> ls_lock l s = Some t'" for t' using assms(2) by (simp add: lock_inv_def)
    have "ls_lock l s = Some t" using held [of t] again(1) by simp
    then have "ls_pc l t' \<noteq> Attaching s sk ops" for t' sk ops using held [of t'] again(1) by auto
    with assms(4) again(2) have "fully_routed plugin l s" by (auto simp: loaded_inv_def)
    then show ?thesis by (rule fully_routed_step [OF assms(1,3,6)])
  next
    case (attached sk)
    from fully_routed_step [OF assms(1,3,6) nothing_left [OF assms(3) this]] show ?thesis .
  qed (simp add: fully_routed_def)
qed

lemma loaded_inv_step:
  assumes "loader_step plugin l l'" and "attach_inv plugin l" "loaded_inv plugin l" and "skeletons_named plugin"
  shows "loaded_inv plugin l'"
  unfolding loaded_inv_def
proof
  fix s assume now: "s \<in> ld_loaded l'"
  consider (routed) "fully_routed plugin l s" | (attaching) t sk ops where "ls_pc l t = Attaching s sk ops" | (new) "s \<notin> ld_loaded l"
    using assms(3) unfolding loaded_inv_def by blast
  then show "fully_routed plugin l' s \<or> (\<exists>t sk ops. ls_pc l' t = Attaching s sk ops)"
  proof cases
    case routed
    then show ?thesis using fully_routed_step [OF assms(1,2,4)] by blast
  next
    case (attaching t sk ops)
    show ?thesis
    proof (cases "\<exists>ops. ls_pc l' t = Attaching s sk ops")
      case False
      from assms(1) have "ops = []" by cases (use False attaching in \<open>auto split: if_splits\<close>)
      then have "fully_routed plugin l s" using nothing_left [OF assms(2)] attaching by blast
      then show ?thesis using fully_routed_step [OF assms(1,2,4)] by blast
    qed blast
  next
    case new
    from assms(1) have "\<exists>t. ls_pc l' t = attach_pc s (plugin s)"
    proof cases
      case (mark t s')
      with new now have "ls_pc l' t = attach_pc s (plugin s)" by auto
      then show ?thesis by blast
    qed (use new now in auto)
    then obtain t where "ls_pc l' t = attach_pc s (plugin s)" by blast
    with now show ?thesis by (cases "plugin s") (auto simp: attach_pc_def fully_routed_def)
  qed
qed

definition loader_inv :: "(string \<Rightarrow> 'v attachable) \<Rightarrow> 'v loader_state \<Rightarrow> bool" where
  "loader_inv plugin l \<longleftrightarrow> lock_inv l \<and> attach_inv plugin l \<and> waited_inv plugin l \<and> loaded_inv plugin l"

lemma loader_inv_start: "loader_inv plugin (loader_start name)"
  by (simp add: loader_inv_def lock_inv_def attach_inv_def waited_inv_def loaded_inv_def loader_start_def)

lemma loader_inv_reachable:
  assumes "loader_reachable plugin l" and "skeletons_named plugin"
  shows "loader_inv plugin l"
proof -
  obtain name where "(loader_step plugin)\<^sup>*\<^sup>* (loader_start name) l" using assms(1) by (auto simp: loader_reachable_def)
  then show ?thesis
  proof induction
    case (step l l')
    then show ?case using assms(2) lock_step attach_step waited_step loaded_inv_step unfolding loader_inv_def by metis
  qed (rule loader_inv_start)
qed

subsection \<open>Properties\<close>

lemma require_running:
  assumes "require env sleep name m = Some (Inr s, m')"
  shows "\<exists>c. container_of m' name = Some c \<and> co_state c = Running \<and> co_service c = s"
proof (cases rule: require_cases [of env name m sleep])
  case (locked r1 m1 k j)
  let ?m = "sleep 0 ((sleep (1 / 2) ^^ j) ((sleep (1 / 2) ^^ k) m1))"
  have "require_locked name ?m = (Inr s, m')" using assms locked(2) by simp
  then show ?thesis using require_locked_facts(2) [of name ?m s] by simp
qed (use assms in simp)

lemma require_service_required:
  assumes "require_service env sleep skeleton_of (Some name) (m, l) = Some (Inr (), m', l')" "name \<notin> ld_loaded l"
  obtains m0 s where "require env sleep name m0 = Some (Inr s, m')" "attach_service name (skeleton_of s) l = (Inr (), l')"
proof -
  obtain known m1 where e: "exists_service env name m = (known, m1)" by fastforce
  obtain enabled m2 where a: "api_enabled env name m1 = (enabled, m2)" by fastforce
  have "known = Inr True" using assms e by (cases known) (auto simp: require_service_def split: bool.splits)
  moreover have "enabled = Inr True" using assms e a calculation by (cases enabled) (auto simp: require_service_def split: bool.splits)
  ultimately have *: "(case require env sleep name m2 of
      None \<Rightarrow> None
    | Some (Inl e, m3) \<Rightarrow> Some (Inl (plugin_disabled e), m3, l)
    | Some (Inr s, m3) \<Rightarrow> (let (r, l') = attach_service name (skeleton_of s) l in Some (r, m3, l'))) = Some (Inr (), m', l')"
    using assms e a by (simp add: require_service_def)
  obtain r m3 where r: "require env sleep name m2 = Some (r, m3)" using * by (cases "require env sleep name m2") auto
  then obtain s where "r = Inr s" using * by (cases r) auto
  with * r that show thesis by (auto split: prod.splits)
qed

text \<open>
  C25: when the loader lets a request of a service pass that it had not loaded, the container of the service
  is running, the service is marked as loaded, every operation of its skeleton has its route and all other
  routes are as they were.
\<close>

theorem loader_starts_and_routes:
  assumes "require_service env sleep skeleton_of (Some name) (m, l) = Some (Inr (), m', l')"
    and "name \<notin> ld_loaded l"
  shows "\<exists>c. container_of m' name = Some c \<and> co_state c = Running \<and> ld_loaded l' = insert name (ld_loaded l)
    \<and> (case skeleton_of (co_service c) of
         NotAService \<Rightarrow> ld_routes l' = ld_routes l
       | NoSkeleton \<Rightarrow> False
       | WithSkeleton sk \<Rightarrow> (\<forall>s op. dict_get (ld_routes l') (s, op)
           = (if s = sk_service sk \<and> op \<in> set (dict_keys (sk_table sk)) then Some sk else dict_get (ld_routes l) (s, op))))"
proof -
  obtain m0 s where "require env sleep name m0 = Some (Inr s, m')" and a: "attach_service name (skeleton_of s) l = (Inr (), l')"
    using require_service_required [OF assms] .
  then obtain c where "container_of m' name = Some c" "co_state c = Running" "co_service c = s"
    using require_running by blast
  then show ?thesis using a assms(2)
    by (cases "skeleton_of s") (auto 0 3 simp: attach_service_def Let_def routes_after_add simp flip: set_map)
qed

text \<open>The service of the lifecycle example with a skeleton of one operation.\<close>

definition send_skeleton :: "nat skeleton" where
  "send_skeleton = \<lparr>sk_service = cp ''sqs'', sk_table = [(cp ''Op'', echo_dispatcher)]\<rparr>"

lemma loader_starts_and_routes_witness:
  "\<exists>m' l'. require_service example_env (\<lambda>t m. m) (\<lambda>_. WithSkeleton send_skeleton) (Some ''sqs'') (new_manager 0, new_loader) = Some (Inr (), m', l')
    \<and> state_of m' ''sqs'' = Some Running \<and> dict_get (ld_routes l') (cp ''sqs'', cp ''Op'') = Some send_skeleton"
proof -
  let ?m = "(new_manager 0)\<lparr>mg_specs := Some [(''sqs'', [''default''])]\<rparr> :: nat manager"
  have known: "exists_service example_env ''sqs'' (new_manager 0) = (Inr True, ?m)" "api_enabled example_env ''sqs'' ?m = (Inr True, ?m)"
    by (simp_all add: lookup_simps example_env_def env_get_def strip_def API_COMPOSITES_def API_DEPENDENCIES_def)
  have loads: "get_service_container example_env ''sqs'' ?m =
     (Inr (Some (new_container example_service Available)),
      \<lparr>mg_services = [(''sqs'', new_container example_service Available)], mg_specs = Some [(''sqs'', [''default''])],
       mg_errors = [], mg_world = 0\<rparr>)"
    by (simp add: lookup_simps example_env_def example_service_def env_get_def strip_def API_COMPOSITES_def API_DEPENDENCIES_def)
  have required: "require example_env (\<lambda>t m. m) ''sqs'' ?m = Some (Inr example_service, running_example)"
    by (simp add: require_def loads wait_for_def state_of_def container_of_def new_container_def require_locked_def
        start_required_def update_container_def container_start_def container_check_def service_start_def service_check_def
        call_safe_def run_safe_def example_service_def running_example_def bind_s_def)
  obtain l' where run: "require_service example_env (\<lambda>t m. m) (\<lambda>_. WithSkeleton send_skeleton) (Some ''sqs'') (new_manager 0, new_loader)
      = Some (Inr (), running_example, l')"
    by (simp add: require_service_def new_loader_def known required attach_service_def)
  have "''sqs'' \<notin> ld_loaded (new_loader :: nat loader)" by (simp add: new_loader_def)
  from loader_starts_and_routes [OF run this] run show ?thesis
    by (auto simp: state_of_def send_skeleton_def simp del: cp_simps)
qed

text \<open>
  C26: on any number of threads and in any interleaving, a request that went through the lock of its service
  finds a route for every operation of the skeleton, and so does every request once the service is loaded
  and its lock is free: the first check outside the lock and the second inside never leave a service half
  attached for them.
\<close>

theorem waiting_requests_are_routed:
  assumes "loader_reachable plugin l" "skeletons_named plugin"
    and "plugin s = WithSkeleton sk" "op \<in> set (dict_keys (sk_table sk))"
    and "ls_pc l t = AtRouter s True \<or> (s \<in> ld_loaded l \<and> ls_lock l s = None)"
  shows "dict_get (ld_routes l) (cp s, op) = Some sk"
proof -
  have inv: "lock_inv l" "waited_inv plugin l" "loaded_inv plugin l"
    using loader_inv_reachable [OF assms(1,2)] by (simp_all add: loader_inv_def)
  have "fully_routed plugin l s"
  proof (cases "ls_pc l t = AtRouter s True")
    case False
    then have free: "s \<in> ld_loaded l" "ls_lock l s = None" using assms(5) by simp_all
    have "\<not> holds s (ls_pc l t')" for t' using inv(1) free(2) by (simp add: lock_inv_def)
    then have "ls_pc l t' \<noteq> Attaching s sk' ops" for t' sk' ops by (metis holds.simps(2))
    then show ?thesis using inv(3) free(1) by (auto simp: loaded_inv_def)
  qed (use inv(2) in \<open>auto simp: waited_inv_def\<close>)
  then show ?thesis using assms(3,4) by (auto simp: fully_routed_def routed_def)
qed

text \<open>
  Two requests of the service: the first marks the service and attaches its operation after the second
  saw the mark.
\<close>

abbreviation send_plugin :: "string \<Rightarrow> nat attachable" where
  "send_plugin s \<equiv> (if s = ''sqs'' then WithSkeleton send_skeleton else NotAService)"

definition marked_state :: "nat loader_state" where
  "marked_state = goto 0 (Attaching ''sqs'' send_skeleton [cp ''Op'']) (mark_loaded ''sqs'' (goto 0 (Holding ''sqs'') (set_lock ''sqs'' (Some 0)
     (goto 0 (Acquiring ''sqs'') (goto 0 (Requiring ''sqs'') (loader_start (\<lambda>_. ''sqs'')))))))"

lemma marked_reachable: "(loader_step send_plugin)\<^sup>*\<^sup>* (loader_start (\<lambda>_. ''sqs'')) marked_state"
proof -
  let ?l0 = "loader_start (\<lambda>_. ''sqs'') :: nat loader_state"
  let ?l1 = "goto 0 (Requiring ''sqs'') ?l0"
  let ?l2 = "goto 0 (Acquiring ''sqs'') ?l1"
  let ?l3 = "goto 0 (Holding ''sqs'') (set_lock ''sqs'' (Some 0) ?l2)"
  have "loader_step send_plugin ?l0 ?l1" by (rule missing) (simp_all add: loader_start_def)
  moreover have "loader_step send_plugin ?l1 ?l2" by (rule required) simp
  moreover have "loader_step send_plugin ?l2 ?l3" by (rule acquire) (simp_all add: loader_start_def)
  moreover have "loader_step send_plugin ?l3 (goto 0 (attach_pc ''sqs'' (send_plugin ''sqs'')) (mark_loaded ''sqs'' ?l3))"
    by (rule mark) (simp_all add: loader_start_def)
  then have "loader_step send_plugin ?l3 marked_state" by (simp add: attach_pc_def send_skeleton_def marked_state_def)
  ultimately show ?thesis by (meson converse_rtranclp_into_rtranclp rtranclp.rtrancl_refl)
qed

lemma send_named: "skeletons_named send_plugin"
  by (simp add: skeletons_named_def send_skeleton_def)

lemma waiting_requests_are_routed_witness:
  "\<exists>l. loader_reachable send_plugin l \<and> ls_pc l 0 = AtRouter ''sqs'' True \<and> dict_get (ld_routes l) (cp ''sqs'', cp ''Op'') = Some send_skeleton"
proof -
  let ?l1 = "goto 0 (Attaching ''sqs'' send_skeleton []) (marked_state\<lparr>ld_routes := add_handler (sk_service send_skeleton, cp ''Op'') send_skeleton (ld_routes marked_state)\<rparr>)"
  let ?l2 = "goto 0 (Leaving ''sqs'' None) ?l1"
  let ?l3 = "goto 0 (AtRouter ''sqs'' True) (set_lock ''sqs'' None ?l2)"
  have "loader_step send_plugin marked_state ?l1" by (rule attach) (simp add: marked_state_def)
  moreover have "loader_step send_plugin ?l1 ?l2" by (rule attached) simp
  moreover have "loader_step send_plugin ?l2 ?l3" by (rule leave) simp
  ultimately have "(loader_step send_plugin)\<^sup>*\<^sup>* (loader_start (\<lambda>_. ''sqs'')) ?l3"
    using marked_reachable by (meson rtranclp.rtrancl_into_rtrancl)
  then have reach: "loader_reachable send_plugin ?l3" by (auto simp: loader_reachable_def)
  have at_router: "ls_pc ?l3 0 = AtRouter ''sqs'' True" by simp
  have "dict_get (ld_routes ?l3) (cp ''sqs'', cp ''Op'') = Some send_skeleton"
    by (rule waiting_requests_are_routed [OF reach send_named, of _ _ _ 0]) (simp_all add: send_skeleton_def)
  with reach at_router show ?thesis by blast
qed


end
