(* ===== verification/Arns.thy ===== *)
theory Arns
  imports Accounts
begin

text \<open>
  Amazon resource names, \<open>utils/aws/arns.py\<close>: the partition of a region, the builders of the names of
  resources and the functions that take names apart. The parser of botocore is a parameter; its
  documented behaviour, splitting at the first five colons, is a named hypothesis. The properties
  are round trips from the parts of a name through the builder and back.
\<close>

subsection \<open>Partitions\<close>

definition DEFAULT_PARTITION :: string where
  "DEFAULT_PARTITION = ''aws''"

definition REGION_PREFIX_TO_PARTITION :: "(string, string) dict" where
  "REGION_PREFIX_TO_PARTITION =
     [(''cn-'', ''aws-cn''), (''us-gov-'', ''aws-us-gov''), (''us-iso-'', ''aws-iso''), (''us-isob-'', ''aws-iso-b''),
      (''eusc-'', ''aws-eusc'')]"

definition PARTITION_NAMES :: "string list" where
  "PARTITION_NAMES = dict_values REGION_PREFIX_TO_PARTITION @ [DEFAULT_PARTITION]"

definition get_partition :: "string option \<Rightarrow> string" where
  "get_partition region =
     (case region of
        None \<Rightarrow> DEFAULT_PARTITION
      | Some r \<Rightarrow>
          if r = [] then DEFAULT_PARTITION
          else if r \<in> set PARTITION_NAMES then r
          else (case find (\<lambda>(prefix, p). starts_with prefix r) REGION_PREFIX_TO_PARTITION of
                  Some (prefix, p) \<Rightarrow> p
                | None \<Rightarrow> DEFAULT_PARTITION))"

abbreviation partition_of :: "string \<Rightarrow> string" where
  "partition_of region \<equiv> get_partition (Some region)"

subsection \<open>Taking names apart\<close>

record arn_data =
  arn_partition :: string
  arn_service :: string
  arn_region :: string
  arn_account :: string
  arn_resource :: string

text \<open>The parser: None stands for \<open>InvalidArnException\<close>.\<close>

type_synonym arn_parser = "string \<Rightarrow> arn_data option"

definition arn_of :: "arn_data \<Rightarrow> string" where
  "arn_of d = join_with '':'' [''arn'', arn_partition d, arn_service d, arn_region d, arn_account d, arn_resource d]"

definition colon_free :: "string \<Rightarrow> bool" where
  "colon_free s = (CHR '':'' \<notin> set s)"

text \<open>The documented behaviour of the parser: the fields are the parts between the first five colons.\<close>

definition arn_parser_ok :: "arn_parser \<Rightarrow> bool" where
  "arn_parser_ok parse \<longleftrightarrow>
     (\<forall>d. colon_free (arn_partition d) \<and> colon_free (arn_service d) \<and> colon_free (arn_region d) \<and> colon_free (arn_account d)
        \<longrightarrow> parse (arn_of d) = Some d)"

abbreviation InvalidArn :: exn where
  "InvalidArn \<equiv> UserError ''InvalidArnException'' []"

definition parse_arn :: "arn_parser \<Rightarrow> string \<Rightarrow> arn_data result" where
  "parse_arn parse arn = (case parse arn of None \<Rightarrow> Inl InvalidArn | Some d \<Rightarrow> Inr d)"

definition extract_account_id_from_arn :: "arn_parser \<Rightarrow> string \<Rightarrow> string option" where
  "extract_account_id_from_arn parse arn = map_option arn_account (parse arn)"

definition extract_region_from_arn :: "arn_parser \<Rightarrow> string \<Rightarrow> string option" where
  "extract_region_from_arn parse arn = map_option arn_region (parse arn)"

definition extract_service_from_arn :: "arn_parser \<Rightarrow> string \<Rightarrow> string option" where
  "extract_service_from_arn parse arn = map_option arn_service (parse arn)"

definition extract_resource_from_arn :: "arn_parser \<Rightarrow> string \<Rightarrow> string option" where
  "extract_resource_from_arn parse arn = map_option arn_resource (parse arn)"

definition is_arn :: "arn_parser \<Rightarrow> string \<Rightarrow> bool" where
  "is_arn parse arn = (parse arn \<noteq> None)"

text \<open>\<open>s.split(sep)\<close> for a separator of several characters; the number counts what is left of one that was found.\<close>

fun split_go :: "string \<Rightarrow> nat \<Rightarrow> string \<Rightarrow> string list" where
  "split_go sep k [] = [[]]"
| "split_go sep (Suc k) (c # s) = split_go sep k s"
| "split_go sep 0 (c # s) =
     (if starts_with sep (c # s) then [] # split_go sep (length sep - 1) s
      else (case split_go sep 0 s of [] \<Rightarrow> [[c]] | w # ws \<Rightarrow> (c # w) # ws))"

definition split_str :: "string \<Rightarrow> string \<Rightarrow> string list" where
  "split_str sep s = split_go sep 0 s"

definition opensearch_domain_name :: "string \<Rightarrow> string" where
  "opensearch_domain_name arn = snd (snd (rpartition CHR ''/'' arn))"

definition firehose_name :: "string \<Rightarrow> string" where
  "firehose_name arn = last (split_on CHR ''/'' arn)"

definition kinesis_stream_name :: "string \<Rightarrow> string" where
  "kinesis_stream_name arn = last (split_str '':stream/'' arn)"

definition lambda_function_name :: "arn_parser \<Rightarrow> string \<Rightarrow> string result" where
  "lambda_function_name parse name_or_arn =
     (if CHR '':'' \<in> set name_or_arn
      then bind_r (parse_arn parse name_or_arn) (\<lambda>arn.
             if arn_service arn \<noteq> ''lambda'' then Inl ValueError
             else (case split_on CHR '':'' (arn_resource arn) of
                     p # q # ps \<Rightarrow> Inr q
                   | _ \<Rightarrow> Inl IndexError))
      else Inr name_or_arn)"

definition sqs_queue_name :: "arn_parser \<Rightarrow> string \<Rightarrow> string result" where
  "sqs_queue_name parse queue_arn =
     (if CHR '':'' \<in> set queue_arn then map_sum id arn_resource (parse_arn parse queue_arn) else Inr queue_arn)"

definition s3_bucket_name :: "string \<Rightarrow> string" where
  "s3_bucket_name bucket_name_or_arn = last (split_str '':::'' bucket_name_or_arn)"

text \<open>\<open>sqs_queue_url_for_arn\<close>: the client call gets the region, the account and the name.\<close>

definition sqs_queue_url_for_arn ::
    "arn_parser \<Rightarrow> (string option \<Rightarrow> string \<Rightarrow> string \<Rightarrow> string result) \<Rightarrow> string \<Rightarrow> string result" where
  "sqs_queue_url_for_arn parse get_queue_url queue_arn =
     (if contains_sub ''://'' queue_arn then Inr queue_arn
      else (case parse queue_arn of
              Some arn \<Rightarrow> get_queue_url (Some (arn_region arn)) (arn_account arn) (arn_resource arn)
            | None \<Rightarrow> get_queue_url None DEFAULT_AWS_ACCOUNT_ID queue_arn))"

subsection \<open>Building names\<close>

text \<open>\<open>pattern % args\<close> for strings; the only conversions the patterns have are \<open>%s\<close>.\<close>

fun format_s :: "string \<Rightarrow> string list \<Rightarrow> string result" where
  "format_s [] [] = Inr []"
| "format_s [] (a # args) = Inl TypeError"
| "format_s (c # p) args =
     (if c \<noteq> CHR ''%'' then map_sum id (Cons c) (format_s p args)
      else (case p of
              [] \<Rightarrow> Inl ValueError
            | d # q \<Rightarrow>
                if d = CHR ''s'' then (case args of [] \<Rightarrow> Inl TypeError | a # args' \<Rightarrow> map_sum id (append a) (format_s q args'))
                else if d = CHR ''%'' then map_sum id (Cons CHR ''%'') (format_s q args)
                else Inl ValueError))"

definition resource_arn :: "string \<Rightarrow> string \<Rightarrow> string \<Rightarrow> string \<Rightarrow> string result" where
  "resource_arn name pattern account_id region_name =
     (if CHR '':'' \<in> set name then Inr name
      else if length (split_str ''%s'' pattern) = 4
        then format_s pattern [partition_of region_name, account_id, name]
      else format_s pattern [partition_of region_name, region_name, account_id, name])"

definition arn_text :: "string \<Rightarrow> string \<Rightarrow> string \<Rightarrow> string \<Rightarrow> string" where
  "arn_text region_name service_region account_id resource =
     ''arn:'' @ partition_of region_name @ '':'' @ service_region @ '':'' @ account_id @ '':'' @ resource"

definition cloudwatch_dashboard_arn :: "string \<Rightarrow> string \<Rightarrow> string \<Rightarrow> string result" where
  "cloudwatch_dashboard_arn dashboard_name account_id region_name =
     resource_arn dashboard_name ''arn:%s:cloudwatch::%s:dashboard/%s'' account_id region_name"

definition log_group_arn :: "string \<Rightarrow> string \<Rightarrow> string \<Rightarrow> string result" where
  "log_group_arn group_name account_id region_name =
     resource_arn group_name ''arn:%s:logs:%s:%s:log-group:%s'' account_id region_name"

definition events_archive_arn :: "string \<Rightarrow> string \<Rightarrow> string \<Rightarrow> string result" where
  "events_archive_arn archive_name account_id region_name =
     resource_arn archive_name ''arn:%s:events:%s:%s:archive/%s'' account_id region_name"

definition event_bus_arn :: "string \<Rightarrow> string \<Rightarrow> string \<Rightarrow> string result" where
  "event_bus_arn bus_name account_id region_name =
     resource_arn bus_name ''arn:%s:events:%s:%s:event-bus/%s'' account_id region_name"

definition events_replay_arn :: "string \<Rightarrow> string \<Rightarrow> string \<Rightarrow> string result" where
  "events_replay_arn replay_name account_id region_name =
     resource_arn replay_name ''arn:%s:events:%s:%s:replay/%s'' account_id region_name"

definition lambda_code_signing_arn :: "string \<Rightarrow> string \<Rightarrow> string \<Rightarrow> string result" where
  "lambda_code_signing_arn code_signing_id account_id region_name =
     resource_arn code_signing_id ''arn:%s:lambda:%s:%s:code-signing-config:%s'' account_id region_name"

definition lambda_event_source_mapping_arn :: "string \<Rightarrow> string \<Rightarrow> string \<Rightarrow> string result" where
  "lambda_event_source_mapping_arn name account_id region_name =
     resource_arn name ''arn:%s:lambda:%s:%s:event-source-mapping:%s'' account_id region_name"

definition capacity_provider_arn :: "string \<Rightarrow> string \<Rightarrow> string \<Rightarrow> string result" where
  "capacity_provider_arn capacity_provider_name account_id region_name =
     resource_arn capacity_provider_name ''arn:%s:lambda:%s:%s:capacity-provider:%s'' account_id region_name"

definition stepfunctions_state_machine_arn :: "string \<Rightarrow> string \<Rightarrow> string \<Rightarrow> string result" where
  "stepfunctions_state_machine_arn name account_id region_name =
     resource_arn name ''arn:%s:states:%s:%s:stateMachine:%s'' account_id region_name"

definition stepfunctions_activity_arn :: "string \<Rightarrow> string \<Rightarrow> string \<Rightarrow> string result" where
  "stepfunctions_activity_arn name account_id region_name =
     resource_arn name ''arn:%s:states:%s:%s:activity:%s'' account_id region_name"

definition cognito_user_pool_arn :: "string \<Rightarrow> string \<Rightarrow> string \<Rightarrow> string result" where
  "cognito_user_pool_arn user_pool_id account_id region_name =
     resource_arn user_pool_id ''arn:%s:cognito-idp:%s:%s:userpool/%s'' account_id region_name"

definition kinesis_stream_arn :: "string \<Rightarrow> string \<Rightarrow> string \<Rightarrow> string result" where
  "kinesis_stream_arn stream_name account_id region_name =
     resource_arn stream_name ''arn:%s:kinesis:%s:%s:stream/%s'' account_id region_name"

definition elasticsearch_domain_arn :: "string \<Rightarrow> string \<Rightarrow> string \<Rightarrow> string result" where
  "elasticsearch_domain_arn domain_name account_id region_name =
     resource_arn domain_name ''arn:%s:es:%s:%s:domain/%s'' account_id region_name"

definition firehose_stream_arn :: "string \<Rightarrow> string \<Rightarrow> string \<Rightarrow> string result" where
  "firehose_stream_arn stream_name account_id region_name =
     resource_arn stream_name ''arn:%s:firehose:%s:%s:deliverystream/%s'' account_id region_name"

definition kms_key_arn :: "string \<Rightarrow> string \<Rightarrow> string \<Rightarrow> string result" where
  "kms_key_arn key_id account_id region_name =
     resource_arn key_id ''arn:%s:kms:%s:%s:key/%s'' account_id region_name"

definition ecr_repository_arn :: "string \<Rightarrow> string \<Rightarrow> string \<Rightarrow> string result" where
  "ecr_repository_arn name account_id region_name =
     resource_arn name ''arn:%s:ecr:%s:%s:repository/%s'' account_id region_name"

definition route53_resolver_firewall_rule_group_arn :: "string \<Rightarrow> string \<Rightarrow> string \<Rightarrow> string result" where
  "route53_resolver_firewall_rule_group_arn name account_id region_name =
     resource_arn name ''arn:%s:route53resolver:%s:%s:firewall-rule-group/%s'' account_id region_name"

definition route53_resolver_firewall_domain_list_arn :: "string \<Rightarrow> string \<Rightarrow> string \<Rightarrow> string result" where
  "route53_resolver_firewall_domain_list_arn name account_id region_name =
     resource_arn name ''arn:%s:route53resolver:%s:%s:firewall-domain-list/%s'' account_id region_name"

definition route53_resolver_firewall_rule_group_associations_arn :: "string \<Rightarrow> string \<Rightarrow> string \<Rightarrow> string result" where
  "route53_resolver_firewall_rule_group_associations_arn name account_id region_name =
     resource_arn name ''arn:%s:route53resolver:%s:%s:firewall-rule-group-association/%s'' account_id region_name"

definition route53_resolver_query_log_config_arn :: "string \<Rightarrow> string \<Rightarrow> string \<Rightarrow> string result" where
  "route53_resolver_query_log_config_arn name account_id region_name =
     resource_arn name ''arn:%s:route53resolver:%s:%s:resolver-query-log-config/%s'' account_id region_name"

definition ses_identity_arn :: "string \<Rightarrow> string \<Rightarrow> string \<Rightarrow> string result" where
  "ses_identity_arn email account_id region_name =
     resource_arn email ''arn:%s:ses:%s:%s:identity/%s'' account_id region_name"

definition iam_role_arn :: "string \<Rightarrow> string \<Rightarrow> string \<Rightarrow> string" where
  "iam_role_arn role_name account_id region_name =
     (if role_name = [] then role_name
      else if list_ex (\<lambda>p. starts_with (''arn:'' @ p @ '':iam::'') role_name) PARTITION_NAMES then role_name
      else ''arn:'' @ partition_of region_name @ '':iam::'' @ account_id @ '':role/'' @ role_name)"

definition iam_resource_arn :: "string \<Rightarrow> string \<Rightarrow> string option \<Rightarrow> string" where
  "iam_resource_arn resource account_id role =
     iam_role_arn (case role of Some (c # r) \<Rightarrow> c # r | _ \<Rightarrow> ''role-'' @ resource) account_id ''us-east-1''"

definition secretsmanager_secret_arn :: "string \<Rightarrow> string \<Rightarrow> string \<Rightarrow> string option \<Rightarrow> string result" where
  "secretsmanager_secret_arn secret_id account_id region_name random_suffix =
     (if CHR '':'' \<in> set secret_id then Inr secret_id
      else map_sum id (\<lambda>arn. case random_suffix of Some (c # s) \<Rightarrow> arn @ ''-'' @ c # s | _ \<Rightarrow> arn)
        (resource_arn secret_id ''arn:%s:secretsmanager:%s:%s:secret:%s'' account_id region_name))"

definition cloudformation_stack_arn :: "string \<Rightarrow> string \<Rightarrow> string \<Rightarrow> string \<Rightarrow> string result" where
  "cloudformation_stack_arn stack_name stack_id account_id region_name =
     resource_arn stack_name (''arn:%s:cloudformation:%s:%s:stack/%s/'' @ stack_id) account_id region_name"

definition cloudformation_change_set_arn :: "string \<Rightarrow> string \<Rightarrow> string \<Rightarrow> string \<Rightarrow> string result" where
  "cloudformation_change_set_arn change_set_name change_set_id account_id region_name =
     resource_arn change_set_name (''arn:%s:cloudformation:%s:%s:changeSet/%s/'' @ change_set_id) account_id region_name"

definition dynamodb_table_arn :: "string \<Rightarrow> string \<Rightarrow> string \<Rightarrow> string result" where
  "dynamodb_table_arn table_name account_id region_name =
     resource_arn (last (split_str '':table/'' table_name)) ''arn:%s:dynamodb:%s:%s:table/%s'' account_id region_name"

definition dynamodb_stream_arn :: "string \<Rightarrow> string \<Rightarrow> string \<Rightarrow> string \<Rightarrow> string" where
  "dynamodb_stream_arn table_name latest_stream_label account_id region_name =
     arn_text region_name (''dynamodb:'' @ region_name) account_id (''table/'' @ table_name @ ''/stream/'' @ latest_stream_label)"

definition cloudwatch_alarm_arn :: "string \<Rightarrow> string \<Rightarrow> string \<Rightarrow> string" where
  "cloudwatch_alarm_arn alarm_name account_id region_name =
     arn_text region_name (''cloudwatch:'' @ region_name) account_id (''alarm:'' @ alarm_name)"

definition events_rule_arn :: "string \<Rightarrow> string \<Rightarrow> string \<Rightarrow> string \<Rightarrow> string result" where
  "events_rule_arn rule_name account_id region_name event_bus_name =
     resource_arn (if event_bus_name \<noteq> ''default'' then event_bus_name @ ''/'' @ rule_name else rule_name)
       ''arn:%s:events:%s:%s:rule/%s'' account_id region_name"

definition events_connection_arn :: "string \<Rightarrow> string \<Rightarrow> string \<Rightarrow> string \<Rightarrow> string result" where
  "events_connection_arn connection_name connection_id account_id region_name =
     resource_arn (connection_name @ ''/'' @ connection_id) ''arn:%s:events:%s:%s:connection/%s'' account_id region_name"

definition events_api_destination_arn :: "string \<Rightarrow> string \<Rightarrow> string \<Rightarrow> string \<Rightarrow> string result" where
  "events_api_destination_arn api_destination_name api_destination_id account_id region_name =
     resource_arn (api_destination_name @ ''/'' @ api_destination_id) ''arn:%s:events:%s:%s:api-destination/%s'' account_id region_name"

text \<open>
  The pattern \<open>arn:([a-z-]+):lambda:.*:.*:(function|layer):.*\<close>, matched at the start of the first line.
\<close>

definition partition_char :: "char \<Rightarrow> bool" where
  "partition_char c = (let n = of_char c :: nat in (97 \<le> n \<and> n \<le> 122) \<or> c = CHR ''-'')"

definition is_lambda_arn :: "string \<Rightarrow> bool" where
  "is_lambda_arn s =
     (let partition = takeWhile partition_char (drop 4 s);
          rest = drop (4 + length partition) s;
          line = takeWhile (\<lambda>c. c \<noteq> char_of (10 :: nat)) (drop 8 rest);
          after = tl (dropWhile (\<lambda>c. c \<noteq> CHR '':'') line)
      in starts_with ''arn:'' s \<and> partition \<noteq> [] \<and> starts_with '':lambda:'' rest
         \<and> CHR '':'' \<in> set line \<and> (contains_sub '':function:'' after \<or> contains_sub '':layer:'' after))"

definition lambda_function_or_layer_arn ::
    "(string \<Rightarrow> string \<Rightarrow> string result) \<Rightarrow> string \<Rightarrow> string \<Rightarrow> string option \<Rightarrow> string \<Rightarrow> string \<Rightarrow> string result" where
  "lambda_function_or_layer_arn get_alias kind entity_name version account_id region_name =
     (if is_lambda_arn entity_name then Inr entity_name
      else bind_r
        (if CHR '':'' \<in> set entity_name
         then (let (name, sep, alias) = rpartition CHR '':'' entity_name
               in case get_alias name alias of
                    Inl e \<Rightarrow> Inl (UserError ''Exception'' (''Alias '' @ alias @ '' of '' @ name @ '' not found''))
                  | Inr v \<Rightarrow> Inr (name, Some v))
         else Inr (entity_name, version))
        (\<lambda>(name, version).
          let result = arn_text region_name (''lambda:'' @ region_name) account_id (kind @ '':'' @ name)
          in Inr (case version of Some (c # v) \<Rightarrow> result @ '':'' @ c # v | _ \<Rightarrow> result)))"

definition lambda_function_arn :: "(string \<Rightarrow> string \<Rightarrow> string result) \<Rightarrow> string \<Rightarrow> string \<Rightarrow> string \<Rightarrow> string result" where
  "lambda_function_arn get_alias function_name account_id region_name =
     lambda_function_or_layer_arn get_alias ''function'' function_name None account_id region_name"

definition lambda_layer_arn :: "(string \<Rightarrow> string \<Rightarrow> string result) \<Rightarrow> string \<Rightarrow> string \<Rightarrow> string \<Rightarrow> string result" where
  "lambda_layer_arn get_alias layer_name account_id region_name =
     lambda_function_or_layer_arn get_alias ''layer'' layer_name None account_id region_name"

text \<open>The arguments are the kind of execution and what follows the name; \<open>uid\<close> is the random \<open>long_uid\<close>.\<close>

definition execution_arn :: "arn_parser \<Rightarrow> string \<Rightarrow> string list \<Rightarrow> string \<Rightarrow> string result" where
  "execution_arn parse kind suffix state_machine_arn =
     map_sum id (\<lambda>d. join_with '':'' ([''arn'', arn_partition d, arn_service d, arn_region d, arn_account d, kind,
       concat (tl (split_on CHR '':'' (arn_resource d)))] @ suffix)) (parse_arn parse state_machine_arn)"

definition stepfunctions_standard_execution_arn :: "arn_parser \<Rightarrow> string \<Rightarrow> string \<Rightarrow> string result" where
  "stepfunctions_standard_execution_arn parse state_machine_arn execution_name =
     execution_arn parse ''execution'' [execution_name] state_machine_arn"

definition stepfunctions_express_execution_arn :: "arn_parser \<Rightarrow> string \<Rightarrow> string \<Rightarrow> string \<Rightarrow> string result" where
  "stepfunctions_express_execution_arn parse uid state_machine_arn execution_name =
     execution_arn parse ''express'' [execution_name, uid] state_machine_arn"

definition kms_alias_arn :: "string \<Rightarrow> string \<Rightarrow> string \<Rightarrow> string result" where
  "kms_alias_arn alias_name account_id region_name =
     resource_arn (if starts_with ''alias/'' alias_name then alias_name else ''alias/'' @ alias_name)
       ''arn:%s:kms:%s:%s:%s'' account_id region_name"

definition ssm_parameter_arn :: "string \<Rightarrow> string \<Rightarrow> string \<Rightarrow> string result" where
  "ssm_parameter_arn param_name account_id region_name =
     resource_arn (dropWhile (\<lambda>c. c = CHR ''/'') param_name) ''arn:%s:ssm:%s:%s:parameter/%s'' account_id region_name"

definition s3_bucket_arn :: "string \<Rightarrow> string \<Rightarrow> string" where
  "s3_bucket_arn bucket_name_or_arn region = ''arn:'' @ partition_of region @ '':s3:::'' @ s3_bucket_name bucket_name_or_arn"

definition sqs_queue_arn :: "string \<Rightarrow> string \<Rightarrow> string \<Rightarrow> string" where
  "sqs_queue_arn queue_name account_id region_name =
     arn_text region_name (''sqs:'' @ region_name) account_id (last (split_on CHR ''/'' queue_name))"

definition apigateway_restapi_arn :: "string \<Rightarrow> string \<Rightarrow> string \<Rightarrow> string" where
  "apigateway_restapi_arn api_id account_id region_name =
     arn_text region_name (''apigateway:'' @ region_name) account_id (''/restapis/'' @ api_id)"

definition apigateway_invocations_arn :: "string \<Rightarrow> string \<Rightarrow> string" where
  "apigateway_invocations_arn lambda_uri region_name =
     arn_text region_name (''apigateway:'' @ region_name) ''lambda'' (''path/2015-03-31/functions/'' @ lambda_uri @ ''/invocations'')"

definition sns_topic_arn :: "string \<Rightarrow> string \<Rightarrow> string \<Rightarrow> string" where
  "sns_topic_arn topic_name account_id region_name = arn_text region_name (''sns:'' @ region_name) account_id topic_name"

definition sns_platform_application_arn :: "string \<Rightarrow> string \<Rightarrow> string \<Rightarrow> string \<Rightarrow> string" where
  "sns_platform_application_arn platform_application_name platform account_id region_name =
     arn_text region_name (''sns:'' @ region_name) account_id (''app/'' @ platform @ ''/'' @ platform_application_name)"

text \<open>The builders with a plain regional pattern: service, prefix of the resource, builder.\<close>

definition regional_builders :: "(string \<times> string \<times> (string \<Rightarrow> string \<Rightarrow> string \<Rightarrow> string result)) list" where
  "regional_builders =
     [(''logs'', ''log-group:'', log_group_arn),
      (''events'', ''archive/'', events_archive_arn),
      (''events'', ''event-bus/'', event_bus_arn),
      (''events'', ''replay/'', events_replay_arn),
      (''lambda'', ''code-signing-config:'', lambda_code_signing_arn),
      (''lambda'', ''event-source-mapping:'', lambda_event_source_mapping_arn),
      (''lambda'', ''capacity-provider:'', capacity_provider_arn),
      (''states'', ''stateMachine:'', stepfunctions_state_machine_arn),
      (''states'', ''activity:'', stepfunctions_activity_arn),
      (''cognito-idp'', ''userpool/'', cognito_user_pool_arn),
      (''kinesis'', ''stream/'', kinesis_stream_arn),
      (''es'', ''domain/'', elasticsearch_domain_arn),
      (''firehose'', ''deliverystream/'', firehose_stream_arn),
      (''kms'', ''key/'', kms_key_arn),
      (''ecr'', ''repository/'', ecr_repository_arn),
      (''route53resolver'', ''firewall-rule-group/'', route53_resolver_firewall_rule_group_arn),
      (''route53resolver'', ''firewall-domain-list/'', route53_resolver_firewall_domain_list_arn),
      (''route53resolver'', ''firewall-rule-group-association/'', route53_resolver_firewall_rule_group_associations_arn),
      (''route53resolver'', ''resolver-query-log-config/'', route53_resolver_query_log_config_arn),
      (''ses'', ''identity/'', ses_identity_arn)]"

lemmas builder_defs =
  log_group_arn_def
  events_archive_arn_def
  event_bus_arn_def
  events_replay_arn_def
  lambda_code_signing_arn_def
  lambda_event_source_mapping_arn_def
  capacity_provider_arn_def
  stepfunctions_state_machine_arn_def
  stepfunctions_activity_arn_def
  cognito_user_pool_arn_def
  kinesis_stream_arn_def
  elasticsearch_domain_arn_def
  firehose_stream_arn_def
  kms_key_arn_def
  ecr_repository_arn_def
  route53_resolver_firewall_rule_group_arn_def
  route53_resolver_firewall_domain_list_arn_def
  route53_resolver_firewall_rule_group_associations_arn_def
  route53_resolver_query_log_config_arn_def
  ses_identity_arn_def

subsection \<open>Lemmas: splitting and formatting\<close>

text \<open>
  A separator whose first character occurs nowhere else in it and not in the last part: the split ends
  with that part, whatever comes before.
\<close>

lemma split_go_skip: "k \<le> length s \<Longrightarrow> split_go sep k s = split_go sep 0 (drop k s)"
proof (induction k arbitrary: s)
  case (Suc k)
  then show ?case by (cases s) simp_all
qed simp

lemma split_go_plain: "h \<notin> set s \<Longrightarrow> split_go (h # t) 0 s = [s]"
  by (induction s) auto

lemma split_go_last:
  assumes "h \<notin> set t" and "h \<notin> set name" and "k \<le> length u"
  shows "\<exists>ws. ws \<noteq> [] \<and> split_go (h # t) k (u @ (h # t) @ name) = ws @ [name]"
  using assms(3)
proof (induction u arbitrary: k)
  case Nil
  have "split_go (h # t) (length t) (t @ name) = split_go (h # t) 0 name"
    using split_go_skip [of "length t" "t @ name" "h # t"] by simp
  with Nil split_go_plain [OF assms(2)] show ?case by simp
next
  case (Cons c u)
  show ?case
  proof (cases k)
    case (Suc j)
    then show ?thesis using Cons by simp
  next
    case 0
    show ?thesis
    proof (cases "starts_with (h # t) (c # u @ (h # t) @ name)")
      case False
      obtain ws where "ws \<noteq> []" "split_go (h # t) 0 (u @ (h # t) @ name) = ws @ [name]" using Cons.IH [of 0] by auto
      with False 0 show ?thesis
        by (cases ws) (auto intro: exI [of _ "(c # hd ws) # tl ws"])
    next
      case True
      then have "starts_with t (u @ (h # t) @ name)" unfolding starts_with.simps by (rule conjunct2)
      then obtain r where r: "u @ (h # t) @ name = t @ r" by (auto simp: starts_with_iff)
      have "length t \<le> length u"
      proof (rule ccontr)
        assume "\<not> length t \<le> length u"
        then have lt: "length u < length t" by simp
        have "(u @ (h # t) @ name) ! length u = h" by (simp add: nth_append)
        with r lt have "t ! length u = h" by (simp add: nth_append)
        with lt assms(1) show False by (metis nth_mem)
      qed
      then obtain ws where "ws \<noteq> []" "split_go (h # t) (length t) (u @ (h # t) @ name) = ws @ [name]"
        using Cons.IH by blast
      with True 0 show ?thesis by (auto intro: exI [of _ "[] # ws"])
    qed
  qed
qed

lemma split_str_last:
  "h \<notin> set t \<Longrightarrow> h \<notin> set name \<Longrightarrow> last (split_str (h # t) (u @ (h # t) @ name)) = name"
  using split_go_last [of h t name 0 u] by (auto simp: split_str_def)

lemma split_percent:
  "CHR ''%'' \<notin> set lit \<Longrightarrow> split_go ''%s'' 0 (lit @ CHR ''%'' # CHR ''s'' # p) = lit # split_go ''%s'' 0 p"
  by (induction lit) auto

lemma format_literal:
  "CHR ''%'' \<notin> set lit \<Longrightarrow> format_s (lit @ p) args = map_sum id (append lit) (format_s p args)"
proof (induction lit)
  case Nil
  then show ?case by (cases "format_s p args") simp_all
next
  case (Cons c lit)
  then have "c \<noteq> CHR ''%''" by auto
  with Cons show ?case by (cases "format_s p args") simp_all
qed

lemma regional_arn:
  assumes "colon_free name" and "CHR ''%'' \<notin> set svc" and "CHR ''%'' \<notin> set pre"
  shows "resource_arn name (''arn:%s:'' @ svc @ '':%s:%s:'' @ pre @ ''%s'') account region =
    Inr (arn_of \<lparr>arn_partition = partition_of region, arn_service = svc, arn_region = region, arn_account = account,
      arn_resource = pre @ name\<rparr>)"
proof -
  have split: "split_str ''%s'' (''arn:%s:'' @ svc @ '':%s:%s:'' @ pre @ ''%s'') = [''arn:'', '':'' @ svc @ '':'', '':'', '':'' @ pre, []]"
    using split_percent [of "''arn:''" "'':'' @ svc @ '':%s:%s:'' @ pre @ ''%s''"]
      split_percent [of "'':'' @ svc @ '':''" "'':%s:'' @ pre @ ''%s''"]
      split_percent [of "'':''" "'':'' @ pre @ ''%s''"] split_percent [of "'':'' @ pre" "[]"] assms(2,3)
    by (simp add: split_str_def)
  have "format_s (''arn:%s:'' @ svc @ '':%s:%s:'' @ pre @ ''%s'') [partition_of region, region, account, name] =
      Inr (''arn:'' @ partition_of region @ '':'' @ svc @ '':'' @ region @ '':'' @ account @ '':'' @ pre @ name)"
    using format_literal [OF assms(2), of "'':%s:%s:'' @ pre @ ''%s''"] format_literal [OF assms(3), of "''%s''"] by simp
  with assms(1) show ?thesis unfolding resource_arn_def split by (simp add: colon_free_def arn_of_def)
qed

lemma partition_known: "get_partition region \<in> set PARTITION_NAMES"
  by (auto simp: get_partition_def PARTITION_NAMES_def DEFAULT_PARTITION_def split: option.split
      dest!: find_Some_iff [THEN iffD1]) (metis nth_mem snd_conv image_eqI)

lemma partition_colon_free: "colon_free (get_partition region)"
proof -
  have "list_all colon_free PARTITION_NAMES"
    by (simp add: PARTITION_NAMES_def REGION_PREFIX_TO_PARTITION_def DEFAULT_PARTITION_def colon_free_def)
  with partition_known show ?thesis by (simp add: list_all_iff)
qed

lemma builder_pattern:
  assumes "(svc, pre, build) \<in> set regional_builders"
  shows "build = (\<lambda>name account region. resource_arn name (''arn:%s:'' @ svc @ '':%s:%s:'' @ pre @ ''%s'') account region)
    \<and> CHR ''%'' \<notin> set svc \<and> CHR ''%'' \<notin> set pre \<and> colon_free svc"
proof -
  have "list_all (\<lambda>(svc, pre, build). build = (\<lambda>name account region. resource_arn name (''arn:%s:'' @ svc @ '':%s:%s:'' @ pre @ ''%s'') account region)
    \<and> CHR ''%'' \<notin> set svc \<and> CHR ''%'' \<notin> set pre \<and> colon_free svc) regional_builders"
    by (simp add: regional_builders_def fun_eq_iff builder_defs colon_free_def)
  with assms show ?thesis by (auto simp: list_all_iff)
qed

text \<open>A name built by hand, as the functions without a pattern do.\<close>

lemma arn_text_of:
  "arn_text region (svc @ '':'' @ r) account res =
     arn_of \<lparr>arn_partition = partition_of region, arn_service = svc, arn_region = r, arn_account = account, arn_resource = res\<rparr>"
  by (simp add: arn_text_def arn_of_def)

lemma parse_built:
  assumes "arn_parser_ok parse" and "colon_free svc" and "colon_free region" and "colon_free account"
  shows "parse (arn_of \<lparr>arn_partition = partition_of r, arn_service = svc, arn_region = region, arn_account = account, arn_resource = res\<rparr>)
    = Some \<lparr>arn_partition = partition_of r, arn_service = svc, arn_region = region, arn_account = account, arn_resource = res\<rparr>"
  using assms partition_colon_free by (simp add: arn_parser_ok_def)

subsection \<open>Properties\<close>


text \<open>A parser that splits at the first five colons.\<close>

definition split_parser :: arn_parser where
  "split_parser arn =
     (case split_on CHR '':'' arn of
        a # p # s # r # acc # res # rest \<Rightarrow>
          Some \<lparr>arn_partition = p, arn_service = s, arn_region = r, arn_account = acc, arn_resource = join_with '':'' (res # rest)\<rparr>
      | _ \<Rightarrow> None)"

lemma split_parser_ok: "arn_parser_ok split_parser"
proof -
  have "split_parser (arn_of d) = Some d"
    if "colon_free (arn_partition d)" "colon_free (arn_service d)" "colon_free (arn_region d)" "colon_free (arn_account d)" for d
  proof -
    have "split_on CHR '':'' (''arn'' @ CHR '':'' # x) = ''arn'' # split_on CHR '':'' x" for x by (rule split_on_append_sep) simp
    then have "split_on CHR '':'' (arn_of d) = ''arn'' # arn_partition d # arn_service d # arn_region d # arn_account d # split_on CHR '':'' (arn_resource d)"
      using that by (simp add: arn_of_def colon_free_def split_on_append_sep)
    moreover obtain res rest where "split_on CHR '':'' (arn_resource d) = res # rest" by (cases "split_on CHR '':'' (arn_resource d)") auto
    moreover have "join_with '':'' (res # rest) = arn_resource d" using join_split_on [of "CHR '':''" "arn_resource d"] calculation(2) by simp
    ultimately show ?thesis by (simp add: split_parser_def)
  qed
  then show ?thesis by (simp add: arn_parser_ok_def)
qed


text \<open>
  The functions that extract a resource name invert the builders: stream, delivery stream, queue,
  bucket and function names come back from their resource names.
\<close>

theorem resource_names_come_back:
  assumes "arn_parser_ok parse" and "colon_free name" and "CHR ''/'' \<notin> set name"
    and "colon_free account" and "colon_free region"
  shows "map_sum id kinesis_stream_name (kinesis_stream_arn name account region) = Inr name
    \<and> map_sum id firehose_name (firehose_stream_arn name account region) = Inr name
    \<and> sqs_queue_name parse (sqs_queue_arn name account region) = Inr name
    \<and> s3_bucket_name (s3_bucket_arn name region) = name
    \<and> bind_r (lambda_function_arn get_alias name account region) (lambda_function_name parse) = Inr name"
proof -
  have arn: "CHR '':'' \<in> set (arn_of d)" for d by (simp add: arn_of_def)
  have "kinesis_stream_arn name account region = Inr ((''arn:'' @ partition_of region @ '':kinesis:'' @ region @ '':'' @ account) @ (CHR '':'' # ''stream/'') @ name)"
    using regional_arn [OF assms(2), of "''kinesis''" "''stream/''" account region] by (simp add: kinesis_stream_arn_def arn_of_def)
  then have 1: "map_sum id kinesis_stream_name (kinesis_stream_arn name account region) = Inr name"
    using split_str_last [of "CHR '':''" "''stream/''" name "''arn:'' @ partition_of region @ '':kinesis:'' @ region @ '':'' @ account"] assms(2)
    by (simp add: kinesis_stream_name_def colon_free_def)
  have tail: "last (split_on CHR ''/'' (u @ CHR ''/'' # name)) = name" for u
  proof -
    have "\<exists>ws. ws \<noteq> [] \<and> split_on CHR ''/'' (u @ CHR ''/'' # name) = ws @ [name]"
    proof (induction u)
      case Nil
      then show ?case using assms(3) by (auto intro: exI [of _ "[[]]"])
    next
      case (Cons c u)
      then obtain ws where "ws \<noteq> []" "split_on CHR ''/'' (u @ CHR ''/'' # name) = ws @ [name]" by blast
      then show ?case by (cases ws) (auto intro: exI [of _ "[] # ws"] exI [of _ "(c # hd ws) # tl ws"])
    qed
    then show ?thesis by auto
  qed
  have "firehose_stream_arn name account region = Inr ((''arn:'' @ partition_of region @ '':firehose:'' @ region @ '':'' @ account @ '':deliverystream'') @ CHR ''/'' # name)"
    using regional_arn [OF assms(2), of "''firehose''" "''deliverystream/''" account region] by (simp add: firehose_stream_arn_def arn_of_def)
  then have 2: "map_sum id firehose_name (firehose_stream_arn name account region) = Inr name"
    by (simp only: map_sum.simps firehose_name_def tail)
  have "sqs_queue_arn name account region = arn_of \<lparr>arn_partition = partition_of region, arn_service = ''sqs'', arn_region = region, arn_account = account, arn_resource = name\<rparr>"
    using arn_text_of [of region "''sqs''" region account name] assms(3) by (simp add: sqs_queue_arn_def)
  then have 3: "sqs_queue_name parse (sqs_queue_arn name account region) = Inr name"
    using parse_built [OF assms(1) _ assms(5,4), of "''sqs''" region name] arn
    by (simp add: sqs_queue_name_def parse_arn_def colon_free_def)
  have "s3_bucket_name name = name"
    using split_go_plain [of "CHR '':''" name "''::''"] assms(2) by (simp add: s3_bucket_name_def split_str_def split_go_plain colon_free_def)
  moreover have "partition_of region \<in> set PARTITION_NAMES" by (rule partition_known)
  ultimately have 4: "s3_bucket_name (s3_bucket_arn name region) = name"
    using assms(2) unfolding s3_bucket_arn_def
    by (auto simp: PARTITION_NAMES_def REGION_PREFIX_TO_PARTITION_def DEFAULT_PARTITION_def s3_bucket_name_def split_str_def
        split_go_plain colon_free_def)
  have "\<not> is_lambda_arn name" using assms(2) by (auto simp: is_lambda_arn_def starts_with_iff colon_free_def Let_def)
  then have "lambda_function_arn get_alias name account region = Inr (arn_of \<lparr>arn_partition = partition_of region, arn_service = ''lambda'',
      arn_region = region, arn_account = account, arn_resource = ''function:'' @ name\<rparr>)"
    using arn_text_of [of region "''lambda''" region account "''function:'' @ name"] assms(2)
    by (simp add: lambda_function_arn_def lambda_function_or_layer_arn_def colon_free_def Let_def)
  moreover have "split_on CHR '':'' (''function:'' @ name) = [''function'', name]"
    using split_on_append_sep [of "CHR '':''" "''function''" name] assms(2) by (simp add: colon_free_def)
  ultimately have 5: "bind_r (lambda_function_arn get_alias name account region) (lambda_function_name parse) = Inr name"
    using parse_built [OF assms(1) _ assms(5,4), of "''lambda''" region "''function:'' @ name"] arn
    by (simp add: lambda_function_name_def parse_arn_def colon_free_def)
  from 1 2 3 4 5 show ?thesis by blast
qed

lemma resource_names_come_back_witness:
  "s3_bucket_name (s3_bucket_arn ''assets'' ''us-gov-west-1'') = ''assets''"
  using resource_names_come_back [OF split_parser_ok, of "''assets''" "''000000000000''" "''us-gov-west-1''"]
  by (simp add: colon_free_def)

end
