(* ===== verification/XmlRoundtrip.thy ===== *)
theory XmlRoundtrip
  imports XmlSerializer RestParser
begin

text \<open>
  The XML serializer against the XML request parser. A value that conforms to a shape is written to
  a tree that the parser of the rest-xml protocol reads back as the same value. The trees between
  the two are the ones of the standard library, whose text form is left out on both sides.
\<close>

subsection \<open>Values that fit a shape\<close>

definition plain_name :: "ustr \<Rightarrow> bool" where
  "plain_name n \<longleftrightarrow> 123 \<notin> set n"

definition xml_plain :: "shape \<Rightarrow> bool" where
  "xml_plain sh \<longleftrightarrow> ser_location (shape_info_of sh) = None \<and> ser_result_wrapper (shape_info_of sh) = None
     \<and> \<not> ser_eventheader (shape_info_of sh) \<and> \<not> ser_xml_attribute (shape_info_of sh)"

fun flat :: "shape \<Rightarrow> bool" where
  "flat (ListShape i m) = ser_flattened i"
| "flat (MapShape i k x) = ser_flattened i"
| "flat sh = False"

text \<open>
  \<open>xml_value k sh v\<close>: \<open>v\<close> conforms to \<open>sh\<close> and is nested at most \<open>k\<close> deep. The members of a structure
  have different element names and every required one is present; a flattened list or map is a
  member of a structure and not empty; map keys are strings; integers have at most the digits Python reads.
\<close>

definition max_digits :: nat where
  "max_digits = 4300"

inductive xml_value :: "nat \<Rightarrow> shape \<Rightarrow> pyval \<Rightarrow> bool" where
  xml_string: "xml_plain (ScalarShape i TString) \<Longrightarrow> xml_value (Suc k) (ScalarShape i TString) (PStr s)"
| xml_blob: "xml_plain (ScalarShape i TBlob) \<Longrightarrow> xml_value (Suc k) (ScalarShape i TBlob) (PBytes b)"
| xml_boolean: "xml_plain (ScalarShape i TBoolean) \<Longrightarrow> xml_value (Suc k) (ScalarShape i TBoolean) (PBool b)"
| xml_integer: "xml_plain (ScalarShape i t) \<Longrightarrow> t = TInteger \<or> t = TLong \<Longrightarrow> nat \<bar>n\<bar> < 10 ^ max_digits \<Longrightarrow>
    xml_value (Suc k) (ScalarShape i t) (PInt n)"
| xml_value_list: "xml_plain (ListShape i m) \<Longrightarrow> \<not> flat m \<Longrightarrow> (ser_flattened i \<Longrightarrow> vs \<noteq> []) \<Longrightarrow>
    list_all (xml_value k m) vs \<Longrightarrow> xml_value (Suc k) (ListShape i m) (PList vs)"
| xml_value_map: "xml_plain (MapShape i (ScalarShape ki TString) x) \<Longrightarrow> xml_plain (ScalarShape ki TString) \<Longrightarrow> \<not> flat x \<Longrightarrow>
    (ser_flattened i \<Longrightarrow> d \<noteq> []) \<Longrightarrow> wf_dict d \<Longrightarrow> 0 < k \<Longrightarrow> list_all (\<lambda>(s, v). xml_value k x v) d \<Longrightarrow>
    plain_name (serialized_name (ScalarShape ki TString) (cp ''key'')) \<Longrightarrow> plain_name (serialized_name x (cp ''value'')) \<Longrightarrow>
    serialized_name (ScalarShape ki TString) (cp ''key'') \<noteq> serialized_name x (cp ''value'') \<Longrightarrow>
    xml_value (Suc k) (MapShape i (ScalarShape ki TString) x) (str_dict d)"
| xml_value_structure: "xml_plain (Structure i ms) \<Longrightarrow> distinct (map fst ms) \<Longrightarrow>
    distinct (map (\<lambda>(n, sh). xml_member_key_name sh n) ms) \<Longrightarrow>
    list_all (\<lambda>(n, sh). plain_name (xml_member_key_name sh n) \<and> xml_plain sh \<and> (n \<in> set (required_members i) \<longrightarrow> f n \<noteq> None)
      \<and> (\<forall>v. f n = Some v \<longrightarrow> xml_value k sh v)) ms \<Longrightarrow>
    xml_value (Suc k) (Structure i ms) (str_dict (present_members ms f))"

lemma xml_value_not_None: "xml_value k sh v \<Longrightarrow> v \<noteq> PNone"
  by (induction rule: xml_value.induct) simp_all

subsection \<open>Names and nodes\<close>

definition element_name :: "shape \<Rightarrow> ustr \<Rightarrow> ustr" where
  "element_name sh name =
     (case sh of ListShape i m \<Rightarrow> if ser_flattened i then serialized_name m name else name | _ \<Rightarrow> name)"

lemma member_key_element: "xml_member_key_name sh n = element_name sh (serialized_name sh n)"
  by (cases sh) (simp_all add: xml_member_key_name_def element_name_def serialized_name_def split: option.splits)

lemma element_name_not_flat: "\<not> flat sh \<Longrightarrow> element_name sh name = name"
  by (cases sh) (simp_all add: element_name_def)

lemma sub_namespace_plain: "plain_name n \<Longrightarrow> sub_namespace [] n = n"
  by (induction n) (simp_all add: plain_name_def)

text \<open>The elements of one member as the parser collects them.\<close>

fun collect :: "xml list \<Rightarrow> pyval" where
  "collect [x] = PElem x"
| "collect xs = PList (map PElem xs)"

lemma collect_not_None [simp]: "collect xs \<noteq> PNone"
  by (cases xs rule: collect.cases) simp_all

lemma as_flattened_collect: "ser_flattened i \<Longrightarrow> xs \<noteq> [] \<Longrightarrow> as_flattened i (collect xs) = PList (map PElem xs)"
  by (cases xs rule: collect.cases) (simp_all add: as_flattened_def)

lemma name_to_xml_nodes_one:
  assumes "plain_name key" "\<forall>x \<in> set xs. xml_tag x = key" "ys \<noteq> []" and new: "key \<notin> fst ` set d"
  shows "name_to_xml_nodes (map PElem xs @ rest) (d @ [(key, collect ys)]) = name_to_xml_nodes rest (d @ [(key, collect (ys @ xs))])"
  using assms(2,3)
proof (induction xs arbitrary: ys)
  case Nil
  then show ?case by simp
next
  case (Cons x xs)
  have set: "dict_set key v (d @ [(key, w)]) = d @ [(key, v)]" for v w
    using new by (induction d) auto
  have get: "dict_get (d @ [(key, w)]) key = Some w" for w
    using new by (induction d) auto
  have "add_xml_node key (PElem x) (d @ [(key, collect ys)]) = d @ [(key, collect (ys @ [x]))]"
    unfolding add_xml_node_def get set using Cons.prems(2) by (cases ys rule: collect.cases) simp_all
  with Cons.IH [of "ys @ [x]"] Cons.prems assms(1) show ?case
    by (simp add: node_tag_def sub_namespace_plain)
qed

lemma name_to_xml_nodes_piece:
  assumes "plain_name key" "\<forall>x \<in> set xs. xml_tag x = key" "xs \<noteq> []" "key \<notin> fst ` set d"
  shows "name_to_xml_nodes (map PElem xs @ rest) d = name_to_xml_nodes rest (d @ [(key, collect xs)])"
proof -
  obtain y ys where xs: "xs = y # ys" using assms(3) by (cases xs) auto
  have none: "dict_get d key = None"
    using assms(4) by (simp add: map_of_eq_None_iff)
  have "add_xml_node key (PElem y) d = d @ [(key, collect [y])]"
    unfolding add_xml_node_def none using assms(4) by (simp add: dict_set_new)
  moreover have "name_to_xml_nodes (map PElem ys @ rest) (d @ [(key, collect [y])])
      = name_to_xml_nodes rest (d @ [(key, collect ([y] @ ys))])"
    by (rule name_to_xml_nodes_one) (use assms xs in auto)
  ultimately show ?thesis
    using assms(1,2) by (simp add: xs node_tag_def sub_namespace_plain)
qed

lemma name_to_xml_nodes_pieces:
  assumes "\<forall>(key, xs) \<in> set ps. plain_name key \<and> (\<forall>x \<in> set xs. xml_tag x = key) \<and> xs \<noteq> []"
    "distinct (map fst d @ map fst ps)"
  shows "name_to_xml_nodes (map PElem (concat (map snd ps))) d = Inr (d @ map (\<lambda>(key, xs). (key, collect xs)) ps)"
  using assms
proof (induction ps arbitrary: d)
  case Nil
  then show ?case by simp
next
  case (Cons p ps)
  obtain key xs where p: "p = (key, xs)" by (cases p)
  have "name_to_xml_nodes (map PElem xs @ map PElem (concat (map snd ps))) d
      = name_to_xml_nodes (map PElem (concat (map snd ps))) (d @ [(key, collect xs)])"
    by (rule name_to_xml_nodes_piece) (use Cons.prems p in auto)
  with Cons.IH [of "d @ [(key, collect xs)]"] Cons.prems p show ?case by simp
qed

subsection \<open>Integers in text\<close>

lemma digit_run_digits:
  "list_all is_digit ds \<Longrightarrow> digit_run True (cp ds) = Some (map (\<lambda>c. of_char c - 48) ds)"
  by (induction ds) (simp_all add: is_udigit_def is_digit_def Let_def)

lemma digit_run_dec: "digit_run False (cp (dec_digits n)) = Some (map (\<lambda>c. of_char c - 48) (dec_digits n))"
proof -
  obtain c cs where d: "dec_digits n = c # cs"
    by (cases "dec_digits n") (subst (asm) dec_digits.simps, simp split: if_splits)
  with dec_digits_facts(1) [of n] digit_run_digits [of cs] show ?thesis
    by (simp add: is_udigit_def is_digit_def Let_def)
qed

lemma strip_no_ws: "list_all (\<lambda>c. \<not> is_ws c) s \<Longrightarrow> ustr_strip s = s"
proof -
  have d: "dropWhile is_ws t = t" if "list_all (\<lambda>c. \<not> is_ws c) t" for t
    using that by (cases t) simp_all
  assume "list_all (\<lambda>c. \<not> is_ws c) s"
  then show ?thesis by (simp add: ustr_strip_def d)
qed

lemma dec_no_ws: "list_all (\<lambda>c. \<not> is_ws c \<and> c \<noteq> 45 \<and> c \<noteq> 43) (cp (dec_digits n))"
proof -
  have "list_all (\<lambda>c. 48 \<le> c \<and> c \<le> 57) (cp (dec_digits n))"
    using dec_digits_facts(1) [of n] by (auto simp: list_all_iff cp_def is_digit_def Let_def)
  then show ?thesis
    by (auto simp: list_all_iff is_ws_def)
qed

lemma int_of_text: "nat \<bar>n\<bar> < 10 ^ max_digits \<Longrightarrow> int_of_str (int_text n) = Inr n"
proof -
  assume n: "nat \<bar>n\<bar> < 10 ^ max_digits"
  have len: "length (dec_digits (nat \<bar>n\<bar>)) \<le> 4300"
    using dec_digits_facts(2) [OF n] by (simp add: max_digits_def)
  let ?d = "cp (dec_digits (nat \<bar>n\<bar>))"
  have ws: "list_all (\<lambda>c. \<not> is_ws c) ?d" and sg: "split_sign ?d = (False, ?d)"
    using dec_no_ws [of "nat \<bar>n\<bar>"] by (auto simp: list_all_iff split_sign_def split: list.split)
  show ?thesis
  proof (cases "n < 0")
    case True
    then have t: "int_text n = 45 # ?d" by (simp add: int_text_def)
    have "ustr_strip (45 # ?d) = 45 # ?d"
      by (rule strip_no_ws) (use ws in \<open>simp add: is_ws_def\<close>)
    then show ?thesis
      using len True by (simp add: int_of_str_def t split_sign_def digit_run_dec num_of_dec_digits)
  next
    case False
    then have t: "int_text n = ?d" by (simp add: int_text_def)
    show ?thesis
      unfolding int_of_str_def t strip_no_ws [OF ws] sg using len False by (simp add: digit_run_dec num_of_dec_digits)
  qed
qed

subsection \<open>Writing and reading one shape\<close>

definition comes_back :: "xml_class \<Rightarrow> xml_env \<Rightarrow> rest_class \<Rightarrow> time_parsers \<Rightarrow> request \<Rightarrow> uri_params \<Rightarrow> nat \<Rightarrow> shape \<Rightarrow> pyval \<Rightarrow> bool" where
  "comes_back c env p tp rq uri k sh v \<longleftrightarrow>
     (\<forall>l \<ge> k. \<forall>name. \<exists>xs. xml_serialize c env l sh v name = Inr xs \<and> xs \<noteq> []
        \<and> (\<forall>x \<in> set xs. xml_tag x = element_name sh name) \<and> (\<not> flat sh \<longrightarrow> length xs = 1)
        \<and> (\<forall>l' \<ge> k. xml_shape p tp rq l' uri sh (collect xs) = Inr v))"

lemma xml_serialize_plain:
  "xml_plain sh \<Longrightarrow> xml_serialize c env (Suc l) sh v name = convert_serializer_errors (write_node c env (xml_serialize c env l) sh v name)"
  by (simp add: xml_serialize.simps xml_plain_def wrapped_name_def)

lemma xml_shape_plain:
  "xml_plain sh \<Longrightarrow> v \<noteq> PNone \<Longrightarrow>
     xml_shape p tp rq (Suc l) uri sh v = convert_type_errors (xml_node p tp (xml_shape p tp rq l uri) sh v)"
  by (auto simp: xml_shape.simps xml_plain_def s3_uri_params_def shape_payload_def Let_def)

lemma convert_Inr [simp]: "convert_type_errors (Inr x) = Inr x" "convert_serializer_errors (Inr x) = Inr x"
  by (simp_all add: convert_type_errors_def convert_serializer_errors_def)

lemma comes_back_scalar:
  assumes "xml_plain (ScalarShape i t)"
    "\<And>name. xml_scalar_element c env i t v name = Inr (leaf name s)" "query_scalar tp i t (PStr s) = Inr v"
  shows "comes_back c env p tp rq uri (Suc k) (ScalarShape i t) v"
  unfolding comes_back_def
proof (intro allI impI)
  fix l name assume "Suc k \<le> l"
  then obtain l0 where l: "l = Suc l0" by (cases l) auto
  have "xml_shape p tp rq l' uri (ScalarShape i t) (PElem (leaf name s)) = Inr v" if l': "Suc k \<le> l'" for l'
  proof -
    obtain l1 where "l' = Suc l1" using l' by (cases l') auto
    moreover have "ser_location i = None"
      using assms(1) by (simp add: xml_plain_def)
    ultimately show ?thesis
      using assms(3) by (simp add: xml_shape_plain [OF assms(1)] xml_node_def xml_scalar_def text_content_def leaf_def)
  qed
  then show "\<exists>xs. xml_serialize c env l (ScalarShape i t) v name = Inr xs \<and> xs \<noteq> []
      \<and> (\<forall>x \<in> set xs. xml_tag x = element_name (ScalarShape i t) name) \<and> (\<not> flat (ScalarShape i t) \<longrightarrow> length xs = 1)
      \<and> (\<forall>l' \<ge> Suc k. xml_shape p tp rq l' uri (ScalarShape i t) (collect xs) = Inr v)"
    by (intro exI [of _ "[leaf name s]"])
      (simp add: l xml_serialize_plain [OF assms(1)] write_node_def assms(2) element_name_def leaf_def)
qed

text \<open>A value that is written to one element.\<close>

lemma comes_back_single:
  assumes "comes_back c env p tp rq uri k sh v" "\<not> flat sh" "k \<le> l"
  obtains x where "xml_serialize c env l sh v name = Inr [x]" "xml_tag x = name"
    "\<And>l'. k \<le> l' \<Longrightarrow> xml_shape p tp rq l' uri sh (PElem x) = Inr v"
proof -
  obtain xs where xs: "xml_serialize c env l sh v name = Inr xs" "\<forall>x \<in> set xs. xml_tag x = element_name sh name"
      "length xs = 1" "\<forall>l' \<ge> k. xml_shape p tp rq l' uri sh (collect xs) = Inr v"
    using assms unfolding comes_back_def by blast
  then obtain x where "xs = [x]" by (auto simp: length_Suc_conv)
  with xs that [of x] element_name_not_flat [OF assms(2)] show ?thesis by simp
qed

lemma comes_back_single_ex:
  assumes "comes_back c env p tp rq uri k sh v" "\<not> flat sh" "k \<le> l"
  shows "\<exists>x. xml_serialize c env l sh v name = Inr [x] \<and> xml_tag x = name
      \<and> (\<forall>l' \<ge> k. xml_shape p tp rq l' uri sh (PElem x) = Inr v)"
  by (rule comes_back_single [OF assms, of name]) blast

lemma map_r_map: "map_r f (map g xs) = map_r (f \<circ> g) xs"
  by (induction xs) simp_all

lemma map_r_id: "(\<And>x. x \<in> set xs \<Longrightarrow> f (g x) = Inr x) \<Longrightarrow> map_r f (map g xs) = Inr xs"
  using map_r_all_Inr [of xs "f \<circ> g" id] by (simp add: map_r_map)

lemma comes_back_list:
  assumes plain: "xml_plain (ListShape i m)" and m: "\<not> flat m" and ne: "ser_flattened i \<Longrightarrow> vs \<noteq> []"
    and vs: "\<And>v. v \<in> set vs \<Longrightarrow> comes_back c env p tp rq uri k m v \<and> v \<noteq> PNone"
  shows "comes_back c env p tp rq uri (Suc k) (ListShape i m) (PList vs)"
  unfolding comes_back_def
proof (intro allI impI)
  fix l name assume "Suc k \<le> l"
  then obtain l0 where l: "l = Suc l0" "k \<le> l0" by (cases l) auto
  define nm where "nm = serialized_name m (if ser_flattened i then name else cp ''member'')"
  have "\<forall>v \<in> set vs. \<exists>x. xml_serialize c env l0 m v nm = Inr [x] \<and> xml_tag x = nm
      \<and> (\<forall>l' \<ge> k. xml_shape p tp rq l' uri m (PElem x) = Inr v)"
    using comes_back_single_ex [OF _ m l(2)] vs by blast
  then obtain e where e: "\<And>v. v \<in> set vs \<Longrightarrow> xml_serialize c env l0 m v nm = Inr [e v] \<and> xml_tag (e v) = nm
      \<and> (\<forall>l' \<ge> k. xml_shape p tp rq l' uri m (PElem (e v)) = Inr v)"
    by metis
  define xs where "xs = (if ser_flattened i then map e vs else [Element name [] None (map e vs)])"
  have filter: "filter (\<lambda>x. x \<noteq> PNone) vs = vs"
    using vs by (simp add: filter_id_conv)
  have parts: "map_r (\<lambda>x. xml_serialize c env l0 m x nm) vs = Inr (map (\<lambda>v. [e v]) vs)"
    by (rule map_r_all_Inr) (use e in simp)
  have concat: "concat (map (\<lambda>v. [e v]) vs) = map e vs"
    by (induction vs) simp_all
  have "write_list (xml_serialize c env l0) i m (PList vs) name = Inr xs"
    unfolding write_list_def using parts concat by (simp add: py_iter_def filter nm_def xs_def)
  then have ser: "xml_serialize c env l (ListShape i m) (PList vs) name = Inr xs"
    by (simp add: l xml_serialize_plain [OF plain] write_node_def)
  have ne': "xs \<noteq> []"
    using ne by (simp add: xs_def)
  have read: "xml_shape p tp rq l' uri (ListShape i m) (collect xs) = Inr (PList vs)" if l': "Suc k \<le> l'" for l'
  proof -
    obtain l1 where l1: "l' = Suc l1" "k \<le> l1" using l' by (cases l') auto
    have items: "py_iter (as_flattened i (collect xs)) = Inr (map (PElem \<circ> e) vs)"
    proof (cases "ser_flattened i")
      case True
      with ne' show ?thesis by (simp add: as_flattened_collect xs_def py_iter_def)
    next
      case False
      then show ?thesis by (simp add: as_flattened_def xs_def py_iter_def)
    qed
    have "map_r (xml_shape p tp rq l1 uri m) (map (PElem \<circ> e) vs) = Inr vs"
      by (rule map_r_id) (use e l1(2) in auto)
    with items show ?thesis
      by (simp add: l1(1) xml_shape_plain [OF plain] xml_node_def xml_list_def parse_list_def)
  qed
  have "\<forall>x \<in> set xs. xml_tag x = element_name (ListShape i m) name"
    using e by (auto simp: xs_def element_name_def nm_def)
  with ser ne' read show "\<exists>xs. xml_serialize c env l (ListShape i m) (PList vs) name = Inr xs \<and> xs \<noteq> []
      \<and> (\<forall>x \<in> set xs. xml_tag x = element_name (ListShape i m) name) \<and> (\<not> flat (ListShape i m) \<longrightarrow> length xs = 1)
      \<and> (\<forall>l' \<ge> Suc k. xml_shape p tp rq l' uri (ListShape i m) (collect xs) = Inr (PList vs))"
    by (intro exI [of _ xs]) (auto simp: xs_def)
qed

lemma wf_dict_entries:
  assumes "\<And>s v. (s, v) \<in> set d \<Longrightarrow> bind_r (py_iter (e s v)) (\<lambda>ps. xml_pair rec key val ps (PNone, PNone)) = Inr (PStr s, v)"
    "wf_dict (acc @ d)"
  shows "xml_entries rec key val (map (\<lambda>(s, v). e s v) d) (map (\<lambda>(s, v). (PStr s, v)) acc)
    = Inr (map (\<lambda>(s, v). (PStr s, v)) (acc @ d))"
  using assms
proof (induction d arbitrary: acc)
  case (Cons sv d)
  obtain s v where sv: "sv = (s, v)" by (cases sv)
  have "pdict_set (PStr s) v (map (\<lambda>(s, v). (PStr s, v)) acc) = map (\<lambda>(s, v). (PStr s, v)) (acc @ [(s, v)])"
    using Cons.prems(2) sv by (subst pdict_set_fresh) (auto simp: wf_dict_def image_iff)
  moreover have "xml_entries rec key val (map (\<lambda>(s, v). e s v) d) (map (\<lambda>(s, v). (PStr s, v)) (acc @ [(s, v)]))
      = Inr (map (\<lambda>(s, v). (PStr s, v)) ((acc @ [(s, v)]) @ d))"
    by (rule Cons.IH) (use Cons.prems sv in auto)
  moreover obtain ps where "py_iter (e s v) = Inr ps" "xml_pair rec key val ps (PNone, PNone) = Inr (PStr s, v)"
    using Cons.prems(1) [of s v] sv by (auto simp: bind_r_eq_Inr)
  ultimately show ?case
    by (simp add: sv pdict_store_def)
qed simp

lemma comes_back_map:
  assumes plain: "xml_plain (MapShape i (ScalarShape ki TString) x)" and key: "xml_plain (ScalarShape ki TString)"
    and x: "\<not> flat x" and ne: "ser_flattened i \<Longrightarrow> d \<noteq> []" and wf: "wf_dict d" and c: "c \<noteq> SqsSer"
    and d: "\<And>s v. (s, v) \<in> set d \<Longrightarrow> comes_back c env p tp rq uri (Suc k) x v \<and> v \<noteq> PNone"
    and names: "plain_name (serialized_name (ScalarShape ki TString) (cp ''key''))" "plain_name (serialized_name x (cp ''value''))"
      "serialized_name (ScalarShape ki TString) (cp ''key'') \<noteq> serialized_name x (cp ''value'')"
  shows "comes_back c env p tp rq uri (Suc (Suc k)) (MapShape i (ScalarShape ki TString) x) (str_dict d)"
    (is "comes_back c env p tp rq uri _ ?sh _")
  unfolding comes_back_def
proof (intro allI impI)
  fix l name assume "Suc (Suc k) \<le> l"
  then obtain l0 where l: "l = Suc l0" "Suc k \<le> l0" by (cases l) auto
  define kn where "kn = serialized_name (ScalarShape ki TString) (cp ''key'')"
  define vn where "vn = serialized_name x (cp ''value'')"
  define en where "en = (if ser_flattened i then name else cp ''entry'')"
  have keys: "comes_back c env p tp rq uri (Suc k) (ScalarShape ki TString) (PStr s)" for s
    by (rule comes_back_scalar [OF key, of _ _ _ s]) (use c in \<open>simp_all add: xml_scalar_element_def default_serialize_def py_str_def\<close>)
  have "\<exists>y. xml_serialize c env l0 (ScalarShape ki TString) (PStr s) kn = Inr [y] \<and> xml_tag y = kn
      \<and> (\<forall>l' \<ge> Suc k. xml_shape p tp rq l' uri (ScalarShape ki TString) (PElem y) = Inr (PStr s))" for s
    by (rule comes_back_single_ex [OF keys _ l(2)]) simp
  then obtain ek where ek: "\<And>s. xml_serialize c env l0 (ScalarShape ki TString) (PStr s) kn = Inr [ek s] \<and> xml_tag (ek s) = kn
      \<and> (\<forall>l' \<ge> Suc k. xml_shape p tp rq l' uri (ScalarShape ki TString) (PElem (ek s)) = Inr (PStr s))"
    by metis
  have "\<forall>v \<in> snd ` set d. \<exists>y. xml_serialize c env l0 x v vn = Inr [y] \<and> xml_tag y = vn
      \<and> (\<forall>l' \<ge> Suc k. xml_shape p tp rq l' uri x (PElem y) = Inr v)"
  proof
    fix v assume "v \<in> snd ` set d"
    then obtain s where "(s, v) \<in> set d" by auto
    then show "\<exists>y. xml_serialize c env l0 x v vn = Inr [y] \<and> xml_tag y = vn
        \<and> (\<forall>l' \<ge> Suc k. xml_shape p tp rq l' uri x (PElem y) = Inr v)"
      using comes_back_single_ex [OF _ x l(2)] d by blast
  qed
  then obtain ev where ev: "\<And>v. v \<in> snd ` set d \<Longrightarrow> xml_serialize c env l0 x v vn = Inr [ev v] \<and> xml_tag (ev v) = vn
      \<and> (\<forall>l' \<ge> Suc k. xml_shape p tp rq l' uri x (PElem (ev v)) = Inr v)"
    by metis
  define entry where "entry = (\<lambda>s v. Element en [] None [ek s, ev v])"
  define es where "es = map (\<lambda>(s, v). entry s v) d"
  define xs where "xs = (if ser_flattened i then es else [Element name [] None es])"
  let ?kvs = "map (\<lambda>(s, v). (PStr s, v)) d"
  have filter: "filter (\<lambda>(k, v). v \<noteq> PNone) ?kvs = ?kvs"
    using d by (auto simp: filter_id_conv)
  have one: "write_entry (xml_serialize c env l0) (ScalarShape ki TString) x en (PStr s, v) = Inr (entry s v)"
    if "(s, v) \<in> set d" for s v
  proof -
    have "v \<in> snd ` set d" using that by force
    with ek [of s] ev [of v] show ?thesis
      by (simp add: write_entry_def entry_def del: cp_simps flip: kn_def vn_def)
  qed
  have entries: "map_r (write_entry (xml_serialize c env l0) (ScalarShape ki TString) x en) ?kvs = Inr es"
    unfolding map_r_map es_def by (rule map_r_all_Inr) (use one in auto)
  have "write_map (xml_serialize c env l0) i (ScalarShape ki TString) x (str_dict d) name = Inr xs"
    unfolding write_map_def using entries by (simp add: str_dict_def py_items_def filter en_def [symmetric] xs_def)
  then have ser: "xml_serialize c env l ?sh (str_dict d) name = Inr xs"
    by (simp add: l xml_serialize_plain [OF plain] write_node_def)
  have ne': "xs \<noteq> []"
    using ne by (simp add: xs_def es_def)
  have read: "xml_shape p tp rq l' uri ?sh (collect xs) = Inr (str_dict d)" if l': "Suc (Suc k) \<le> l'" for l'
  proof -
    obtain l1 where l1: "l' = Suc l1" "Suc k \<le> l1" using l' by (cases l') auto
    have items: "py_iter (as_flattened i (collect xs)) = Inr (map PElem es)"
    proof (cases "ser_flattened i")
      case True
      with ne' show ?thesis by (simp add: as_flattened_collect xs_def py_iter_def)
    next
      case False
      then show ?thesis by (simp add: as_flattened_def xs_def py_iter_def)
    qed
    have pair: "bind_r (py_iter (PElem (entry s v)))
          (\<lambda>ps. xml_pair (xml_shape p tp rq l1 uri) (ScalarShape ki TString) x ps (PNone, PNone)) = Inr (PStr s, v)"
      if "(s, v) \<in> set d" for s v
    proof -
      have "v \<in> snd ` set d" using that by force
      with ek [of s] ev [of v] names l1(2) show ?thesis
        by (simp add: entry_def py_iter_def node_tag_def sub_namespace_plain kn_def vn_def)
    qed
    have "xml_entries (xml_shape p tp rq l1 uri) (ScalarShape ki TString) x (map (\<lambda>(s, v). PElem (entry s v)) d) (map (\<lambda>(s, v). (PStr s, v)) [])
        = Inr (map (\<lambda>(s, v). (PStr s, v)) ([] @ d))"
      by (rule wf_dict_entries) (use pair wf in auto)
    moreover have "map PElem es = map (\<lambda>(s, v). PElem (entry s v)) d"
      by (auto simp: es_def)
    ultimately have "xml_entries (xml_shape p tp rq l1 uri) (ScalarShape ki TString) x (map PElem es) [] = Inr ?kvs"
      by simp
    with items show ?thesis
      by (simp add: l1(1) xml_shape_plain [OF plain] xml_node_def xml_map_def str_dict_def)
  qed
  have "\<forall>y \<in> set xs. xml_tag y = element_name ?sh name"
    by (auto simp: xs_def element_name_def es_def entry_def en_def)
  with ser ne' read show "\<exists>xs. xml_serialize c env l ?sh (str_dict d) name = Inr xs \<and> xs \<noteq> []
      \<and> (\<forall>y \<in> set xs. xml_tag y = element_name ?sh name) \<and> (\<not> flat ?sh \<longrightarrow> length xs = 1)
      \<and> (\<forall>l' \<ge> Suc (Suc k). xml_shape p tp rq l' uri ?sh (collect xs) = Inr (str_dict d))"
    by (intro exI [of _ xs]) (auto simp: xs_def)
qed

text \<open>The elements of the members of a structure, by the name the parser looks for.\<close>

definition member_pieces :: "(ustr \<times> shape) list \<Rightarrow> (ustr \<Rightarrow> pyval option) \<Rightarrow> (ustr \<Rightarrow> xml list) \<Rightarrow> (ustr \<times> xml list) list" where
  "member_pieces ms f P = map (\<lambda>(n, sh). (xml_member_key_name sh n, P n)) (filter (\<lambda>(n, sh). f n \<noteq> None) ms)"

lemma write_members_present:
  assumes "\<And>n sh v. (n, sh) \<in> set ms \<Longrightarrow> f n = Some v \<Longrightarrow> map_of MS n = Some sh \<and> \<not> ser_xml_attribute (shape_info_of sh)
      \<and> v \<noteq> PNone \<and> rec sh v (serialized_name sh n) = Inr (P n)"
  shows "write_members rec MS (map (\<lambda>(k, v). (PStr k, v)) (present_members ms f)) (attribs, children)
    = Inr (attribs, children @ concat (map snd (member_pieces ms f P)))"
  using assms
proof (induction ms arbitrary: children)
  case (Cons m ms)
  obtain n sh where m: "m = (n, sh)" by (cases m)
  have IH: "write_members rec MS (map (\<lambda>(k, v). (PStr k, v)) (present_members ms f)) (attribs, ch)
      = Inr (attribs, ch @ concat (map snd (member_pieces ms f P)))" for ch
    by (rule Cons.IH) (use Cons.prems in auto)
  show ?case
  proof (cases "f n")
    case None
    with IH [of children] m show ?thesis by (simp add: member_pieces_def)
  next
    case (Some v)
    with Cons.prems [of n sh v] m IH [of "children @ P n"] show ?thesis
      by (simp add: member_pieces_def shape_member_def)
  qed
qed (simp add: member_pieces_def)

lemma map_of_pieces:
  assumes "distinct (map (\<lambda>(n, sh). xml_member_key_name sh n) ms)" "(n, sh) \<in> set ms"
  shows "map_of (map (\<lambda>(key, xs). (key, collect xs)) (member_pieces ms f P)) (xml_member_key_name sh n)
    = (if f n = None then None else Some (collect (P n)))"
  using assms
proof (induction ms)
  case (Cons m ms)
  obtain n' sh' where m: "m = (n', sh')" by (cases m)
  have out: "map_of (map (\<lambda>(key, xs). (key, collect xs)) (member_pieces ms f P)) key = None"
    if "key \<notin> set (map (\<lambda>(n, sh). xml_member_key_name sh n) ms)" for key
    using that by (auto simp: map_of_eq_None_iff member_pieces_def)
  show ?case
  proof (cases "(n, sh) = m")
    case True
    with Cons.prems(1) m out [of "xml_member_key_name sh n"] show ?thesis
      by (auto simp: member_pieces_def)
  next
    case False
    then have mem: "(n, sh) \<in> set ms" using Cons.prems(2) by simp
    then have "xml_member_key_name sh n \<in> set (map (\<lambda>(n, sh). xml_member_key_name sh n) ms)" by force
    then have ne: "xml_member_key_name sh' n' \<noteq> xml_member_key_name sh n" using Cons.prems(1) m by auto
    have "map_of (map (\<lambda>(key, xs). (key, collect xs)) (member_pieces ms f P)) (xml_member_key_name sh n)
        = (if f n = None then None else Some (collect (P n)))"
      by (rule Cons.IH [OF _ mem]) (use Cons.prems(1) m in simp)
    with ne show ?thesis by (simp add: m member_pieces_def)
  qed
qed simp

lemma xml_members_present:
  assumes "\<And>n sh. (n, sh) \<in> set ms \<Longrightarrow> xml_plain sh
      \<and> dict_get nodes (xml_member_key_name sh n) = (if f n = None then None else Some (collect (P n)))
      \<and> (f n = None \<longrightarrow> n \<notin> set required) \<and> (\<forall>v. f n = Some v \<longrightarrow> rec sh (collect (P n)) = Inr v)"
    "distinct (map fst acc @ map fst ms)"
  shows "xml_members rec required nodes node ms acc = Inr (acc @ present_members ms f)"
  using assms
proof (induction ms arbitrary: acc)
  case (Cons m ms)
  obtain n sh where m: "m = (n, sh)" by (cases m)
  have h: "xml_plain sh" "dict_get nodes (xml_member_key_name sh n) = (if f n = None then None else Some (collect (P n)))"
      "f n = None \<Longrightarrow> n \<notin> set required" "\<And>v. f n = Some v \<Longrightarrow> rec sh (collect (P n)) = Inr v"
    using Cons.prems(1) [of n sh] m by auto
  have IH: "xml_members rec required nodes node ms acc' = Inr (acc' @ present_members ms f)"
    if "distinct (map fst acc' @ map fst ms)" for acc'
    by (rule Cons.IH) (use Cons.prems that in auto)
  show ?case
  proof (cases "f n")
    case None
    then have "xml_member rec required nodes node n sh = Inr None"
      using h(1-3) by (simp add: xml_member_def Let_def xml_plain_def)
    with IH [of acc] Cons.prems(2) None show ?thesis by (simp add: m)
  next
    case (Some v)
    then have "xml_member rec required nodes node n sh = Inr (Some v)"
      using h(2,4) by (simp add: xml_member_def Let_def)
    moreover have "dict_set n v acc = acc @ [(n, v)]"
      using Cons.prems(2) m by (simp add: dict_set_new)
    ultimately show ?thesis
      using IH [of "acc @ [(n, v)]"] Cons.prems(2) Some by (simp add: m)
  qed
qed simp

lemma build_nodes:
  assumes "distinct (map (\<lambda>(n, sh). xml_member_key_name sh n) ms)"
    "\<And>n sh. (n, sh) \<in> set ms \<Longrightarrow> f n \<noteq> None \<Longrightarrow> plain_name (xml_member_key_name sh n)
      \<and> P n \<noteq> [] \<and> (\<forall>x \<in> set (P n). xml_tag x = xml_member_key_name sh n)"
  shows "build_name_to_xml_node (PElem (Element name attribs t (concat (map snd (member_pieces ms f P)))))
    = Inr (map (\<lambda>(key, xs). (key, collect xs)) (member_pieces ms f P))"
proof -
  have "distinct (map fst (member_pieces ms f P))"
    using assms(1) by (induction ms) (auto simp: member_pieces_def)
  moreover have "\<forall>(key, xs) \<in> set (member_pieces ms f P). plain_name key \<and> (\<forall>x \<in> set xs. xml_tag x = key) \<and> xs \<noteq> []"
    using assms(2) by (auto simp: member_pieces_def)
  ultimately show ?thesis
    using name_to_xml_nodes_pieces [of "member_pieces ms f P" "[]"] by (simp add: py_iter_def)
qed

lemma comes_back_structure:
  assumes plain: "xml_plain (Structure i ms)" and names: "distinct (map fst ms)"
    and keys: "distinct (map (\<lambda>(n, sh). xml_member_key_name sh n) ms)"
    and ms: "\<And>n sh. (n, sh) \<in> set ms \<Longrightarrow> plain_name (xml_member_key_name sh n) \<and> xml_plain sh
      \<and> (n \<in> set (required_members i) \<longrightarrow> f n \<noteq> None)
      \<and> (\<forall>v. f n = Some v \<longrightarrow> comes_back c env p tp rq uri k sh v \<and> v \<noteq> PNone)"
  shows "comes_back c env p tp rq uri (Suc k) (Structure i ms) (str_dict (present_members ms f))"
    (is "comes_back c env p tp rq uri _ ?sh ?v")
  unfolding comes_back_def
proof (intro allI impI)
  fix l name assume "Suc k \<le> l"
  then obtain l0 where l: "l = Suc l0" "k \<le> l0" by (cases l) auto
  let ?good = "\<lambda>n xs. \<forall>sh v. (n, sh) \<in> set ms \<longrightarrow> f n = Some v \<longrightarrow>
      xml_serialize c env l0 sh v (serialized_name sh n) = Inr xs \<and> xs \<noteq> []
      \<and> (\<forall>x \<in> set xs. xml_tag x = xml_member_key_name sh n) \<and> (\<forall>l' \<ge> k. xml_shape p tp rq l' uri sh (collect xs) = Inr v)"
  have "\<exists>xs. ?good n xs" for n
  proof (cases "\<exists>sh v. (n, sh) \<in> set ms \<and> f n = Some v")
    case True
    then obtain sh v where sh: "(n, sh) \<in> set ms" "f n = Some v" by blast
    then obtain xs where xs: "xml_serialize c env l0 sh v (serialized_name sh n) = Inr xs" "xs \<noteq> []"
        "\<forall>x \<in> set xs. xml_tag x = element_name sh (serialized_name sh n)"
        "\<forall>l' \<ge> k. xml_shape p tp rq l' uri sh (collect xs) = Inr v"
      using ms [OF sh(1)] l(2) unfolding comes_back_def by blast
    moreover have "sh' = sh" if "(n, sh') \<in> set ms" for sh'
      using names sh(1) that by (metis eq_key_imp_eq_value)
    ultimately have "?good n xs" using sh(2) by (auto simp: member_key_element)
    then show ?thesis ..
  qed blast
  then obtain P where P: "\<And>n. ?good n (P n)" by metis
  define cs where "cs = concat (map snd (member_pieces ms f P))"
  define x where "x = Element name (namespace_attribs i) None cs"
  have "write_members (xml_serialize c env l0) ms (map (\<lambda>(k, v). (PStr k, v)) (present_members ms f)) (namespace_attribs i, [])
      = Inr (namespace_attribs i, [] @ concat (map snd (member_pieces ms f P)))"
  proof (rule write_members_present)
    fix n sh v assume "(n, sh) \<in> set ms" "f n = Some v"
    with P [of n] ms [of n sh] names show "map_of ms n = Some sh \<and> \<not> ser_xml_attribute (shape_info_of sh)
        \<and> v \<noteq> PNone \<and> xml_serialize c env l0 sh v (serialized_name sh n) = Inr (P n)"
      by (auto simp: xml_plain_def)
  qed
  then have ser: "xml_serialize c env l ?sh ?v name = Inr [x]"
    by (simp add: l xml_serialize_plain [OF plain] write_node_def write_structure_def str_dict_def py_items_def x_def cs_def)
  have read: "xml_shape p tp rq l' uri ?sh (PElem x) = Inr ?v" if l': "Suc k \<le> l'" for l'
  proof -
    obtain l1 where l1: "l' = Suc l1" "k \<le> l1" using l' by (cases l') auto
    have nodes: "build_name_to_xml_node (PElem x) = Inr (map (\<lambda>(key, xs). (key, collect xs)) (member_pieces ms f P))"
      unfolding x_def cs_def
    proof (rule build_nodes [OF keys])
      fix n sh assume n: "(n, sh) \<in> set ms" "f n \<noteq> None"
      then obtain v where "f n = Some v" by blast
      with n P [of n] ms [of n sh] show "plain_name (xml_member_key_name sh n) \<and> P n \<noteq> []
          \<and> (\<forall>x \<in> set (P n). xml_tag x = xml_member_key_name sh n)" by blast
    qed
    have "xml_members (xml_shape p tp rq l1 uri) (required_members i) (map (\<lambda>(key, xs). (key, collect xs)) (member_pieces ms f P))
        (PElem x) ms [] = Inr ([] @ present_members ms f)"
    proof (rule xml_members_present)
      fix n sh assume n: "(n, sh) \<in> set ms"
      have "dict_get (map (\<lambda>(key, xs). (key, collect xs)) (member_pieces ms f P)) (xml_member_key_name sh n)
          = (if f n = None then None else Some (collect (P n)))"
        by (rule map_of_pieces [OF keys n])
      with ms [OF n] P [of n] n l1(2) show "xml_plain sh
        \<and> dict_get (map (\<lambda>(key, xs). (key, collect xs)) (member_pieces ms f P)) (xml_member_key_name sh n)
            = (if f n = None then None else Some (collect (P n)))
        \<and> (f n = None \<longrightarrow> n \<notin> set (required_members i))
        \<and> (\<forall>v. f n = Some v \<longrightarrow> xml_shape p tp rq l1 uri sh (collect (P n)) = Inr v)" by blast
    qed (use names in simp)
    with nodes show ?thesis
      by (simp add: l1(1) xml_shape_plain [OF plain] xml_node_def xml_structure_def)
  qed
  with ser show "\<exists>xs. xml_serialize c env l ?sh ?v name = Inr xs \<and> xs \<noteq> []
      \<and> (\<forall>y \<in> set xs. xml_tag y = element_name ?sh name) \<and> (\<not> flat ?sh \<longrightarrow> length xs = 1)
      \<and> (\<forall>l' \<ge> Suc k. xml_shape p tp rq l' uri ?sh (collect xs) = Inr ?v)"
    by (intro exI [of _ "[x]"]) (simp add: x_def element_name_def)
qed

lemma xml_value_comes_back: "xml_value k sh v \<Longrightarrow> c \<noteq> SqsSer \<Longrightarrow> p \<noteq> RestJson \<Longrightarrow> comes_back c env p tp rq uri k sh v"
proof (induction rule: xml_value.induct)
  case (xml_string i k s)
  then show ?case
    by (intro comes_back_scalar [of _ _ _ _ _ s]) (simp_all add: xml_scalar_element_def default_serialize_def py_str_def)
next
  case (xml_blob i k b)
  then show ?case
    by (intro comes_back_scalar [of _ _ _ _ _ "b64encode b"]) (simp_all add: xml_scalar_element_def get_base64_def b64decode_encode)
next
  case (xml_boolean i k b)
  then show ?case
    by (intro comes_back_scalar [of _ _ _ _ _ "if b then cp ''true'' else cp ''false''"])
      (simp_all add: xml_scalar_element_def base_parse_boolean_def ustr_lower_def)
next
  case (xml_integer i t n k)
  then show ?case
    by (intro comes_back_scalar [of _ _ _ _ _ "int_text n"])
      (auto simp: xml_scalar_element_def default_serialize_def py_str_def int_of_text)
next
  case (xml_value_list i m vs k)
  show ?case
    by (rule comes_back_list) (use xml_value_list xml_value_not_None in \<open>auto simp: list_all_iff\<close>)
next
  case (xml_value_map i ki x d k)
  obtain k' where k: "k = Suc k'" using xml_value_map by (cases k) auto
  have each: "comes_back c env p tp rq uri (Suc k') x v \<and> v \<noteq> PNone" if "(s, v) \<in> set d" for s v
    using that xml_value_map by (fastforce simp: list_all_iff k dest: xml_value_not_None)
  show ?case
    unfolding k by (rule comes_back_map) (use xml_value_map each in \<open>auto simp del: cp_simps\<close>)
next
  case (xml_value_structure i ms f k)
  have each: "plain_name (xml_member_key_name sh n) \<and> xml_plain sh \<and> (n \<in> set (required_members i) \<longrightarrow> f n \<noteq> None)
      \<and> (\<forall>v. f n = Some v \<longrightarrow> comes_back c env p tp rq uri k sh v \<and> v \<noteq> PNone)" if "(n, sh) \<in> set ms" for n sh
    using that xml_value_structure by (fastforce simp: list_all_iff dest: xml_value_not_None)
  show ?case
    by (rule comes_back_structure) (use xml_value_structure each in auto)
qed

subsection \<open>Bodies\<close>

text \<open>
  C18: what an XML serializer writes for a value that conforms to a shape, the XML request parser reads
  back as the same value: nested structures, lists and maps, flattened or not, with renamed elements,
  blobs in base64, integers and booleans. The body of an XML response is one element with the name of
  the shape.
\<close>

theorem xml_body_comes_back:
  assumes "xml_value k (Structure i ms) v" "c \<in> {RestXmlSer, S3Ser}" "p \<in> {RestXml, S3}" "k \<le> l" "k \<le> l'"
  shows "\<exists>x. body_to_xml c env l op (Some (Structure i ms)) v = Inr (Some x)
    \<and> xml_tag x = serialized_name (Structure i ms) (sh_name i)
    \<and> xml_shape p tp rq l' uri (Structure i ms) (PElem x) = Inr v"
proof -
  let ?sh = "Structure i ms"
  have "comes_back c env p tp rq uri k ?sh v"
    by (rule xml_value_comes_back [OF assms(1)]) (use assms(2,3) in auto)
  then obtain x where "xml_serialize c env l ?sh v (serialized_name ?sh (sh_name i)) = Inr [x]"
      "xml_tag x = serialized_name ?sh (sh_name i)" "\<And>l'. k \<le> l' \<Longrightarrow> xml_shape p tp rq l' uri ?sh (PElem x) = Inr v"
    using comes_back_single [of c env p tp rq uri k ?sh v l] assms(4) by (metis flat.simps(3))
  then show ?thesis
    using assms(2,5) by (auto simp: body_to_xml_def base_body_to_xml_def first_element_def)
qed

text \<open>An example: a structure with a flattened list, a map and a blob.\<close>

definition note_members :: "(ustr \<times> shape) list" where
  "note_members =
     [(cp ''Tags'', ListShape (plain_info [] \<lparr>ser_flattened := True\<rparr>) (ScalarShape (plain_info [] \<lparr>ser_name := Some (cp ''Tag'')\<rparr>) TString)),
      (cp ''Counts'', MapShape (plain_info []) (ScalarShape (plain_info []) TString) (ScalarShape (plain_info []) TInteger)),
      (cp ''Data'', ScalarShape (plain_info []) TBlob),
      (cp ''Title'', ScalarShape (plain_info []) TString)]"

abbreviation note_shape :: shape where
  "note_shape \<equiv> Structure (plain_info (cp ''Note'')) note_members"

definition note_value :: "(ustr \<times> pyval) list" where
  "note_value =
     [(cp ''Tags'', PList [PStr (cp ''a''), PStr (cp ''b'')]), (cp ''Counts'', str_dict [(cp ''x'', PInt 7)]), (cp ''Data'', PBytes [1, 2, 255])]"

lemma note_conforms: "xml_value 3 note_shape (str_dict note_value)"
proof -
  have tags: "xml_value (Suc (Suc 0)) (ListShape (plain_info [] \<lparr>ser_flattened := True\<rparr>)
      (ScalarShape (plain_info [] \<lparr>ser_name := Some (cp ''Tag'')\<rparr>) TString)) (PList [PStr (cp ''a''), PStr (cp ''b'')])"
    by (rule xml_value_list) (auto intro!: xml_string simp: xml_plain_def plain_info_def)
  have n: "xml_value (Suc 0) (ScalarShape (plain_info []) TInteger) (PInt 7)"
  proof (rule xml_integer)
    have "(10 :: nat) ^ 1 \<le> 10 ^ max_digits"
      by (rule power_increasing) (simp_all add: max_digits_def)
    then show "nat \<bar>7\<bar> < 10 ^ max_digits" by simp
  qed (simp_all add: xml_plain_def plain_info_def)
  have counts: "xml_value (Suc (Suc 0)) (MapShape (plain_info []) (ScalarShape (plain_info []) TString) (ScalarShape (plain_info []) TInteger))
      (str_dict [(cp ''x'', PInt 7)])"
    by (rule xml_value_map) (use n in \<open>simp_all add: xml_plain_def plain_info_def wf_dict_def plain_name_def serialized_name_def\<close>)
  have data: "xml_value (Suc (Suc 0)) (ScalarShape (plain_info []) TBlob) (PBytes [1, 2, 255])"
    by (rule xml_blob) (simp add: xml_plain_def plain_info_def)
  let ?f = "map_of note_value"
  have f: "?f (cp ''Tags'') = Some (PList [PStr (cp ''a''), PStr (cp ''b'')])" "?f (cp ''Counts'') = Some (str_dict [(cp ''x'', PInt 7)])"
      "?f (cp ''Data'') = Some (PBytes [1, 2, 255])" "?f (cp ''Title'') = None"
    by (simp_all add: note_value_def del: cp_simps)
  have plain: "xml_plain (snd m)" if "m \<in> set note_members" for m
    using that by (auto simp: note_members_def xml_plain_def plain_info_def)
  have keys: "map (\<lambda>(n, sh). xml_member_key_name sh n) note_members = [cp ''Tag'', cp ''Counts'', cp ''Data'', cp ''Title'']"
    by (simp add: note_members_def xml_member_key_name_def serialized_name_def plain_info_def del: cp_simps)
  have names: "plain_name (xml_member_key_name sh n)" if "(n, sh) \<in> set note_members" for n sh
  proof -
    have "xml_member_key_name sh n \<in> set (map (\<lambda>(n, sh). xml_member_key_name sh n) note_members)"
      using that by force
    then show ?thesis unfolding keys by (auto simp: plain_name_def)
  qed
  have "xml_value (Suc (Suc (Suc 0))) note_shape (str_dict (present_members note_members ?f))"
  proof (rule xml_value_structure)
    show "list_all (\<lambda>(n, sh). plain_name (xml_member_key_name sh n) \<and> xml_plain sh
        \<and> (n \<in> set (required_members (plain_info (cp ''Note''))) \<longrightarrow> ?f n \<noteq> None)
        \<and> (\<forall>v. ?f n = Some v \<longrightarrow> xml_value (Suc (Suc 0)) sh v)) note_members"
    proof -
      have "list_all (\<lambda>(n, sh). \<forall>v. ?f n = Some v \<longrightarrow> xml_value (Suc (Suc 0)) sh v) note_members"
        using tags counts data by (simp add: note_members_def f del: cp_simps)
      then show ?thesis
        using names plain by (auto simp: list_all_iff plain_info_def)
    qed
  qed (simp_all add: keys, simp_all add: note_members_def xml_plain_def plain_info_def)
  moreover have "present_members note_members ?f = note_value"
    by (simp add: note_members_def f note_value_def del: cp_simps)
  ultimately show ?thesis by (simp add: numeral_3_eq_3)
qed

theorem xml_body_comes_back_witness:
  "\<forall>env tp rq. \<exists>x. body_to_xml RestXmlSer env 5 \<lparr>xo_name = cp ''GetNote'', xo_namespace = None\<rparr> (Some note_shape) (str_dict note_value) = Inr (Some x)
    \<and> xml_shape RestXml tp rq 5 [] note_shape (PElem x) = Inr (str_dict note_value)"
proof (intro allI)
  fix env tp rq
  have "\<exists>x. body_to_xml RestXmlSer env 5 \<lparr>xo_name = cp ''GetNote'', xo_namespace = None\<rparr> (Some note_shape) (str_dict note_value) = Inr (Some x)
    \<and> xml_tag x = serialized_name note_shape (sh_name (plain_info (cp ''Note'')))
    \<and> xml_shape RestXml tp rq 5 [] note_shape (PElem x) = Inr (str_dict note_value)"
    by (rule xml_body_comes_back [OF note_conforms]) simp_all
  then show "\<exists>x. body_to_xml RestXmlSer env 5 \<lparr>xo_name = cp ''GetNote'', xo_namespace = None\<rparr> (Some note_shape) (str_dict note_value) = Inr (Some x)
    \<and> xml_shape RestXml tp rq 5 [] note_shape (PElem x) = Inr (str_dict note_value)"
    by blast
qed

end
