(* ===== verification/EdgeConfig.thy ===== *)
theory EdgeConfig
  imports XmlRoundtrip
begin

text \<open>
  The addresses LocalStack listens on, \<open>config.py\<close>: IPv6 and IPv4 addresses as the standard library's
  \<open>ipaddress\<close> accepts them, \<open>HostAndPort\<close> with its parser, the list \<open>UniqueHostAndPortList\<close> and the
  configuration from the environment. The properties: addresses come back from their text, which bindings
  the list keeps, and what a configuration that was accepted looks like.
\<close>

subsection \<open>IP addresses\<close>

definition is_octet :: "ustr \<Rightarrow> bool" where
  "is_octet s \<longleftrightarrow> s \<noteq> [] \<and> list_all is_udigit s \<and> length s \<le> 3 \<and> (s = cp ''0'' \<or> hd s \<noteq> 48)
     \<and> num_of_digits (map (\<lambda>c. c - 48) s) \<le> 255"

definition is_ipv4_address :: "ustr \<Rightarrow> bool" where
  "is_ipv4_address s \<longleftrightarrow> s \<noteq> [] \<and> 47 \<notin> set s \<and> length (split_on 46 s) = 4 \<and> list_all is_octet (split_on 46 s)"

definition is_hextet :: "ustr \<Rightarrow> bool" where
  "is_hextet s \<longleftrightarrow> s \<noteq> [] \<and> length s \<le> 4 \<and> list_all (\<lambda>c. is_udigit c \<or> (65 \<le> c \<and> c \<le> 70) \<or> (97 \<le> c \<and> c \<le> 102)) s"

text \<open>The address without its scope, or None when the scope is malformed.\<close>

definition without_scope :: "ustr \<Rightarrow> ustr option" where
  "without_scope s =
     (if 37 \<in> set s
      then (let (address, scope) = split_once 37 s in if scope = [] \<or> 37 \<in> set scope then None else Some address)
      else Some s)"

text \<open>The parts between the colons: eight, or fewer around one double colon.\<close>

definition ipv6_parts_ok :: "ustr list \<Rightarrow> bool" where
  "ipv6_parts_ok parts \<longleftrightarrow>
     (let n = length parts in
      n \<le> 9 \<and>
      (case filter (\<lambda>i. parts ! i = []) [1..<n - 1] of
         [] \<Rightarrow> n = 8 \<and> list_all is_hextet parts
       | [k] \<Rightarrow>
           (let hi = (if hd parts = [] then k - 1 else k);
                lo = (if last parts = [] then n - k - 2 else n - k - 1)
            in (hd parts = [] \<longrightarrow> hi = 0) \<and> (last parts = [] \<longrightarrow> lo = 0) \<and> hi + lo < 8
               \<and> list_all is_hextet (take hi parts) \<and> list_all is_hextet (drop (n - lo) parts))
       | _ \<Rightarrow> False))"

text \<open>A dotted last part stands for two others.\<close>

definition is_ipv6_text :: "ustr \<Rightarrow> bool" where
  "is_ipv6_text s \<longleftrightarrow>
     (let parts = split_on 58 s in
      s \<noteq> [] \<and> 3 \<le> length parts \<and>
      (if 46 \<in> set (last parts)
       then is_ipv4_address (last parts) \<and> ipv6_parts_ok (butlast parts @ [cp ''0'', cp ''0''])
       else ipv6_parts_ok parts))"

definition is_ipv6_address :: "ustr \<Rightarrow> bool" where
  "is_ipv6_address host \<longleftrightarrow>
     host \<noteq> [] \<and> 47 \<notin> set host \<and> (case without_scope host of None \<Rightarrow> False | Some address \<Rightarrow> is_ipv6_text address)"

subsection \<open>\<open>HostAndPort\<close>\<close>

record host_and_port =
  hp_host :: ustr
  hp_port :: int

text \<open>
  The groups of the pattern for bracketed addresses. Its dollar sign also matches before a newline at the
  end of the input.
\<close>

definition ipv6_match :: "ustr \<Rightarrow> (ustr \<times> ustr option) option" where
  "ipv6_match input =
     (let host = takeWhile (\<lambda>c. c \<noteq> 93) (tl input);
          rest = dropWhile (\<lambda>c. c \<noteq> 93) (tl input);
          port = (if tl rest \<noteq> [] \<and> last rest = 10 then butlast (tl rest) else tl rest)
      in if host = [] \<or> rest = [] then None
         else if port = [] then Some (host, None)
         else if hd port = 58 \<and> tl port \<noteq> [] \<and> list_all is_udigit (tl port) then Some (host, Some (tl port))
         else None)"

definition validate_port :: "ustr \<Rightarrow> int result" where
  "validate_port port_s = int_of_str port_s"

text \<open>The host and the port before the final check.\<close>

definition parse_address :: "ustr \<Rightarrow> ustr \<Rightarrow> int \<Rightarrow> (ustr \<times> int) result" where
  "parse_address input default_host default_port =
     (if starts_with (cp ''['') input
      then (case ipv6_match input of
              None \<Rightarrow> Inl ValueError
            | Some (host, port_s) \<Rightarrow>
                if \<not> is_ipv6_address host then Inl ValueError
                else (case port_s of
                        None \<Rightarrow> Inr (host, default_port)
                      | Some p \<Rightarrow> bind_r (validate_port p) (\<lambda>port. Inr (host, port))))
      else if 58 \<in> set input
      then (let (hostname, port_s) = split_once 58 input;
                host = (if ustr_strip hostname \<noteq> [] then ustr_strip hostname else default_host)
            in bind_r (validate_port port_s) (\<lambda>port. Inr (host, port)))
      else Inr (if ustr_strip input \<noteq> [] then ustr_strip input else default_host, default_port))"

definition parse_host_and_port :: "ustr \<Rightarrow> ustr \<Rightarrow> int \<Rightarrow> host_and_port result" where
  "parse_host_and_port input default_host default_port =
     bind_r (parse_address input default_host default_port) (\<lambda>(host, port).
       if port < 0 \<or> 2 ^ 16 \<le> port then Inl ValueError else Inr \<lparr>hp_host = host, hp_port = port\<rparr>)"

text \<open>The first unprivileged port, from the content of the file if it can be read.\<close>

definition unprivileged_port_range_start :: "ustr option \<Rightarrow> int" where
  "unprivileged_port_range_start content =
     (case content of None \<Rightarrow> 1024 | Some s \<Rightarrow> (case int_of_str (ustr_strip s) of Inl _ \<Rightarrow> 1024 | Inr n \<Rightarrow> n))"

definition is_unprivileged :: "ustr option \<Rightarrow> host_and_port \<Rightarrow> bool" where
  "is_unprivileged content b \<longleftrightarrow> unprivileged_port_range_start content \<le> hp_port b"

definition host_and_port_text :: "host_and_port \<Rightarrow> ustr" where
  "host_and_port_text b =
     (if is_ipv6_address (hp_host b) then 91 # hp_host b @ [93] else hp_host b) @ 58 # int_text (hp_port b)"

datatype address_value = Address host_and_port | AddressText ustr | OtherValue

definition address_equal :: "host_and_port \<Rightarrow> address_value \<Rightarrow> bool result" where
  "address_equal b other =
     (case other of
        Address b' \<Rightarrow> Inr (hp_host b = hp_host b' \<and> hp_port b = hp_port b')
      | AddressText s \<Rightarrow> Inr (host_and_port_text b = s)
      | OtherValue \<Rightarrow> Inl TypeError)"

subsection \<open>\<open>UniqueHostAndPortList\<close>\<close>

definition hosts_by_port :: "host_and_port list \<Rightarrow> (int, ustr list) dict" where
  "hosts_by_port bs =
     fold (\<lambda>b d. dict_set (hp_port b) ((case dict_get d (hp_port b) of None \<Rightarrow> [] | Some hs \<Rightarrow> hs) @ [hp_host b]) d) bs []"

text \<open>\<open>arrange\<close> is the order in which Python iterates over the set of the hosts.\<close>

definition unique_hosts :: "(ustr list \<Rightarrow> ustr list) \<Rightarrow> ustr list \<Rightarrow> ustr list" where
  "unique_hosts arrange hosts =
     (if cp ''::'' \<in> set hosts then [cp ''::'']
      else if cp ''0.0.0.0'' \<in> set hosts then [cp ''0.0.0.0'']
      else arrange hosts)"

definition ensure_unique :: "(ustr list \<Rightarrow> ustr list) \<Rightarrow> host_and_port list \<Rightarrow> host_and_port list" where
  "ensure_unique arrange bs =
     (if length bs \<le> 1 then bs
      else concat (map (\<lambda>(port, hosts). map (\<lambda>h. \<lparr>hp_host = h, hp_port = port\<rparr>) (unique_hosts arrange hosts)) (hosts_by_port bs)))"

definition append_binding :: "(ustr list \<Rightarrow> ustr list) \<Rightarrow> host_and_port \<Rightarrow> host_and_port list \<Rightarrow> host_and_port list" where
  "append_binding arrange b bs = ensure_unique arrange (bs @ [b])"

subsection \<open>The edge configuration\<close>

definition DEFAULT_PORT_EDGE :: int where "DEFAULT_PORT_EDGE = 4566"

text \<open>\<open>populate_edge_configuration\<close> with the values of the two variables; \<open>default_ip\<close> depends on Docker.\<close>

definition populate_edge_configuration ::
    "(ustr list \<Rightarrow> ustr list) \<Rightarrow> ustr \<Rightarrow> ustr option \<Rightarrow> ustr option \<Rightarrow> (host_and_port \<times> host_and_port list) result" where
  "populate_edge_configuration arrange default_ip localstack_host_raw gateway_listen_raw =
     bind_r (case gateway_listen_raw of
               Some raw \<Rightarrow> map_r (\<lambda>address. parse_host_and_port (ustr_strip address) default_ip DEFAULT_PORT_EDGE) (split_on 44 raw)
             | None \<Rightarrow> Inr [\<lparr>hp_host = default_ip, hp_port = DEFAULT_PORT_EDGE\<rparr>]) (\<lambda>gateway_listen.
     bind_r (case localstack_host_raw of
               None \<Rightarrow> Inr \<lparr>hp_host = cp ''localhost.localstack.cloud'', hp_port = hp_port (hd gateway_listen)\<rparr>
             | Some raw \<Rightarrow> parse_host_and_port raw (cp ''localhost.localstack.cloud'') (hp_port (hd gateway_listen))) (\<lambda>localstack_host.
     Inr (localstack_host, ensure_unique arrange gateway_listen)))"

subsection \<open>Lemmas: texts of addresses\<close>

lemma split_on_length: "d \<notin> set s \<Longrightarrow> length (split_on d s) = 1"
  by simp

lemma ipv6_has_colon:
  assumes "is_ipv6_address h"
  shows "58 \<in> set h"
proof -
  obtain a where a: "without_scope h = Some a" "is_ipv6_text a" using assms by (auto simp: is_ipv6_address_def split: option.splits)
  have "58 \<in> set a" using a(2) split_on_length [of 58 a] by (fastforce simp: is_ipv6_text_def Let_def)
  moreover have "set a \<subseteq> set h"
    using a(1) by (auto simp: without_scope_def split_once_def split: if_splits dest: set_takeWhileD)
  ultimately show ?thesis by blast
qed

text \<open>The hosts the parser yields.\<close>

definition plain_host :: "ustr \<Rightarrow> bool" where
  "plain_host h \<longleftrightarrow> h \<noteq> [] \<and> ustr_strip h = h \<and> 58 \<notin> set h \<and> hd h \<noteq> 91"

definition proper_host :: "ustr \<Rightarrow> bool" where
  "proper_host h \<longleftrightarrow> plain_host h \<or> (is_ipv6_address h \<and> 93 \<notin> set h)"

lemma strip_cases:
  obtains t u where "s = t @ ustr_strip s @ u" "list_all is_ws t" "list_all is_ws u"
    "ustr_strip s \<noteq> [] \<longrightarrow> \<not> is_ws (hd (ustr_strip s)) \<and> \<not> is_ws (last (ustr_strip s))"
proof -
  let ?a = "dropWhile is_ws s"
  let ?b = "dropWhile is_ws (rev ?a)"
  have s: "s = takeWhile is_ws s @ ?a" by simp
  have a: "?a = rev ?b @ rev (takeWhile is_ws (rev ?a))"
    by (metis rev_append rev_rev_ident takeWhile_dropWhile_id)
  have ws: "list_all is_ws (takeWhile is_ws s)" "list_all is_ws (rev (takeWhile is_ws (rev ?a)))"
    by (auto simp: list_all_iff dest: set_takeWhileD)
  have "\<not> is_ws (hd (rev ?b)) \<and> \<not> is_ws (last (rev ?b))" if "rev ?b \<noteq> []"
  proof -
    have "\<not> is_ws (hd ?b)" using that hd_dropWhile [of is_ws "rev ?a"] by simp
    moreover have "?a \<noteq> []" using that by (metis dropWhile.simps(1) rev.simps(1))
    then have "\<not> is_ws (hd ?a)" using hd_dropWhile [of is_ws s] by simp
    moreover have "hd ?a = hd (rev ?b)" using that a by (metis hd_append2)
    ultimately show ?thesis using that by (simp add: last_rev)
  qed
  with that [of "takeWhile is_ws s" "rev (takeWhile is_ws (rev ?a))"] s a ws show thesis
    unfolding ustr_strip_def by metis
qed

lemma strip_trimmed: "s \<noteq> [] \<Longrightarrow> \<not> is_ws (hd s) \<Longrightarrow> \<not> is_ws (last s) \<Longrightarrow> ustr_strip s = s"
proof -
  assume s: "s \<noteq> []" "\<not> is_ws (hd s)" "\<not> is_ws (last s)"
  then have "dropWhile is_ws s = s" by (cases s) simp_all
  moreover have "hd (rev s) = last s" using s(1) by (simp add: hd_rev)
  then have "dropWhile is_ws (rev s) = rev s" using s by (simp add: dropWhile_eq_self_iff)
  ultimately show ?thesis by (simp add: ustr_strip_def)
qed

lemma strip_plain:
  assumes "ustr_strip s \<noteq> []" "58 \<notin> set s" "\<not> is_ws (hd s)" "hd s \<noteq> 91"
  shows "plain_host (ustr_strip s)"
proof -
  obtain t u where s: "s = t @ ustr_strip s @ u" "list_all is_ws t" "list_all is_ws u"
      "\<not> is_ws (hd (ustr_strip s))" "\<not> is_ws (last (ustr_strip s))"
    using strip_cases [of s] assms(1) by blast
  have "t = []"
  proof (cases t)
    case (Cons a t')
    then have "hd s = a" using s(1) by (metis append_Cons list.sel(1))
    then show ?thesis using assms(3) s(2) Cons by simp
  qed
  then have "hd (ustr_strip s) = hd s" using s(1) assms(1) by (metis append_Nil hd_append2)
  moreover have "58 \<notin> set (ustr_strip s)" using s(1) assms(2) by (metis UnCI set_append)
  ultimately show ?thesis using assms(1,4) strip_trimmed s(4,5) by (simp add: plain_host_def)
qed

lemma ipv6_match_host: "ipv6_match input = Some (h, p) \<Longrightarrow> 93 \<notin> set h"
  by (auto simp: ipv6_match_def Let_def dest: set_takeWhileD split: if_splits)

lemma parsed_host_proper:
  assumes "parse_address input default_host default_port = Inr (h, p)" "proper_host default_host"
    and "input = [] \<or> \<not> is_ws (hd input)"
  shows "proper_host h"
proof -
  consider (v6) "starts_with (cp ''['') input" | (port) "\<not> starts_with (cp ''['') input" "58 \<in> set input"
    | (plain) "\<not> starts_with (cp ''['') input" "58 \<notin> set input" by blast
  then show ?thesis
  proof cases
    case v6
    then have "is_ipv6_address h \<and> 93 \<notin> set h"
      using assms(1) ipv6_match_host by (auto simp: parse_address_def bind_r_eq_Inr split: option.splits if_splits)
    then show ?thesis by (simp add: proper_host_def)
  next
    case port
    let ?n = "takeWhile (\<lambda>c. c \<noteq> 58) input"
    have h: "h = (if ustr_strip ?n \<noteq> [] then ustr_strip ?n else default_host)"
      using port assms(1) by (auto simp: parse_address_def split_once_def bind_r_eq_Inr)
    have "plain_host (ustr_strip ?n)" if n: "ustr_strip ?n \<noteq> []"
    proof -
      have "?n \<noteq> []" using n by (auto simp: ustr_strip_def)
      then have "hd ?n = hd input" "input \<noteq> []" by (cases input; auto split: if_splits)+
      then show ?thesis using n assms(3) port(1) set_takeWhileD [of 58 "\<lambda>c. c \<noteq> 58" input]
        by (intro strip_plain) (auto simp: starts_with_iff neq_Nil_conv)
    qed
    with h assms(2) show ?thesis by (auto simp: proper_host_def)
  next
    case plain
    have "h = (if ustr_strip input \<noteq> [] then ustr_strip input else default_host)"
      using plain assms(1) by (simp add: parse_address_def split: if_splits)
    moreover have "plain_host (ustr_strip input)" if "ustr_strip input \<noteq> []"
    proof -
      have "input \<noteq> []" using that by (auto simp: ustr_strip_def)
      then show ?thesis using that plain assms(3) by (intro strip_plain) (auto simp: starts_with_iff neq_Nil_conv)
    qed
    ultimately show ?thesis using assms(2) by (auto simp: proper_host_def)
  qed
qed

lemma port_text:
  assumes "0 \<le> p" "p < 2 ^ 16"
  shows "list_all is_udigit (int_text p)" "int_text p \<noteq> []" "int_of_str (int_text p) = Inr p"
proof -
  have "nat \<bar>p\<bar> < 10 ^ 5" using assms by simp
  also have "(10::nat) ^ 5 \<le> 10 ^ max_digits" by (intro power_increasing) (simp_all add: max_digits_def)
  finally show "int_of_str (int_text p) = Inr p" by (rule int_of_text)
  then show "int_text p \<noteq> []" by (auto simp: int_of_str_def ustr_strip_def split_sign_def)
  show "list_all is_udigit (int_text p)"
    using assms dec_digits_facts(1) [of "nat p"] by (auto simp: int_text_def list_all_iff cp_def is_digit_def is_udigit_def Let_def)
qed

lemma proper_host_back:
  assumes "proper_host (hp_host b)" "0 \<le> hp_port b" "hp_port b < 2 ^ 16"
  shows "parse_host_and_port (host_and_port_text b) default_host default_port = Inr b"
proof -
  note port = port_text [OF assms(2,3)]
  have "parse_address (host_and_port_text b) default_host default_port = Inr (hp_host b, hp_port b)"
  proof (cases "is_ipv6_address (hp_host b)")
    case True
    then have bracket: "93 \<notin> set (hp_host b)" "hp_host b \<noteq> []"
      using assms(1) ipv6_has_colon by (auto simp: proper_host_def plain_host_def is_ipv6_address_def)
    have "last (int_text (hp_port b)) \<noteq> 10" using port(1,2) by (auto simp: list_all_iff is_udigit_def dest!: last_in_set)
    then have "ipv6_match (91 # hp_host b @ 93 # 58 # int_text (hp_port b)) = Some (hp_host b, Some (int_text (hp_port b)))"
      using bracket port(1,2) by (simp add: ipv6_match_def takeWhile_append dropWhile_append)
    then show ?thesis using True port(3) by (simp add: parse_address_def host_and_port_text_def validate_port_def starts_with_iff)
  next
    case False
    then have plain: "plain_host (hp_host b)" using assms(1) by (simp add: proper_host_def)
    then have "\<not> starts_with (cp ''['') (hp_host b @ 58 # int_text (hp_port b))"
      by (auto simp: plain_host_def starts_with_iff neq_Nil_conv)
    then show ?thesis using False plain port(3)
      by (simp add: parse_address_def host_and_port_text_def validate_port_def split_once_append plain_host_def)
  qed
  then show ?thesis using assms(2,3) by (simp add: parse_host_and_port_def)
qed

subsection \<open>Lemmas: the list of bindings\<close>

text \<open>\<open>b'\<close> makes the binding \<open>b\<close> superfluous.\<close>

definition covers :: "host_and_port \<Rightarrow> host_and_port \<Rightarrow> bool" where
  "covers b' b \<longleftrightarrow> hp_port b' = hp_port b \<and> hp_host b' \<noteq> hp_host b
     \<and> (hp_host b' = cp ''::'' \<or> (hp_host b' = cp ''0.0.0.0'' \<and> hp_host b \<noteq> cp ''::''))"

definition set_order :: "(ustr list \<Rightarrow> ustr list) \<Rightarrow> bool" where
  "set_order arrange \<longleftrightarrow> (\<forall>hosts. distinct (arrange hosts) \<and> set (arrange hosts) = set hosts)"

definition hosts_of :: "host_and_port list \<Rightarrow> int \<Rightarrow> ustr list" where
  "hosts_of bs p = map hp_host (filter (\<lambda>b. hp_port b = p) bs)"

lemma hosts_by_port_facts:
  "wf_dict (hosts_by_port bs)"
  "dict_get (hosts_by_port bs) p = (if hosts_of bs p = [] then None else Some (hosts_of bs p))"
proof -
  let ?add = "\<lambda>b d. dict_set (hp_port b) ((case dict_get d (hp_port b) of None \<Rightarrow> [] | Some hs \<Rightarrow> hs) @ [hp_host b]) d"
  have "wf_dict d \<Longrightarrow> wf_dict (fold ?add bs d)" for d :: "(int, ustr list) dict" by (induction bs arbitrary: d) auto
  then show "wf_dict (hosts_by_port bs)" by (simp add: hosts_by_port_def)
  have "dict_get (fold ?add bs d) p = (case dict_get d p of
      None \<Rightarrow> if hosts_of bs p = [] then None else Some (hosts_of bs p) | Some hs \<Rightarrow> Some (hs @ hosts_of bs p))" for d
  proof (induction bs arbitrary: d)
    case (Cons b bs)
    show ?case by (simp only: fold.simps comp_def Cons.IH dict_get_set) (auto simp: hosts_of_def split: option.split)
  qed (simp add: hosts_of_def split: option.split)
  then show "dict_get (hosts_by_port bs) p = (if hosts_of bs p = [] then None else Some (hosts_of bs p))"
    by (simp add: hosts_by_port_def)
qed

lemma hosts_by_port_entries: "(p, hs) \<in> set (hosts_by_port bs) \<longleftrightarrow> hs = hosts_of bs p \<and> hs \<noteq> []"
proof -
  have "(p, hs) \<in> set (hosts_by_port bs) \<longleftrightarrow> dict_get (hosts_by_port bs) p = Some hs"
    using hosts_by_port_facts(1) [of bs] by (simp add: wf_dict_def)
  then show ?thesis by (auto simp: hosts_by_port_facts(2))
qed

lemma unique_hosts_facts:
  assumes "set_order arrange"
  shows "distinct (unique_hosts arrange hs)"
    and "set (unique_hosts arrange hs)
      = (if cp ''::'' \<in> set hs then {cp ''::''} else if cp ''0.0.0.0'' \<in> set hs then {cp ''0.0.0.0''} else set hs)"
  using assms by (simp_all add: unique_hosts_def set_order_def del: cp_simps)

lemma binding_eq: "b = \<lparr>hp_host = h, hp_port = p\<rparr> \<longleftrightarrow> hp_host b = h \<and> hp_port b = p"
  by (cases b) auto

lemma in_hosts_of: "h \<in> set (hosts_of bs p) \<longleftrightarrow> \<lparr>hp_host = h, hp_port = p\<rparr> \<in> set bs"
proof
  assume "h \<in> set (hosts_of bs p)"
  then obtain b where b: "b \<in> set bs" "hp_port b = p" "hp_host b = h" by (auto simp: hosts_of_def)
  then have "b = \<lparr>hp_host = h, hp_port = p\<rparr>" by simp
  with b show "\<lparr>hp_host = h, hp_port = p\<rparr> \<in> set bs" by simp
qed (force simp: hosts_of_def)

lemma ensure_unique_set:
  assumes "set_order arrange"
  shows "set (ensure_unique arrange bs) = {b \<in> set bs. \<forall>b' \<in> set bs. \<not> covers b' b}"
proof (cases "length bs \<le> 1")
  case True
  then show ?thesis by (cases bs) (auto simp: ensure_unique_def covers_def)
next
  case False
  have "b \<in> set (ensure_unique arrange bs) \<longleftrightarrow> hp_host b \<in> set (unique_hosts arrange (hosts_of bs (hp_port b))) \<and> hosts_of bs (hp_port b) \<noteq> []" for b
    using False by (force simp: ensure_unique_def hosts_by_port_entries binding_eq)
  moreover have "hp_host b \<in> set (unique_hosts arrange (hosts_of bs (hp_port b))) \<and> hosts_of bs (hp_port b) \<noteq> []
      \<longleftrightarrow> b \<in> set bs \<and> (\<forall>b' \<in> set bs. \<not> covers b' b)" for b
  proof -
    have b: "b \<in> set bs \<longleftrightarrow> hp_host b \<in> set (hosts_of bs (hp_port b))" by (cases b) (simp add: in_hosts_of)
    let ?hs = "set (hosts_of bs (hp_port b))"
    have c: "(\<forall>b' \<in> set bs. \<not> covers b' b) \<longleftrightarrow> (cp ''::'' \<in> ?hs \<longrightarrow> hp_host b = cp ''::'')
        \<and> (cp ''0.0.0.0'' \<in> ?hs \<longrightarrow> hp_host b = cp ''0.0.0.0'' \<or> hp_host b = cp ''::'')"
      unfolding covers_def hosts_of_def by force
    have "cp ''::'' \<noteq> cp ''0.0.0.0''" by simp
    then show ?thesis
      unfolding b c unique_hosts_facts(2) [OF assms] by (auto simp del: cp_simps cp_inject)
  qed
  ultimately show ?thesis by blast
qed

lemma ensure_unique_distinct:
  assumes "set_order arrange"
  shows "distinct (ensure_unique arrange bs)"
proof (cases "length bs \<le> 1")
  case True
  then show ?thesis by (cases bs) (auto simp: ensure_unique_def)
next
  case False
  have "distinct (concat (map (\<lambda>(port, hosts). map (\<lambda>h. \<lparr>hp_host = h, hp_port = port\<rparr>) (unique_hosts arrange hosts)) d))"
    if "wf_dict d" for d
    using that by (induction d) (auto simp: wf_dict_def distinct_map inj_on_def unique_hosts_facts(1) [OF assms] rev_image_eqI)
  then show ?thesis using False hosts_by_port_facts(1) by (simp add: ensure_unique_def)
qed

lemma kept_or_covered:
  assumes "set_order arrange" "b \<in> set bs"
  shows "\<exists>b' \<in> set (ensure_unique arrange bs). b' = b \<or> covers b' b"
proof -
  note kept = ensure_unique_set [OF assms(1), of bs]
  consider (all) b' where "b' \<in> set bs" "covers b' b" "hp_host b' = cp ''::''"
    | (v4) b' where "b' \<in> set bs" "covers b' b" "hp_host b' = cp ''0.0.0.0''" "\<forall>c \<in> set bs. covers c b \<longrightarrow> hp_host c \<noteq> cp ''::''"
    | (none) "\<forall>b' \<in> set bs. \<not> covers b' b"
    unfolding covers_def by blast
  then show ?thesis
  proof cases
    case (all b')
    then have "\<not> covers c b'" for c by (auto simp: covers_def)
    with all kept show ?thesis by blast
  next
    case (v4 b')
    then have "\<not> covers c b'" if "c \<in> set bs" for c using that by (fastforce simp: covers_def)
    with v4 kept show ?thesis by blast
  qed (use kept assms(2) in auto)
qed

lemma parse_outcomes:
  "parse_host_and_port input h p = Inl e \<Longrightarrow> e = ValueError"
  "parse_host_and_port input h p = Inr b \<Longrightarrow> 0 \<le> hp_port b \<and> hp_port b < 2 ^ 16"
  by (auto simp: parse_host_and_port_def parse_address_def validate_port_def int_of_str_def bind_r_eq_Inl bind_r_eq_Inr
      split: if_splits option.splits prod.splits)

lemma map_r_outcomes:
  "map_r f xs = Inl e \<Longrightarrow> \<exists>x \<in> set xs. f x = Inl e"
  "map_r f xs = Inr ys \<Longrightarrow> y \<in> set ys \<Longrightarrow> \<exists>x \<in> set xs. f x = Inr y"
  "map_r f xs = Inr ys \<Longrightarrow> length ys = length xs"
  by (induction xs arbitrary: ys) (auto simp: bind_r_eq_Inl bind_r_eq_Inr)

subsection \<open>Properties\<close>

text \<open>
  C28: an address comes back from its text. Whatever the parser made of an input without leading white space,
  with a default host that is an IPv6 address or a plain name, is the result of parsing its own text, with
  any defaults; in particular its port is in range.
\<close>

theorem host_and_port_roundtrip:
  assumes "parse_host_and_port input default_host default_port = Inr b"
    and "proper_host default_host" "input = [] \<or> \<not> is_ws (hd input)"
  shows "0 \<le> hp_port b \<and> hp_port b < 2 ^ 16 \<and> parse_host_and_port (host_and_port_text b) h p = Inr b"
proof -
  obtain host port where a: "parse_address input default_host default_port = Inr (host, port)"
      and b: "0 \<le> port" "port < 2 ^ 16" "b = \<lparr>hp_host = host, hp_port = port\<rparr>"
    using assms(1) by (auto simp: parse_host_and_port_def bind_r_eq_Inr split: if_splits)
  have "proper_host (hp_host b)" using parsed_host_proper [OF a assms(2,3)] b(3) by simp
  with proper_host_back [of b] b show ?thesis by simp
qed

lemma host_and_port_roundtrip_witness:
  "\<exists>b. parse_host_and_port (cp ''[::1]:4566'') (cp ''127.0.0.1'') 80 = Inr b
    \<and> parse_host_and_port (host_and_port_text b) (cp ''localhost'') 1 = Inr b \<and> host_and_port_text b = cp ''[::1]:4566''"
proof -
  have p: "parse_host_and_port (cp ''[::1]:4566'') (cp ''127.0.0.1'') 80 = Inr \<lparr>hp_host = cp ''::1'', hp_port = 4566\<rparr>"
    by (simp add: parse_host_and_port_def parse_address_def ipv6_match_def is_ipv6_address_def without_scope_def is_ipv6_text_def
        ipv6_parts_ok_def is_hextet_def is_udigit_def validate_port_def int_of_str_def split_sign_def ustr_strip_def is_ws_def num_of_digits_def)
  have "proper_host (cp ''127.0.0.1'')"
    by (simp add: proper_host_def plain_host_def ustr_strip_def is_ws_def)
  then have "parse_host_and_port (host_and_port_text \<lparr>hp_host = cp ''::1'', hp_port = 4566\<rparr>) (cp ''localhost'') 1 = Inr \<lparr>hp_host = cp ''::1'', hp_port = 4566\<rparr>"
    using host_and_port_roundtrip [OF p] by (simp add: is_ws_def)
  moreover have "host_and_port_text \<lparr>hp_host = cp ''::1'', hp_port = 4566\<rparr> = cp ''[::1]:4566''"
    by (simp add: host_and_port_text_def is_ipv6_address_def without_scope_def is_ipv6_text_def ipv6_parts_ok_def is_hextet_def is_udigit_def int_text_def dec_digits.simps)
  ultimately show ?thesis using p by blast
qed

text \<open>
  the list keeps exactly the bindings no other one makes superfluous, each once, in whatever order Python
  iterates over sets: on a port with \<open>::\<close> only that one, without it on a port with \<open>0.0.0.0\<close> only that
  one, else all. Each binding is kept or a kept one stands for it, and making an already unique list unique
  changes nothing but its order.
\<close>

theorem unique_bindings_kept:
  assumes "set_order arrange"
  shows "set (ensure_unique arrange bs) = {b \<in> set bs. \<forall>b' \<in> set bs. \<not> covers b' b} \<and> distinct (ensure_unique arrange bs)
    \<and> (\<forall>b \<in> set bs. \<exists>b' \<in> set (ensure_unique arrange bs). b' = b \<or> covers b' b)
    \<and> set (ensure_unique arrange (ensure_unique arrange bs)) = set (ensure_unique arrange bs)"
  using ensure_unique_set [OF assms] ensure_unique_distinct [OF assms] kept_or_covered [OF assms] by auto

lemma unique_bindings_kept_witness:
  "set (ensure_unique remdups [\<lparr>hp_host = cp ''a'', hp_port = 1\<rparr>, \<lparr>hp_host = cp ''::'', hp_port = 1\<rparr>, \<lparr>hp_host = cp ''a'', hp_port = 2\<rparr>])
    = {\<lparr>hp_host = cp ''::'', hp_port = 1\<rparr>, \<lparr>hp_host = cp ''a'', hp_port = 2\<rparr>}"
proof -
  have "set_order remdups" by (simp add: set_order_def)
  from unique_bindings_kept [OF this, THEN conjunct1] show ?thesis by (auto simp: covers_def)
qed

text \<open>
  the class comment says that \<open>0.0.0.0\<close> removes other IPv4 bindings only and that IPv6 addresses are not
  removed; but a binding of any IPv6 address other than \<open>::\<close> is removed when the list has \<open>0.0.0.0\<close> on its port.
\<close>

theorem ipv6_binding_removed:
  "is_ipv6_address (cp ''::1'')
   \<and> append_binding arrange \<lparr>hp_host = cp ''::1'', hp_port = p\<rparr> [\<lparr>hp_host = cp ''0.0.0.0'', hp_port = p\<rparr>] = [\<lparr>hp_host = cp ''0.0.0.0'', hp_port = p\<rparr>]"
  by (simp add: append_binding_def ensure_unique_def hosts_by_port_def unique_hosts_def
      is_ipv6_address_def without_scope_def is_ipv6_text_def ipv6_parts_ok_def is_hextet_def is_udigit_def)

text \<open>
  C29: whatever the environment holds, reading the edge configuration ends in a ValueError or in addresses to
  listen on: at least one, every port in the range of 16 bits, no address made superfluous by another.
\<close>

theorem edge_configuration_bounded:
  assumes "set_order arrange"
  shows "case populate_edge_configuration arrange default_ip localstack_host gateway_listen of
      Inl e \<Rightarrow> e = ValueError
    | Inr (host, listen) \<Rightarrow> listen \<noteq> [] \<and> (\<forall>b \<in> set (host # listen). 0 \<le> hp_port b \<and> hp_port b < 2 ^ 16)
        \<and> (\<forall>b \<in> set listen. \<forall>b' \<in> set listen. \<not> covers b' b)"
proof -
  let ?gateway = "case gateway_listen of
      Some raw \<Rightarrow> map_r (\<lambda>address. parse_host_and_port (ustr_strip address) default_ip DEFAULT_PORT_EDGE) (split_on 44 raw)
    | None \<Rightarrow> Inr [\<lparr>hp_host = default_ip, hp_port = DEFAULT_PORT_EDGE\<rparr>]"
  have gateway: "(\<exists>bs. ?gateway = Inr bs \<and> bs \<noteq> [] \<and> (\<forall>b \<in> set bs. 0 \<le> hp_port b \<and> hp_port b < 2 ^ 16)) \<or> ?gateway = Inl ValueError"
  proof (cases gateway_listen)
    case (Some raw)
    show ?thesis
    proof (cases ?gateway)
      case (Inl e)
      then show ?thesis using Some map_r_outcomes(1) parse_outcomes(1) by fastforce
    next
      case (Inr bs)
      then have "length bs = length (split_on 44 raw)" using Some map_r_outcomes(3) by fastforce
      then have "bs \<noteq> []" by auto
      moreover have "\<forall>b \<in> set bs. 0 \<le> hp_port b \<and> hp_port b < 2 ^ 16"
        using Inr Some map_r_outcomes(2) parse_outcomes(2) by fastforce
      ultimately show ?thesis using Inr by blast
    qed
  qed (simp add: DEFAULT_PORT_EDGE_def)
  then show ?thesis
  proof (elim disjE exE conjE)
    fix bs assume bs: "?gateway = Inr bs" "bs \<noteq> []" "\<forall>b \<in> set bs. 0 \<le> hp_port b \<and> hp_port b < 2 ^ 16"
    let ?listen = "ensure_unique arrange bs"
    let ?host = "case localstack_host of
        None \<Rightarrow> Inr \<lparr>hp_host = cp ''localhost.localstack.cloud'', hp_port = hp_port (hd bs)\<rparr>
      | Some raw \<Rightarrow> parse_host_and_port raw (cp ''localhost.localstack.cloud'') (hp_port (hd bs))"
    have "?listen \<noteq> []" using kept_or_covered [OF assms, of "hd bs" bs] bs(2) by auto
    moreover have "\<forall>b \<in> set ?listen. 0 \<le> hp_port b \<and> hp_port b < 2 ^ 16" "\<forall>b \<in> set ?listen. \<forall>b' \<in> set ?listen. \<not> covers b' b"
      using ensure_unique_set [OF assms, of bs] bs(3) by auto
    moreover have "?host = Inl ValueError \<or> (\<exists>host. ?host = Inr host \<and> 0 \<le> hp_port host \<and> hp_port host < 2 ^ 16)"
    proof (cases localstack_host)
      case None
      then show ?thesis using bs(2,3) by simp
    next
      case (Some raw)
      then show ?thesis
        using parse_outcomes [of raw "cp ''localhost.localstack.cloud''" "hp_port (hd bs)"]
        by (cases "parse_host_and_port raw (cp ''localhost.localstack.cloud'') (hp_port (hd bs))") simp_all
    qed
    ultimately show ?thesis
      using bs(1) by (auto simp: populate_edge_configuration_def simp del: cp_simps)
  qed (simp add: populate_edge_configuration_def)
qed

lemma edge_configuration_bounded_witness:
  "\<exists>host listen. populate_edge_configuration remdups (cp ''127.0.0.1'') None (Some (cp '':80,[::]:80'')) = Inr (host, listen)
    \<and> listen \<noteq> [] \<and> hp_port host = 80"
proof -
  have order: "set_order remdups" by (simp add: set_order_def)
  have "populate_edge_configuration remdups (cp ''127.0.0.1'') None (Some (cp '':80,[::]:80''))
    = Inr (\<lparr>hp_host = cp ''localhost.localstack.cloud'', hp_port = 80\<rparr>, [\<lparr>hp_host = cp ''::'', hp_port = 80\<rparr>])"
    by (simp add: populate_edge_configuration_def parse_host_and_port_def parse_address_def ipv6_match_def is_ipv6_address_def without_scope_def
        is_ipv6_text_def ipv6_parts_ok_def is_hextet_def is_udigit_def validate_port_def int_of_str_def split_sign_def ustr_strip_def is_ws_def
        num_of_digits_def split_once_def ensure_unique_def hosts_by_port_def unique_hosts_def)
  with edge_configuration_bounded [OF order, of "cp ''127.0.0.1''" None "Some (cp '':80,[::]:80'')"] show ?thesis by auto
qed

end
