(* ===== verification/Settings.thy ===== *)
theory Settings
  imports EdgeConfig ApiResolution
begin

text \<open>
  The rest of \<open>config.py\<close>: the directories of the program, the profiles loaded into the environment, the
  detection of Docker, the names of the variables that are passed to the container, and the helpers that
  build URLs. The properties: clearing the temporary directory deletes the state of the services exactly
  when it is not to be kept, and loading profiles never overrides a variable.
\<close>

subsection \<open>Directories\<close>

record directories =
  di_static_libs :: "string option"
  di_var_libs :: "string option"
  di_cache :: "string option"
  di_tmp :: "string option"
  di_mounted_tmp :: "string option"
  di_functions :: "string option"
  di_data :: "string option"
  di_config :: "string option"
  di_init :: "string option"
  di_logs :: "string option"

definition DEFAULT_VOLUME_DIR :: string where "DEFAULT_VOLUME_DIR = ''/var/lib/localstack''"

text \<open>\<open>os.path.join\<close> and \<open>lstrip('/')\<close>.\<close>

definition join_path :: "string \<Rightarrow> string \<Rightarrow> string" where
  "join_path a b =
     (if starts_with ''/'' b then b else if a = [] \<or> last a = CHR ''/'' then a @ b else a @ ''/'' @ b)"

definition strip_slashes :: "string \<Rightarrow> string" where
  "strip_slashes p = dropWhile (\<lambda>c. c = CHR ''/'') p"

text \<open>\<open>tempdir\<close> is \<open>tempfile.gettempdir()\<close>.\<close>

definition default_directories :: "string \<Rightarrow> directories" where
  "default_directories tempdir =
     \<lparr>di_static_libs = Some ''/usr/lib/localstack'', di_var_libs = Some (DEFAULT_VOLUME_DIR @ ''/lib''),
      di_cache = Some (DEFAULT_VOLUME_DIR @ ''/cache''), di_tmp = Some (join_path tempdir ''localstack''),
      di_mounted_tmp = Some (DEFAULT_VOLUME_DIR @ ''/tmp''), di_functions = Some (DEFAULT_VOLUME_DIR @ ''/tmp''),
      di_data = Some (DEFAULT_VOLUME_DIR @ ''/state''), di_config = Some ''/etc/localstack/conf.d'',
      di_init = Some ''/etc/localstack/init'', di_logs = Some (DEFAULT_VOLUME_DIR @ ''/logs'')\<rparr>"

definition for_container :: "bool \<Rightarrow> string \<Rightarrow> directories" where
  "for_container persistence tempdir =
     (let defaults = default_directories tempdir
      in defaults\<lparr>di_data := (if persistence then di_data defaults
           else map_option (\<lambda>tmp. join_path tmp ''state'') (di_tmp defaults))\<rparr>)"

text \<open>The root is \<open>FILESYSTEM_ROOT\<close> or a directory of the installation, made absolute by \<open>abspath\<close>.\<close>

definition host_root :: "(string \<Rightarrow> string) \<Rightarrow> string option \<Rightarrow> string \<Rightarrow> string" where
  "host_root abspath filesystem_root root_folder =
     abspath (case filesystem_root of
                None \<Rightarrow> join_path root_folder ''.filesystem''
              | Some r \<Rightarrow> if r = [] then join_path root_folder ''.filesystem'' else r)"

definition for_host :: "bool \<Rightarrow> string \<Rightarrow> string \<Rightarrow> directories" where
  "for_host persistence tempdir root =
     (let defaults = for_container persistence tempdir;
          in_root = map_option (\<lambda>p. join_path root (strip_slashes p));
          tmp = in_root (di_tmp defaults)
      in \<lparr>di_static_libs = in_root (di_static_libs defaults), di_var_libs = in_root (di_var_libs defaults),
          di_cache = in_root (di_cache defaults), di_tmp = tmp, di_mounted_tmp = in_root (di_mounted_tmp defaults),
          di_functions = in_root (di_functions defaults),
          di_data = (if persistence then in_root (di_data defaults) else map_option (\<lambda>t. join_path t ''state'') tmp),
          di_config = in_root (di_config defaults), di_init = in_root (di_init defaults), di_logs = in_root (di_logs defaults)\<rparr>)"

definition for_cli :: "string \<Rightarrow> string \<Rightarrow> directories" where
  "for_cli tempdir user_cache_dir =
     (let tmp_dir = join_path tempdir ''localstack-cli''
      in \<lparr>di_static_libs = None, di_var_libs = None, di_cache = Some (join_path user_cache_dir ''localstack-cli''),
          di_tmp = Some tmp_dir, di_mounted_tmp = Some tmp_dir, di_functions = None, di_data = Some (join_path tmp_dir ''state''),
          di_config = None, di_init = None, di_logs = Some (join_path tmp_dir ''logs'')\<rparr>)"

definition init_directories :: "bool \<Rightarrow> environ \<Rightarrow> string \<Rightarrow> string \<Rightarrow> string \<Rightarrow> directories" where
  "init_directories is_in_docker env tempdir root user_cache_dir =
     (let persistence = is_env_true env ''PERSISTENCE''
      in if is_in_docker then for_container persistence tempdir
         else if is_env_true env ''LOCALSTACK_CLI'' then for_cli tempdir user_cache_dir
         else for_host persistence tempdir root)"

definition folders :: "directories \<Rightarrow> string option list" where
  "folders d =
     [di_static_libs d, di_var_libs d, di_cache d, di_tmp d, di_mounted_tmp d, di_functions d, di_data d, di_config d,
      di_init d, di_logs d]"

text \<open>\<open>mkdirs\<close>: \<open>makedirs\<close> changes the file system, and what it raises is ignored.\<close>

definition mkdirs :: "(string \<Rightarrow> 'w \<Rightarrow> bool) \<Rightarrow> (string \<Rightarrow> ('w, unit) prog) \<Rightarrow> directories \<Rightarrow> 'w \<Rightarrow> 'w" where
  "mkdirs exists makedirs d w =
     fold (\<lambda>folder w. case folder of
            None \<Rightarrow> w
          | Some p \<Rightarrow> if p \<noteq> [] \<and> \<not> exists p w then snd (makedirs p w) else w) (folders d) w"

text \<open>
  \<open>LocalstackRuntime._clear_tmp_directory\<close>, at start and at the end: the paths that are deleted, those at or
  below the temporary directory.
\<close>

definition cleared :: "environ \<Rightarrow> directories \<Rightarrow> string \<Rightarrow> bool" where
  "cleared env d p \<longleftrightarrow>
     is_env_not_false env ''CLEAR_TMP_FOLDER''
     \<and> (case di_tmp d of None \<Rightarrow> False | Some tmp \<Rightarrow> p = tmp \<or> starts_with (tmp @ ''/'') p)"

subsection \<open>Profiles\<close>

text \<open>
  \<open>load_environment\<close>; \<open>dotenv_values\<close> reads a profile that exists. A later profile wins over an earlier one,
  and a variable without a value hides the one before it.
\<close>

definition profile_names :: "string \<Rightarrow> string list" where
  "profile_names profiles = split_on CHR '','' (if profiles = [] then ''default'' else profiles)"

definition profile_environment ::
    "string \<Rightarrow> (string \<Rightarrow> (string, string option) dict option) \<Rightarrow> string list \<Rightarrow> (string, string option) dict" where
  "profile_environment config_dir dotenv_values profiles =
     fold (\<lambda>profile d. case dotenv_values (join_path config_dir (strip profile @ ''.env'')) of
             None \<Rightarrow> d | Some e \<Rightarrow> dict_update d e) profiles []"

definition set_if_missing :: "string \<times> string option \<Rightarrow> environ \<Rightarrow> environ" where
  "set_if_missing kv env =
     (case kv of (k, Some v) \<Rightarrow> if dict_get env k = None then dict_set k v env else env | (k, None) \<Rightarrow> env)"

definition load_environment ::
    "string \<Rightarrow> (string \<Rightarrow> (string, string option) dict option) \<Rightarrow> string \<Rightarrow> environ \<Rightarrow> string list \<times> environ" where
  "load_environment config_dir dotenv_values profiles env =
     (let names = profile_names profiles
      in (names, fold set_if_missing (profile_environment config_dir dotenv_values names) env))"

subsection \<open>Docker\<close>

text \<open>The files that tell a container; \<open>read\<close> and \<open>listdir\<close> raise when there is nothing to read.\<close>

record container_files =
  cf_is_file :: "string \<Rightarrow> bool"
  cf_exists :: "string \<Rightarrow> bool"
  cf_listdir :: "string \<Rightarrow> string list result"
  cf_read :: "string \<Rightarrow> string result"
  cf_hostname :: string

abbreviation FileNotFoundError :: exn where
  "FileNotFoundError \<equiv> UserError ''FileNotFoundError'' []"

definition docker_cgroups :: "container_files \<Rightarrow> bool result" where
  "docker_cgroups fs =
     bind_r (cf_listdir fs ''/sys/fs/cgroup/memory/system.slice'') (\<lambda>memory.
     bind_r (cf_listdir fs ''/sys/fs/cgroup/system.slice/'') (\<lambda>slices.
       Inr (cf_exists fs ''/sys/fs/cgroup/memory/docker/'' \<or> list_ex (contains_sub ''docker-'') memory
            \<or> cf_exists fs ''/sys/fs/cgroup/docker/'' \<or> list_ex (contains_sub ''docker-'') slices)))"

definition containerd_root :: "string \<Rightarrow> bool" where
  "containerd_root line =
     (let l = strip line; parts = split_ws l
      in l \<noteq> [] \<and> hd l \<noteq> CHR ''#'' \<and> 4 \<le> length parts \<and> parts ! 1 = ''/'' \<and> contains_sub ''io.containerd'' (parts ! 3))"

definition in_docker :: "bool option \<Rightarrow> container_files \<Rightarrow> bool result" where
  "in_docker override fs =
     (case override of
        Some b \<Rightarrow> Inr b
      | None \<Rightarrow>
          if list_ex (cf_is_file fs) [''/usr/lib/localstack/.community-version'', ''/usr/lib/localstack/.pro-version'', ''/tmp/localstack/.marker'']
          then Inr True
          else if cf_exists fs ''/.dockerenv'' \<or> cf_exists fs ''/run/.containerenv'' then Inr True
          else if \<not> cf_exists fs ''/proc/1/cgroup'' then Inr False
          else if docker_cgroups fs = Inr True then Inr False
          else bind_r (cf_read fs ''/proc/1/cgroup'') (\<lambda>content.
                 if contains_sub ''docker'' content \<or> contains_sub ''buildkit'' content then Inr True
                 else if cf_hostname fs \<noteq> [] \<and> contains_sub (cf_hostname fs) content then Inr True
                 else (case cf_read fs ''/proc/mounts'' of
                         Inl e \<Rightarrow> if e = FileNotFoundError then Inr False else Inl e
                       | Inr mounts \<Rightarrow> Inr (list_ex containerd_root (split_on (char_of (10 :: nat)) mounts)))))"

subsection \<open>Names of variables\<close>

definition CONFIG_ENV_VARS :: "string list" where
  "CONFIG_ENV_VARS =
    [''ALLOW_NONSTANDARD_REGIONS'', ''BOTO_WAITER_DELAY'', ''BOTO_WAITER_MAX_ATTEMPTS'', ''CFN_VERBOSE_ERRORS'',
     ''CI'', ''CUSTOM_SSL_CERT_PATH'', ''DEBUG'', ''DEBUG_HANDLER_CHAIN'', ''DISABLE_BOTO_RETRIES'',
     ''DISABLE_CORS_CHECKS'', ''DISABLE_CORS_HEADERS'', ''DISABLE_CUSTOM_BOTO_WAITER_CONFIG'',
     ''DISABLE_CUSTOM_CORS_APIGATEWAY'', ''DISABLE_CUSTOM_CORS_S3'', ''DISTRIBUTED_MODE'', ''DNS_ADDRESS'',
     ''DNS_PORT'', ''DNS_LOCAL_NAME_PATTERNS'', ''DNS_NAME_PATTERNS_TO_RESOLVE_UPSTREAM'', ''DNS_RESOLVE_IP'',
     ''DNS_SERVER'', ''DNS_VERIFICATION_DOMAIN'', ''EAGER_SERVICE_LOADING'', ''ENABLE_CONFIG_UPDATES'',
     ''EXTRA_CORS_ALLOWED_HEADERS'', ''EXTRA_CORS_ALLOWED_ORIGINS'', ''EXTRA_CORS_EXPOSE_HEADERS'',
     ''GATEWAY_LISTEN'', ''GATEWAY_SERVER'', ''GATEWAY_WORKER_THREAD_COUNT'', ''HOSTNAME'', ''IN_MEMORY_CLIENT'',
     ''LOCALSTACK_API_KEY'', ''LOCALSTACK_AUTH_TOKEN'', ''LOCALSTACK_HOST'', ''LOCALSTACK_RESPONSE_HEADER_ENABLED'',
     ''LOG_LICENSE_ISSUES'', ''LS_LOG'', ''OPENAPI_VALIDATE_REQUEST'', ''OPENAPI_VALIDATE_RESPONSE'',
     ''OUTBOUND_HTTP_PROXY'', ''OUTBOUND_HTTPS_PROXY'', ''PERSISTENCE'', ''REQUESTS_CA_BUNDLE'', ''REMOVE_SSL_CERT'',
     ''SERVICES'', ''SKIP_SSL_CERT_DOWNLOAD'', ''SNAPSHOT_LOAD_STRATEGY'', ''SNAPSHOT_SAVE_STRATEGY'',
     ''SNAPSHOT_FLUSH_INTERVAL'', ''STATE_SERIALIZATION_BACKEND'', ''STRICT_SERVICE_LOADING'', ''USE_SSL'',
     ''LEGACY_DIRECTORIES'', ''DEFAULT_REGION'', ''EDGE_BIND_HOST'', ''EDGE_FORWARD_URL'', ''EDGE_PORT'',
     ''EDGE_PORT_HTTP'', ''HOSTNAME_EXTERNAL'', ''LEGACY_EDGE_PROXY'', ''LOCALSTACK_HOSTNAME'', ''USE_SINGLE_REGION'',
     ''MOCK_UNIMPLEMENTED'']"

text \<open>
  \<open>populate_config_env_var_names\<close>, up to the order of the result and repetitions; \<open>str_upper\<close> is \<open>str.upper\<close>.
\<close>

definition populate_config_env_var_names :: "(string \<Rightarrow> string) \<Rightarrow> environ \<Rightarrow> string list" where
  "populate_config_env_var_names str_upper env =
     (let names = CONFIG_ENV_VARS
            @ filter (\<lambda>k. (starts_with ''LOCALSTACK_'' k \<or> starts_with ''PROVIDER_OVERRIDE_'' k) \<and> k \<noteq> ''LOCALSTACK_CLI'')
                (map str_upper (dict_keys env))
      in names @ map (\<lambda>v. ''LOCALSTACK_'' @ v) (filter (\<lambda>v. \<not> starts_with ''LOCALSTACK_'' v) names))"

definition eval_log_type :: "string list \<Rightarrow> environ \<Rightarrow> string \<Rightarrow> string option" where
  "eval_log_type log_levels env k =
     (let ls_log = strip (lower (env_get env k)) in if ls_log \<in> set log_levels then Some ls_log else None)"

definition is_trace_logging_enabled :: "string option \<Rightarrow> bool" where
  "is_trace_logging_enabled ls_log =
     (case ls_log of None \<Rightarrow> False | Some l \<Rightarrow> l \<noteq> [] \<and> lower l \<in> {''trace'', ''trace-internal''})"

text \<open>The hosts that bypass a proxy are added to the variable that is set.\<close>

definition extend_no_proxy :: "environ \<Rightarrow> environ" where
  "extend_no_proxy env =
     (let no_proxy = join_with '','' [''localhost.localstack.cloud'', ''localhost'', ''127.0.0.1'', ''[::1]'']
      in if env_get env ''no_proxy'' \<noteq> [] then dict_set ''no_proxy'' (env_get env ''no_proxy'' @ '','' @ no_proxy) env
         else if env_get env ''NO_PROXY'' \<noteq> [] then dict_set ''NO_PROXY'' (env_get env ''NO_PROXY'' @ '','' @ no_proxy) env
         else dict_set ''no_proxy'' no_proxy env)"

subsection \<open>URLs\<close>

definition get_protocol :: "bool \<Rightarrow> ustr" where
  "get_protocol use_ssl = (if use_ssl then cp ''https'' else cp ''http'')"

text \<open>\<open>x or default\<close> for the optional parameters: empty texts and zero count as not given.\<close>

definition given_or :: "ustr option \<Rightarrow> ustr \<Rightarrow> ustr" where
  "given_or x d = (case x of None \<Rightarrow> d | Some s \<Rightarrow> if s = [] then d else s)"

definition port_or :: "int option \<Rightarrow> int \<Rightarrow> int" where
  "port_or x d = (case x of None \<Rightarrow> d | Some p \<Rightarrow> if p = 0 then d else p)"

definition service_url_text :: "ustr \<Rightarrow> ustr option \<Rightarrow> ustr \<Rightarrow> int \<Rightarrow> ustr" where
  "service_url_text protocol subdomains host port =
     protocol @ cp ''://'' @ (case subdomains of None \<Rightarrow> [] | Some s \<Rightarrow> if s = [] then [] else s @ cp ''.'')
     @ host @ cp '':'' @ int_text port"

definition external_service_url ::
    "bool \<Rightarrow> host_and_port \<Rightarrow> ustr option \<Rightarrow> int option \<Rightarrow> ustr option \<Rightarrow> ustr option \<Rightarrow> ustr" where
  "external_service_url use_ssl localstack_host host port protocol subdomains =
     service_url_text (given_or protocol (get_protocol use_ssl)) subdomains (given_or host (hp_host localstack_host))
       (port_or port (hp_port localstack_host))"

definition internal_service_url ::
    "bool \<Rightarrow> host_and_port list \<Rightarrow> ustr option \<Rightarrow> int option \<Rightarrow> ustr option \<Rightarrow> ustr option \<Rightarrow> ustr" where
  "internal_service_url use_ssl gateway_listen host port protocol subdomains =
     service_url_text (given_or protocol (get_protocol use_ssl)) subdomains (given_or host (cp ''localhost''))
       (port_or port (hp_port (hd gateway_listen)))"

text \<open>The deprecated helpers.\<close>

definition service_url :: "bool \<Rightarrow> host_and_port list \<Rightarrow> ustr option \<Rightarrow> int option \<Rightarrow> ustr" where
  "service_url use_ssl gateway_listen host port = internal_service_url use_ssl gateway_listen host port None None"

definition service_port :: "host_and_port \<Rightarrow> host_and_port list \<Rightarrow> bool \<Rightarrow> int" where
  "service_port localstack_host gateway_listen external =
     (if external then hp_port localstack_host else hp_port (hd gateway_listen))"

definition get_edge_url :: "bool \<Rightarrow> host_and_port list \<Rightarrow> ustr option \<Rightarrow> ustr option \<Rightarrow> ustr" where
  "get_edge_url use_ssl gateway_listen localstack_hostname protocol =
     internal_service_url use_ssl gateway_listen localstack_hostname None protocol None"

subsection \<open>Lemmas: directories\<close>

lemma join_path_simps [simp]:
  "join_path a (CHR ''/'' # b) = CHR ''/'' # b"
  "b = [] \<or> hd b \<noteq> CHR ''/'' \<Longrightarrow> a \<noteq> [] \<Longrightarrow> last a \<noteq> CHR ''/'' \<Longrightarrow> join_path a b = a @ ''/'' @ b"
  by (cases b; simp add: join_path_def)+

lemma strip_slashes_hd: "strip_slashes p = [] \<or> hd (strip_slashes p) \<noteq> CHR ''/''"
  by (induction p) (auto simp: strip_slashes_def)

lemma starts_with_same [simp]: "starts_with (a @ b) (a @ c) \<longleftrightarrow> starts_with b c"
  by (induction a) simp_all

text \<open>In host mode every directory is below the root.\<close>

lemma host_directories_in_root:
  assumes "root \<noteq> []" "last root \<noteq> CHR ''/''" "p \<in> set (folders (for_host persistence tempdir root))" "tempdir \<noteq> []"
  shows "\<exists>q. p = Some q \<and> starts_with (root @ ''/'') q"
proof -
  have "starts_with (root @ ''/'') (join_path root (strip_slashes q))" for q
    using assms(1,2) strip_slashes_hd by simp
  moreover have "starts_with (root @ ''/'') (join_path (join_path root (strip_slashes q)) ''state'')" for q
  proof -
    have "join_path root (strip_slashes q) = root @ ''/'' @ strip_slashes q" using assms(1,2) strip_slashes_hd by simp
    then show ?thesis by (auto simp: join_path_def)
  qed
  ultimately show ?thesis
    using assms(3) by (auto simp: folders_def for_host_def for_container_def default_directories_def Let_def split: if_splits)
qed

text \<open>Only below \<open>/var/lib\<close> the name of the temporary directory is a prefix of the state.\<close>

lemma temp_prefix: "starts_with (u @ ''/localstack/'') ''var/lib/localstack/state'' \<longleftrightarrow> u = ''var/lib''"
proof
  assume "starts_with (u @ ''/localstack/'') ''var/lib/localstack/state''"
  then obtain rest where r: "''var/lib/localstack/state'' = u @ ''/localstack/'' @ rest" by (auto simp: starts_with_iff)
  have "length ''var/lib/localstack/state'' = length (u @ ''/localstack/'' @ rest)" unfolding r by (rule refl)
  then have "length u \<le> 12" by simp
  then have "length u \<in> set [0..<13]" by simp
  moreover have "u = take (length u) ''var/lib/localstack/state''" "drop (length u) ''var/lib/localstack/state'' = ''/localstack/'' @ rest"
    by (metis r append_eq_conv_conj)+
  ultimately show "u = ''var/lib''" by (auto simp: upt_rec)
qed simp

lemma state_in_tmp: "starts_with (tmp @ ''/'') (join_path tmp ''state'')" if "tmp \<noteq> []" "last tmp \<noteq> CHR ''/''"
  using that by (simp add: starts_with_iff)

lemma last_append_text [simp]: "last (a @ ''/localstack'') = CHR ''k''"
  by simp

text \<open>The temporary directory and the state.\<close>

lemma container_tmp_data:
  assumes "u \<noteq> []" "last u \<noteq> CHR ''/''"
  shows "di_tmp (for_container persistence (CHR ''/'' # u)) = Some (CHR ''/'' # u @ ''/localstack'')"
    and "di_data (for_container persistence (CHR ''/'' # u))
      = Some (if persistence then ''/var/lib/localstack/state'' else CHR ''/'' # u @ ''/localstack/state'')"
  using assms by (simp_all add: for_container_def Let_def default_directories_def DEFAULT_VOLUME_DIR_def)

lemma host_tmp_data:
  assumes "u \<noteq> []" "last u \<noteq> CHR ''/''" "hd u \<noteq> CHR ''/''" "root \<noteq> []" "last root \<noteq> CHR ''/''"
  shows "di_tmp (for_host persistence (CHR ''/'' # u) root) = Some (root @ ''/'' @ u @ ''/localstack'')"
    and "di_data (for_host persistence (CHR ''/'' # u) root)
      = Some (if persistence then root @ ''/var/lib/localstack/state'' else root @ ''/'' @ u @ ''/localstack/state'')"
proof -
  have strip: "strip_slashes (CHR ''/'' # u @ x) = u @ x" for x
    using assms(1,3) by (cases u) (simp_all add: strip_slashes_def)
  have joined: "join_path root (u @ ''/localstack'') = root @ ''/'' @ u @ ''/localstack''"
    "join_path root ''var/lib/localstack/state'' = root @ ''/var/lib/localstack/state''"
    "join_path (root @ ''/'' @ u @ ''/localstack'') ''state'' = root @ ''/'' @ u @ ''/localstack/state''"
    using assms by simp_all
  have state: "strip_slashes ''/var/lib/localstack/state'' = ''var/lib/localstack/state''" by (simp add: strip_slashes_def)
  show "di_tmp (for_host persistence (CHR ''/'' # u) root) = Some (root @ ''/'' @ u @ ''/localstack'')"
    unfolding for_host_def Let_def directories.select_convs container_tmp_data [OF assms(1,2)] option.map strip joined by (rule refl)
  show "di_data (for_host persistence (CHR ''/'' # u) root)
      = Some (if persistence then root @ ''/var/lib/localstack/state'' else root @ ''/'' @ u @ ''/localstack/state'')"
    unfolding for_host_def Let_def directories.select_convs container_tmp_data [OF assms(1,2)] option.map strip joined
    by (cases persistence) (simp_all only: if_True if_False option.map state joined)
qed

subsection \<open>Lemmas: profiles\<close>

lemma dict_update_append: "dict_get (dict_update d e) k = dict_get (rev e @ d) k"
  by (simp add: dict_get_update map_add_def)

lemma set_missing_get:
  "wf_dict e \<Longrightarrow> dict_get (fold set_if_missing e env) k
     = (case dict_get env k of Some v \<Rightarrow> Some v | None \<Rightarrow> (case dict_get e k of Some (Some v) \<Rightarrow> Some v | _ \<Rightarrow> None))"
proof (induction e arbitrary: env)
  case (Cons kv e)
  obtain k' v' where kv: "kv = (k', v')" by (cases kv)
  have "k' \<notin> set (dict_keys e)" "wf_dict e" using Cons.prems kv by (simp_all add: wf_dict_def)
  then have absent: "dict_get e k' = None" by (simp add: dict_get_None)
  show ?case
    using Cons.IH [OF \<open>wf_dict e\<close>] absent kv
    by (auto simp: set_if_missing_def dict_get_set split: option.split)
qed (simp split: option.split)

text \<open>The profiles that exist, one after the other; the last one that has a variable decides.\<close>

definition profile_files :: "string \<Rightarrow> (string \<Rightarrow> (string, string option) dict option) \<Rightarrow> string \<Rightarrow> (string, string option) dict" where
  "profile_files config_dir dotenv_values profiles =
     concat (map (\<lambda>profile. case dotenv_values (join_path config_dir (strip profile @ ''.env'')) of None \<Rightarrow> [] | Some e \<Rightarrow> e)
       (profile_names profiles))"

lemma profile_environment_get:
  "dict_get (profile_environment config_dir dotenv_values names) k
     = dict_get (rev (concat (map (\<lambda>profile. case dotenv_values (join_path config_dir (strip profile @ ''.env'')) of None \<Rightarrow> [] | Some e \<Rightarrow> e) names))) k"
  "wf_dict (profile_environment config_dir dotenv_values names)"
proof -
  define step where "step = (\<lambda>profile d. case dotenv_values (join_path config_dir (strip profile @ ''.env'')) of None \<Rightarrow> d | Some e \<Rightarrow> dict_update d e)"
  have "dict_get (fold step names d) k
      = dict_get (rev (concat (map (\<lambda>profile. case dotenv_values (join_path config_dir (strip profile @ ''.env'')) of None \<Rightarrow> [] | Some e \<Rightarrow> e) names)) @ d) k" for d
    by (induction names arbitrary: d)
       (auto simp: step_def dict_get_update map_add_def split: option.split)
  from this [of "[]"] show "dict_get (profile_environment config_dir dotenv_values names) k
      = dict_get (rev (concat (map (\<lambda>profile. case dotenv_values (join_path config_dir (strip profile @ ''.env'')) of None \<Rightarrow> [] | Some e \<Rightarrow> e) names))) k"
    by (simp add: profile_environment_def step_def)
  have "wf_dict d \<Longrightarrow> wf_dict (fold step names d)" for d
    by (induction names arbitrary: d) (auto simp: step_def split: option.split)
  then show "wf_dict (profile_environment config_dir dotenv_values names)"
    by (simp add: profile_environment_def step_def)
qed

subsection \<open>Properties\<close>

text \<open>
  C39: in a container and in host mode, clearing the temporary directory at start and exit deletes the state of
  the services exactly when it is cleared at all and the state is not to be kept. The one exception is a
  system whose temporary directory is \<open>/var/lib\<close>.
\<close>

theorem clearing_deletes_state_iff:
  assumes "u \<noteq> []" "hd u \<noteq> CHR ''/''" "last u \<noteq> CHR ''/''" "root \<noteq> []" "last root \<noteq> CHR ''/''"
    and "d \<in> {for_container persistence (''/'' @ u), for_host persistence (''/'' @ u) root}"
  shows "\<exists>p. di_data d = Some p
    \<and> (cleared env d p \<longleftrightarrow> is_env_not_false env ''CLEAR_TMP_FOLDER'' \<and> (\<not> persistence \<or> u = ''var/lib''))"
proof -
  note container = container_tmp_data [OF assms(1,3), of persistence]
  note host = host_tmp_data [OF assms(1,3,2,4,5), of persistence]
  have differ: "u @ ''/localstack'' \<noteq> ''var/lib/localstack/state''" by (rule notI, drule arg_cong [where f = last]) simp
  have prefixes: "starts_with (u @ ''/localstack/'') (u @ ''/localstack/state'')" by simp
  consider "d = for_container persistence (CHR ''/'' # u)" | "d = for_host persistence (CHR ''/'' # u) root" using assms(6) by auto
  then show ?thesis
  proof cases
    case 1
    then show ?thesis using container differ prefixes temp_prefix [of u] by (cases persistence) (simp_all add: cleared_def)
  next
    case 2
    then show ?thesis using host differ prefixes temp_prefix [of u] by (cases persistence) (simp_all add: cleared_def)
  qed
qed

lemma clearing_deletes_state_iff_witness:
  "\<not> cleared [(''CLEAR_TMP_FOLDER'', ''1'')] (for_host True ''/tmp'' ''/root/.filesystem'') ''/root/.filesystem/var/lib/localstack/state''
   \<and> cleared [(''CLEAR_TMP_FOLDER'', ''1'')] (for_container False ''/tmp'') ''/tmp/localstack/state''"
proof -
  have tmp: "''tmp'' \<noteq> []" "hd ''tmp'' \<noteq> CHR ''/''" "last ''tmp'' \<noteq> CHR ''/''" "''/root/.filesystem'' \<noteq> []" "last ''/root/.filesystem'' \<noteq> CHR ''/''"
    by simp_all
  have on: "is_env_not_false [(''CLEAR_TMP_FOLDER'', ''1'')] ''CLEAR_TMP_FOLDER''" by code_simp
  have "di_data (for_host True ''/tmp'' ''/root/.filesystem'') = Some ''/root/.filesystem/var/lib/localstack/state''"
    "di_data (for_container False ''/tmp'') = Some ''/tmp/localstack/state''" by code_simp+
  then show ?thesis
    using clearing_deletes_state_iff [OF tmp, of "for_host True ''/tmp'' ''/root/.filesystem''" True "[(''CLEAR_TMP_FOLDER'', ''1'')]"]
      clearing_deletes_state_iff [OF tmp, of "for_container False ''/tmp''" False "[(''CLEAR_TMP_FOLDER'', ''1'')]"] on by simp
qed

text \<open>
  Loading profiles keeps every variable of the environment; a new variable gets the value of the last
  profile that mentions it, if that one gives it a value.
\<close>

theorem profiles_never_override:
  assumes "load_environment config_dir dotenv_values profiles env = (names, env')"
  shows "dict_get env' k = (case dict_get env k of
      Some v \<Rightarrow> Some v
    | None \<Rightarrow> (case dict_get (rev (profile_files config_dir dotenv_values profiles)) k of Some (Some v) \<Rightarrow> Some v | _ \<Rightarrow> None))"
proof -
  have "dict_get (profile_environment config_dir dotenv_values (profile_names profiles)) k = dict_get (rev (profile_files config_dir dotenv_values profiles)) k"
    unfolding profile_files_def by (rule profile_environment_get(1))
  moreover have "env' = fold set_if_missing (profile_environment config_dir dotenv_values (profile_names profiles)) env"
    using assms by (auto simp: load_environment_def Let_def)
  ultimately show ?thesis using set_missing_get [OF profile_environment_get(2)] by metis
qed

text \<open>A URL names the host as it is: unlike in the text of the address, an IPv6 address gets no brackets.\<close>

lemma url_without_brackets:
  "hp_host b \<noteq> [] \<Longrightarrow> hp_port b \<noteq> 0 \<Longrightarrow>
     external_service_url False b None None None None = cp ''http://'' @ hp_host b @ 58 # int_text (hp_port b)"
  "is_ipv6_address (hp_host b) \<Longrightarrow> host_and_port_text b = 91 # hp_host b @ 93 # 58 # int_text (hp_port b)"
  by (simp_all add: external_service_url_def service_url_text_def given_or_def port_or_def get_protocol_def host_and_port_text_def)

end
