(* ===== verification/Batching.thy ===== *)
theory Batching
  imports Sync
begin

text \<open>
  Collecting items into batches, \<open>utils/batching.py\<close>: \<open>Batcher\<close>, which its caller flushes, over exact
  times, and \<open>AsyncBatcher\<close>, whose loop runs on a thread of its own, as steps of that thread and of the
  threads that add items and close it. The properties: no item is lost, doubled or reordered on the way,
  and what closing an \<open>AsyncBatcher\<close> can leave behind.
\<close>

subsection \<open>\<open>Batcher\<close>\<close>

record 'a batcher =
  max_count :: "int option"
  max_window :: "rat option"
  triggered :: bool
  last_batch_time :: rat
  batch :: "'a list"

definition new_batcher :: "int option \<Rightarrow> rat option \<Rightarrow> rat \<Rightarrow> 'a batcher" where
  "new_batcher count window now =
     \<lparr>max_count = count, max_window = window, triggered = False, last_batch_time = now, batch = []\<rparr>"

text \<open>Truth of an optional number, and the slices \<open>xs[:n]\<close> and \<open>xs[n:]\<close>.\<close>

definition unset :: "'a::zero option \<Rightarrow> bool" where
  "unset n \<longleftrightarrow> n = None \<or> n = Some 0"

definition slice_end :: "int \<Rightarrow> 'a list \<Rightarrow> nat" where
  "slice_end n xs = nat (if n < 0 then int (length xs) + n else n)"

definition check_batch_policy :: "rat \<Rightarrow> 'a batcher \<Rightarrow> bool \<times> 'a batcher" where
  "check_batch_policy now b =
     (let b' = (if (case max_count b of None \<Rightarrow> False | Some n \<Rightarrow> n \<le> int (length (batch b)))
                   \<or> (case max_window b of None \<Rightarrow> False | Some w \<Rightarrow> w \<le> now - last_batch_time b)
                   \<or> (unset (max_count b) \<and> unset (max_window b))
                then b\<lparr>triggered := True\<rparr> else b)
      in (triggered b', b'))"

definition is_triggered :: "rat \<Rightarrow> 'a batcher \<Rightarrow> bool \<times> 'a batcher" where
  "is_triggered now b = (if triggered b then (True, b) else check_batch_policy now b)"

text \<open>\<open>add\<close> of one item or a list of items; a deep copy is the same value.\<close>

definition add_items :: "'a + 'a list \<Rightarrow> rat \<Rightarrow> 'a batcher \<Rightarrow> bool \<times> 'a batcher" where
  "add_items item_or_items now b =
     is_triggered now (b\<lparr>batch := batch b @ (case item_or_items of Inl x \<Rightarrow> [x] | Inr xs \<Rightarrow> xs)\<rparr>)"

text \<open>\<open>flush\<close> reads the clock twice.\<close>

definition flush :: "bool \<Rightarrow> rat \<Rightarrow> rat \<Rightarrow> 'a batcher \<Rightarrow> 'a list \<times> 'a batcher" where
  "flush part now now' b =
     (let (result, rest) =
            (if \<not> part \<or> unset (max_count b) then (batch b, [])
             else let n = slice_end (min (the (max_count b)) (int (length (batch b)))) (batch b)
                  in (take n (batch b), drop n (batch b)))
      in (result, snd (check_batch_policy now' (b\<lparr>batch := rest, last_batch_time := now, triggered := False\<rparr>))))"

definition duration_until_next_batch :: "rat \<Rightarrow> 'a batcher \<Rightarrow> rat" where
  "duration_until_next_batch now b =
     (if unset (max_window b) then - 1 else max (the (max_window b) - (now - last_batch_time b)) (- 1))"

subsection \<open>\<open>AsyncBatcher\<close>\<close>

text \<open>
  The loop is at the check of its condition, waits on the lock (which \<open>wait\<close> releases; it wakes on a
  notification or after the flush interval, that is at any time), calls the handler, or has ended. The
  sections under the lock are single steps. \<open>ab_accepted\<close> and \<open>ab_delivered\<close> record what was added and what
  the handler was called with, whether it raised or not.
\<close>

datatype 'a loop_pc = LoopCheck | LoopWait | LoopHandle "'a list" | LoopEnded

record 'a async_batcher =
  ab_buffer :: "'a list"
  ab_closed :: bool
  ab_pc :: "'a loop_pc"
  ab_accepted :: "'a list"
  ab_delivered :: "'a list list"

definition new_async_batcher :: "'a async_batcher" where
  "new_async_batcher = \<lparr>ab_buffer = [], ab_closed = False, ab_pc = LoopCheck, ab_accepted = [], ab_delivered = []\<rparr>"

definition async_add :: "'a \<Rightarrow> ('a async_batcher, unit) prog" where
  "async_add x b =
     (if ab_closed b then (Inl ValueError, b)
      else (Inr (), b\<lparr>ab_buffer := ab_buffer b @ [x], ab_accepted := ab_accepted b @ [x]\<rparr>))"

definition async_close :: "'a async_batcher \<Rightarrow> 'a async_batcher" where
  "async_close b = (if ab_closed b then b else b\<lparr>ab_closed := True\<rparr>)"

text \<open>One step of \<open>run\<close>; None when it has returned.\<close>

definition run_step :: "'a async_batcher \<Rightarrow> 'a async_batcher option" where
  "run_step b =
     (case ab_pc b of
        LoopCheck \<Rightarrow> Some (b\<lparr>ab_pc := (if ab_closed b then LoopEnded else LoopWait)\<rparr>)
      | LoopWait \<Rightarrow> Some (if ab_buffer b = [] then b\<lparr>ab_pc := LoopCheck\<rparr>
                          else b\<lparr>ab_pc := LoopHandle (ab_buffer b), ab_buffer := []\<rparr>)
      | LoopHandle xs \<Rightarrow> Some (b\<lparr>ab_delivered := ab_delivered b @ [xs], ab_pc := LoopCheck\<rparr>)
      | LoopEnded \<Rightarrow> None)"

inductive async_step :: "'a async_batcher \<Rightarrow> 'a async_batcher \<Rightarrow> bool" where
  adds: "async_step b (snd (async_add x b))"
| closes: "async_step b (async_close b)"
| runs: "run_step b = Some b' \<Longrightarrow> async_step b b'"

definition in_flight :: "'a async_batcher \<Rightarrow> 'a list" where
  "in_flight b = (case ab_pc b of LoopHandle xs \<Rightarrow> xs | _ \<Rightarrow> [])"

subsection \<open>Lemmas\<close>

lemma policy_keeps [simp]:
  "batch (snd (check_batch_policy now b)) = batch b" "max_count (snd (check_batch_policy now b)) = max_count b"
  "batch (snd (is_triggered now b)) = batch b" "max_count (snd (is_triggered now b)) = max_count b"
  by (simp_all add: check_batch_policy_def is_triggered_def Let_def)

lemma flush_splits: "fst (flush part now now' b) @ batch (snd (flush part now now' b)) = batch b"
  by (simp add: flush_def Let_def split: prod.split)

datatype 'a batch_call = AddCall "'a + 'a list" rat | FlushCall bool rat rat

fun added :: "'a batch_call \<Rightarrow> 'a list" where
  "added (AddCall (Inl x) now) = [x]"
| "added (AddCall (Inr xs) now) = xs"
| "added (FlushCall part now now') = []"

fun call_batcher :: "'a batch_call \<Rightarrow> 'a batcher \<Rightarrow> 'a list \<times> 'a batcher" where
  "call_batcher (AddCall items now) b = ([], snd (add_items items now b))"
| "call_batcher (FlushCall part now now') b = flush part now now' b"

fun flushed_by :: "'a batch_call list \<Rightarrow> 'a batcher \<Rightarrow> 'a list list \<times> 'a batcher" where
  "flushed_by [] b = ([], b)"
| "flushed_by (c # cs) b =
     (let (out, b') = call_batcher c b; (outs, b'') = flushed_by cs b' in (out # outs, b''))"

lemma call_batcher_keeps: "fst (call_batcher c b) @ batch (snd (call_batcher c b)) = batch b @ added c"
proof (cases c)
  case (AddCall items now)
  then show ?thesis by (cases items) (simp_all add: add_items_def)
qed (simp add: flush_splits)

lemma flushed_by_keeps: "concat (fst (flushed_by cs b)) @ batch (snd (flushed_by cs b)) = batch b @ concat (map added cs)"
proof (induction cs arbitrary: b)
  case (Cons c cs)
  show ?case
    using Cons.IH [of "snd (call_batcher c b)"] call_batcher_keeps [of c b]
    by (simp add: split_beta Let_def)
qed simp

definition conserved :: "'a async_batcher \<Rightarrow> bool" where
  "conserved b \<longleftrightarrow> concat (ab_delivered b) @ in_flight b @ ab_buffer b = ab_accepted b"

lemma async_step_conserves: "async_step b b' \<Longrightarrow> conserved b \<Longrightarrow> conserved b'"
  by (induction rule: async_step.induct)
    (auto simp: conserved_def async_add_def async_close_def run_step_def in_flight_def split: loop_pc.splits if_splits)

lemma ended_delivers_nothing:
  "async_step\<^sup>*\<^sup>* b b' \<Longrightarrow> ab_pc b = LoopEnded \<Longrightarrow> ab_pc b' = LoopEnded \<and> ab_delivered b' = ab_delivered b"
  by (induction rule: rtranclp_induct) (auto elim!: async_step.cases simp: async_add_def async_close_def run_step_def)

subsection \<open>Properties\<close>

text \<open>
  whatever the limits of a batcher and the times of the calls, any sequence of additions and flushes,
  partial or not, hands out every added item at most once and in the order of the additions, and what it
  did not hand out is still collected. A partial flush with a positive limit hands out at most that many,
  and as many as it can.
\<close>

theorem batcher_first_in_first_out:
  fixes ops :: "'a batch_call list" and b :: "'a batcher"
  shows "concat (fst (flushed_by ops (new_batcher count window now))) @ batch (snd (flushed_by ops (new_batcher count window now)))
     = concat (map added ops)
   \<and> length (fst (flush True t t' (b\<lparr>max_count := Some (int (Suc n))\<rparr>))) = min (Suc n) (length (batch b))"
proof -
  have "slice_end (min (1 + int n) (int (length xs))) xs = min (Suc n) (length xs)" for xs :: "'a list"
    by (auto simp: slice_end_def min_def)
  then show ?thesis
    using flushed_by_keeps [of ops "new_batcher count window now"]
    by (simp add: new_batcher_def flush_def unset_def Let_def)
qed

text \<open>
  C30: in every interleaving of additions, the flush loop and closing, the items the handler was given, those
  on the way to it and those in the buffer are, in this order, exactly the items that were accepted.
\<close>

theorem async_batcher_conserves:
  assumes "async_step\<^sup>*\<^sup>* new_async_batcher b"
  shows "concat (ab_delivered b) @ in_flight b @ ab_buffer b = ab_accepted b"
proof -
  have "conserved b"
    using assms
  proof induction
    case base
    show ?case by (simp add: conserved_def new_async_batcher_def in_flight_def)
  qed (rule async_step_conserves)
  then show ?thesis by (simp add: conserved_def)
qed

text \<open>One item is being handled while a second one is added and the batcher is closed.\<close>

definition closing_state :: "nat async_batcher" where
  "closing_state = \<lparr>ab_buffer = [2], ab_closed = True, ab_pc = LoopHandle [1], ab_accepted = [1, 2], ab_delivered = []\<rparr>"

lemma closing_reachable: "async_step\<^sup>*\<^sup>* new_async_batcher closing_state"
proof -
  let ?b1 = "new_async_batcher\<lparr>ab_pc := LoopWait\<rparr> :: nat async_batcher"
  let ?b2 = "snd (async_add 1 ?b1)"
  let ?b3 = "?b2\<lparr>ab_pc := LoopHandle [1], ab_buffer := []\<rparr>"
  have "async_step new_async_batcher ?b1" "async_step ?b2 ?b3"
    by (rule runs; simp add: run_step_def new_async_batcher_def async_add_def)+
  moreover have "async_step ?b1 ?b2" "async_step ?b3 (snd (async_add 2 ?b3))" by (rule adds)+
  moreover have "async_step (snd (async_add 2 ?b3)) (async_close (snd (async_add 2 ?b3)))" by (rule closes)
  moreover have "async_close (snd (async_add 2 ?b3)) = closing_state"
    by (simp add: async_close_def async_add_def new_async_batcher_def closing_state_def)
  ultimately show ?thesis by (metis (no_types, lifting) converse_rtranclp_into_rtranclp rtranclp.rtrancl_refl)
qed

lemma async_batcher_conserves_witness:
  "concat (ab_delivered closing_state) @ in_flight closing_state @ ab_buffer closing_state = [1, 2]"
  using async_batcher_conserves [OF closing_reachable] by (simp add: closing_state_def)

text \<open>
  \<open>close\<close> is documented to cause one last flush before the loop ends. But when it is called while the
  handler runs, the loop leaves at its next check: in a reachable state the loop has ended with an accepted
  item in the buffer, and in all states after it the handler is never called again.
\<close>

theorem closing_loses_items:
  "\<exists>b :: nat async_batcher. async_step\<^sup>*\<^sup>* new_async_batcher b \<and> ab_pc b = LoopEnded \<and> ab_closed b
    \<and> ab_accepted b = [1, 2] \<and> ab_buffer b = [2] \<and> {ab_delivered b' | b'. async_step\<^sup>*\<^sup>* b b'} = {[[1]]}"
proof -
  let ?b1 = "closing_state\<lparr>ab_delivered := [[1]], ab_pc := LoopCheck\<rparr>"
  let ?b2 = "?b1\<lparr>ab_pc := LoopEnded\<rparr>"
  have "async_step closing_state ?b1" "async_step ?b1 ?b2"
    by (rule runs; simp add: run_step_def closing_state_def)+
  then have reach: "async_step\<^sup>*\<^sup>* new_async_batcher ?b2"
    using closing_reachable by (meson rtranclp.rtrancl_into_rtrancl)
  have "{ab_delivered b' | b'. async_step\<^sup>*\<^sup>* ?b2 b'} = {[[1]]}"
    using ended_delivers_nothing [of ?b2] by (auto intro!: exI [of _ ?b2])
  with reach show ?thesis by (intro exI [of _ ?b2]) (simp add: closing_state_def)
qed

end
