(* ===== verification/Collections.thy ===== *)
theory Collections
  imports PyValue ApiResolution
begin

text \<open>
  The collection helpers of \<open>utils/collections.py\<close>: pages and chunks of lists, nested dictionaries that are
  read, written and merged along paths, and the small list and dictionary functions around them. The
  properties: following the tokens of \<open>get_page\<close> yields the chunks of the list, and what a merge fills in.
\<close>

subsection \<open>Equality of values\<close>

text \<open>\<open>==\<close> on values; dictionaries are equal when they have equal values under the same keys.\<close>

fun py_eq :: "pyval \<Rightarrow> pyval \<Rightarrow> bool" and list_eq :: "pyval list \<Rightarrow> pyval list \<Rightarrow> bool"
  and dict_within :: "(pyval \<times> pyval) list \<Rightarrow> (pyval \<times> pyval) list \<Rightarrow> bool" where
  "py_eq (PList vs) w = (case w of PList ws \<Rightarrow> list_eq vs ws | _ \<Rightarrow> False)"
| "py_eq (PDict d) w = (case w of PDict e \<Rightarrow> length d = length e \<and> dict_within d e | _ \<Rightarrow> False)"
| "py_eq v w = key_eq v w"
| "list_eq [] ws = (ws = [])"
| "list_eq (v # vs) ws = (case ws of [] \<Rightarrow> False | w # ws' \<Rightarrow> py_eq v w \<and> list_eq vs ws')"
| "dict_within [] e = True"
| "dict_within ((k, v) # d) e = ((case pdict_get e k of None \<Rightarrow> False | Some w \<Rightarrow> py_eq v w) \<and> dict_within d e)"

definition py_in :: "pyval \<Rightarrow> pyval list \<Rightarrow> bool" where
  "py_in v vs \<longleftrightarrow> list_ex (\<lambda>w. py_eq w v) vs"

subsection \<open>Pages and chunks\<close>

definition DEFAULT_PAGE_SIZE :: nat where "DEFAULT_PAGE_SIZE = 50"

text \<open>\<open>PaginatedList.get_page\<close>; \<open>index\<close> finds the first item that equals the one with the token.\<close>

definition index_of :: "'a \<Rightarrow> 'a list \<Rightarrow> nat" where
  "index_of x xs = length (takeWhile (\<lambda>y. y \<noteq> x) xs)"

definition get_page :: "('a \<Rightarrow> ustr) \<Rightarrow> ustr option \<Rightarrow> nat option \<Rightarrow> ('a \<Rightarrow> bool) option \<Rightarrow> 'a list \<Rightarrow> 'a list \<times> ustr option" where
  "get_page token next_token page_size keep items =
     (let result = (case keep of None \<Rightarrow> items | Some f \<Rightarrow> filter f items);
          size = (case page_size of None \<Rightarrow> DEFAULT_PAGE_SIZE | Some n \<Rightarrow> n)
      in if length result \<le> size \<and> next_token = None then (result, None)
         else let start = (case find (\<lambda>x. Some (token x) = next_token) result of None \<Rightarrow> 0 | Some x \<Rightarrow> index_of x result)
              in (take size (drop start result),
                  if start + size < length result then Some (token (result ! (start + size))) else None))"

definition iter_chunks :: "'a list \<Rightarrow> int \<Rightarrow> 'a list list result" where
  "iter_chunks items chunk_size =
     (if chunk_size = 0 then Inl ValueError
      else if chunk_size < 0 then Inr []
      else let n = nat chunk_size
           in Inr (map (\<lambda>k. take n (drop (k * n) items)) [0..<(length items + n - 1) div n]))"

text \<open>A client that follows the tokens.\<close>

fun all_pages :: "nat \<Rightarrow> ('a \<Rightarrow> ustr) \<Rightarrow> ustr option \<Rightarrow> nat option \<Rightarrow> ('a \<Rightarrow> bool) option \<Rightarrow> 'a list \<Rightarrow> 'a list list" where
  "all_pages 0 token next_token page_size keep items = []"
| "all_pages (Suc fuel) token next_token page_size keep items =
     (case get_page token next_token page_size keep items of
        (page, None) \<Rightarrow> [page]
      | (page, Some t) \<Rightarrow> page # all_pages fuel token (Some t) page_size keep items)"

subsection \<open>Paths\<close>

text \<open>
  A path is a list of names or a text split at its dots. A name of digits selects by number; \<open>$\<close> before a
  newline at the end of the text matches too, and \<open>int\<close> strips it.
\<close>

definition path_nodes :: "ustr + ustr list \<Rightarrow> ustr list" where
  "path_nodes path = (case path of Inl s \<Rightarrow> split_on 46 s | Inr nodes \<Rightarrow> nodes)"

definition path_key :: "ustr \<Rightarrow> pyval result" where
  "path_key node =
     (let digits = (if node \<noteq> [] \<and> last node = 10 then butlast node else node)
      in if digits \<noteq> [] \<and> list_all is_udigit digits then map_sum id PInt (int_of_str node) else Inr (PStr node))"

definition step_into :: "pyval \<Rightarrow> ustr \<Rightarrow> pyval result" where
  "step_into current node =
     (if node = cp ''$'' then Inr current
      else bind_r (path_key node) (\<lambda>key. case current of
             PDict d \<Rightarrow> Inr (case pdict_get d key of None \<Rightarrow> PNone | Some v \<Rightarrow> v)
           | PList xs \<Rightarrow>
               (case key of
                  PInt n \<Rightarrow> Inr (if n < int (length xs) then xs ! nat n else PNone)
                | _ \<Rightarrow> Inl TypeError)
           | _ \<Rightarrow> Inr PNone))"

definition get_safe :: "pyval \<Rightarrow> ustr + ustr list \<Rightarrow> pyval \<Rightarrow> pyval result" where
  "get_safe dictionary path default_value =
     (case dictionary of
        PDict (kv # kvs) \<Rightarrow>
          let nodes = path_nodes path in
          if nodes = [] \<or> hd nodes \<noteq> cp ''$'' then Inl AttributeError
          else bind_r (fold (\<lambda>node current. bind_r current (\<lambda>v. step_into v node)) nodes (Inr dictionary))
                 (\<lambda>v. Inr (if truthy v then v else default_value))
      | _ \<Rightarrow> Inr default_value)"

text \<open>
  The loop of \<open>set_safe_mutable\<close>, which keeps names of digits as they are. Below a value that is not a
  dictionary, the membership test, the assignment or the check of the type fails.
\<close>

fun set_nodes :: "ustr list \<Rightarrow> pyval \<Rightarrow> pyval \<Rightarrow> pyval result" where
  "set_nodes [] v current = Inr current"
| "set_nodes (node # nodes) v current =
     (if node = cp ''$'' then set_nodes nodes v current
      else case current of
             PDict d \<Rightarrow>
               if nodes = [] then Inr (PDict (pdict_set (PStr node) v d))
               else let child = (case pdict_get d (PStr node) of None \<Rightarrow> PDict [] | Some c \<Rightarrow> c)
                    in bind_r (set_nodes nodes v child) (\<lambda>child'. Inr (PDict (pdict_set (PStr node) child' d)))
           | PList xs \<Rightarrow> Inl (if nodes \<noteq> [] \<and> py_in (PStr node) xs then RuntimeError else TypeError)
           | PStr s \<Rightarrow> Inl (if nodes \<noteq> [] \<and> contains_sub node s then RuntimeError else TypeError)
           | _ \<Rightarrow> Inl TypeError)"

definition set_safe_mutable :: "pyval \<Rightarrow> ustr + ustr list \<Rightarrow> pyval \<Rightarrow> pyval result" where
  "set_safe_mutable dictionary path v =
     (case dictionary of
        PDict d \<Rightarrow> (let nodes = path_nodes path in if nodes = [] \<or> hd nodes \<noteq> cp ''$'' then Inl AttributeError else set_nodes nodes v dictionary)
      | _ \<Rightarrow> Inl AttributeError)"

fun pick_into :: "pyval \<Rightarrow> (ustr + ustr list) list \<Rightarrow> pyval \<Rightarrow> pyval result" where
  "pick_into dictionary [] acc = Inr acc"
| "pick_into dictionary (path # paths) acc =
     bind_r (get_safe dictionary path PNone) (\<lambda>v.
       if v = PNone then pick_into dictionary paths acc
       else bind_r (set_safe_mutable acc path v) (pick_into dictionary paths))"

definition pick_attributes :: "pyval \<Rightarrow> (ustr + ustr list) list \<Rightarrow> pyval result" where
  "pick_attributes dictionary paths = pick_into dictionary paths (PDict [])"

subsection \<open>Merging\<close>

text \<open>
  \<open>merge_recursive\<close> on the items of the source; the destination is a value, as it may turn out not to be
  a dictionary on the way down.
\<close>

fun merge_items :: "pyval list \<Rightarrow> bool \<Rightarrow> (pyval \<times> pyval) list \<Rightarrow> pyval \<Rightarrow> pyval result" where
  "merge_items none_values overwrite [] destination = Inr destination"
| "merge_items none_values overwrite ((key, PDict kvs) # rest) destination =
     (case destination of
        PDict d \<Rightarrow>
          bind_r (merge_items none_values overwrite kvs (case pdict_get d key of None \<Rightarrow> PDict [] | Some node \<Rightarrow> node)) (\<lambda>node.
            merge_items none_values overwrite rest (PDict (pdict_set key node d)))
      | _ \<Rightarrow> Inl AttributeError)"
| "merge_items none_values overwrite ((key, v) # rest) destination =
     (case destination of
        PDict d \<Rightarrow>
          merge_items none_values overwrite rest
            (if overwrite \<or> py_in (case pdict_get d key of None \<Rightarrow> PNone | Some w \<Rightarrow> w) none_values
             then PDict (pdict_set key v d) else destination)
      | PList xs \<Rightarrow>
          if \<not> overwrite then Inl AttributeError
          else (case num_key key of
                  None \<Rightarrow> Inl TypeError
                | Some n \<Rightarrow> (case key of PFloat w \<Rightarrow> Inl TypeError
                    | _ \<Rightarrow> if n < - int (length xs) \<or> int (length xs) \<le> n then Inl IndexError
                           else merge_items none_values overwrite rest (PList (xs[nat (n mod int (length xs)) := v]))))
      | _ \<Rightarrow> Inl (if overwrite then TypeError else AttributeError))"

definition merge_recursive :: "pyval \<Rightarrow> pyval \<Rightarrow> pyval list option \<Rightarrow> bool \<Rightarrow> pyval result" where
  "merge_recursive source destination none_values overwrite =
     bind_r (case source of PDict kvs \<Rightarrow> Inr kvs | _ \<Rightarrow> Inl AttributeError) (\<lambda>kvs.
       merge_items (case none_values of None \<Rightarrow> [PNone] | Some vs \<Rightarrow> vs) overwrite kvs destination)"

fun merge_dicts :: "pyval list \<Rightarrow> pyval option \<Rightarrow> (pyval \<times> pyval) list \<Rightarrow> pyval result" where
  "merge_dicts [] default_value result = Inr (PDict result)"
| "merge_dicts (d # ds) default_value result =
     (case (d, default_value) of
        (PNone, Some v) \<Rightarrow> Inr v
      | _ \<Rightarrow> if truthy d then bind_r (pdict_update result d) (merge_dicts ds default_value)
             else merge_dicts ds default_value result)"

subsection \<open>Dictionaries and lists\<close>

definition select_attributes :: "(pyval \<times> pyval) list \<Rightarrow> pyval list \<Rightarrow> (pyval \<times> pyval) list" where
  "select_attributes obj attributes = filter (\<lambda>(k, v). py_in k attributes) obj"

definition remove_attributes :: "(pyval \<times> pyval) list \<Rightarrow> pyval list \<Rightarrow> (pyval \<times> pyval) list" where
  "remove_attributes obj attributes = fold (\<lambda>a d. filter (\<lambda>(k, v). \<not> key_eq k a) d) attributes obj"

definition rename_attributes :: "(pyval \<times> pyval) list \<Rightarrow> (pyval \<times> pyval) list \<Rightarrow> (pyval \<times> pyval) list" where
  "rename_attributes obj old_to_new =
     fold (\<lambda>(old_name, new_name) d. case pdict_get d old_name of
         None \<Rightarrow> d
       | Some v \<Rightarrow> pdict_set new_name v (filter (\<lambda>(k, v). \<not> key_eq k old_name) d)) old_to_new obj"

definition ensure_list :: "pyval \<Rightarrow> bool \<Rightarrow> pyval" where
  "ensure_list obj wrap_none =
     (case obj of PNone \<Rightarrow> if wrap_none then PList [PNone] else PNone | PList vs \<Rightarrow> PList vs | _ \<Rightarrow> PList [obj])"

definition remove_none_values_from_dict :: "(pyval \<times> pyval) list \<Rightarrow> (pyval \<times> pyval) list" where
  "remove_none_values_from_dict d = filter (\<lambda>(k, v). v \<noteq> PNone) d"

definition is_sub_dict :: "(pyval \<times> pyval) list \<Rightarrow> (pyval \<times> pyval) list \<Rightarrow> bool" where
  "is_sub_dict child parent \<longleftrightarrow> list_all (\<lambda>(k, v). py_eq (case pdict_get parent k of None \<Rightarrow> PNone | Some w \<Rightarrow> w) v) child"

text \<open>\<open>same\<close> is the comparator, or equality without one.\<close>

definition to_unique_items_list :: "('a \<Rightarrow> 'a \<Rightarrow> bool) \<Rightarrow> 'a list \<Rightarrow> 'a list" where
  "to_unique_items_list same inputs = fold (\<lambda>it result. if list_ex (same it) result then result else result @ [it]) inputs []"

definition items_equivalent :: "'a list \<Rightarrow> 'b list \<Rightarrow> ('a \<Rightarrow> 'b \<Rightarrow> bool) \<Rightarrow> bool" where
  "items_equivalent list1 list2 comparator \<longleftrightarrow> length list1 = length list2 \<and> list_all (\<lambda>x. list_ex (comparator x) list2) list1"

definition last_index_of :: "'a list \<Rightarrow> ('a \<Rightarrow> bool) \<Rightarrow> int" where
  "last_index_of array hit =
     (case filter (\<lambda>i. hit (array ! i)) (rev [0..<length array]) of [] \<Rightarrow> - 1 | i # _ \<Rightarrow> int i)"

definition is_none_or_empty :: "pyval \<Rightarrow> bool" where
  "is_none_or_empty obj =
     (case obj of
        PNone \<Rightarrow> True
      | PStr s \<Rightarrow> ustr_strip s = []
      | PBytes b \<Rightarrow> b = []
      | PList vs \<Rightarrow> vs = []
      | PDict d \<Rightarrow> d = []
      | PElem x \<Rightarrow> xml_children x = []
      | _ \<Rightarrow> False)"

fun multi_pairs :: "pyval list \<Rightarrow> (pyval \<times> pyval list) list \<Rightarrow> (pyval \<times> pyval list) list result" where
  "multi_pairs [] result = Inr result"
| "multi_pairs (p # ps) result =
     bind_r (py_iter p) (\<lambda>xs. case xs of
        [key, v] \<Rightarrow>
          if hashable key
          then multi_pairs ps (if list_ex (\<lambda>(k, _). key_eq k key) result
                               then map (\<lambda>(k, vs). (k, if key_eq k key then vs @ [v] else vs)) result
                               else result @ [(key, [v])])
          else Inl TypeError
      | _ \<Rightarrow> Inl ValueError)"

definition dict_multi_values :: "pyval \<Rightarrow> (pyval \<times> pyval list) list result" where
  "dict_multi_values elements =
     (case elements of
        PDict d \<Rightarrow> Inr (map (\<lambda>(k, v). (k, case v of PList vs \<Rightarrow> vs | _ \<Rightarrow> [v])) d)
      | PList [] \<Rightarrow> Inl IndexError
      | PList (x # xs) \<Rightarrow>
          (case x of PList _ \<Rightarrow> multi_pairs (x # xs) [] | _ \<Rightarrow> if hashable x then Inr [(x, xs)] else Inl TypeError)
      | _ \<Rightarrow> Inr [])"

text \<open>\<open>is_comma_delimited_list\<close> with the default pattern of an item; \<open>word\<close> says which characters \<open>\w\<close> matches.\<close>

definition is_comma_delimited_list :: "(nat \<Rightarrow> bool) \<Rightarrow> ustr \<Rightarrow> bool" where
  "is_comma_delimited_list word text \<longleftrightarrow>
     list_all (\<lambda>item. ustr_strip item \<noteq> [] \<and> list_all (\<lambda>c. word c \<or> c = 45) (ustr_strip item)) (split_on 44 text)"

definition split_list_by :: "'a list \<Rightarrow> ('a \<Rightarrow> bool) \<Rightarrow> 'a list \<times> 'a list" where
  "split_list_by lst predicate =
     fold (\<lambda>item (truthy, falsy). if predicate item then (truthy @ [item], falsy) else (truthy, falsy @ [item])) lst ([], [])"

definition optional_list :: "bool \<Rightarrow> 'a list \<Rightarrow> 'a list" where
  "optional_list condition items = filter (\<lambda>_. condition) items"

subsection \<open>Lemmas: pages\<close>

definition chunks_from :: "nat \<Rightarrow> 'a list \<Rightarrow> nat \<Rightarrow> 'a list list" where
  "chunks_from n xs i = map (\<lambda>k. take n (drop (i + k * n) xs)) [0..<(length xs - i + n - 1) div n]"

lemma chunks_from_step:
  assumes "0 < n" "i + n < length xs"
  shows "chunks_from n xs i = take n (drop i xs) # chunks_from n xs (i + n)"
proof -
  obtain m where m: "length xs = i + n + m" "0 < m" using assms(2) by (metis add_diff_cancel_left' less_imp_add_positive)
  have "n \<noteq> 0" using assms(1) by simp
  from div_add_self2 [OF this, of "m + n - 1"] have "(m + n - 1 + n) div n = Suc ((m + n - 1) div n)" unfolding Suc_eq_plus1 .
  moreover have "length xs - i + n - 1 = m + n - 1 + n" "length xs - (i + n) + n - 1 = m + n - 1" using m by simp_all
  ultimately have "(length xs - i + n - 1) div n = Suc ((length xs - (i + n) + n - 1) div n)" by metis
  then show ?thesis by (simp add: chunks_from_def upt_conv_Cons map_Suc_upt [symmetric] comp_def algebra_simps del: upt_Suc)
qed

lemma chunks_from_last:
  assumes "i < length xs" "length xs \<le> i + n"
  shows "chunks_from n xs i = [drop i xs]"
proof -
  have "(length xs - i + n - 1) div n = 1"
    by (rule div_nat_eqI) (use assms in auto)
  then show ?thesis using assms by (simp add: chunks_from_def)
qed

lemma concat_chunks: "0 < n \<Longrightarrow> i < length xs \<Longrightarrow> concat (chunks_from n xs i) = drop i xs"
proof (induction "length xs - i" arbitrary: i rule: less_induct)
  case less
  show ?case
  proof (cases "i + n < length xs")
    case True
    then have "concat (chunks_from n xs (i + n)) = drop (i + n) xs" using less by (intro less.hyps) auto
    then show ?thesis using True less.prems by (simp add: chunks_from_step) (metis append_take_drop_id drop_drop add.commute)
  next
    case False
    then show ?thesis using less.prems by (simp add: chunks_from_last)
  qed
qed

lemma index_of_nth: "distinct xs \<Longrightarrow> i < length xs \<Longrightarrow> index_of (xs ! i) xs = i"
  unfolding index_of_def
proof (induction xs arbitrary: i)
  case (Cons x xs)
  then show ?case by (cases i) (auto simp: nth_mem)
qed simp

lemma find_token:
  assumes "inj_on token (set xs)" "x \<in> set xs"
  shows "find (\<lambda>y. Some (token y) = Some (token x)) xs = Some x"
  using assms by (induction xs) (auto simp: inj_on_def)

lemma get_page_at:
  assumes "distinct (filter f items)" "inj_on token (set (filter f items))" "i < length (filter f items)"
  shows "get_page token (Some (token (filter f items ! i))) (Some n) (Some f) items
    = (take n (drop i (filter f items)), if i + n < length (filter f items) then Some (token (filter f items ! (i + n))) else None)"
  using find_token [OF assms(2) nth_mem [OF assms(3)]] index_of_nth [OF assms(1,3)]
  by (simp add: get_page_def Let_def)

lemma pages_from:
  assumes "distinct (filter f items)" "inj_on token (set (filter f items))" "0 < n"
  shows "i < length (filter f items) \<Longrightarrow> length (filter f items) - i \<le> fuel \<Longrightarrow>
    all_pages fuel token (Some (token (filter f items ! i))) (Some n) (Some f) items = chunks_from n (filter f items) i"
proof (induction fuel arbitrary: i)
  case (Suc fuel)
  let ?xs = "filter f items"
  show ?case
  proof (cases "i + n < length ?xs")
    case True
    have "all_pages fuel token (Some (token (?xs ! (i + n)))) (Some n) (Some f) items = chunks_from n ?xs (i + n)"
      by (rule Suc.IH) (use True Suc.prems assms(3) in auto)
    then show ?thesis using True assms(3) by (simp add: get_page_at [OF assms(1,2) Suc.prems(1)] chunks_from_step)
  next
    case False
    then show ?thesis using Suc.prems(1) by (simp add: get_page_at [OF assms(1,2) Suc.prems(1)] chunks_from_last)
  qed
qed simp

lemma iter_chunks_from: "0 < n \<Longrightarrow> iter_chunks xs (int n) = Inr (chunks_from n xs 0)"
  by (simp add: iter_chunks_def chunks_from_def)

subsection \<open>Lemmas: dictionaries\<close>

lemma key_eq_sym: "key_eq a b \<longleftrightarrow> key_eq b a"
  by (auto simp: key_eq_def split: option.splits pyval.splits)

lemma key_eq_trans: "key_eq a b \<Longrightarrow> key_eq b c \<Longrightarrow> key_eq a c"
  by (auto simp: key_eq_def split: option.splits)

lemma key_eq_cong: "key_eq a b \<Longrightarrow> key_eq a c \<longleftrightarrow> key_eq b c"
  using key_eq_sym key_eq_trans by blast

lemma pdict_get_set: "pdict_get (pdict_set k v d) k' = (if key_eq k k' then Some v else pdict_get d k')"
proof (induction d)
  case (Cons kv d)
  obtain k0 v0 where kv: "kv = (k0, v0)" by (cases kv)
  show ?case
  proof (cases "key_eq k0 k")
    case True
    then have "key_eq k0 k' \<longleftrightarrow> key_eq k k'" by (rule key_eq_cong)
    then show ?thesis using True kv by simp
  next
    case False
    then have "\<not> (key_eq k0 k' \<and> key_eq k k')" using key_eq_sym key_eq_trans by blast
    then show ?thesis using False kv Cons.IH by auto
  qed
qed simp

lemma pdict_get_cong: "key_eq k k' \<Longrightarrow> pdict_get d k = pdict_get d k'"
proof (induction d)
  case (Cons kv d)
  obtain k0 v0 where kv: "kv = (k0, v0)" by (cases kv)
  have "key_eq k0 k \<longleftrightarrow> key_eq k0 k'" using Cons.prems key_eq_cong key_eq_sym by blast
  then show ?case using kv Cons by simp
qed simp

subsection \<open>Lemmas: merging\<close>

text \<open>The value at a path of keys.\<close>

fun lookup_path :: "pyval list \<Rightarrow> pyval \<Rightarrow> pyval option" where
  "lookup_path [] v = Some v"
| "lookup_path (k # ks) v =
     (case v of PDict d \<Rightarrow> (case pdict_get d k of None \<Rightarrow> None | Some w \<Rightarrow> lookup_path ks w) | _ \<Rightarrow> None)"

definition is_dict :: "pyval \<Rightarrow> bool" where
  "is_dict v \<longleftrightarrow> (\<exists>d. v = PDict d)"

text \<open>A dictionary has each of its keys once, and so do the dictionaries in it.\<close>

fun proper_dict :: "(pyval \<times> pyval) list \<Rightarrow> bool" where
  "proper_dict [] = True"
| "proper_dict ((k, PDict kvs) # d) = (list_all (\<lambda>(k', v). \<not> key_eq k k') d \<and> proper_dict kvs \<and> proper_dict d)"
| "proper_dict ((k, v) # d) = (list_all (\<lambda>(k', v). \<not> key_eq k k') d \<and> proper_dict d)"

lemma proper_dict_ConsD: "proper_dict ((k, v) # d) \<Longrightarrow> list_all (\<lambda>(k', v). \<not> key_eq k k') d \<and> proper_dict d"
  by (cases v) simp_all

lemma pdict_get_absent: "list_all (\<lambda>(k', v). \<not> key_eq k k') d \<Longrightarrow> key_eq k k' \<Longrightarrow> pdict_get d k' = None"
  by (induction d) (auto dest: key_eq_sym [THEN iffD1] key_eq_trans, metis key_eq_sym key_eq_trans)

lemma key_eq_None [simp]: "key_eq PNone w \<longleftrightarrow> w = PNone"
  by (auto simp: key_eq_def split: option.splits)

text \<open>One item of the source, and the rest.\<close>

lemma merge_items_value:
  "\<not> is_dict v \<Longrightarrow> merge_items [PNone] False ((k, v) # kvs) (PDict d) = merge_items [PNone] False kvs
     (if (case pdict_get d k of None \<Rightarrow> PNone | Some w \<Rightarrow> w) = PNone then PDict (pdict_set k v d) else PDict d)"
  by (cases v) (auto simp: is_dict_def py_in_def)

lemma merge_items_not_dict: "\<not> is_dict dest \<Longrightarrow> merge_items nv False kvs dest = Inr r \<Longrightarrow> kvs = [] \<and> r = dest"
proof (cases kvs)
  case (Cons kv rest)
  assume a: "\<not> is_dict dest" "merge_items nv False kvs dest = Inr r"
  obtain k v where "kv = (k, v)" by (cases kv)
  with a Cons show ?thesis by (cases v; cases dest) (auto simp: is_dict_def)
qed simp

lemma merge_items_dict: "merge_items nv False kvs (PDict d) = Inr r \<Longrightarrow> is_dict r"
proof (induction kvs arbitrary: d)
  case (Cons kv kvs)
  obtain k v where "kv = (k, v)" by (cases kv)
  with Cons show ?case by (cases v) (auto simp: bind_r_eq_Inr split: if_splits)
qed (auto simp: is_dict_def)

lemma merge_items_frame:
  "merge_items nv False kvs (PDict d) = Inr (PDict d') \<Longrightarrow> list_all (\<lambda>(k', v). \<not> key_eq k k') kvs \<Longrightarrow> pdict_get d' k = pdict_get d k"
proof (induction kvs arbitrary: d)
  case (Cons kv kvs)
  obtain k' v where kv: "kv = (k', v)" by (cases kv)
  then have "\<not> key_eq k' k" using Cons.prems(2) key_eq_sym by auto
  with Cons kv show ?case
    by (cases v) (auto simp: bind_r_eq_Inr pdict_get_set split: if_splits)
qed simp

text \<open>Induction over a merge: the destination is arbitrary, and none of its cases but a dictionary goes on.\<close>

lemma merge_induct:
  assumes "\<And>dest. P [] dest" and "\<And>kvs dest. \<not> is_dict dest \<Longrightarrow> P kvs dest"
    and "\<And>key kvs rest d. (\<And>dest. P kvs dest) \<Longrightarrow> (\<And>dest. P rest dest) \<Longrightarrow> P ((key, PDict kvs) # rest) (PDict d)"
    and "\<And>key v rest d. \<not> is_dict v \<Longrightarrow> (\<And>dest. P rest dest) \<Longrightarrow> P ((key, v) # rest) (PDict d)"
  shows "P kvs dest"
proof (induction "size (PDict kvs)" arbitrary: kvs dest rule: less_induct)
  case (less kvs dest)
  show ?case
  proof (cases kvs)
    case (Cons kv rest)
    obtain key v where kv: "kv = (key, v)" by (cases kv)
    have rest: "P rest dest'" for dest' by (rule less) (simp add: Cons)
    show ?thesis
    proof (cases "is_dict dest")
      case True
      then obtain d where d: "dest = PDict d" by (auto simp: is_dict_def)
      show ?thesis
      proof (cases "is_dict v")
        case True
        then obtain kvs' where v: "v = PDict kvs'" by (auto simp: is_dict_def)
        have "P kvs' dest'" for dest' by (rule less) (simp add: Cons kv v)
        from this rest show ?thesis unfolding Cons kv v d by (rule assms(3))
      next
        case False
        then show ?thesis unfolding Cons kv d using rest by (rule assms(4))
      qed
    qed (rule assms(2))
  qed (use assms(1) in simp)
qed

text \<open>A value other than None stays where it is.\<close>

lemma merge_keeps:
  "merge_items [PNone] False kvs dest = Inr r \<Longrightarrow> lookup_path p dest = Some w \<Longrightarrow> \<not> is_dict w \<Longrightarrow> w \<noteq> PNone \<Longrightarrow> lookup_path p r = Some w"
proof (induction kvs dest arbitrary: p r rule: merge_induct)
  case (3 key kvs rest d)
  obtain node where node: "merge_items [PNone] False kvs (case pdict_get d key of None \<Rightarrow> PDict [] | Some node \<Rightarrow> node) = Inr node"
      and rest: "merge_items [PNone] False rest (PDict (pdict_set key node d)) = Inr r"
    using "3.prems"(1) by (auto simp: bind_r_eq_Inr)
  obtain k ks where p: "p = k # ks" using "3.prems"(2,3) by (cases p) (auto simp: is_dict_def)
  obtain c where c: "pdict_get d k = Some c" "lookup_path ks c = Some w" using "3.prems"(2) p by (auto split: option.splits)
  have "lookup_path p (PDict (pdict_set key node d)) = Some w"
  proof (cases "key_eq key k")
    case True
    then have "pdict_get d key = Some c" using c(1) pdict_get_cong by metis
    then have "lookup_path ks node = Some w" using "3.IH"(1) [of "case pdict_get d key of None \<Rightarrow> PDict [] | Some node \<Rightarrow> node"] node c(2) "3.prems"(3,4) by simp
    then show ?thesis using True p by (simp add: pdict_get_set)
  next
    case False
    then show ?thesis using c p by (simp add: pdict_get_set)
  qed
  then show ?case using "3.IH"(2) rest "3.prems"(3,4) by blast
next
  case (4 key v rest d)
  obtain k ks where p: "p = k # ks" using "4.prems"(2,3) by (cases p) (auto simp: is_dict_def)
  obtain c where c: "pdict_get d k = Some c" "lookup_path ks c = Some w" using "4.prems"(2) p by (auto split: option.splits)
  have "lookup_path p (if (case pdict_get d key of None \<Rightarrow> PNone | Some w \<Rightarrow> w) = PNone then PDict (pdict_set key v d) else PDict d) = Some w"
  proof (cases "key_eq key k")
    case True
    have "c \<noteq> PNone" using c(2) "4.prems"(4) by (cases ks) auto
    then show ?thesis using True c p pdict_get_cong [OF True, of d] by simp
  next
    case False
    then show ?thesis using c p by (simp add: pdict_get_set)
  qed
  then show ?case using "4.IH" "4.hyps" "4.prems"(1,3,4) by (metis merge_items_value)
qed (auto dest: merge_items_not_dict)

text \<open>Where the destination has nothing, or None, the value of the source is found.\<close>

lemma merge_fills:
  "merge_items [PNone] False kvs dest = Inr r \<Longrightarrow> proper_dict kvs \<Longrightarrow> is_dict dest \<Longrightarrow> lookup_path p (PDict kvs) = Some v \<Longrightarrow> \<not> is_dict v
    \<Longrightarrow> lookup_path p dest = None \<or> lookup_path p dest = Some PNone \<Longrightarrow> lookup_path p r = Some v"
proof (induction kvs dest arbitrary: p r rule: merge_induct)
  case (1 dest)
  then show ?case by (cases p) (auto simp: is_dict_def)
next
  case (3 key kvs rest d)
  let ?child = "case pdict_get d key of None \<Rightarrow> PDict [] | Some node \<Rightarrow> node"
  obtain node where node: "merge_items [PNone] False kvs ?child = Inr node"
      and rest: "merge_items [PNone] False rest (PDict (pdict_set key node d)) = Inr r"
    using "3.prems"(1) by (auto simp: bind_r_eq_Inr)
  obtain d' where r: "r = PDict d'" using merge_items_dict [OF rest] by (auto simp: is_dict_def)
  obtain k ks where p: "p = k # ks" using "3.prems"(4,5) by (cases p) (auto simp: is_dict_def)
  have proper: "list_all (\<lambda>(k', v). \<not> key_eq key k') rest" "proper_dict kvs" "proper_dict rest" using "3.prems"(2) by simp_all
  show ?case
  proof (cases "key_eq key k")
    case True
    have "list_all (\<lambda>(k', v). \<not> key_eq k k') rest"
      using proper(1) key_eq_cong [OF True] by (simp add: split_def)
    then have "pdict_get d' k = Some node" using merge_items_frame rest r True by (metis pdict_get_set)
    moreover have "lookup_path ks node = Some v"
    proof (cases "is_dict ?child")
      case True
      have "lookup_path ks ?child = None \<or> lookup_path ks ?child = Some PNone"
      proof (cases "pdict_get d key")
        case None
        then show ?thesis using "3.prems"(4,5) \<open>key_eq key k\<close> p by (cases ks) (auto simp: is_dict_def)
      next
        case (Some c)
        then show ?thesis using "3.prems"(6) p pdict_get_cong [OF \<open>key_eq key k\<close>, of d] by simp
      qed
      then show ?thesis using "3.IH"(1) [OF node proper(2) True] "3.prems"(4,5) \<open>key_eq key k\<close> p by simp
    next
      case False
      then have "kvs = []" using merge_items_not_dict node by blast
      then show ?thesis using "3.prems"(4,5) \<open>key_eq key k\<close> p by (cases ks) (auto simp: is_dict_def)
    qed
    ultimately show ?thesis using r p by simp
  next
    case False
    then show ?thesis using "3.IH"(2) [OF rest proper(3), of "k # ks"] "3.prems"(4-6) p by (simp add: is_dict_def pdict_get_set)
  qed
next
  case (4 key w rest d)
  let ?d = "if (case pdict_get d key of None \<Rightarrow> PNone | Some w \<Rightarrow> w) = PNone then pdict_set key w d else d"
  have rest: "merge_items [PNone] False rest (PDict ?d) = Inr r"
    using "4.prems"(1) merge_items_value [OF "4.hyps"(1), of key rest d] by (simp split: if_splits)
  obtain d' where r: "r = PDict d'" using merge_items_dict [OF rest] by (auto simp: is_dict_def)
  obtain k ks where p: "p = k # ks" using "4.prems"(4,5) by (cases p) (auto simp: is_dict_def)
  have proper: "list_all (\<lambda>(k', v). \<not> key_eq key k') rest" "proper_dict rest" using proper_dict_ConsD "4.prems"(2) by blast+
  show ?case
  proof (cases "key_eq key k")
    case True
    have "list_all (\<lambda>(k', v). \<not> key_eq k k') rest"
      using proper(1) key_eq_cong [OF True] by (simp add: split_def)
    then have get: "pdict_get d' k = pdict_get ?d k" using merge_items_frame rest r by blast
    have "ks = []" "w = v" using "4.prems"(4) "4.hyps"(1) True p by (cases ks; cases w; auto simp: is_dict_def)+
    then show ?thesis using "4.prems"(6) True p get r pdict_get_cong [OF True, of d] by (auto simp: pdict_get_set split: option.splits)
  next
    case False
    then show ?thesis using "4.IH" [OF rest proper(2), of "k # ks"] "4.prems"(4-6) p by (simp add: is_dict_def pdict_get_set)
  qed
qed simp

subsection \<open>Properties\<close>

text \<open>
  C31: a client that asks for pages of a positive size and follows the tokens gets, when the tokens tell the
  items apart, every item that passes the filter exactly once and in order, in the same portions that
  \<open>iter_chunks\<close> makes; one request per item is enough to reach the last page.
\<close>

theorem pages_are_chunks:
  assumes "distinct (filter f items)" "inj_on token (set (filter f items))" "0 < n"
  shows "concat (all_pages (Suc (length items)) token None (Some n) (Some f) items) = filter f items
    \<and> iter_chunks (filter f items) (int n) = Inr (if filter f items = [] then []
        else all_pages (Suc (length items)) token None (Some n) (Some f) items)"
proof -
  let ?xs = "filter f items"
  have pages: "all_pages (Suc (length items)) token None (Some n) (Some f) items = (if ?xs = [] then [[]] else chunks_from n ?xs 0)"
  proof (cases "length ?xs \<le> n")
    case True
    then show ?thesis using assms(3) by (cases "?xs = []") (simp_all add: get_page_def chunks_from_last)
  next
    case False
    have "all_pages (length items) token (Some (token (?xs ! n))) (Some n) (Some f) items = chunks_from n ?xs n"
      by (rule pages_from [OF assms]) (use False in \<open>simp_all add: le_diff_conv trans_le_add1 length_filter_le\<close>)
    moreover have "find (\<lambda>x. False) ?xs = None" by (simp add: find_None_iff)
    ultimately show ?thesis using False assms(3) chunks_from_step [of n 0 ?xs] by (auto simp: get_page_def Let_def)
  qed
  show ?thesis
  proof (cases "?xs = []")
    case False
    then show ?thesis using pages concat_chunks [OF assms(3), of 0 ?xs] iter_chunks_from [OF assms(3), of ?xs] by simp
  next
    case True
    then show ?thesis using pages assms(3) by (simp add: iter_chunks_def)
  qed
qed

lemma pages_are_chunks_witness:
  "iter_chunks [1, 2, 3 :: nat] 2 = Inr (all_pages (Suc (length [1, 2, 3 :: nat])) (\<lambda>x. [x]) None (Some 2) (Some (\<lambda>x. x \<noteq> 9)) [1, 2, 3])"
proof -
  have "distinct (filter (\<lambda>x. x \<noteq> 9) [1, 2, 3 :: nat])" "inj_on (\<lambda>x. [x]) (set (filter (\<lambda>x. x \<noteq> 9) [1, 2, 3 :: nat]))" "0 < (2 :: nat)"
    by (simp_all add: inj_on_def)
  from pages_are_chunks [OF this, THEN conjunct2] show ?thesis by (simp del: all_pages.simps)
qed

text \<open>
  a merge without overwriting fills in exactly what is missing, at any depth: below every path, a value
  of the destination that is neither None nor a dictionary stays, and where the destination has nothing or
  None, the value of the source is found afterwards.
\<close>

theorem merge_fills_gaps:
  assumes "merge_recursive (PDict source) (PDict d) None False = Inr r" "proper_dict source"
    and "\<not> is_dict v"
  shows "(lookup_path p (PDict d) = Some v \<and> v \<noteq> PNone \<longrightarrow> lookup_path p r = Some v)
    \<and> (lookup_path p (PDict source) = Some v \<and> lookup_path p (PDict d) \<in> {None, Some PNone} \<longrightarrow> lookup_path p r = Some v)"
proof -
  have m: "merge_items [PNone] False source (PDict d) = Inr r" using assms(1) by (simp add: merge_recursive_def)
  show ?thesis
    using merge_keeps [OF m, of p v] merge_fills [OF m assms(2) _ _ assms(3), of p] assms(3) by (simp add: is_dict_def)
qed

lemma merge_fills_gaps_witness:
  "\<exists>r. merge_recursive (str_dict [(cp ''a'', str_dict [(cp ''b'', PInt 1), (cp ''c'', PInt 2)])]) (str_dict [(cp ''a'', str_dict [(cp ''b'', PInt 7)])]) None False = Inr r
    \<and> lookup_path [PStr (cp ''a''), PStr (cp ''b'')] r = Some (PInt 7) \<and> lookup_path [PStr (cp ''a''), PStr (cp ''c'')] r = Some (PInt 2)"
proof -
  let ?s = "[(PStr (cp ''a''), str_dict [(cp ''b'', PInt 1), (cp ''c'', PInt 2)])]" and ?d = "[(PStr (cp ''a''), str_dict [(cp ''b'', PInt 7)])]"
  obtain r where r: "merge_recursive (PDict ?s) (PDict ?d) None False = Inr r"
    by (simp add: merge_recursive_def str_dict_def py_in_def)
  have proper: "proper_dict ?s" by (simp add: str_dict_def)
  have leaf: "\<not> is_dict (PInt 7)" "\<not> is_dict (PInt 2)" by (simp_all add: is_dict_def)
  have "lookup_path [PStr (cp ''a''), PStr (cp ''b'')] r = Some (PInt 7)"
    using merge_fills_gaps [OF r proper leaf(1), of "[PStr (cp ''a''), PStr (cp ''b'')]"] by (simp add: str_dict_def)
  moreover have "lookup_path [PStr (cp ''a''), PStr (cp ''c'')] r = Some (PInt 2)"
    using merge_fills_gaps [OF r proper leaf(2), of "[PStr (cp ''a''), PStr (cp ''c'')]"] by (simp add: str_dict_def)
  ultimately show ?thesis using r by (auto simp: str_dict_def)
qed

text \<open>A token that no item has, for example of a deleted item, starts again with the first page.\<close>

lemma unknown_token_restarts:
  "(\<And>x. x \<in> set items \<Longrightarrow> token x \<noteq> t) \<Longrightarrow> n < length items \<Longrightarrow>
   get_page token (Some t) (Some n) None items = get_page token None (Some n) None items"
proof -
  assume a: "\<And>x. x \<in> set items \<Longrightarrow> token x \<noteq> t" and n: "n < length items"
  have "find (\<lambda>x. Some (token x) = Some t) items = None" "find (\<lambda>x. Some (token x) = None) items = None"
    using a by (auto simp: find_None_iff)
  then show ?thesis using n by (simp add: get_page_def Let_def)
qed

end
