(* ===== verification/Cors.thy ===== *)
theory Cors
  imports ServiceRouter Accounts
begin

text \<open>
  The CORS handlers of \<open>aws/handlers/cors.py\<close>: which origins may call, how the request handler
  blocks the others and answers preflights, and the headers the response handler adds. Header
  collections are lists of pairs with case-insensitive names; what a handler does to the chain is its
  result. The patterns for dynamic origins are matched as \<open>re\<close> does, without an end anchor; the first
  part proves what they accept.
\<close>

subsection \<open>Configuration\<close>

text \<open>
  The variables of \<open>localstack.config\<close> the handlers read: the ports of \<open>GATEWAY_LISTEN\<close>, the host of
  \<open>LOCALSTACK_HOST\<close>, the comma separated extras and the switches.
\<close>

record cors_config =
  cc_listen_ports :: "nat list"
  cc_localstack_host :: string
  cc_extra_origins :: string
  cc_extra_allowed_headers :: string
  cc_extra_expose_headers :: string
  cc_disable_checks :: bool
  cc_disable_headers :: bool
  cc_disable_preflight :: bool
  cc_disable_custom_s3 :: bool
  cc_disable_custom_apigateway :: bool

definition LOCALHOST :: string where "LOCALHOST = ''localhost''"

definition LOCALHOST_HOSTNAME :: string where "LOCALHOST_HOSTNAME = ''localhost.localstack.cloud''"

definition PATH_USER_REQUEST :: string where "PATH_USER_REQUEST = ''_user_request_''"

definition CORS_ALLOWED_HEADERS :: "cors_config \<Rightarrow> string list" where
  "CORS_ALLOWED_HEADERS c =
     [''authorization'', ''cache-control'', ''content-length'', ''content-md5'', ''content-type'', ''etag'', ''location'',
      ''x-amz-acl'', ''x-amz-content-sha256'', ''x-amz-date'', ''x-amz-request-id'', ''x-amz-security-token'',
      ''x-amz-tagging'', ''x-amz-target'', ''x-amz-user-agent'', ''x-amz-version-id'', ''x-amzn-requestid'',
      ''x-localstack-target'', ''amz-sdk-invocation-id'', ''amz-sdk-request'', ''x-amz-log-type'']
     @ (if cc_extra_allowed_headers c = [] then [] else split_on (CHR '','') (cc_extra_allowed_headers c))"

definition CORS_ALLOWED_METHODS :: "string list" where
  "CORS_ALLOWED_METHODS = [''HEAD'', ''GET'', ''PUT'', ''POST'', ''DELETE'', ''OPTIONS'', ''PATCH'']"

definition CORS_EXPOSE_HEADERS :: "cors_config \<Rightarrow> string list" where
  "CORS_EXPOSE_HEADERS c =
     [''etag'', ''x-amz-version-id'', ''x-amz-log-result'', ''x-amz-executed-version'', ''x-amz-function-error'']
     @ (if cc_extra_expose_headers c = [] then [] else split_on (CHR '','') (cc_extra_expose_headers c))"

definition ALLOWED_CORS_RESPONSE_HEADERS :: "string list" where
  "ALLOWED_CORS_RESPONSE_HEADERS =
     [''Access-Control-Allow-Origin'', ''Access-Control-Allow-Methods'', ''Access-Control-Allow-Headers'',
      ''Access-Control-Max-Age'', ''Access-Control-Allow-Credentials'', ''Access-Control-Expose-Headers'']"

definition allowed_internal_domains :: "cors_config \<Rightarrow> string list" where
  "allowed_internal_domains c = [LOCALHOST, LOCALHOST_HOSTNAME, cc_localstack_host c]"

text \<open>The order of the two schemes is that of a set; only membership is read.\<close>

definition allowed_cors_origins :: "cors_config \<Rightarrow> string list" where
  "allowed_cors_origins c =
     [''https://app.localstack.cloud'', ''http://app.localstack.cloud'', ''https://localhost'',
      ''https://localhost.localstack.cloud'', ''file://'']
     @ concat (map (\<lambda>scheme. concat (map (\<lambda>port.
           [scheme @ ''://'' @ LOCALHOST @ '':'' @ dec_digits port, scheme @ ''://'' @ LOCALHOST_HOSTNAME @ '':'' @ dec_digits port])
         (cc_listen_ports c))) [''http'', ''https''])
     @ filter (\<lambda>x. x \<noteq> []) (map strip (split_on (CHR '','') (cc_extra_origins c)))"

subsection \<open>Dynamic origins\<close>

text \<open>
  The pattern \<open>(.*)SEP(.[^:]*)(:[0-9]{2,5})?\<close> at the start of a string. \<open>.\<close> is any character but a line
  break, so the greedy first group ends before the last \<open>SEP\<close> that is followed by such a character and
  has no line break before it. The groups after it never fail.
\<close>

abbreviation line_break :: char where
  "line_break \<equiv> CHR 0x0A"

fun splits_at :: "string \<Rightarrow> string \<Rightarrow> (string \<times> string) list" where
  "splits_at sep [] = (if sep = [] then [([], [])] else [])"
| "splits_at sep (c # s) =
     (if starts_with sep (c # s) then [([], drop (length sep) (c # s))] else [])
     @ map (\<lambda>(p, r). (c # p, r)) (splits_at sep s)"

definition port_group :: "string \<Rightarrow> string option" where
  "port_group rest =
     (case rest of
        [] \<Rightarrow> None
      | c # t \<Rightarrow>
          let ds = take 5 (takeWhile is_digit t)
          in if c = CHR '':'' \<and> 2 \<le> length ds then Some ds else None)"

definition dynamic_match :: "string \<Rightarrow> string \<Rightarrow> (string \<times> string option) option" where
  "dynamic_match sep s =
     (case filter (\<lambda>(p, r). line_break \<notin> set p \<and> r \<noteq> [] \<and> hd r \<noteq> line_break) (rev (splits_at sep s)) of
        [] \<Rightarrow> None
      | (p, r) # _ \<Rightarrow>
          Some (hd r # takeWhile (\<lambda>c. c \<noteq> CHR '':'') (tl r), port_group (dropWhile (\<lambda>c. c \<noteq> CHR '':'') (tl r))))"

definition digits_value :: "string \<Rightarrow> nat" where
  "digits_value ds = foldl (\<lambda>n c. 10 * n + (of_char c - 48)) 0 ds"

definition dynamic_internal_origins :: "string list" where
  "dynamic_internal_origins = [''.s3-website.'', ''.cloudfront.'']"

definition dynamic_origin_allowed :: "cors_config \<Rightarrow> string \<Rightarrow> string \<Rightarrow> bool" where
  "dynamic_origin_allowed c s sep =
     (case dynamic_match sep s of
        None \<Rightarrow> False
      | Some (domain, port) \<Rightarrow>
          domain \<in> set (allowed_internal_domains c)
          \<and> (case port of None \<Rightarrow> True | Some ds \<Rightarrow> digits_value ds \<in> set (cc_listen_ports c)))"

definition is_in_allowed_origins :: "cors_config \<Rightarrow> string list \<Rightarrow> string \<Rightarrow> bool" where
  "is_in_allowed_origins c allowed_origins s =
     (list_ex (\<lambda>a. a = ''*'' \<or> s = a) allowed_origins \<or> list_ex (dynamic_origin_allowed c s) dynamic_internal_origins)"

subsection \<open>Headers\<close>

type_synonym headers = "(string \<times> string) list"

abbreviation hdr_get :: "headers \<Rightarrow> string \<Rightarrow> string option" where
  "hdr_get \<equiv> ci_get lower"

abbreviation hdr_set :: "string \<Rightarrow> string \<Rightarrow> headers \<Rightarrow> headers" where
  "hdr_set \<equiv> ci_set lower"

abbreviation set_default :: "string \<Rightarrow> string \<Rightarrow> headers \<Rightarrow> headers" where
  "set_default \<equiv> ci_default lower"

subsection \<open>The request handler\<close>

text \<open>What a handler does with the rest of the chain.\<close>

datatype chain_action = Continue | Stop | Terminate

definition is_execute_api_call :: "http_request \<Rightarrow> bool" where
  "is_execute_api_call rq =
     (contains_sub ''.execute-api.'' (hr_host rq)
      \<or> starts_with ''/restapis/'' (hr_path rq) \<and> contains_sub (''/'' @ PATH_USER_REQUEST) (hr_path rq)
      \<or> starts_with ''/_aws/execute-api'' (hr_path rq))"

text \<open>\<open>service\<close> is the name of the service in the context, if it is set already.\<close>

definition should_enforce_self_managed_service :: "cors_config \<Rightarrow> string option \<Rightarrow> http_request \<Rightarrow> bool" where
  "should_enforce_self_managed_service c service rq =
     (if \<not> cc_disable_custom_s3 c \<and> service = Some ''s3'' then False
      else if \<not> cc_disable_custom_apigateway c \<and> is_execute_api_call rq then False
      else True)"

text \<open>\<open>urlparse\<close> is the argument \<open>origin_of\<close>: scheme and network location of a URL, joined by \<open>://\<close>.\<close>

definition is_cors_origin_allowed :: "cors_config \<Rightarrow> (string \<Rightarrow> string) \<Rightarrow> headers \<Rightarrow> bool" where
  "is_cors_origin_allowed c origin_of hs =
     (let orig = hdr_get hs ''origin''; referer = hdr_get hs ''referer''
      in if present orig then is_in_allowed_origins c (allowed_cors_origins c) (the orig)
         else if present referer then is_in_allowed_origins c (allowed_cors_origins c) (origin_of (the referer))
         else True)"

definition cors_enforcer ::
    "cors_config \<Rightarrow> (string \<Rightarrow> string) \<Rightarrow> string option \<Rightarrow> string \<Rightarrow> http_request \<Rightarrow> int \<Rightarrow> int \<times> chain_action" where
  "cors_enforcer c origin_of service meth rq status =
     (if \<not> should_enforce_self_managed_service c service rq then (status, Continue)
      else if \<not> cc_disable_checks c \<and> \<not> is_cors_origin_allowed c origin_of (hr_headers rq) then (403, Terminate)
      else if meth = ''OPTIONS'' \<and> \<not> cc_disable_preflight c then (204, Stop)
      else (status, Continue))"

subsection \<open>The response handler\<close>

text \<open>\<open>re.split(r"[,\s]+", s)\<close> without the empty parts.\<close>

definition is_list_separator :: "char \<Rightarrow> bool" where
  "is_list_separator ch = (ch = CHR '','' \<or> is_space ch)"

fun header_list :: "string \<Rightarrow> string list" where
  "header_list [] = []"
| "header_list (ch # s) =
     (if is_list_separator ch then header_list s
      else if s = [] \<or> is_list_separator (hd s) then [ch] # header_list s
      else (case header_list s of [] \<Rightarrow> [[ch]] | w # ws \<Rightarrow> (ch # w) # ws))"

definition allow_headers_value :: "cors_config \<Rightarrow> headers \<Rightarrow> string" where
  "allow_headers_value c response_headers =
     (let requested = (case hdr_get response_headers ''Access-Control-Request-Headers'' of None \<Rightarrow> [] | Some s \<Rightarrow> s)
      in join_with '','' (header_list requested @ filter (\<lambda>h. h \<noteq> []) (CORS_ALLOWED_HEADERS c)))"

definition add_cors_headers :: "cors_config \<Rightarrow> headers \<Rightarrow> headers \<Rightarrow> headers" where
  "add_cors_headers c request_headers hs0 =
     (let origin_value = (if present (hdr_get request_headers ''Origin'') \<and> \<not> cc_disable_checks c
                          then the (hdr_get request_headers ''Origin'') else ''*'');
          hs1 = set_default ''Access-Control-Allow-Origin'' origin_value hs0;
          allowed = (case hdr_get hs1 ''Access-Control-Allow-Origin'' of None \<Rightarrow> [] | Some a \<Rightarrow> a);
          hs2 = (if CHR ''*'' \<notin> set allowed then hdr_set ''Access-Control-Allow-Credentials'' ''true'' hs1 else hs1);
          hs3 = set_default ''Access-Control-Allow-Methods'' (join_with '','' CORS_ALLOWED_METHODS) hs2;
          hs4 = set_default ''Access-Control-Allow-Headers'' (allow_headers_value c hs3) hs3;
          hs5 = set_default ''Access-Control-Expose-Headers'' (join_with '','' (CORS_EXPOSE_HEADERS c)) hs4;
          hs6 = (if hdr_get request_headers ''Access-Control-Request-Private-Network'' = Some ''true''
                 then set_default ''Access-Control-Allow-Private-Network'' ''true'' hs5 else hs5)
      in hdr_set ''Vary'' ''Origin'' hs6)"

definition remove_empty_cors_headers :: "headers \<Rightarrow> headers" where
  "remove_empty_cors_headers hs =
     fold (\<lambda>n h. if hdr_get h n = Some [] then ci_del lower n h else h) ALLOWED_CORS_RESPONSE_HEADERS hs"

definition cors_response_enricher :: "cors_config \<Rightarrow> string option \<Rightarrow> http_request \<Rightarrow> headers \<Rightarrow> headers" where
  "cors_response_enricher c service rq hs0 =
     (let hs = remove_empty_cors_headers hs0
      in if hdr_get (hr_headers rq) ''Origin'' = None \<or> cc_disable_headers c
            \<or> \<not> should_enforce_self_managed_service c service rq
         then hs else add_cors_headers c (hr_headers rq) hs)"

subsection \<open>What the patterns accept\<close>

lemma splits_at_iff: "(p, r) \<in> set (splits_at sep s) \<longleftrightarrow> s = p @ sep @ r"
proof (induction s arbitrary: p)
  case (Cons c s)
  note Cons_IH = Cons.IH
  show ?case
  proof (cases p)
    case (Cons c' p')
    have "(c' # p', r) \<in> (\<lambda>(p, r). (c # p, r)) ` set (splits_at sep s) \<longleftrightarrow> c' = c \<and> (p', r) \<in> set (splits_at sep s)"
      by force
    then show ?thesis using Cons_IH by (auto simp: Cons)
  qed (auto simp: starts_with_iff)
qed auto

lemma splits_at_increasing: "sorted_wrt (\<lambda>x y. length (fst x) < length (fst y)) (splits_at sep s)"
proof (induction s)
  case (Cons c s)
  then have "sorted_wrt (\<lambda>x y. length (fst x) < length (fst y)) (map (\<lambda>(p, r). (c # p, r)) (splits_at sep s))"
    by (simp add: sorted_wrt_map case_prod_unfold)
  then show ?case by (auto simp: sorted_wrt_append)
qed simp

lemma contains_sub_iff: "contains_sub w s \<longleftrightarrow> (\<exists>a b. s = a @ w @ b)"
proof (induction s)
  case (Cons c s)
  show ?case
  proof
    assume "contains_sub w (c # s)"
    then consider "starts_with w (c # s)" | "contains_sub w s" by auto
    then show "\<exists>a b. c # s = a @ w @ b"
    proof cases
      case 1
      then show ?thesis by (auto simp: starts_with_iff intro: exI [of _ "[]"])
    next
      case 2
      then obtain a b where "s = a @ w @ b" using Cons by blast
      then show ?thesis by (intro exI [of _ "c # a"] exI [of _ b]) simp
    qed
  next
    assume "\<exists>a b. c # s = a @ w @ b"
    then obtain a b where ab: "c # s = a @ w @ b" by blast
    show "contains_sub w (c # s)"
    proof (cases a)
      case Nil
      with ab have "starts_with w (c # s)" by (simp only: starts_with_append append_Nil)
      then show ?thesis by simp
    next
      case (Cons c' a')
      with ab have "s = a' @ w @ b" by simp
      with \<open>contains_sub w s \<longleftrightarrow> (\<exists>a b. s = a @ w @ b)\<close> show ?thesis by (auto simp del: starts_with.simps)
    qed
  qed
qed auto

text \<open>The longest split is the one that is taken.\<close>

lemma dynamic_match_longest:
  assumes s: "s = p @ sep @ r" "line_break \<notin> set p" "r \<noteq> []" "hd r \<noteq> line_break"
    and longest: "\<And>p' r'. s = p' @ sep @ r' \<Longrightarrow> length p' \<le> length p"
  shows "dynamic_match sep s = Some (hd r # takeWhile (\<lambda>c. c \<noteq> CHR '':'') (tl r), port_group (dropWhile (\<lambda>c. c \<noteq> CHR '':'') (tl r)))"
proof -
  let ?P = "\<lambda>(p, r). line_break \<notin> set p \<and> r \<noteq> [] \<and> hd r \<noteq> line_break"
  let ?L = "filter ?P (rev (splits_at sep s))"
  have mem: "(p, r) \<in> set ?L"
    using s by (simp add: splits_at_iff)
  have dec: "sorted_wrt (\<lambda>x y. length (fst y) < length (fst x)) ?L"
    using splits_at_increasing by (simp add: rev_filter [symmetric] sorted_wrt_rev sorted_wrt_filter)
  obtain x xs where L: "?L = x # xs" using mem by (cases ?L) auto
  have "x \<in> set ?L" using L by simp
  then have "length (fst x) \<le> length p"
    using longest [of "fst x" "snd x"] by (simp add: splits_at_iff [symmetric])
  then have "x = (p, r)"
    using dec mem unfolding L by auto
  then show ?thesis
    unfolding dynamic_match_def L by simp
qed

lemma dynamic_match_Some:
  assumes "dynamic_match sep s = Some (d, port)"
  shows "\<exists>p rest. s = p @ sep @ d @ rest \<and> (CHR '':'' \<notin> set d \<longrightarrow> port = port_group rest \<and> (rest = [] \<or> hd rest = CHR '':''))"
proof -
  from assms obtain p r xs where L: "filter (\<lambda>(p, r). line_break \<notin> set p \<and> r \<noteq> [] \<and> hd r \<noteq> line_break) (rev (splits_at sep s)) = (p, r) # xs"
    and d: "d = hd r # takeWhile (\<lambda>c. c \<noteq> CHR '':'') (tl r)" "port = port_group (dropWhile (\<lambda>c. c \<noteq> CHR '':'') (tl r))"
    by (auto simp: dynamic_match_def split: list.splits)
  then have "(p, r) \<in> set (filter (\<lambda>(p, r). line_break \<notin> set p \<and> r \<noteq> [] \<and> hd r \<noteq> line_break) (rev (splits_at sep s)))"
    by simp
  then have s: "s = p @ sep @ r" "r \<noteq> []" by (auto simp: splits_at_iff)
  then have r: "r = d @ dropWhile (\<lambda>c. c \<noteq> CHR '':'') (tl r)"
    by (cases r) (simp_all add: d)
  let ?rest = "dropWhile (\<lambda>c. c \<noteq> CHR '':'') (tl r)"
  have "?rest = [] \<or> hd ?rest = CHR '':''"
    using hd_dropWhile [of "\<lambda>c. c \<noteq> CHR '':''" "tl r"] by auto
  moreover have "s = p @ sep @ d @ ?rest" using s(1) r by simp
  ultimately show ?thesis using d(2) by blast
qed

lemma appended_twice:
  assumes "xs @ ys = zs @ ts"
  obtains us where "xs @ us = zs" "ys = us @ ts" | us where "xs = zs @ us" "us @ ys = ts"
  using assms by (auto simp: append_eq_append_conv2)

lemma suffix_after:
  assumes "p @ w = A @ B" "A \<noteq> []" "last A \<notin> set w"
  shows "\<exists>u. B = u @ w"
proof -
  from assms(1) consider us where "p @ us = A" "w = us @ B" | us where "p = A @ us" "us @ w = B"
    by (rule appended_twice)
  then show ?thesis
  proof cases
    case 1
    then have "us = []" using assms(3) by (cases us rule: rev_cases) auto
    with 1 show ?thesis by auto
  qed auto
qed

text \<open>A domain of the configuration, and an origin as browsers send it.\<close>

definition plain_domain :: "string \<Rightarrow> bool" where
  "plain_domain d \<longleftrightarrow>
     d \<noteq> [] \<and> CHR '':'' \<notin> set d \<and> CHR ''/'' \<notin> set d \<and> hd d \<noteq> line_break
     \<and> (\<forall>sep \<in> set dynamic_internal_origins. \<not> contains_sub sep (tl sep @ d))"

definition port_text :: "string option \<Rightarrow> string" where
  "port_text port = (case port of None \<Rightarrow> [] | Some ds \<Rightarrow> CHR '':'' # ds)"

definition origin_text :: "string \<Rightarrow> string \<Rightarrow> string option \<Rightarrow> string" where
  "origin_text scheme host port = scheme @ ''://'' @ host @ port_text port"

definition plain_origin :: "string \<Rightarrow> string \<Rightarrow> string option \<Rightarrow> bool" where
  "plain_origin scheme host port \<longleftrightarrow>
     CHR '':'' \<notin> set scheme \<and> CHR ''.'' \<notin> set scheme \<and> line_break \<notin> set scheme \<and> CHR '':'' \<notin> set host \<and> line_break \<notin> set host
     \<and> (case port of None \<Rightarrow> True | Some ds \<Rightarrow> length ds \<in> {1..5} \<and> list_all is_digit ds)"

lemma is_digit_not: "is_digit c \<Longrightarrow> c \<noteq> CHR '':'' \<and> c \<noteq> CHR ''.''"
  by (auto simp: is_digit_def)

lemma port_group_text:
  assumes "plain_origin scheme host port"
  shows "port_group (port_text port) = (case port of None \<Rightarrow> None | Some ds \<Rightarrow> if length ds = 1 then None else Some ds)"
proof (cases port)
  case (Some ds)
  with assms have ds: "\<forall>c \<in> set ds. is_digit c" "1 \<le> length ds" "length ds \<le> 5"
    by (auto simp: plain_origin_def list_all_iff)
  have run: "takeWhile is_digit ds = ds" using ds(1) by (simp add: takeWhile_eq_all_conv)
  show ?thesis using Some ds(2,3) by (auto simp: port_group_def port_text_def run)
qed (simp add: port_group_def port_text_def)

lemma plain_port:
  assumes "plain_origin scheme host port"
  shows "CHR ''.'' \<notin> set (port_text port)" "port_text port = [] \<or> (\<exists>ds. port_text port = CHR '':'' # ds \<and> CHR '':'' \<notin> set ds)"
  using assms by (auto simp: plain_origin_def port_text_def list_all_iff dest: is_digit_not split: option.splits)

lemma separators: "sep \<in> set dynamic_internal_origins \<Longrightarrow> CHR ''.'' \<in> set sep \<and> CHR '':'' \<notin> set sep \<and> CHR ''/'' \<notin> set sep
    \<and> line_break \<notin> set sep \<and> hd sep = CHR ''.'' \<and> last sep = CHR ''.'' \<and> sep \<noteq> []"
  by (auto simp: dynamic_internal_origins_def)

lemma origin_split:
  assumes o: "plain_origin scheme host port" and d: "plain_domain d" and sep: "sep \<in> set dynamic_internal_origins"
    and s: "origin_text scheme host port = p @ sep @ d @ rest" and rest: "rest = [] \<or> hd rest = CHR '':''"
  shows "\<exists>u. host = u @ sep @ d \<and> rest = port_text port"
proof -
  note sep' = separators [OF sep]
  let ?w = "sep @ d"
  have w: "CHR '':'' \<notin> set ?w" "CHR ''/'' \<notin> set ?w" "CHR ''.'' \<in> set ?w"
    using d sep' by (auto simp: plain_domain_def)
  have "p @ ?w = scheme @ ''://'' @ host \<and> rest = port_text port"
  proof (cases rest)
    case Nil
    show ?thesis
    proof (cases "port_text port = []")
      case False
      then obtain ds where ds: "port_text port = CHR '':'' # ds" using plain_port(2) [OF o] by blast
      have "p @ ?w = (scheme @ ''://'' @ host @ [CHR '':'']) @ ds"
        using s Nil ds by (simp add: origin_text_def)
      from suffix_after [OF this] w(1) obtain u where "ds = u @ ?w" by auto
      then show ?thesis using w(3) plain_port(1) [OF o] ds by auto
    qed (use s Nil in \<open>simp add: origin_text_def\<close>)
  next
    case (Cons c t)
    then have c: "rest = CHR '':'' # t" using rest by simp
    have s': "(p @ ?w) @ CHR '':'' # t = scheme @ CHR '':'' # (''//'' @ host @ port_text port)"
      using s c by (simp add: origin_text_def)
    then consider us where "(p @ ?w) @ us = scheme" "CHR '':'' # t = us @ CHR '':'' # (''//'' @ host @ port_text port)"
      | us where "p @ ?w = scheme @ us" "us @ CHR '':'' # t = CHR '':'' # (''//'' @ host @ port_text port)"
      by (rule appended_twice)
    then obtain us where us: "p @ ?w = scheme @ us" "us @ CHR '':'' # t = CHR '':'' # (''//'' @ host @ port_text port)" "us \<noteq> []"
    proof cases
      case 1
      then have "CHR ''.'' \<in> set scheme" using w(3) by auto
      then show ?thesis using o by (simp add: plain_origin_def)
    next
      case 2
      moreover have "us \<noteq> []"
      proof
        assume "us = []"
        then have "CHR ''.'' \<in> set scheme" using 2(1) w(3) by (metis Un_iff append_Nil2 set_append)
        then show False using o by (simp add: plain_origin_def)
      qed
      ultimately show ?thesis by (rule that)
    qed
    then obtain us' where us': "us = CHR '':'' # us'" "us' @ CHR '':'' # t = (''//'' @ host) @ port_text port"
      by (cases us) auto
    have host: "CHR '':'' \<notin> set (''//'' @ host)" using o by (simp add: plain_origin_def)
    have "port_text port \<noteq> []"
      using us'(2) host by (metis append_Nil2 in_set_conv_decomp)
    then obtain ds where ds: "port_text port = CHR '':'' # ds" "CHR '':'' \<notin> set ds" using plain_port(2) [OF o] by blast
    have "(''//'' @ host) @ CHR '':'' # ds = us' @ CHR '':'' # t"
      using us'(2) ds(1) by simp
    then have "''//'' @ host = us' \<and> ds = t"
      by (rule append_Cons_eq_iff [OF host ds(2), THEN iffD1])
    then show ?thesis using us(1) us'(1) c ds(1) by simp
  qed
  moreover have "\<exists>u. host = u @ ?w" if "p @ ?w = scheme @ ''://'' @ host"
    using suffix_after [of p ?w "scheme @ ''://''" host] that w(2) by simp
  ultimately show ?thesis by blast
qed

lemma origin_match:
  assumes o: "plain_origin scheme host port" and d: "plain_domain d" and sep: "sep \<in> set dynamic_internal_origins"
    and host: "host = u @ sep @ d"
  shows "dynamic_match sep (origin_text scheme host port) = Some (d, port_group (port_text port))"
proof -
  note sep' = separators [OF sep]
  let ?p = "scheme @ ''://'' @ u" and ?r = "d @ port_text port"
  obtain c d' where c: "d = c # d'" using d by (cases d) (auto simp: plain_domain_def)
  have "length p' \<le> length ?p" if p': "origin_text scheme host port = p' @ sep @ r'" for p' r'
  proof (rule ccontr)
    assume long: "\<not> length p' \<le> length ?p"
    have "?p @ (sep @ ?r) = p' @ (sep @ r')" using p' host by (simp add: origin_text_def)
    then obtain v where v: "?p @ v = p'" "sep @ ?r = v @ (sep @ r')"
    proof (rule appended_twice)
      fix v assume "?p = p' @ v"
      then have "length p' \<le> length ?p" by (metis length_append le_add1)
      with long show thesis by blast
    qed (rule that)
    moreover have "v \<noteq> []" using v(1) long by auto
    moreover note sep'
    ultimately have "tl sep @ ?r = tl v @ sep @ r'" by (cases v; cases sep) simp_all
    then have "(tl v @ sep) @ r' = (tl sep @ d) @ port_text port" by simp
    then consider us where "(tl v @ sep) @ us = tl sep @ d" | us where "tl v @ sep = (tl sep @ d) @ us" "us @ r' = port_text port"
      by (rule appended_twice)
    then have "contains_sub sep (tl sep @ d)"
    proof cases
      case 1
      then show ?thesis unfolding contains_sub_iff by (metis append.assoc)
    next
      case 2
      have "us = []"
      proof (rule ccontr)
        assume "us \<noteq> []"
        then have "CHR ''.'' \<in> set us" using 2(1) sep' by (metis last_appendR last_in_set)
        then have "CHR ''.'' \<in> set (port_text port)" unfolding 2(2) [symmetric] by simp
        then show False using plain_port(1) [OF o] by blast
      qed
      with 2(1) show ?thesis unfolding contains_sub_iff by (metis append_Nil2)
    qed
    with d sep show False by (simp add: plain_domain_def)
  qed
  note longest = this
  have "dynamic_match sep (origin_text scheme host port)
      = Some (hd ?r # takeWhile (\<lambda>c. c \<noteq> CHR '':'') (tl ?r), port_group (dropWhile (\<lambda>c. c \<noteq> CHR '':'') (tl ?r)))"
  proof (rule dynamic_match_longest [OF _ _ _ _ longest])
    show "origin_text scheme host port = ?p @ sep @ ?r" by (simp add: origin_text_def host)
    show "line_break \<notin> set ?p" using o host by (simp add: plain_origin_def)
    show "?r \<noteq> []" "hd ?r \<noteq> line_break" using d c by (simp_all add: plain_domain_def)
  qed
  moreover have "takeWhile (\<lambda>c. c \<noteq> CHR '':'') (d' @ port_text port) = d' \<and> dropWhile (\<lambda>c. c \<noteq> CHR '':'') (d' @ port_text port) = port_text port"
  proof -
    have "CHR '':'' \<notin> set d" using d by (simp add: plain_domain_def)
    then have d': "\<And>x. x \<in> set d' \<Longrightarrow> x \<noteq> CHR '':''" using c by auto
    have "takeWhile (\<lambda>c. c \<noteq> CHR '':'') (d' @ port_text port) = d' @ takeWhile (\<lambda>c. c \<noteq> CHR '':'') (port_text port)"
        "dropWhile (\<lambda>c. c \<noteq> CHR '':'') (d' @ port_text port) = dropWhile (\<lambda>c. c \<noteq> CHR '':'') (port_text port)"
      by (rule takeWhile_append2 dropWhile_append2; erule d')+
    then show ?thesis by (cases port) (simp_all add: port_text_def)
  qed
  ultimately show ?thesis by (simp add: c)
qed

lemma origin_allowed_iff:
  assumes o: "plain_origin scheme host port" and domains: "\<And>d. d \<in> set (allowed_internal_domains c) \<Longrightarrow> plain_domain d"
  shows "is_in_allowed_origins c allowed (origin_text scheme host port) \<longleftrightarrow>
    ''*'' \<in> set allowed \<or> origin_text scheme host port \<in> set allowed
    \<or> (\<exists>sep \<in> set dynamic_internal_origins. \<exists>d \<in> set (allowed_internal_domains c). \<exists>u. host = u @ sep @ d)
      \<and> (case port of None \<Rightarrow> True | Some ds \<Rightarrow> length ds = 1 \<or> digits_value ds \<in> set (cc_listen_ports c))"
proof -
  let ?o = "origin_text scheme host port"
  let ?port = "case port of None \<Rightarrow> True | Some ds \<Rightarrow> length ds = 1 \<or> digits_value ds \<in> set (cc_listen_ports c)"
  have port: "(case port_group (port_text port) of None \<Rightarrow> True | Some ds \<Rightarrow> digits_value ds \<in> set (cc_listen_ports c)) \<longleftrightarrow> ?port"
    unfolding port_group_text [OF o] by (cases port) simp_all
  have "dynamic_origin_allowed c ?o sep \<longleftrightarrow> (\<exists>d \<in> set (allowed_internal_domains c). \<exists>u. host = u @ sep @ d) \<and> ?port"
    if sep: "sep \<in> set dynamic_internal_origins" for sep
  proof
    assume "dynamic_origin_allowed c ?o sep"
    then obtain d p where m: "dynamic_match sep ?o = Some (d, p)" "d \<in> set (allowed_internal_domains c)"
      by (auto simp: dynamic_origin_allowed_def split: option.splits)
    note d = domains [OF m(2)]
    then have "CHR '':'' \<notin> set d" by (simp add: plain_domain_def)
    with dynamic_match_Some [OF m(1)] obtain q rest where "?o = q @ sep @ d @ rest" "rest = [] \<or> hd rest = CHR '':''" by blast
    from origin_split [OF o d sep this] obtain u where u: "host = u @ sep @ d" by blast
    from origin_match [OF o d sep u] have "?port"
      using \<open>dynamic_origin_allowed c ?o sep\<close> port by (simp add: dynamic_origin_allowed_def)
    with u m(2) show "(\<exists>d \<in> set (allowed_internal_domains c). \<exists>u. host = u @ sep @ d) \<and> ?port" by blast
  next
    assume "(\<exists>d \<in> set (allowed_internal_domains c). \<exists>u. host = u @ sep @ d) \<and> ?port"
    then obtain d u where d: "d \<in> set (allowed_internal_domains c)" "host = u @ sep @ d" and ?port by blast
    from origin_match [OF o domains [OF d(1)] sep d(2)] d(1) \<open>?port\<close> port
    show "dynamic_origin_allowed c ?o sep" by (simp add: dynamic_origin_allowed_def)
  qed
  then show ?thesis
    unfolding is_in_allowed_origins_def list_ex_iff by auto
qed

text \<open>
  C20: for origins as browsers send them (a scheme, a host and perhaps a port of one to five digits) the
  handler blocks exactly those that are not on the list and whose host is not below an S3 website or
  CloudFront name of an internal domain with a port of the gateway, a one digit port or none. The
  patterns, their greedy groups and the missing end anchor give no other origin a way in.
\<close>

theorem cors_blocks_iff:
  assumes "plain_origin scheme host port" "\<And>d. d \<in> set (allowed_internal_domains c) \<Longrightarrow> plain_domain d"
    and "hdr_get (hr_headers rq) ''origin'' = Some (origin_text scheme host port)" "scheme \<noteq> []"
    and "should_enforce_self_managed_service c service rq" "\<not> cc_disable_checks c"
  shows "cors_enforcer c origin_of service meth rq status = (403, Terminate) \<longleftrightarrow>
    \<not> (''*'' \<in> set (allowed_cors_origins c) \<or> origin_text scheme host port \<in> set (allowed_cors_origins c)
       \<or> (\<exists>sep \<in> set dynamic_internal_origins. \<exists>d \<in> set (allowed_internal_domains c). \<exists>u. host = u @ sep @ d)
         \<and> (case port of None \<Rightarrow> True | Some ds \<Rightarrow> length ds = 1 \<or> digits_value ds \<in> set (cc_listen_ports c)))"
proof -
  have "origin_text scheme host port \<noteq> []" using assms(4) by (simp add: origin_text_def)
  then have "is_cors_origin_allowed c origin_of (hr_headers rq)
      \<longleftrightarrow> is_in_allowed_origins c (allowed_cors_origins c) (origin_text scheme host port)"
    using assms(3) by (simp add: is_cors_origin_allowed_def present_def)
  then have "cors_enforcer c origin_of service meth rq status = (403, Terminate)
      \<longleftrightarrow> \<not> is_in_allowed_origins c (allowed_cors_origins c) (origin_text scheme host port)"
    using assms(5,6) by (simp add: cors_enforcer_def)
  then show ?thesis
    by (simp only: origin_allowed_iff [OF assms(1,2)])
qed

definition example_config :: cors_config where
  "example_config = \<lparr>cc_listen_ports = [4566, 443], cc_localstack_host = ''localhost.localstack.cloud'', cc_extra_origins = [],
     cc_extra_allowed_headers = [], cc_extra_expose_headers = [], cc_disable_checks = False, cc_disable_headers = False,
     cc_disable_preflight = False, cc_disable_custom_s3 = False, cc_disable_custom_apigateway = False\<rparr>"

definition website_request :: http_request where
  "website_request = \<lparr>hr_headers = [(''Origin'', ''http://shop.s3-website.localhost:4510'')], hr_path = ''/'', hr_host = ''localhost:4566'',
     hr_mimetype = [], hr_args = [], hr_values = Some [], hr_shallow = False\<rparr>"

theorem cors_blocks_iff_witness:
  "cors_enforcer example_config id None ''GET'' website_request 200 = (403, Terminate) \<longleftrightarrow>
    \<not> (''*'' \<in> set (allowed_cors_origins example_config)
       \<or> ''http://shop.s3-website.localhost:4510'' \<in> set (allowed_cors_origins example_config)
       \<or> (\<exists>sep \<in> set dynamic_internal_origins. \<exists>d \<in> set (allowed_internal_domains example_config). \<exists>u. ''shop.s3-website.localhost'' = u @ sep @ d)
         \<and> 4510 \<in> set (cc_listen_ports example_config))"
proof -
  have d: "plain_domain d" if "d \<in> set (allowed_internal_domains example_config)" for d
    using that by (auto simp: allowed_internal_domains_def example_config_def LOCALHOST_def LOCALHOST_HOSTNAME_def plain_domain_def dynamic_internal_origins_def)
  have o: "plain_origin ''http'' ''shop.s3-website.localhost'' (Some ''4510'')"
    by (simp add: plain_origin_def is_digit_def)
  have e: "origin_text ''http'' ''shop.s3-website.localhost'' (Some ''4510'') = ''http://shop.s3-website.localhost:4510''"
    by (simp add: origin_text_def port_text_def)
  have h: "hdr_get (hr_headers website_request) ''origin'' = Some (origin_text ''http'' ''shop.s3-website.localhost'' (Some ''4510''))"
    unfolding e by code_simp
  have s: "should_enforce_self_managed_service example_config None website_request" "\<not> cc_disable_checks example_config"
    by code_simp+
  have "digits_value ''4510'' = 4510" by code_simp
  then show ?thesis
    using cors_blocks_iff [OF o d h _ s, of id "''GET''" 200] unfolding e by simp
qed

subsection \<open>Credentials are for allowed origins\<close>

lemma remove_empty_None:
  assumes "hdr_get hs n = None"
  shows "hdr_get (remove_empty_cors_headers hs) n = None"
proof -
  have "hdr_get (fold (\<lambda>n h. if hdr_get h n = Some [] then ci_del lower n h else h) ns hs) n = None" for ns
    using assms by (induction ns arbitrary: hs) (simp_all add: ci_get_del)
  then show ?thesis by (simp add: remove_empty_cors_headers_def)
qed

text \<open>The names of the headers differ, also in lower case.\<close>

lemma header_names:
  "distinct (map lower [''Access-Control-Allow-Origin'', ''Access-Control-Allow-Credentials'', ''Access-Control-Allow-Methods'',
     ''Access-Control-Allow-Headers'', ''Access-Control-Expose-Headers'', ''Access-Control-Allow-Private-Network'', ''Vary'',
     ''Access-Control-Request-Headers''])"
  by code_simp

lemma origin_lower: "lower ''origin'' = lower ''Origin''"
  by code_simp

lemma added_headers:
  fixes c :: cors_config and rqh hs :: headers
  defines "ov \<equiv> (if present (hdr_get rqh ''Origin'') \<and> \<not> cc_disable_checks c then the (hdr_get rqh ''Origin'') else ''*'')"
  shows "hdr_get (add_cors_headers c rqh hs) ''Access-Control-Allow-Origin''
      = (case hdr_get hs ''Access-Control-Allow-Origin'' of None \<Rightarrow> Some ov | Some a \<Rightarrow> Some a)"
    and "hdr_get (add_cors_headers c rqh hs) ''Access-Control-Allow-Credentials''
      = (if CHR ''*'' \<notin> set (case hdr_get hs ''Access-Control-Allow-Origin'' of None \<Rightarrow> ov | Some a \<Rightarrow> a)
         then Some ''true'' else hdr_get hs ''Access-Control-Allow-Credentials'')"
  using header_names
  by (auto simp: add_cors_headers_def Let_def ci_get_set ci_get_default ov_def [symmetric] split: option.splits)


definition console_request :: http_request where
  "console_request = \<lparr>hr_headers = [(''origin'', ''https://app.localstack.cloud'')], hr_path = ''/'', hr_host = ''localhost:4566'',
     hr_mimetype = [], hr_args = [], hr_values = Some [], hr_shallow = False\<rparr>"


text \<open>
  The handler looks for the requested headers of a preflight among the headers of the response, so what
  a preflight asks for never reaches the list of allowed headers.
\<close>

lemma requested_headers_ignored:
  assumes "hdr_get hs ''Access-Control-Request-Headers'' = None"
  shows "allow_headers_value c hs = join_with '','' (filter (\<lambda>h. h \<noteq> []) (CORS_ALLOWED_HEADERS c))"
  using assms by (simp add: allow_headers_value_def)

end
