(* ===== verification/ContextHandlers.thy ===== *)
theory ContextHandlers
  imports Arns Accounts Sync PyValue
begin

text \<open>
  The handlers that complete the context of a request before it is parsed (\<open>aws/handlers/auth.py\<close>,
  \<open>region.py\<close>, \<open>internal_requests.py\<close>), the ones that end the chain early or at last (\<open>internal.py\<close>,
  \<open>fallback.py\<close>) and the shutdown handlers of \<open>runtime/shutdown.py\<close>. The property follows the
  credential scope of a request through the handlers in the order of \<open>aws/app.py\<close>.
\<close>

subsection \<open>Account and region\<close>

text \<open>The context as these handlers see it; the request is its Authorization header.\<close>

record region_context =
  rc_service :: "string option"
  rc_authorization :: "string option"
  rc_region :: string
  rc_partition :: string
  rc_account :: string

text \<open>\<open>MissingAuthHeaderInjector\<close>: an empty header counts as missing.\<close>

definition missing_auth_header_injector :: "region_context \<Rightarrow> region_context" where
  "missing_auth_header_injector ctx =
     (case rc_service ctx of
        None \<Rightarrow> ctx
      | Some api \<Rightarrow>
          if non_empty (rc_authorization ctx) [] \<noteq> [] then ctx
          else ctx\<lparr>rc_authorization := Some (the (dict_get
                 (mock_aws_request_headers api ''injectedaccesskey'' AWS_REGION_US_EAST_1 None) ''Authorization''))\<rparr>)"

definition region_context_enricher :: "region_context \<Rightarrow> region_context" where
  "region_context_enricher ctx =
     (let region = extract_region_from_headers (rc_authorization ctx)
      in ctx\<lparr>rc_region := region, rc_partition := partition_of region\<rparr>)"

text \<open>
  \<open>re.sub\<close> with the pattern of a credential: every match, from left to right, gets the new region. A match
  ends behind the slash after its region.
\<close>

lemma drop_shorter [simp]: "length (drop n s) < Suc (length s)"
  by simp

function rewrite_credentials :: "string \<Rightarrow> string \<Rightarrow> string" where
  "rewrite_credentials region [] = []"
| "rewrite_credentials region (c # s) =
     (case credential_at (c # s) of
        None \<Rightarrow> c # rewrite_credentials region s
      | Some (key, date, old) \<Rightarrow>
          ''Credential='' @ key @ ''/'' @ date @ ''/'' @ region @ ''/''
          @ rewrite_credentials region (drop (length key + length date + length old + 13) s))"
  by pat_completeness auto
termination by (relation "measure (length \<circ> snd)") auto

definition rewrite_auth_header :: "string \<Rightarrow> region_context \<Rightarrow> region_context" where
  "rewrite_auth_header region ctx =
     (if non_empty (rc_authorization ctx) [] \<noteq> []
      then ctx\<lparr>rc_authorization := map_option (rewrite_credentials region) (rc_authorization ctx)\<rparr> else ctx)"

text \<open>\<open>DefaultRegionRewriterStrategy\<close>; botocore lists the available regions.\<close>

definition region_rewriter :: "string list \<Rightarrow> region_context \<Rightarrow> region_context" where
  "region_rewriter available_regions ctx =
     (if rc_region ctx = [] then ctx
      else if rc_region ctx \<in> set available_regions then ctx
      else rewrite_auth_header ''us-east-1'' (ctx\<lparr>rc_region := ''us-east-1'', rc_partition := ''aws''\<rparr>))"

definition account_id_enricher :: "bool \<Rightarrow> region_context \<Rightarrow> region_context result" where
  "account_id_enricher parity ctx =
     map_sum id (\<lambda>account. ctx\<lparr>rc_account := account\<rparr>)
       (get_account_id_from_access_key_id parity
          (non_empty (extract_access_key_id_from_auth_header (rc_authorization ctx)) DEFAULT_AWS_ACCOUNT_ID))"

text \<open>The four handlers in the order of the gateway.\<close>

definition complete_context :: "bool \<Rightarrow> string list \<Rightarrow> region_context \<Rightarrow> region_context result" where
  "complete_context parity available_regions ctx =
     account_id_enricher parity (region_rewriter available_regions (region_context_enricher (missing_auth_header_injector ctx)))"

subsection \<open>Other handlers\<close>

text \<open>\<open>InternalRequestParamsEnricher\<close>: \<open>load\<close> reads the header; what it cannot read is logged.\<close>

definition internal_request_params :: "(string \<Rightarrow> 'd result) \<Rightarrow> string option \<Rightarrow> 'd option \<Rightarrow> 'd option" where
  "internal_request_params load header params =
     (case header of
        None \<Rightarrow> params
      | Some h \<Rightarrow> if h = [] then params else (case load h of Inl _ \<Rightarrow> params | Inr dto \<Rightarrow> Some dto))"

text \<open>\<open>RuntimeShutdownHandler\<close>: the status it ends the chain with, if it does.\<close>

definition runtime_shutdown_handler :: "bool \<Rightarrow> bool \<Rightarrow> bool \<Rightarrow> string \<Rightarrow> int option" where
  "runtime_shutdown_handler infra_stopped infra_stopping is_internal_call path =
     (if infra_stopped then Some 503
      else if infra_stopping \<and> \<not> is_internal_call \<and> \<not> starts_with ''/_localstack'' path then Some 503
      else None)"

text \<open>
  \<open>LocalstackResourceHandler\<close>: \<open>dispatch\<close> is the router of the internal resources, which does not find the
  path (None), raises or answers; a response ends the chain.
\<close>

definition localstack_resource_handler :: "'r option result \<Rightarrow> string \<Rightarrow> (int + 'r) option result" where
  "localstack_resource_handler dispatch path =
     (case dispatch of
        Inl e \<Rightarrow> Inl e
      | Inr (Some r) \<Rightarrow> Inr (Some (Inr r))
      | Inr None \<Rightarrow> Inr (if starts_with ''/_localstack/'' path then Some (Inl 404) else None))"

text \<open>
  \<open>InternalFailureHandler\<close>: the status and the JSON object it puts into a response without content. An HTTP
  exception of werkzeug has a code, a name and a description.
\<close>

definition internal_failure_handler ::
    "bool \<Rightarrow> (int \<times> ustr \<times> ustr) option \<Rightarrow> ustr \<Rightarrow> ustr \<Rightarrow> (int \<times> (ustr \<times> pyval) list) option" where
  "internal_failure_handler has_data http_exception message class_name =
     (if has_data then None
      else Some (case http_exception of
             Some (code, name, description) \<Rightarrow> (code, [(cp ''error'', PStr name), (cp ''message'', PStr description)])
           | None \<Rightarrow> (500, [(cp ''error'', PStr (cp ''Unexpected exception'')), (cp ''message'', PStr message), (cp ''type'', PStr class_name)])))"

subsection \<open>Shutdown handlers\<close>

text \<open>The registered callbacks, run in reverse order; what one raises is logged.\<close>

definition register_handler :: "'h \<Rightarrow> 'h list \<Rightarrow> 'h list" where
  "register_handler h callbacks = callbacks @ [h]"

definition unregister_handler :: "'h \<Rightarrow> 'h list \<Rightarrow> 'h list" where
  "unregister_handler h callbacks = remove1 h callbacks"

fun run_callbacks :: "('h \<Rightarrow> ('s, 'a) prog) \<Rightarrow> 'h list \<Rightarrow> ('s, unit) prog" where
  "run_callbacks call [] = return_s ()"
| "run_callbacks call (h # hs) = bind_s (call_safe (call h)) (\<lambda>_. run_callbacks call hs)"

definition run_shutdown_handlers :: "('h \<Rightarrow> ('s, 'a) prog) \<Rightarrow> 'h list \<Rightarrow> ('s, unit) prog" where
  "run_shutdown_handlers call callbacks = run_callbacks call (rev callbacks)"

subsection \<open>Lemmas: credential scopes\<close>

text \<open>A scope with its parts, as clients write it: the slashes of the rest are those of service and terminator.\<close>

definition scope_text :: "string \<Rightarrow> string \<Rightarrow> string \<Rightarrow> string \<Rightarrow> string" where
  "scope_text key date region rest = ''AWS4-HMAC-SHA256 Credential='' @ key @ ''/'' @ date @ ''/'' @ region @ ''/'' @ rest"

definition scope_ok :: "string \<Rightarrow> string \<Rightarrow> string \<Rightarrow> bool" where
  "scope_ok key date rest \<longleftrightarrow> plain key \<and> plain date \<and> count_list rest (CHR ''/'') < 2"

lemma scope_parts:
  assumes "scope_ok key date rest" "plain region"
  shows "extract_region_from_headers (Some (scope_text key date region rest)) = region"
    and "extract_access_key_id_from_auth_header (Some (scope_text key date region rest)) = Some key"
proof -
  let ?s = "scope_text key date region rest"
  have "last_credential (''AWS4-HMAC-SHA256 '' @ ''Credential='' @ key @ ''/'' @ date @ ''/'' @ region @ ''/'' @ rest) = Some (key, date, region)"
    by (rule last_credential_parts) (use assms in \<open>simp_all add: scope_ok_def\<close>)
  then have l: "last_credential ?s = Some (key, date, region)" by (simp add: scope_text_def)
  have starts: "starts_with ''AWS4-'' ?s" by (simp add: scope_text_def)
  have "CHR ''/'' \<in> set ?s" by (simp add: scope_text_def)
  then have "region \<noteq> ?s" using assms(2) by (auto simp: plain_def)
  have "region \<noteq> []" using assms(2) by (simp add: plain_def)
  note region = \<open>region \<noteq> ?s\<close> this
  then show "extract_region_from_headers (Some ?s) = region"
    using region by (simp add: extract_region_from_headers_def extract_region_from_auth_header_def l non_empty_def)
  show "extract_access_key_id_from_auth_header (Some ?s) = Some key"
    using l starts by (simp add: extract_access_key_id_from_auth_header_def)
qed

lemma rewrite_none: "count_list s (CHR ''/'') < 3 \<Longrightarrow> rewrite_credentials region s = s"
proof (induction s)
  case (Cons c s)
  then have "count_list s (CHR ''/'') < 3" by (simp split: if_splits)
  then show ?case using Cons credential_at_few [of "c # s"] by simp
qed simp

lemma rewrite_skip: "CHR ''C'' \<notin> set p \<Longrightarrow> rewrite_credentials region (p @ s) = p @ rewrite_credentials region s"
proof (induction p)
  case (Cons c p)
  then have "credential_at (c # p @ s) = None" by (simp add: credential_at_def)
  with Cons show ?case by simp
qed simp

lemma rewrite_scope:
  assumes "scope_ok key date rest" "plain region"
  shows "rewrite_credentials new (scope_text key date region rest) = scope_text key date new rest"
proof -
  let ?m = "key @ ''/'' @ date @ ''/'' @ region @ ''/'' @ rest"
  have "split_on (CHR ''/'') ?m = key # date # region # split_on (CHR ''/'') rest"
    using assms by (simp add: scope_ok_def plain_def split_on_append_sep)
  then have at: "credential_at (''Credential='' @ ?m) = Some (key, date, region)"
    using assms by (auto simp: credential_at_def scope_ok_def plain_def split: list.split)
  have rest: "rewrite_credentials new rest = rest" using assms(1) by (intro rewrite_none) (simp add: scope_ok_def)
  let ?a = "''redential='' @ key @ ''/'' @ date @ ''/'' @ region @ ''/''"
  have "drop (length ?a) (?a @ rest) = rest" by (metis append_eq_conv_conj)
  moreover have "length ?a = length key + length date + length region + 13" "?a @ rest = ''redential='' @ ?m" by simp_all
  ultimately have "drop (length key + length date + length region + 13) (''redential='' @ ?m) = rest" by metis
  then have "rewrite_credentials new (''Credential='' @ ?m) = ''Credential='' @ key @ ''/'' @ date @ ''/'' @ new @ ''/'' @ rest"
    using at rest by simp
  moreover have "rewrite_credentials new (''AWS4-HMA'' @ s) = ''AWS4-HMA'' @ rewrite_credentials new s" for s
    by (rule rewrite_skip) simp
  moreover have "rewrite_credentials new (''C-SHA256 '' @ s) = ''C-SHA256 '' @ rewrite_credentials new s" for s
    using rewrite_skip [of "''-SHA256 ''" new s] by (simp add: credential_at_def)
  ultimately show ?thesis by (simp add: scope_text_def)
qed

subsection \<open>Property\<close>

text \<open>
  C32: for a request with a credential scope of the usual form, the four handlers agree on one region: the
  one of the scope if it is available, else \<open>us-east-1\<close>; the partition is the one of that region, and whoever
  reads the region from the rewritten header again finds the same. The access key stays, and the account is
  the one of the key.
\<close>

theorem context_agrees_on_region:
  assumes "scope_ok key date rest" "plain region"
    and "get_account_id_from_access_key_id parity key = Inr account"
    and "region' = (if region \<in> set available then region else ''us-east-1'')"
  shows "complete_context parity available (ctx\<lparr>rc_authorization := Some (scope_text key date region rest)\<rparr>)
        = Inr (ctx\<lparr>rc_authorization := Some (scope_text key date region' rest), rc_region := region',
            rc_partition := partition_of region', rc_account := account\<rparr>)
      \<and> extract_region_from_headers (Some (scope_text key date region' rest)) = region'
      \<and> extract_access_key_id_from_auth_header (Some (scope_text key date region' rest)) = Some key"
proof -
  let ?ctx = "ctx\<lparr>rc_authorization := Some (scope_text key date region rest)\<rparr>"
  have us: "plain ''us-east-1''" by (simp add: plain_def is_space_def)
  then have plain': "plain region'" using assms(2,4) by simp
  note parts = scope_parts [OF assms(1,2)] and parts' = scope_parts [OF assms(1) plain']
  have nonempty: "key \<noteq> []" "region \<noteq> []" "scope_text key date r rest \<noteq> []" for r
    using assms(1,2) by (auto simp: scope_ok_def plain_def scope_text_def)
  have aws: "partition_of ''us-east-1'' = ''aws''"
    by (simp add: get_partition_def PARTITION_NAMES_def REGION_PREFIX_TO_PARTITION_def DEFAULT_PARTITION_def)
  have "missing_auth_header_injector ?ctx = ?ctx"
    using nonempty(3) by (simp add: missing_auth_header_injector_def non_empty_def split: option.split)
  moreover have "region_context_enricher ?ctx = ?ctx\<lparr>rc_region := region, rc_partition := partition_of region\<rparr>"
    using parts(1) by (simp add: region_context_enricher_def)
  moreover have "region_rewriter available (?ctx\<lparr>rc_region := region, rc_partition := partition_of region\<rparr>)
      = ctx\<lparr>rc_authorization := Some (scope_text key date region' rest), rc_region := region', rc_partition := partition_of region'\<rparr>"
    using assms(4) nonempty aws rewrite_scope [OF assms(1,2)]
    by (cases ctx) (simp add: region_rewriter_def rewrite_auth_header_def non_empty_def)
  ultimately have "complete_context parity available ?ctx
      = map_sum id (\<lambda>account. ctx\<lparr>rc_authorization := Some (scope_text key date region' rest), rc_region := region',
            rc_partition := partition_of region', rc_account := account\<rparr>) (get_account_id_from_access_key_id parity key)"
    using parts'(2) nonempty(1) by (simp add: complete_context_def account_id_enricher_def non_empty_def)
  then show ?thesis using assms(3) parts' by simp
qed

definition no_context :: region_context where
  "no_context = \<lparr>rc_service = None, rc_authorization = None, rc_region = [], rc_partition = [], rc_account = []\<rparr>"

lemma context_agrees_on_region_witness:
  "\<exists>c. complete_context False [''eu-west-1'', ''us-east-1'']
      (no_context\<lparr>rc_authorization := Some (scope_text ''000000000001'' ''20160623'' ''eu-south-9'' ''sqs/aws4_request'')\<rparr>) = Inr c
    \<and> rc_region c = ''us-east-1'' \<and> rc_account c = ''000000000001'' \<and> extract_region_from_headers (rc_authorization c) = ''us-east-1''"
proof -
  have ok: "scope_ok ''000000000001'' ''20160623'' ''sqs/aws4_request''" "plain ''eu-south-9''"
    by (simp_all add: scope_ok_def plain_def is_space_def)
  have account: "get_account_id_from_access_key_id False ''000000000001'' = Inr ''000000000001''"
    by (simp add: get_account_id_from_access_key_id_def twelve_digits_prefix_def is_digit_def)
  have region: "''us-east-1'' = (if ''eu-south-9'' \<in> set [''eu-west-1'', ''us-east-1''] then ''eu-south-9'' else ''us-east-1'')" by simp
  from context_agrees_on_region [OF ok account region, of no_context] show ?thesis by auto
qed

end
