(* ===== verification/InitScripts.thy ===== *)
theory InitScripts
  imports Utf8 "HOL-Library.List_Lexorder"
begin

text \<open>
  The init scripts of \<open>runtime/init.py\<close>: how the scripts of a stage are found, the runners that execute them,
  and the manager that runs every stage at most once; the resources of \<open>services/internal.py\<close> that report on
  them. The properties: over any history of stages each script runs once and in order, no script changes the
  AWS variables of the process, and what a script that exits the interpreter leaves behind.
\<close>

subsection \<open>Stages, scripts and runners\<close>

datatype script_state = ScriptUnknown | ScriptRunning | ScriptSuccessful | ScriptError

datatype stage = BOOT | START | READY | SHUTDOWN

definition all_stages :: "stage list" where
  "all_stages = [BOOT, START, READY, SHUTDOWN]"

definition stage_directory :: "stage \<Rightarrow> ustr" where
  "stage_directory st =
     cp (case st of BOOT \<Rightarrow> ''boot.d'' | START \<Rightarrow> ''start.d'' | READY \<Rightarrow> ''ready.d'' | SHUTDOWN \<Rightarrow> ''shutdown.d'')"

record script =
  sc_path :: ustr
  sc_stage :: stage
  sc_state :: script_state

text \<open>
  What a script raises: an exception, or an exit of the interpreter (\<open>SystemExit\<close> is no subclass of
  \<open>Exception\<close>). Running a script changes the environment variables and the rest of the world.
\<close>

datatype raised = Raised exn | Exits

type_synonym environ = "(string, string) dict"
type_synonym 'w script_effect = "environ \<times> 'w \<Rightarrow> raised option \<times> environ \<times> 'w"

record 'w script_runner =
  sr_suffixes :: "ustr list"
  sr_run :: "ustr \<Rightarrow> 'w script_effect"

definition ends_with :: "'a list \<Rightarrow> 'a list \<Rightarrow> bool" where
  "ends_with suffix s \<longleftrightarrow> starts_with (rev suffix) (rev s)"

definition should_run :: "'w script_runner \<Rightarrow> ustr \<Rightarrow> bool" where
  "should_run r file \<longleftrightarrow> list_ex (\<lambda>suffix. ends_with suffix file) (sr_suffixes r)"

text \<open>\<open>call\<close> is \<open>subprocess.call\<close>, which cannot change the variables of this process.\<close>

definition shell_script_runner :: "(ustr \<Rightarrow> 'w \<Rightarrow> int result \<times> 'w) \<Rightarrow> 'w script_runner" where
  "shell_script_runner call =
     \<lparr>sr_suffixes = [cp ''.sh''],
      sr_run = (\<lambda>path (env, w).
        case call path w of
          (Inl e, w') \<Rightarrow> (Some (Raised e), env, w')
        | (Inr exit_code, w') \<Rightarrow> (if exit_code \<noteq> 0 then Some (Raised OSError) else None, env, w'))\<rparr>"

text \<open>\<open>exec\<close> runs the content of the file \<open>read path\<close> in this process.\<close>

definition python_script_runner :: "(ustr \<Rightarrow> 'w \<Rightarrow> 'c result) \<Rightarrow> ('c \<Rightarrow> 'w script_effect) \<Rightarrow> 'w script_runner" where
  "python_script_runner read exec =
     \<lparr>sr_suffixes = [cp ''.py''],
      sr_run = (\<lambda>path (env, w). case read path w of Inl e \<Rightarrow> (Some (Raised e), env, w) | Inr code \<Rightarrow> exec code (env, w))\<rparr>"

definition get_script_runner :: "'w script_runner list \<Rightarrow> ustr \<Rightarrow> 'w script_runner option" where
  "get_script_runner runners file = find (\<lambda>r. should_run r file) runners"

definition has_script_runner :: "'w script_runner list \<Rightarrow> ustr \<Rightarrow> bool" where
  "has_script_runner runners file \<longleftrightarrow> get_script_runner runners file \<noteq> None"

subsection \<open>Finding scripts\<close>

text \<open>A directory with its files and the subdirectories \<open>os.walk\<close> descends into.\<close>

datatype dir_tree = DirTree (tree_files: "ustr list") (tree_dirs: "(ustr \<times> dir_tree) list")

definition path_join :: "ustr \<Rightarrow> ustr \<Rightarrow> ustr" where
  "path_join a b =
     (if starts_with [47] b then b else if a = [] \<or> last a = 47 then a @ b else a @ 47 # b)"

text \<open>The walk from the top, with the names of directories and files sorted.\<close>

fun walk_sorted :: "ustr \<Rightarrow> dir_tree \<Rightarrow> (ustr \<times> ustr list) list" where
  "walk_sorted root (DirTree files dirs) =
     (root, sort files)
     # concat (map snd (sort_key fst (map (\<lambda>(d, t). (d, walk_sorted (path_join root d) t)) dirs)))"

text \<open>\<open>_find_scripts\<close>: \<open>is_dir\<close> yields the tree of a directory, \<open>is_file\<close> tells files from broken links.\<close>

record script_files =
  sf_abspath :: "ustr \<Rightarrow> ustr"
  sf_is_dir :: "ustr \<Rightarrow> dir_tree option"
  sf_is_file :: "ustr \<Rightarrow> bool"

definition stage_paths :: "script_files \<Rightarrow> ustr \<Rightarrow> stage \<Rightarrow> ustr list" where
  "stage_paths fs script_root st =
     (let stage_path = path_join script_root (stage_directory st)
      in case sf_is_dir fs stage_path of
           None \<Rightarrow> []
         | Some t \<Rightarrow> concat (map (\<lambda>(root, files). map (\<lambda>f. sf_abspath fs (path_join root f)) files) (walk_sorted stage_path t)))"

definition find_scripts :: "'w script_runner list \<Rightarrow> script_files \<Rightarrow> ustr option \<Rightarrow> (stage, script list) dict" where
  "find_scripts runners fs script_root =
     (case script_root of
        None \<Rightarrow> []
      | Some root \<Rightarrow>
          map (\<lambda>st. (st, map (\<lambda>p. \<lparr>sc_path = p, sc_stage = st, sc_state = ScriptUnknown\<rparr>)
                  (filter (\<lambda>p. sf_is_file fs p \<and> has_script_runner runners p) (stage_paths fs root st)))) all_stages)"

subsection \<open>The manager\<close>

text \<open>\<open>scripts\<close> is a cached property, filled by the first access.\<close>

record script_manager =
  im_completed :: "stage \<Rightarrow> bool"
  im_scripts :: "(stage, script list) dict option"

definition new_script_manager :: script_manager where
  "new_script_manager = \<lparr>im_completed = (\<lambda>_. False), im_scripts = None\<rparr>"

definition cached_scripts :: "(stage, script list) dict \<Rightarrow> script_manager \<Rightarrow> (stage, script list) dict" where
  "cached_scripts found m = (case im_scripts m of None \<Rightarrow> found | Some d \<Rightarrow> d)"

definition scripts_of :: "(stage, script list) dict \<Rightarrow> stage \<Rightarrow> script list" where
  "scripts_of d st = (case dict_get d st of None \<Rightarrow> [] | Some ss \<Rightarrow> ss)"

definition AWS_VARIABLES :: "string list" where
  "AWS_VARIABLES = [''AWS_ACCESS_KEY_ID'', ''AWS_SECRET_ACCESS_KEY'', ''AWS_SESSION_TOKEN'', ''AWS_DEFAULT_REGION'',
     ''AWS_PROFILE'', ''AWS_REGION'']"

definition restore_variable :: "environ \<Rightarrow> string \<Rightarrow> environ \<Rightarrow> environ" where
  "restore_variable original v env =
     (case dict_get original v of Some x \<Rightarrow> dict_set v x env | None \<Rightarrow> dict_del v env)"

definition restore_variables :: "environ \<Rightarrow> environ \<Rightarrow> environ" where
  "restore_variables original env = fold (restore_variable original) AWS_VARIABLES env"

text \<open>The body of the loop in \<open>run_stage\<close>; a script without a runner is an attribute access on None.\<close>

definition run_script :: "'w script_runner list \<Rightarrow> script \<Rightarrow> environ \<times> 'w \<Rightarrow> bool \<times> script \<times> environ \<times> 'w" where
  "run_script runners s x =
     (let (outcome, env', w') = (case get_script_runner runners (sc_path s) of
             None \<Rightarrow> (Some (Raised AttributeError), x)
           | Some r \<Rightarrow> sr_run r (sc_path s) x);
          state = (case outcome of None \<Rightarrow> ScriptSuccessful | Some (Raised _) \<Rightarrow> ScriptError | Some Exits \<Rightarrow> ScriptRunning)
      in (outcome = Some Exits, s\<lparr>sc_state := state\<rparr>, restore_variables (fst x) env', w'))"

fun run_scripts :: "'w script_runner list \<Rightarrow> script list \<Rightarrow> environ \<times> 'w \<Rightarrow> bool \<times> script list \<times> environ \<times> 'w" where
  "run_scripts runners [] x = (False, [], x)"
| "run_scripts runners (s # ss) x =
     (let (exits, s', x') = run_script runners s x
      in if exits then (True, s' # ss, x')
         else (let (exits', ss', x'') = run_scripts runners ss x' in (exits', s' # ss', x'')))"

text \<open>\<open>run_stage\<close>: \<open>Inl\<close> when a script exits the interpreter, which only the \<open>finally\<close> clauses see.\<close>

definition run_stage ::
    "'w script_runner list \<Rightarrow> (stage, script list) dict \<Rightarrow> stage \<Rightarrow> script_manager \<times> environ \<times> 'w
     \<Rightarrow> (unit + script list) \<times> script_manager \<times> environ \<times> 'w" where
  "run_stage runners found st = (\<lambda>(m, x).
     let d = cached_scripts found m;
         scripts = scripts_of d st
     in if im_completed m st then (Inr scripts, m\<lparr>im_scripts := Some d\<rparr>, x)
        else (let (exits, scripts', x') = run_scripts runners scripts x;
                  d' = (if dict_get d st = None then d else dict_set st scripts' d)
              in (if exits then Inl () else Inr scripts',
                  m\<lparr>im_scripts := Some d', im_completed := (im_completed m)(st := True)\<rparr>, x')))"

text \<open>The hook of the start, which takes the boot stage as run.\<close>

definition run_init_scripts_on_start ::
    "'w script_runner list \<Rightarrow> (stage, script list) dict \<Rightarrow> script_manager \<times> environ \<times> 'w
     \<Rightarrow> (unit + script list) \<times> script_manager \<times> environ \<times> 'w" where
  "run_init_scripts_on_start runners found = (\<lambda>(m, x).
     run_stage runners found START (m\<lparr>im_completed := (im_completed m)(BOOT := True)\<rparr>, x))"

subsection \<open>Resources\<close>

definition stage_name :: "stage \<Rightarrow> ustr" where
  "stage_name st = cp (case st of BOOT \<Rightarrow> ''BOOT'' | START \<Rightarrow> ''START'' | READY \<Rightarrow> ''READY'' | SHUTDOWN \<Rightarrow> ''SHUTDOWN'')"

definition state_name :: "script_state \<Rightarrow> ustr" where
  "state_name s = cp (case s of ScriptUnknown \<Rightarrow> ''UNKNOWN'' | ScriptRunning \<Rightarrow> ''RUNNING''
     | ScriptSuccessful \<Rightarrow> ''SUCCESSFUL'' | ScriptError \<Rightarrow> ''ERROR'')"

definition basename :: "ustr \<Rightarrow> ustr" where
  "basename p = last (split_on 47 p)"

record script_report =
  sp_stage :: ustr
  sp_name :: ustr
  sp_state :: ustr

definition report_script :: "script \<Rightarrow> script_report" where
  "report_script s = \<lparr>sp_stage = stage_name (sc_stage s), sp_name = basename (sc_path s), sp_state = state_name (sc_state s)\<rparr>"

definition init_scripts_resource :: "(stage, script list) dict \<Rightarrow> script_manager \<Rightarrow> (ustr \<times> bool) list \<times> script_report list" where
  "init_scripts_resource found m =
     (map (\<lambda>st. (stage_name st, im_completed m st)) all_stages,
      map report_script (concat (dict_values (cached_scripts found m))))"

text \<open>
  The report on one stage: None is the answer 404. Without a script root the dictionary has no stage, and the
  loop over None raises.
\<close>

definition init_scripts_stage_resource ::
    "(ustr \<Rightarrow> ustr) \<Rightarrow> (stage, script list) dict \<Rightarrow> ustr \<Rightarrow> script_manager \<Rightarrow> (bool \<times> script_report list) option result" where
  "init_scripts_stage_resource upper found name m =
     (case find (\<lambda>st. stage_name st = upper name) all_stages of
        None \<Rightarrow> Inr None
      | Some st \<Rightarrow>
          (case dict_get (cached_scripts found m) st of
             None \<Rightarrow> Inl TypeError
           | Some ss \<Rightarrow> Inr (Some (im_completed m st, map report_script ss))))"

subsection \<open>Histories\<close>

text \<open>
  Several stages after another, by the names of the hooks or on the command line; a script that exits the
  interpreter ends the process, which is why nothing follows it.
\<close>

fun run_stages ::
    "'w script_runner list \<Rightarrow> (stage, script list) dict \<Rightarrow> stage list \<Rightarrow> script_manager \<times> environ \<times> 'w
     \<Rightarrow> bool \<times> script_manager \<times> environ \<times> 'w" where
  "run_stages runners found [] st = (False, st)"
| "run_stages runners found (s # ss) st =
     (case run_stage runners found s st of
        (Inl _, st') \<Rightarrow> (True, st')
      | (Inr _, st') \<Rightarrow> run_stages runners found ss st')"

text \<open>A runner that also records the paths it is given.\<close>

definition recording :: "'w script_runner \<Rightarrow> ('w \<times> ustr list) script_runner" where
  "recording r =
     \<lparr>sr_suffixes = sr_suffixes r,
      sr_run = (\<lambda>path (env, w, log). case sr_run r path (env, w) of (o', env', w') \<Rightarrow> (o', env', w', log @ [path]))\<rparr>"

subsection \<open>Lemmas: the variables\<close>

lemma restore_variable_get:
  "dict_get (restore_variable original v env) x = (if x = v then dict_get original v else dict_get env x)"
  by (auto simp: restore_variable_def dict_get_set dict_get_del split: option.split)

lemma fold_restore:
  "dict_get (fold (restore_variable original) vs env) x = (if x \<in> set vs then dict_get original x else dict_get env x)"
  by (induction vs arbitrary: env) (auto simp: restore_variable_get)

lemma restore_variables_get:
  "x \<in> set AWS_VARIABLES \<Longrightarrow> dict_get (restore_variables original env) x = dict_get original x"
  by (simp add: restore_variables_def fold_restore)

definition same_aws :: "environ \<Rightarrow> environ \<Rightarrow> bool" where
  "same_aws env env' \<longleftrightarrow> (\<forall>v \<in> set AWS_VARIABLES. dict_get env' v = dict_get env v)"

lemma same_aws_refl [simp]: "same_aws env env"
  by (simp add: same_aws_def)

lemma same_aws_trans [trans]: "same_aws a b \<Longrightarrow> same_aws b c \<Longrightarrow> same_aws a c"
  by (simp add: same_aws_def)

lemma run_script_env: "run_script runners s x = (e, s', env', w') \<Longrightarrow> same_aws (fst x) env'"
  by (auto simp: run_script_def same_aws_def restore_variables_get Let_def split: prod.splits)

lemma run_scripts_env: "run_scripts runners ss x = (e, ss', env', w') \<Longrightarrow> same_aws (fst x) env'"
proof (induction ss arbitrary: x e ss' env' w')
  case (Cons s ss)
  obtain e1 s1 env1 w1 where one: "run_script runners s x = (e1, s1, env1, w1)" by (metis prod_cases4)
  obtain e2 ss2 env2 w2 where rest: "run_scripts runners ss (env1, w1) = (e2, ss2, env2, w2)" by (metis prod_cases4)
  have "same_aws (fst x) env1" by (rule run_script_env [OF one])
  moreover have "same_aws env1 env2" using Cons.IH [OF rest] by simp
  ultimately show ?case using Cons.prems one rest by (auto intro: same_aws_trans split: if_splits)
qed simp

lemma run_stage_env: "run_stage runners found st (m, env, w) = (r, m', env', w') \<Longrightarrow> same_aws env env'"
  by (auto simp: run_stage_def Let_def split: if_splits prod.splits dest: run_scripts_env)

subsection \<open>Lemmas: what is run\<close>

text \<open>The stages of a history that were not done before, each at its first occurrence.\<close>

fun due :: "(stage \<Rightarrow> bool) \<Rightarrow> stage list \<Rightarrow> stage list" where
  "due done [] = []"
| "due done (s # ss) = (if done s then due done ss else s # due (done(s := True)) ss)"

lemma set_due: "set (due done ss) = {s \<in> set ss. \<not> done s}"
  by (induction ss arbitrary: "done") auto

lemma distinct_due: "distinct (due done ss)"
  by (induction ss arbitrary: "done") (auto simp: set_due)

definition paths_of :: "(stage, script list) dict \<Rightarrow> stage \<Rightarrow> ustr list" where
  "paths_of d st = map sc_path (scripts_of d st)"

definition all_have_runners :: "'w script_runner list \<Rightarrow> (stage, script list) dict \<Rightarrow> bool" where
  "all_have_runners runners d \<longleftrightarrow> (\<forall>st. \<forall>p \<in> set (paths_of d st). has_script_runner runners p)"

lemma recording_runner: "get_script_runner (map recording runners) p = map_option recording (get_script_runner runners p)"
  by (induction runners) (simp_all add: get_script_runner_def should_run_def recording_def)

lemma run_script_path: "run_script runners s x = (e, s', x') \<Longrightarrow> sc_path s' = sc_path s"
  by (auto simp: run_script_def Let_def split: prod.splits)

lemma run_scripts_paths: "run_scripts runners ss x = (e, ss', x') \<Longrightarrow> map sc_path ss' = map sc_path ss"
  by (induction ss arbitrary: x e ss' x') (auto simp: Let_def run_script_path split: prod.splits if_splits)

lemma run_script_log:
  assumes "has_script_runner runners (sc_path s)" "run_script (map recording runners) s (env, w, log) = (e, s', env', w', log')"
  shows "log' = log @ [sc_path s]"
  using assms by (auto simp: run_script_def has_script_runner_def recording_runner recording_def Let_def split: prod.splits option.splits)

lemma run_scripts_log:
  assumes "\<forall>s \<in> set ss. has_script_runner runners (sc_path s)"
    and "run_scripts (map recording runners) ss (env, w, log) = (e, ss', env', w', log')"
  shows "\<exists>rest. log' @ rest = log @ map sc_path ss \<and> (\<not> e \<longrightarrow> rest = [])"
  using assms
proof (induction ss arbitrary: env w log e ss' env' w' log')
  case (Cons s ss)
  obtain e1 s1 env1 w1 log1 where one: "run_script (map recording runners) s (env, w, log) = (e1, s1, env1, w1, log1)"
    by (metis prod_cases5)
  have log1: "log1 = log @ [sc_path s]" using run_script_log one Cons.prems(1) by fastforce
  show ?case
  proof (cases e1)
    case True
    then show ?thesis using Cons.prems(2) one log1 by auto
  next
    case False
    obtain e2 ss2 env2 w2 log2 where two: "run_scripts (map recording runners) ss (env1, w1, log1) = (e2, ss2, env2, w2, log2)"
      by (metis prod_cases5)
    then show ?thesis using Cons.IH [OF _ two] Cons.prems False one log1 by auto
  qed
qed simp

text \<open>One stage: the paths stay, the stage is done, and what ran is the stage unless it was done before.\<close>

lemma run_stage_log:
  assumes "all_have_runners runners found" and paths: "\<And>s. paths_of (cached_scripts found m) s = paths_of found s"
    and run: "run_stage (map recording runners) found st (m, env, w, log) = (r, m', env', w', log')"
  shows "im_completed m' = (im_completed m)(st := True)" "paths_of (cached_scripts found m') s = paths_of found s"
    "\<exists>rest. log' @ rest = log @ concat (map (paths_of found) (due (im_completed m) [st])) \<and> (r \<noteq> Inl () \<longrightarrow> rest = [])"
proof -
  let ?d = "cached_scripts found m"
  note runs = run [unfolded run_stage_def, simplified]
  obtain e ss env1 w1 log1 where ran: "run_scripts (map recording runners) (scripts_of ?d st) (env, w, log) = (e, ss, env1, w1, log1)"
    by (metis prod_cases5)
  have "\<forall>p \<in> set (paths_of ?d st). has_script_runner runners p"
    unfolding paths [of st] using assms(1) by (simp add: all_have_runners_def)
  then have "\<forall>s \<in> set (scripts_of ?d st). has_script_runner runners (sc_path s)" by (simp add: paths_of_def)
  then obtain rest where log: "log1 @ rest = log @ paths_of found st" "\<not> e \<longrightarrow> rest = []"
    using run_scripts_log [OF _ ran] paths [of st] unfolding paths_of_def by metis
  have same: "map sc_path ss = paths_of found st"
    using run_scripts_paths [OF ran] paths [of st] by (simp add: paths_of_def)
  show "im_completed m' = (im_completed m)(st := True)"
    using runs ran by (auto simp: Let_def split: if_splits)
  show "paths_of (cached_scripts found m') s = paths_of found s"
    using runs ran same paths [of s] by (auto simp: Let_def cached_scripts_def paths_of_def scripts_of_def dict_get_set split: if_splits option.splits)
  show "\<exists>rest. log' @ rest = log @ concat (map (paths_of found) (due (im_completed m) [st])) \<and> (r \<noteq> Inl () \<longrightarrow> rest = [])"
    using runs ran log by (auto simp: Let_def split: if_splits)
qed

lemma run_stages_log:
  assumes "all_have_runners runners found" and "\<And>s. paths_of (cached_scripts found m) s = paths_of found s"
    and "run_stages (map recording runners) found ss (m, env, w, log) = (exits, m', env', w', log')"
  shows "(\<exists>rest. log' @ rest = log @ concat (map (paths_of found) (due (im_completed m) ss)) \<and> (\<not> exits \<longrightarrow> rest = []))
      \<and> same_aws env env'"
  using assms(2,3)
proof (induction ss arbitrary: m env w log)
  case (Cons st ss)
  obtain r m1 env1 w1 log1 where one: "run_stage (map recording runners) found st (m, env, w, log) = (r, m1, env1, w1, log1)"
    by (metis prod_cases5)
  note facts = run_stage_log [OF assms(1) Cons.prems(1) one]
  have env: "same_aws env env1" by (rule run_stage_env [OF one])
  obtain rest where rest: "log1 @ rest = log @ concat (map (paths_of found) (due (im_completed m) [st]))" "r \<noteq> Inl () \<longrightarrow> rest = []"
    using facts(3) by blast
  have due: "concat (map (paths_of found) (due (im_completed m) (st # ss)))
      = concat (map (paths_of found) (due (im_completed m) [st])) @ concat (map (paths_of found) (due (im_completed m1) ss))"
    using facts(1) by (simp add: fun_upd_idem)
  show ?case
  proof (cases r)
    case (Inl u)
    then have "exits" "log' = log1" "env' = env1" using Cons.prems(2) one by simp_all
    then show ?thesis using rest(1) env due by (auto intro: exI [of _ "rest @ _"]) (metis append.assoc)
  next
    case (Inr scripts)
    then have more_runs: "run_stages (map recording runners) found ss (m1, env1, w1, log1) = (exits, m', env', w', log')"
      using Cons.prems(2) one by simp
    have "rest = []" using rest(2) Inr by simp
    with Cons.IH [OF facts(2) more_runs] rest(1) env due show ?thesis by (auto intro: same_aws_trans)
  qed
qed auto

lemma found_have_runners: "all_have_runners runners (find_scripts runners fs root)"
proof -
  have found: "s \<in> set ss \<Longrightarrow> (st, ss) \<in> set (find_scripts runners fs root) \<Longrightarrow> has_script_runner runners (sc_path s)" for s st ss
    by (auto simp: find_scripts_def split: option.splits)
  have "has_script_runner runners p" if "p \<in> set (paths_of (find_scripts runners fs root) st)" for st p
  proof (cases "dict_get (find_scripts runners fs root) st")
    case (Some ss)
    then show ?thesis using that found [OF _ map_of_SomeD [OF Some]] by (auto simp: paths_of_def scripts_of_def)
  qed (use that in \<open>simp add: paths_of_def scripts_of_def\<close>)
  then show ?thesis by (simp add: all_have_runners_def)
qed

subsection \<open>Properties\<close>


definition sample_files :: script_files where
  "sample_files =
     \<lparr>sf_abspath = id,
      sf_is_dir = (\<lambda>p. if p = cp ''/i/ready.d'' then Some (DirTree [cp ''b.sh'', cp ''a.txt'', cp ''a.sh''] []) else None),
      sf_is_file = (\<lambda>_. True)\<rparr>"

definition failing_shell :: "unit script_runner" where
  "failing_shell = shell_script_runner (\<lambda>p w. (Inr 1, w))"


definition finished :: "script \<Rightarrow> bool" where
  "finished s \<longleftrightarrow> sc_state s \<in> {ScriptSuccessful, ScriptError}"

lemma run_script_state:
  "run_script runners s x = (e, s', x') \<Longrightarrow> if e then sc_state s' = ScriptRunning else finished s'"
  by (auto simp: run_script_def finished_def Let_def split: prod.splits option.splits raised.splits)

lemma run_scripts_state:
  "run_scripts runners ss x = (e, ss', x') \<Longrightarrow>
     if e then \<exists>before s after. ss' = before @ s # after \<and> list_all finished before \<and> sc_state s = ScriptRunning
         \<and> after = drop (Suc (length before)) ss
     else list_all finished ss'"
proof (induction ss arbitrary: x e ss' x')
  case (Cons s ss)
  obtain e1 s1 x1 where one: "run_script runners s x = (e1, s1, x1)" by (metis prod_cases3)
  obtain e2 ss2 x2 where two: "run_scripts runners ss x1 = (e2, ss2, x2)" by (metis prod_cases3)
  show ?case
  proof (cases e1)
    case True
    then show ?thesis using Cons.prems one run_script_state [OF one] by (auto intro!: exI [of _ "[]"])
  next
    case False
    then have "e = e2" "ss' = s1 # ss2" "finished s1" using Cons.prems one two run_script_state [OF one] by simp_all
    moreover have "\<exists>before' s after. s1 # before @ t = before' @ s # after \<and> list_all finished before' \<and> sc_state s = ScriptRunning
        \<and> after = drop (length before') ss"
      if "t = u # drop (Suc (length before)) ss" "list_all finished before" "sc_state u = ScriptRunning" "finished s1" for before t u
      using that by (intro exI [of _ "s1 # before"] exI [of _ u] exI [of _ "drop (Suc (length before)) ss"]) simp
    ultimately show ?thesis using Cons.IH [OF two] by (auto split: if_splits)
  qed
qed simp

text \<open>
  A script that exits the interpreter, as a Python script does with \<open>sys.exit\<close>, is reported as running
  forever: it keeps that state, the scripts behind it keep theirs and are never run, and the stage counts as
  completed, so that running it again does nothing.
\<close>

theorem exiting_script_stuck:
  assumes "run_stage runners found st (m, x) = (Inl (), m', x')"
  shows "(\<exists>before s after. scripts_of (cached_scripts found m') st = before @ s # after \<and> sc_state s = ScriptRunning
         \<and> list_all finished before \<and> after = drop (Suc (length before)) (scripts_of (cached_scripts found m) st))
      \<and> im_completed m' st
      \<and> run_stage runners found st (m', y) = (Inr (scripts_of (cached_scripts found m') st), m', y)"
proof -
  let ?d = "cached_scripts found m"
  obtain e ss x1 where ran: "run_scripts runners (scripts_of ?d st) x = (e, ss, x1)" by (metis prod_cases3)
  then have e: e and m': "m' = m\<lparr>im_scripts := Some (if dict_get ?d st = None then ?d else dict_set st ss ?d),
      im_completed := (im_completed m)(st := True)\<rparr>"
    using assms by (auto simp: run_stage_def Let_def split: if_splits)
  have "dict_get ?d st \<noteq> None" using ran e by (cases "dict_get ?d st") (simp_all add: scripts_of_def)
  then have "m' = m\<lparr>im_scripts := Some (dict_set st ss ?d), im_completed := (im_completed m)(st := True)\<rparr>" using m' by auto
  then have "cached_scripts found m' = dict_set st ss ?d" "im_completed m' st" by (simp_all add: cached_scripts_def)
  moreover have "scripts_of (dict_set st ss ?d) st = ss" by (simp add: scripts_of_def dict_get_set)
  moreover have "m'\<lparr>im_scripts := Some (cached_scripts found m')\<rparr> = m'"
    using m' by (cases m) (simp add: cached_scripts_def)
  ultimately show ?thesis using run_scripts_state [OF ran] e by (auto simp: run_stage_def Let_def)
qed

definition exiting_python :: "unit script_runner" where
  "exiting_python = python_script_runner (\<lambda>p w. Inr p) (\<lambda>code (env, w). (if code = cp ''/i/ready.d/a.py'' then Some Exits else None, env, w))"

definition python_files :: script_files where
  "python_files = sample_files\<lparr>sf_is_dir := (\<lambda>p. if p = cp ''/i/ready.d'' then Some (DirTree [cp ''b.py'', cp ''a.py''] []) else None)\<rparr>"

lemma exiting_script_stuck_witness:
  "\<exists>m'. run_stage [exiting_python] (find_scripts [exiting_python] python_files (Some (cp ''/i''))) READY (new_script_manager, [], ())
       = (Inl (), m', [], ())
     \<and> im_completed m' READY
     \<and> (\<exists>scripts. run_stage [exiting_python] (find_scripts [exiting_python] python_files (Some (cp ''/i''))) READY (m', [], ())
          = (Inr scripts, m', [], ()))"
proof -
  let ?found = "find_scripts [exiting_python] python_files (Some (cp ''/i''))"
  obtain r m' env' w' where run: "run_stage [exiting_python] ?found READY (new_script_manager, [], ()) = (r, m', env', w')"
    by (metis prod_cases4)
  have "(case run_stage [exiting_python] ?found READY (new_script_manager, [], ()) of (r, m', env', w') \<Rightarrow> r = Inl () \<and> env' = [])"
    by code_simp
  with run have "r = Inl ()" "env' = []" by auto
  with run have "run_stage [exiting_python] ?found READY (new_script_manager, [], ()) = (Inl (), m', [], ())" by simp
  from exiting_script_stuck [OF this] this show ?thesis by blast
qed

text \<open>The scripts of a directory run in the order of their names.\<close>

lemma path_join_mono:
  assumes "list_all (\<lambda>f. \<not> starts_with [47] f) fs" "sorted fs"
  shows "sorted (map (path_join root) fs)"
proof -
  have "path_join root f = (if root = [] \<or> last root = 47 then root else root @ [47]) @ f" if "f \<in> set fs" for f
    using that assms(1) by (auto simp: path_join_def list_all_iff)
  moreover have "u @ f \<le> u @ g \<longleftrightarrow> f \<le> g" for u f g :: ustr by (induction u) simp_all
  ultimately show ?thesis using assms(2) by (simp add: sorted_wrt_map sorted_wrt_iff_nth_less)
qed

lemma flat_directory_sorted:
  assumes "sf_is_dir fs (path_join root (stage_directory st)) = Some (DirTree files [])"
    and "list_all (\<lambda>f. \<not> starts_with [47] f) files" and "sf_abspath fs = id"
  shows "sorted (paths_of (find_scripts runners fs (Some root)) st)"
proof -
  have "stage_paths fs root st = map (path_join (path_join root (stage_directory st))) (sort files)"
    using assms by (simp add: stage_paths_def)
  moreover have "list_all (\<lambda>f. \<not> starts_with [47] f) (sort files)" using assms(2) by (simp add: list_all_iff)
  ultimately have "sorted (stage_paths fs root st)" using path_join_mono by simp
  moreover have "paths_of (find_scripts runners fs (Some root)) st
      = filter (\<lambda>p. sf_is_file fs p \<and> has_script_runner runners p) (stage_paths fs root st)"
    by (cases st) (simp_all add: paths_of_def scripts_of_def find_scripts_def all_stages_def comp_def)
  ultimately show ?thesis by (simp add: sorted_filter [where f = id, simplified])
qed

end
