(* ===== verification/Runtime.thy ===== *)
theory Runtime
  imports ContextHandlers InitScripts
begin

text \<open>
  The runtime of the process: lifecycle hooks (\<open>runtime/hooks.py\<close>), the singleton of \<open>runtime/current.py\<close>, and
  \<open>LocalstackRuntime\<close> of \<open>runtime/runtime.py\<close> as a relation between states, with the main thread, the thread
  that waits for the gateway and the threads that shut the runtime down. The properties: the shutdown hooks
  run at most once, a shutdown ends the process, and when it does not.
\<close>

subsection \<open>Hooks\<close>

text \<open>Hooks in the order of their priorities, highest first; those of one priority stay as they were loaded.\<close>

definition load_all_sorted :: "('h \<Rightarrow> int) \<Rightarrow> 'h list \<Rightarrow> 'h list" where
  "load_all_sorted hook_priority plugins = sort_key (\<lambda>h. - hook_priority h) plugins"

fun run_hooks :: "('h \<Rightarrow> ('s, unit) prog) \<Rightarrow> 'h list \<Rightarrow> ('s, unit) prog" where
  "run_hooks call [] = return_s ()"
| "run_hooks call (h # hs) = bind_s (call h) (\<lambda>_. run_hooks call hs)"

definition run_in_order :: "('h \<Rightarrow> int) \<Rightarrow> ('h \<Rightarrow> ('s, unit) prog) \<Rightarrow> 'h list \<Rightarrow> ('s, unit) prog" where
  "run_in_order hook_priority call plugins = run_hooks call (load_all_sorted hook_priority plugins)"

text \<open>The shutdown hooks of the source and their priorities.\<close>

datatype shutdown_hook = InitScriptsHook | ShutdownHandlersHook | ShutdownServicesHook | AfterServiceShutdownHook

definition SERVICE_SHUTDOWN_PRIORITY :: int where "SERVICE_SHUTDOWN_PRIORITY = - 10"

fun shutdown_priority :: "shutdown_hook \<Rightarrow> int" where
  "shutdown_priority InitScriptsHook = 0"
| "shutdown_priority ShutdownHandlersHook = 0"
| "shutdown_priority ShutdownServicesHook = SERVICE_SHUTDOWN_PRIORITY"
| "shutdown_priority AfterServiceShutdownHook = SERVICE_SHUTDOWN_PRIORITY - 10"

subsection \<open>The current runtime\<close>

definition get_current_runtime :: "('r option, 'r) prog" where
  "get_current_runtime rt = (case rt of None \<Rightarrow> Inl ValueError | Some r \<Rightarrow> Inr r, rt)"

definition set_current_runtime :: "'r \<Rightarrow> ('r option, unit) prog" where
  "set_current_runtime r rt = (Inr (), Some r)"

text \<open>\<open>initialize_runtime\<close>, with \<open>create_from_environment\<close> as an argument.\<close>

definition initialize_runtime :: "'r result \<Rightarrow> ('r option, 'r) prog" where
  "initialize_runtime create rt =
     (case get_current_runtime rt of
        (Inr r, rt') \<Rightarrow> (Inr r, rt')
      | (Inl e, rt') \<Rightarrow>
          (if e \<noteq> ValueError then (Inl e, rt')
           else case create of
                  Inl e' \<Rightarrow> (Inl e', rt')
                | Inr r \<Rightarrow> bind_s (set_current_runtime r) (\<lambda>_. return_s r) rt'))"

text \<open>\<open>create_from_environment\<close>: the configured component if there is one, else the first that is found.\<close>

definition create_from_environment ::
    "unit result \<Rightarrow> string \<Rightarrow> (string \<Rightarrow> 'c result) \<Rightarrow> 'c list result \<Rightarrow> 'c result" where
  "create_from_environment create_hooks configured load load_all =
     bind_r create_hooks (\<lambda>_.
       if configured \<noteq> [] then (case load configured of Inl _ \<Rightarrow> Inl ValueError | Inr c \<Rightarrow> Inr c)
       else bind_r load_all (\<lambda>components. case components of [] \<Rightarrow> Inl ValueError | c # _ \<Rightarrow> Inr c))"

subsection \<open>The life of a runtime\<close>

text \<open>Where \<open>run\<close> is on the main thread, the monitor in its thread, and a call of \<open>exit\<close> in its thread.\<close>

datatype main_pc = NotRun | StartHooks | Registering | Serving | CleaningUp "exn option" | Returned "exn option"
datatype monitor_pc = NoMonitor | WaitingForGateway | ReadyHooks | MonitorEnded
datatype shutdown_pc = Called | ShutdownHooks | StoppingServer | ShutdownEnded

record runtime =
  rt_starting :: bool
  rt_ready :: bool
  rt_stopping :: bool
  rt_stopped :: bool
  rt_exit_code :: int
  rt_main :: main_pc
  rt_monitor :: monitor_pc
  rt_calls :: "shutdown_pc list"
  rt_server_stopped :: bool
  rt_hooks_run :: nat

definition new_runtime :: runtime where
  "new_runtime =
     \<lparr>rt_starting = False, rt_ready = False, rt_stopping = False, rt_stopped = False, rt_exit_code = 0,
      rt_main = NotRun, rt_monitor = NoMonitor, rt_calls = [], rt_server_stopped = False, rt_hooks_run = 0\<rparr>"

definition goto_call :: "nat \<Rightarrow> shutdown_pc \<Rightarrow> runtime \<Rightarrow> runtime" where
  "goto_call t pc r = r\<lparr>rt_calls := (rt_calls r)[t := pc]\<rparr>"

text \<open>
  What makes a step: the program, a caller of \<open>exit\<close>, or the server, which fails on its own. The server is a
  parameter of the model: it serves until its \<open>shutdown\<close> was called; \<open>early_stop\<close> tells whether a call
  before it serves has an effect or raises, as stopping a reactor of Twisted that is not running does.
  The lock makes the check and the setting of \<open>stopping\<close> one step.
\<close>

datatype runtime_label = Program | CallExit int | ServerFails exn

inductive runtime_step :: "bool \<Rightarrow> runtime_label \<Rightarrow> runtime \<Rightarrow> runtime \<Rightarrow> bool" for early_stop where
  filesystem_fails: "rt_main r = NotRun \<Longrightarrow> runtime_step early_stop Program r (r\<lparr>rt_main := Returned (Some e)\<rparr>)"
| on_starting: "rt_main r = NotRun \<Longrightarrow> runtime_step early_stop Program r (r\<lparr>rt_starting := True, rt_main := StartHooks\<rparr>)"
| start_hooks_fail: "rt_main r = StartHooks \<Longrightarrow> runtime_step early_stop Program r (r\<lparr>rt_main := Returned (Some e)\<rparr>)"
| started: "rt_main r = StartHooks \<Longrightarrow> runtime_step early_stop Program r (r\<lparr>rt_main := Registering\<rparr>)"
| register_fails: "rt_main r = Registering \<Longrightarrow> runtime_step early_stop Program r (r\<lparr>rt_main := Returned (Some e)\<rparr>)"
| serve: "rt_main r = Registering \<Longrightarrow> runtime_step early_stop Program r (r\<lparr>rt_main := Serving, rt_monitor := WaitingForGateway\<rparr>)"
| served: "rt_main r = Serving \<Longrightarrow> rt_server_stopped r \<Longrightarrow> runtime_step early_stop Program r (r\<lparr>rt_main := CleaningUp None\<rparr>)"
| server_fails: "rt_main r = Serving \<Longrightarrow> runtime_step early_stop (ServerFails e) r (r\<lparr>rt_main := CleaningUp (Some e)\<rparr>)"
| cleaned: "rt_main r = CleaningUp e \<Longrightarrow> runtime_step early_stop Program r (r\<lparr>rt_main := Returned e, rt_stopped := True\<rparr>)"
| cleanup_fails: "rt_main r = CleaningUp e \<Longrightarrow> runtime_step early_stop Program r (r\<lparr>rt_main := Returned (Some e')\<rparr>)"
| gateway_up: "rt_monitor r = WaitingForGateway \<Longrightarrow> runtime_step early_stop Program r (r\<lparr>rt_monitor := ReadyHooks\<rparr>)"
| gateway_timeout: "rt_monitor r = WaitingForGateway \<Longrightarrow> runtime_step early_stop Program r (r\<lparr>rt_monitor := MonitorEnded\<rparr>)"
| ready: "rt_monitor r = ReadyHooks \<Longrightarrow> runtime_step early_stop Program r (r\<lparr>rt_monitor := MonitorEnded, rt_ready := True\<rparr>)"
| ready_hooks_fail: "rt_monitor r = ReadyHooks \<Longrightarrow> runtime_step early_stop Program r (r\<lparr>rt_monitor := MonitorEnded\<rparr>)"
| exit: "runtime_step early_stop (CallExit code) r (r\<lparr>rt_exit_code := code, rt_calls := rt_calls r @ [Called]\<rparr>)"
| shutdown_first: "t < length (rt_calls r) \<Longrightarrow> rt_calls r ! t = Called \<Longrightarrow> \<not> rt_stopping r \<Longrightarrow>
    runtime_step early_stop Program r (goto_call t ShutdownHooks (r\<lparr>rt_stopping := True\<rparr>))"
| shutdown_again: "t < length (rt_calls r) \<Longrightarrow> rt_calls r ! t = Called \<Longrightarrow> rt_stopping r \<Longrightarrow>
    runtime_step early_stop Program r (goto_call t ShutdownEnded r)"
| shutdown_hooks_run: "t < length (rt_calls r) \<Longrightarrow> rt_calls r ! t = ShutdownHooks \<Longrightarrow>
    runtime_step early_stop Program r (goto_call t StoppingServer (r\<lparr>rt_hooks_run := Suc (rt_hooks_run r)\<rparr>))"
| server_stops: "t < length (rt_calls r) \<Longrightarrow> rt_calls r ! t = StoppingServer \<Longrightarrow>
    early_stop \<or> rt_main r \<notin> {NotRun, StartHooks, Registering} \<Longrightarrow>
    runtime_step early_stop Program r (goto_call t ShutdownEnded (r\<lparr>rt_server_stopped := True\<rparr>))"
| server_not_running: "t < length (rt_calls r) \<Longrightarrow> rt_calls r ! t = StoppingServer \<Longrightarrow>
    \<not> early_stop \<Longrightarrow> rt_main r \<in> {NotRun, StartHooks, Registering} \<Longrightarrow>
    runtime_step early_stop Program r (goto_call t ShutdownEnded r)"

definition any_step :: "bool \<Rightarrow> runtime \<Rightarrow> runtime \<Rightarrow> bool" where
  "any_step early_stop r r' \<longleftrightarrow> (\<exists>l. runtime_step early_stop l r r')"

definition runtime_reachable :: "bool \<Rightarrow> runtime \<Rightarrow> bool" where
  "runtime_reachable early_stop r \<longleftrightarrow> (any_step early_stop)\<^sup>*\<^sup>* new_runtime r"

text \<open>The result of \<open>main\<close>: the exit code of the process, or the exception that ends it.\<close>

definition main_exit :: "(exn \<Rightarrow> int option) \<Rightarrow> exn option \<Rightarrow> int \<Rightarrow> exn + int" where
  "main_exit localstack_exit_code result exit_code =
     (case result of
        None \<Rightarrow> Inr exit_code
      | Some e \<Rightarrow> (case localstack_exit_code e of Some c \<Rightarrow> Inr c | None \<Rightarrow> Inl e))"

subsection \<open>Lemmas: hooks\<close>

lemma hooks_sorted: "sorted_wrt (\<lambda>g h. hook_priority h \<le> hook_priority g) (load_all_sorted hook_priority plugins)"
proof -
  have "sorted (map (\<lambda>h. - hook_priority h) (load_all_sorted hook_priority plugins))"
    by (simp add: load_all_sorted_def)
  then show ?thesis by (simp add: sorted_wrt_map)
qed

lemma hooks_stable:
  "filter (\<lambda>h. hook_priority h = p) (load_all_sorted hook_priority plugins) = filter (\<lambda>h. hook_priority h = p) plugins"
proof -
  have "filter (\<lambda>h. - hook_priority h = - p) (sort_key (\<lambda>h. - hook_priority h) plugins) = filter (\<lambda>h. - hook_priority h = - p) plugins"
    by (rule sort_key_stable)
  then show ?thesis by (simp add: load_all_sorted_def)
qed

subsection \<open>Lemmas: the invariant\<close>

abbreviation hooks_running :: "runtime \<Rightarrow> nat" where
  "hooks_running r \<equiv> count_list (rt_calls r) ShutdownHooks"

abbreviation stopping_server :: "runtime \<Rightarrow> nat" where
  "stopping_server r \<equiv> count_list (rt_calls r) StoppingServer"

lemma count_update:
  "t < length xs \<Longrightarrow> count_list (xs[t := y]) x + (if xs ! t = x then 1 else 0) = count_list xs x + (if y = x then 1 else 0)"
proof (induction xs arbitrary: t)
  case (Cons z xs)
  then show ?case by (cases t) (fastforce split: if_splits)+
qed simp

lemma call_moves:
  assumes "t < length xs" "xs ! t = a" "a \<noteq> b"
  shows "Suc (count_list (xs[t := b]) a) = count_list xs a" "count_list (xs[t := b]) b = Suc (count_list xs b)"
    and "c \<noteq> a \<Longrightarrow> c \<noteq> b \<Longrightarrow> count_list (xs[t := b]) c = count_list xs c"
  using count_update [OF assms(1), of b a] count_update [OF assms(1), of b b] count_update [OF assms(1), of b c] assms(2,3)
  by simp_all

lemma goto_call_simps [simp]:
  "rt_calls (goto_call t pc r) = (rt_calls r)[t := pc]" "rt_main (goto_call t pc r) = rt_main r" "rt_monitor (goto_call t pc r) = rt_monitor r"
  "rt_starting (goto_call t pc r) = rt_starting r" "rt_ready (goto_call t pc r) = rt_ready r" "rt_stopping (goto_call t pc r) = rt_stopping r"
  "rt_stopped (goto_call t pc r) = rt_stopped r" "rt_server_stopped (goto_call t pc r) = rt_server_stopped r"
  "rt_hooks_run (goto_call t pc r) = rt_hooks_run r" "rt_exit_code (goto_call t pc r) = rt_exit_code r"
  by (simp_all add: goto_call_def)

text \<open>The threads that shut down, and the flags of the main thread and the monitor.\<close>

definition shutdown_inv :: "runtime \<Rightarrow> bool" where
  "shutdown_inv r \<longleftrightarrow>
     (if rt_stopping r
      then rt_hooks_run r + hooks_running r = 1 \<and> hooks_running r + stopping_server r \<le> 1
        \<and> (rt_server_stopped r \<longrightarrow> hooks_running r + stopping_server r = 0)
      else rt_hooks_run r = 0 \<and> hooks_running r = 0 \<and> stopping_server r = 0 \<and> \<not> rt_server_stopped r)"

definition flags_inv :: "runtime \<Rightarrow> bool" where
  "flags_inv r \<longleftrightarrow>
     (rt_stopped r \<longrightarrow> (\<exists>e. rt_main r = Returned e) \<and> rt_monitor r \<noteq> NoMonitor)
     \<and> (rt_monitor r \<noteq> NoMonitor \<longrightarrow> rt_starting r) \<and> (rt_ready r \<longrightarrow> rt_monitor r = MonitorEnded)
     \<and> (rt_main r \<in> {StartHooks, Registering} \<longrightarrow> rt_starting r \<and> rt_monitor r = NoMonitor)
     \<and> (rt_main r = NotRun \<longrightarrow> rt_monitor r = NoMonitor)
     \<and> (rt_main r = Serving \<or> (\<exists>e. rt_main r = CleaningUp e) \<longrightarrow> rt_monitor r \<noteq> NoMonitor)"

lemma shutdown_inv_step:
  assumes "runtime_step early_stop l r r'" "shutdown_inv r"
  shows "shutdown_inv r'"
  using assms(1)
proof cases
  case (shutdown_first t)
  then show ?thesis using assms(2) call_moves [OF shutdown_first(3,4), of ShutdownHooks] by (simp add: shutdown_inv_def)
next
  case (shutdown_again t)
  then show ?thesis using assms(2) call_moves [OF shutdown_again(3,4), of ShutdownEnded] by (simp add: shutdown_inv_def)
next
  case (shutdown_hooks_run t)
  then show ?thesis using assms(2) call_moves [OF shutdown_hooks_run(3,4), of StoppingServer]
    by (auto simp: shutdown_inv_def split: if_splits)
next
  case (server_stops t)
  then show ?thesis using assms(2) call_moves [OF server_stops(3,4), of ShutdownEnded]
    by (auto simp: shutdown_inv_def split: if_splits)
next
  case (server_not_running t)
  then show ?thesis using assms(2) call_moves [OF server_not_running(3,4), of ShutdownEnded]
    by (auto simp: shutdown_inv_def split: if_splits)
qed (use assms(2) in \<open>auto simp: shutdown_inv_def split: if_splits\<close>)

lemma flags_inv_step:
  assumes "runtime_step early_stop l r r'" "flags_inv r"
  shows "flags_inv r'"
  using assms by cases (auto simp: flags_inv_def)

lemma reachable_inv: "runtime_reachable early_stop r \<Longrightarrow> shutdown_inv r \<and> flags_inv r"
  unfolding runtime_reachable_def
proof (induction rule: rtranclp_induct)
  case base
  show ?case by (simp add: new_runtime_def shutdown_inv_def flags_inv_def)
next
  case (step r r')
  then show ?case unfolding any_step_def using shutdown_inv_step flags_inv_step by blast
qed

text \<open>What the program has left to do without further calls.\<close>

fun call_work :: "shutdown_pc \<Rightarrow> nat" where
  "call_work Called = 3" | "call_work ShutdownHooks = 2" | "call_work StoppingServer = 1" | "call_work ShutdownEnded = 0"

fun main_work :: "main_pc \<Rightarrow> nat" where
  "main_work NotRun = 8" | "main_work StartHooks = 7" | "main_work Registering = 6" | "main_work Serving = 2"
| "main_work (CleaningUp e) = 1" | "main_work (Returned e) = 0"

fun monitor_work :: "monitor_pc \<Rightarrow> nat" where
  "monitor_work NoMonitor = 0" | "monitor_work WaitingForGateway = 2" | "monitor_work ReadyHooks = 1" | "monitor_work MonitorEnded = 0"

definition work_left :: "runtime \<Rightarrow> nat" where
  "work_left r = sum_list (map call_work (rt_calls r)) + main_work (rt_main r) + monitor_work (rt_monitor r)"

lemma call_work_less:
  "t < length xs \<Longrightarrow> call_work pc < call_work (xs ! t) \<Longrightarrow> sum_list (map call_work (xs[t := pc])) < sum_list (map call_work xs)"
proof (induction xs arbitrary: t)
  case (Cons z xs)
  then show ?case by (cases t) auto
qed simp

lemma program_works: "runtime_step early_stop Program r r' \<Longrightarrow> work_left r' < work_left r"
  by (cases rule: runtime_step.cases) (auto simp: work_left_def intro!: call_work_less)

lemma program_bounded: "(runtime_step early_stop Program ^^ n) r r' \<Longrightarrow> n + work_left r' \<le> work_left r"
proof (induction n arbitrary: r')
  case (Suc n)
  then obtain m where "(runtime_step early_stop Program ^^ n) r m" "runtime_step early_stop Program m r'" by auto
  with Suc.IH [of m] program_works [of early_stop m r'] show ?case by simp
qed simp

text \<open>A shutdown of a serving runtime is under way, or the server was stopped.\<close>

definition shutting_down :: "int \<Rightarrow> runtime \<Rightarrow> bool" where
  "shutting_down code r \<longleftrightarrow>
     shutdown_inv r \<and> rt_main r \<notin> {NotRun, StartHooks, Registering} \<and> rt_exit_code r = code
     \<and> (if rt_stopping r then rt_server_stopped r \<or> 0 < hooks_running r + stopping_server r else Called \<in> set (rt_calls r))"

lemma shutting_down_step:
  assumes step: "runtime_step early_stop Program r r'" and "shutting_down code r"
  shows "shutting_down code r'"
proof -
  have "shutdown_inv r'" using shutdown_inv_step [OF step] assms(2) by (simp add: shutting_down_def)
  show ?thesis
    using step
  proof cases
    case (shutdown_first t)
    then show ?thesis using \<open>shutdown_inv r'\<close> assms(2) call_moves [OF shutdown_first(2,3), of ShutdownHooks] by (simp add: shutting_down_def)
  next
    case (shutdown_again t)
    then show ?thesis using \<open>shutdown_inv r'\<close> assms(2) call_moves [OF shutdown_again(2,3), of ShutdownEnded] by (simp add: shutting_down_def)
  next
    case (shutdown_hooks_run t)
    then show ?thesis using \<open>shutdown_inv r'\<close> assms(2) call_moves [OF shutdown_hooks_run(2,3), of StoppingServer]
      by (auto simp: shutting_down_def shutdown_inv_def split: if_splits)
  next
    case (server_stops t)
    then show ?thesis using \<open>shutdown_inv r'\<close> assms(2) call_moves [OF server_stops(2,3), of ShutdownEnded]
      by (auto simp: shutting_down_def shutdown_inv_def split: if_splits)
  qed (use \<open>shutdown_inv r'\<close> assms(2) in \<open>auto simp: shutting_down_def\<close>)
qed

lemma in_calls: "pc \<in> set (rt_calls r) \<longleftrightarrow> (\<exists>t < length (rt_calls r). rt_calls r ! t = pc)"
  by (simp add: in_set_conv_nth)

lemma shutting_down_ends:
  assumes "shutting_down code r" "\<And>r'. \<not> runtime_step early_stop Program r r'"
  shows "(\<exists>e. rt_main r = Returned e) \<and> rt_stopping r \<and> rt_hooks_run r = 1"
proof -
  have "rt_calls r ! t \<noteq> Called" "rt_calls r ! t \<noteq> ShutdownHooks" "rt_calls r ! t \<noteq> StoppingServer"
    if "t < length (rt_calls r)" for t
    using that assms(2) runtime_step.shutdown_first [of t r] runtime_step.shutdown_again [of t r] runtime_step.shutdown_hooks_run [of t r]
      runtime_step.server_stops [of t r] runtime_step.server_not_running [of t r] by blast+
  then have "Called \<notin> set (rt_calls r)" "ShutdownHooks \<notin> set (rt_calls r)" "StoppingServer \<notin> set (rt_calls r)"
    unfolding in_calls by blast+
  then have none: "Called \<notin> set (rt_calls r)" "hooks_running r = 0" "stopping_server r = 0" by (simp_all add: count_list_0_iff)
  then have "rt_stopping r" "rt_server_stopped r" "rt_hooks_run r = 1"
    using assms(1) by (auto simp: shutting_down_def shutdown_inv_def split: if_splits)
  moreover have "rt_main r \<noteq> Serving" "rt_main r \<noteq> CleaningUp e" for e
    using assms(2) runtime_step.served runtime_step.cleaned \<open>rt_server_stopped r\<close> by blast+
  ultimately show ?thesis using assms(1) by (cases "rt_main r") (auto simp: shutting_down_def)
qed

subsection \<open>Properties\<close>

text \<open>
  C34: in every reachable state of the runtime, however often it was asked to exit, the shutdown hooks ran at
  most once and only after \<open>stopping\<close> was set; the server is told to stop only after the hooks ran; \<open>stopped\<close>
  means that \<open>run\<close> has returned, and \<open>ready\<close> that the start hooks ran and the gateway was waited for.
\<close>

theorem runtime_lifecycle:
  assumes "runtime_reachable early_stop r"
  shows "rt_hooks_run r \<le> 1 \<and> (0 < rt_hooks_run r \<longrightarrow> rt_stopping r) \<and> (rt_server_stopped r \<longrightarrow> rt_hooks_run r = 1)
      \<and> (rt_stopped r \<longrightarrow> (\<exists>e. rt_main r = Returned e)) \<and> (rt_ready r \<longrightarrow> rt_starting r \<and> rt_monitor r = MonitorEnded)"
  using reachable_inv [OF assms] by (auto simp: shutdown_inv_def flags_inv_def split: if_splits)

text \<open>A runtime that serves, and one that was asked to exit.\<close>

definition serving_runtime :: runtime where
  "serving_runtime = new_runtime\<lparr>rt_starting := True, rt_main := Serving, rt_monitor := WaitingForGateway\<rparr>"

lemma any_program: "runtime_step early_stop l r r' \<Longrightarrow> any_step early_stop r r'"
  by (auto simp: any_step_def)

lemma serving_reachable: "runtime_reachable early_stop serving_runtime"
proof -
  have "runtime_step early_stop Program new_runtime (new_runtime\<lparr>rt_starting := True, rt_main := StartHooks\<rparr>)"
    by (rule on_starting) (simp add: new_runtime_def)
  moreover have "runtime_step early_stop Program (new_runtime\<lparr>rt_starting := True, rt_main := StartHooks\<rparr>)
      (new_runtime\<lparr>rt_starting := True, rt_main := Registering\<rparr>)"
    using started [of "new_runtime\<lparr>rt_starting := True, rt_main := StartHooks\<rparr>" early_stop] by (simp add: new_runtime_def)
  moreover have "runtime_step early_stop Program (new_runtime\<lparr>rt_starting := True, rt_main := Registering\<rparr>) serving_runtime"
    using serve [of "new_runtime\<lparr>rt_starting := True, rt_main := Registering\<rparr>" early_stop] by (simp add: new_runtime_def serving_runtime_def)
  ultimately show ?thesis
    unfolding runtime_reachable_def by (meson any_program converse_rtranclp_into_rtranclp rtranclp.rtrancl_refl)
qed

lemma runtime_lifecycle_witness:
  "rt_hooks_run serving_runtime \<le> 1 \<and> \<not> rt_stopped serving_runtime"
  using runtime_lifecycle [OF serving_reachable [of True]] by (auto simp: serving_runtime_def new_runtime_def)



text \<open>A runtime whose only effective shutdown came before the server was running.\<close>

definition shutdown_lost :: "runtime \<Rightarrow> bool" where
  "shutdown_lost r \<longleftrightarrow>
     rt_main r = Serving \<and> rt_stopping r \<and> \<not> rt_stopped r \<and> \<not> rt_server_stopped r \<and> set (rt_calls r) \<subseteq> {Called, ShutdownEnded}"

lemma shutdown_lost_step:
  assumes "runtime_step early_stop l r r'" "shutdown_lost r" "\<And>e. l \<noteq> ServerFails e"
  shows "shutdown_lost r'"
proof -
  have only: "rt_calls r ! t \<in> {Called, ShutdownEnded}" if "t < length (rt_calls r)" for t
    using that assms(2) unfolding shutdown_lost_def by (meson nth_mem subsetD)
  show ?thesis
    using assms
  proof cases
    case (shutdown_again t)
    then show ?thesis using assms(2) set_update_subset_insert [of "rt_calls r" t ShutdownEnded] by (auto simp: shutdown_lost_def)
  next
    case (shutdown_hooks_run t)
    then show ?thesis using only [of t] by simp
  next
    case (server_stops t)
    then show ?thesis using only [of t] by simp
  next
    case (server_not_running t)
    then show ?thesis using only [of t] by simp
  qed (use assms(2,3) in \<open>auto simp: shutdown_lost_def\<close>)
qed

lemma shutdown_lost_forever:
  "(\<lambda>s s'. \<exists>l. (\<forall>e. l \<noteq> ServerFails e) \<and> runtime_step early_stop l s s')\<^sup>*\<^sup>* r r' \<Longrightarrow> shutdown_lost r \<Longrightarrow> shutdown_lost r'"
  by (induction rule: rtranclp_induct) (auto dest: shutdown_lost_step)

text \<open>
  C36: with a server that cannot be stopped before it runs, as the one of Twisted, a call of \<open>exit\<close> during
  the start is lost for good: the runtime reaches a state from which, as long as the server does not fail,
  it serves forever, whatever calls of \<open>exit\<close> follow, and answers every external request with 503.
\<close>

theorem early_exit_lost:
  "\<exists>r. runtime_reachable False r \<and>
     (\<forall>r'. (\<lambda>s s'. \<exists>l. (\<forall>e. l \<noteq> ServerFails e) \<and> runtime_step False l s s')\<^sup>*\<^sup>* r r' \<longrightarrow>
        rt_main r' = Serving \<and> runtime_shutdown_handler (rt_stopped r') (rt_stopping r') False ''/'' = Some 503)"
proof -
  let ?r0 = "new_runtime\<lparr>rt_starting := True, rt_main := StartHooks\<rparr>"
  let ?r1 = "?r0\<lparr>rt_exit_code := 0, rt_calls := rt_calls ?r0 @ [Called]\<rparr>"
  let ?r2 = "goto_call 0 ShutdownHooks (?r1\<lparr>rt_stopping := True\<rparr>)"
  let ?r3 = "goto_call 0 StoppingServer (?r2\<lparr>rt_hooks_run := Suc (rt_hooks_run ?r2)\<rparr>)"
  let ?r4 = "goto_call 0 ShutdownEnded ?r3"
  let ?r5 = "?r4\<lparr>rt_main := Registering\<rparr>"
  let ?r6 = "?r5\<lparr>rt_main := Serving, rt_monitor := WaitingForGateway\<rparr>"
  have "any_step False new_runtime ?r0" by (intro any_program [OF on_starting]) (simp add: new_runtime_def)
  moreover have "any_step False ?r0 ?r1" by (rule any_program [OF runtime_step.exit])
  moreover have "any_step False ?r1 ?r2" by (intro any_program [OF shutdown_first]) (simp_all add: new_runtime_def)
  moreover have "any_step False ?r2 ?r3" by (intro any_program [OF shutdown_hooks_run]) (simp_all add: new_runtime_def)
  moreover have "any_step False ?r3 ?r4" by (intro any_program [OF server_not_running]) (simp_all add: new_runtime_def)
  moreover have "any_step False ?r4 ?r5" by (intro any_program [OF started]) (simp add: new_runtime_def)
  moreover have "any_step False ?r5 ?r6" by (intro any_program [OF serve]) simp
  ultimately have "runtime_reachable False ?r6"
    unfolding runtime_reachable_def by (meson converse_rtranclp_into_rtranclp rtranclp.rtrancl_refl)
  moreover have lost: "shutdown_lost ?r6" by (simp add: shutdown_lost_def new_runtime_def)
  have "rt_main r' = Serving \<and> runtime_shutdown_handler (rt_stopped r') (rt_stopping r') False ''/'' = Some 503"
    if "(\<lambda>s s'. \<exists>l. (\<forall>e. l \<noteq> ServerFails e) \<and> runtime_step False l s s')\<^sup>*\<^sup>* ?r6 r'" for r'
    using shutdown_lost_forever [OF that lost] by (auto simp: shutdown_lost_def runtime_shutdown_handler_def)
  ultimately show ?thesis by blast
qed

lemma early_exit_lost_witness:
  "\<exists>r. runtime_reachable False r \<and> rt_main r = Serving \<and> runtime_shutdown_handler (rt_stopped r) (rt_stopping r) False ''/'' = Some 503"
  using early_exit_lost by blast

text \<open>The hooks of a shutdown: the services stop after the shutdown handlers and before the handlers that follow them.\<close>

lemma shutdown_hooks_ordered:
  assumes "load_all_sorted shutdown_priority plugins = a @ ShutdownServicesHook # b"
  shows "set b \<inter> {InitScriptsHook, ShutdownHandlersHook} = {}" "AfterServiceShutdownHook \<notin> set a"
  using hooks_sorted [of shutdown_priority plugins] unfolding assms
  by (auto simp: sorted_wrt_append SERVICE_SHUTDOWN_PRIORITY_def)

end
