(* ===== verification/InternalResources.thy ===== *)
theory InternalResources
  imports Collections ServiceLifecycle
begin

text \<open>
  The internal endpoints of \<open>services/internal.py\<close> that keep or change state: the health resource, whose state
  is a dictionary shared with the answers it gives, and the configuration resource. The properties: what a
  report says as long as nobody wrote into the services, and what happens to the reports once somebody did.
\<close>

subsection \<open>Merging in place\<close>

text \<open>
  \<open>merge_recursive\<close> as a change of the destination: an exception leaves behind what was merged before it.
\<close>

fun merge_effect :: "pyval list \<Rightarrow> bool \<Rightarrow> (pyval \<times> pyval) list \<Rightarrow> pyval \<Rightarrow> exn option \<times> pyval" where
  "merge_effect none_values overwrite [] destination = (None, destination)"
| "merge_effect none_values overwrite ((key, PDict kvs) # rest) destination =
     (case destination of
        PDict d \<Rightarrow>
          (case merge_effect none_values overwrite kvs (case pdict_get d key of None \<Rightarrow> PDict [] | Some node \<Rightarrow> node) of
             (Some e, node) \<Rightarrow> (Some e, PDict (pdict_set key node d))
           | (None, node) \<Rightarrow> merge_effect none_values overwrite rest (PDict (pdict_set key node d)))
      | _ \<Rightarrow> (Some AttributeError, destination))"
| "merge_effect none_values overwrite ((key, v) # rest) destination =
     (case destination of
        PDict d \<Rightarrow>
          merge_effect none_values overwrite rest
            (if overwrite \<or> py_in (case pdict_get d key of None \<Rightarrow> PNone | Some w \<Rightarrow> w) none_values
             then PDict (pdict_set key v d) else destination)
      | PList xs \<Rightarrow>
          if \<not> overwrite then (Some AttributeError, destination)
          else (case num_key key of
                  None \<Rightarrow> (Some TypeError, destination)
                | Some n \<Rightarrow> (case key of PFloat w \<Rightarrow> (Some TypeError, destination)
                    | _ \<Rightarrow> if n < - int (length xs) \<or> int (length xs) \<le> n then (Some IndexError, destination)
                           else merge_effect none_values overwrite rest (PList (xs[nat (n mod int (length xs)) := v]))))
      | _ \<Rightarrow> (Some (if overwrite then TypeError else AttributeError), destination))"

lemma merge_effect_value:
  assumes "\<not> is_dict v"
  shows "merge_effect nv overwrite ((key, v) # rest) dest =
    (case dest of
        PDict d \<Rightarrow> merge_effect nv overwrite rest
            (if overwrite \<or> py_in (case pdict_get d key of None \<Rightarrow> PNone | Some w \<Rightarrow> w) nv then PDict (pdict_set key v d) else dest)
      | PList xs \<Rightarrow>
          if \<not> overwrite then (Some AttributeError, dest)
          else (case num_key key of
                  None \<Rightarrow> (Some TypeError, dest)
                | Some n \<Rightarrow> (case key of PFloat w \<Rightarrow> (Some TypeError, dest)
                    | _ \<Rightarrow> if n < - int (length xs) \<or> int (length xs) \<le> n then (Some IndexError, dest)
                           else merge_effect nv overwrite rest (PList (xs[nat (n mod int (length xs)) := v]))))
      | _ \<Rightarrow> (Some (if overwrite then TypeError else AttributeError), dest))"
  using assms by (induction v) (simp_all add: is_dict_def)

lemma merge_items_any_value:
  assumes "\<not> is_dict v"
  shows "merge_items nv overwrite ((key, v) # rest) dest =
    (case dest of
        PDict d \<Rightarrow> merge_items nv overwrite rest
            (if overwrite \<or> py_in (case pdict_get d key of None \<Rightarrow> PNone | Some w \<Rightarrow> w) nv then PDict (pdict_set key v d) else dest)
      | PList xs \<Rightarrow>
          if \<not> overwrite then Inl AttributeError
          else (case num_key key of
                  None \<Rightarrow> Inl TypeError
                | Some n \<Rightarrow> (case key of PFloat w \<Rightarrow> Inl TypeError
                    | _ \<Rightarrow> if n < - int (length xs) \<or> int (length xs) \<le> n then Inl IndexError
                           else merge_items nv overwrite rest (PList (xs[nat (n mod int (length xs)) := v]))))
      | _ \<Rightarrow> Inl (if overwrite then TypeError else AttributeError))"
  using assms by (induction v) (simp_all add: is_dict_def)

abbreviation effect_result :: "exn option \<times> pyval \<Rightarrow> pyval result" where
  "effect_result r \<equiv> (case r of (None, d) \<Rightarrow> Inr d | (Some e, d) \<Rightarrow> Inl e)"

text \<open>Without an exception it is the merge.\<close>

lemma merge_effect_items: "merge_items nv overwrite kvs dest = effect_result (merge_effect nv overwrite kvs dest)"
proof (induction "size (PDict kvs)" arbitrary: kvs dest rule: less_induct)
  case (less kvs dest)
  show ?case
  proof (cases kvs)
    case (Cons kv rest)
    obtain key v where kv: "kv = (key, v)" by (cases kv)
    have rest: "merge_items nv overwrite rest dest' = effect_result (merge_effect nv overwrite rest dest')" for dest'
      by (rule less) (simp add: Cons)
    show ?thesis
    proof (cases "is_dict v")
      case True
      then obtain kvs' where v: "v = PDict kvs'" by (auto simp: is_dict_def)
      have node: "merge_items nv overwrite kvs' dest' = effect_result (merge_effect nv overwrite kvs' dest')" for dest'
        by (rule less) (simp add: Cons kv v)
      show ?thesis
      proof (cases dest)
        case (PDict d)
        obtain e r where "merge_effect nv overwrite kvs' (case pdict_get d key of None \<Rightarrow> PDict [] | Some node \<Rightarrow> node) = (e, r)"
          by (metis surj_pair)
        then show ?thesis using PDict Cons kv v rest node by (cases e) simp_all
      qed (simp_all add: Cons kv v)
    next
      case False
      show ?thesis
        unfolding Cons kv merge_effect_value [OF False] merge_items_any_value [OF False] rest
        by (cases dest; simp; cases "num_key key"; simp; cases key; simp)
    qed
  qed simp
qed

subsection \<open>The health resource\<close>

text \<open>
  The state of the resource is a dictionary. \<open>on_put\<close> splits a key at its colons; the loop over the parts
  looks every part up in the dictionary of the top, which makes an empty dictionary for a missing one.
\<close>

definition add_missing :: "ustr \<Rightarrow> (pyval \<times> pyval) list \<Rightarrow> (pyval \<times> pyval) list" where
  "add_missing p state = (if pdict_get state (PStr p) = None then pdict_set (PStr p) (PDict []) state else state)"

definition put_path :: "ustr list \<Rightarrow> pyval \<Rightarrow> (pyval \<times> pyval) list \<Rightarrow> (pyval \<times> pyval) list result" where
  "put_path path v state =
     (let parents = butlast path; state1 = fold add_missing parents state; key = PStr (last path)
      in if parents = [] then Inr (pdict_set key v state1)
         else (case pdict_get state1 (PStr (last parents)) of
                 Some (PDict d) \<Rightarrow> Inr (pdict_set (PStr (last parents)) (PDict (pdict_set key v d)) state1)
               | _ \<Rightarrow> Inl TypeError))"

fun put_items :: "(pyval \<times> pyval) list \<Rightarrow> (pyval \<times> pyval) list \<Rightarrow> (pyval \<times> pyval) list result" where
  "put_items [] state = Inr state"
| "put_items ((PStr k, v) # kvs) state = bind_r (put_path (split_on 58 k) v state) (put_items kvs)"
| "put_items ((k, v) # kvs) state = Inl TypeError"

text \<open>\<open>body\<close> is the JSON document of the request, None if it is not one.\<close>

definition health_on_put :: "pyval \<Rightarrow> ((pyval \<times> pyval) list, pyval) prog" where
  "health_on_put body state =
     (case (if truthy body then body else PDict []) of
        PDict data \<Rightarrow>
          (case put_items data [] of
             Inl e \<Rightarrow> (Inl e, state)
           | Inr new \<Rightarrow>
               (let (e, merged) = merge_effect [PNone] True new (PDict state);
                    state' = (case merged of PDict d \<Rightarrow> d | _ \<Rightarrow> state)
                in (case e of Some x \<Rightarrow> Inl x | None \<Rightarrow> Inr (str_dict [(cp ''status'', PStr (cp ''OK''))]), state')))
      | _ \<Rightarrow> (Inl AttributeError, state))"

text \<open>\<open>on_post\<close>: the status, and what the action asks for.\<close>

datatype health_action = NoAction | RestartSupervisor | ExitRuntime

definition health_on_post :: "pyval \<Rightarrow> (int \<times> health_action) result" where
  "health_on_post body =
     (if \<not> truthy body then Inr (400, NoAction)
      else case body of
             PDict data \<Rightarrow>
               (let action = pdict_get data (PStr (cp ''action''))
                in Inr (200, if action = Some (PStr (cp ''restart'')) then RestartSupervisor
                             else if action = Some (PStr (cp ''kill'')) then ExitRuntime else NoAction))
           | _ \<Rightarrow> Inl AttributeError)"

text \<open>
  \<open>on_get\<close>: the states of the services are merged into a copy of the state. The copy is shallow: a dictionary
  under \<open>services\<close> is the one of the state, and the merge changes it there.
\<close>

fun service_values :: "(string \<times> service_state option) list \<Rightarrow> (pyval \<times> pyval) list result" where
  "service_values [] = Inr []"
| "service_values ((name, state) # ss) =
     (case state of
        None \<Rightarrow> Inl AttributeError
      | Some s \<Rightarrow> map_sum id (Cons (PStr (cp name), PStr (cp (state_value s)))) (service_values ss))"

abbreviation SERVICES :: pyval where
  "SERVICES \<equiv> PStr (cp ''services'')"

definition health_report :: "ustr \<Rightarrow> (pyval \<times> pyval) list \<Rightarrow> ((pyval \<times> pyval) list, (pyval \<times> pyval) list) prog" where
  "health_report version services state =
     (case merge_recursive (PDict [(SERVICES, PDict services)]) (PDict state) None False of
        Inl e \<Rightarrow> (Inl e, state)
      | Inr merged \<Rightarrow>
          (let r = (case merged of PDict d \<Rightarrow> d | _ \<Rightarrow> [])
           in (Inr (pdict_set (PStr (cp ''version'')) (PStr version) (pdict_set (PStr (cp ''edition'')) (PStr (cp ''unknown'')) r)),
               case pdict_get state SERVICES of
                 Some (PDict _) \<Rightarrow> pdict_set SERVICES (the (pdict_get r SERVICES)) state
               | _ \<Rightarrow> state)))"

definition health_on_get ::
    "'w plugin_env \<Rightarrow> ustr \<Rightarrow> ustr \<Rightarrow> ('w manager \<times> (pyval \<times> pyval) list, (pyval \<times> pyval) list) prog" where
  "health_on_get env version path = (\<lambda>(m, state).
     let reload = contains_sub (cp ''reload'') path
     in case bind_s (when_s reload (bind_s (check_all env) (\<lambda>_. return_s ()))) (\<lambda>_. get_states env) m of
          (Inl e, m') \<Rightarrow> (Inl e, m', state)
        | (Inr states, m') \<Rightarrow>
            (case service_values states of
               Inl e \<Rightarrow> (Inl e, m', state)
             | Inr services \<Rightarrow> (case health_report version services state of (r, state') \<Rightarrow> (r, m', state'))))"

subsection \<open>The configuration resource\<close>

text \<open>\<open>is_number\<close>: only these two exceptions of \<open>float\<close> are caught.\<close>

definition is_number :: "pyval \<Rightarrow> bool result" where
  "is_number v =
     (case v of
        PBool b \<Rightarrow> Inr False
      | _ \<Rightarrow> (case py_float v of
               Inr w \<Rightarrow> Inr True
             | Inl e \<Rightarrow> if e = TypeError \<or> e = ValueError then Inr False else Inl e))"

definition variable_char :: "nat \<Rightarrow> bool" where
  "variable_char c \<longleftrightarrow> c = 95 \<or> (97 \<le> c \<and> c \<le> 122) \<or> (65 \<le> c \<and> c \<le> 90) \<or> (48 \<le> c \<and> c \<le> 57)"

text \<open>\<open>^[_a-zA-Z0-9]+$\<close>; \<open>$\<close> also matches before a newline at the end.\<close>

definition variable_name :: "ustr \<Rightarrow> bool" where
  "variable_name s =
     (let t = (if s \<noteq> [] \<and> last s = 10 then butlast s else s) in t \<noteq> [] \<and> list_all variable_char t)"

text \<open>
  The module \<open>config\<close> as a dictionary, and the listeners, which see every update until one of them raises;
  None is not an update.
\<close>

type_synonym config = "(ustr, pyval) dict"

fun trigger_config_listeners :: "(ustr \<Rightarrow> pyval \<Rightarrow> ('s, unit) prog) list \<Rightarrow> ustr \<Rightarrow> pyval \<Rightarrow> ('s, unit) prog" where
  "trigger_config_listeners [] variable v = return_s ()"
| "trigger_config_listeners (l # ls) variable v = bind_s (l variable v) (\<lambda>_. trigger_config_listeners ls variable v)"

definition update_config_variable ::
    "(ustr \<Rightarrow> pyval \<Rightarrow> (config, unit) prog) list \<Rightarrow> ustr \<Rightarrow> pyval \<Rightarrow> (config, unit) prog" where
  "update_config_variable listeners variable v =
     (if v = PNone then return_s ()
      else bind_s (\<lambda>c. (Inr (), dict_set variable v c)) (\<lambda>_. trigger_config_listeners listeners variable v))"

text \<open>\<open>ConfigResource.on_post\<close>: None is the answer 400, else the variable and its value.\<close>

definition config_on_post ::
    "(ustr \<Rightarrow> pyval \<Rightarrow> (config, unit) prog) list \<Rightarrow> pyval \<Rightarrow> (config, (ustr \<times> pyval) option) prog" where
  "config_on_post listeners body config =
     (case body of
        PDict data \<Rightarrow>
          (case pdict_get data (PStr (cp ''variable'')) of
             Some (PStr variable) \<Rightarrow>
               if \<not> variable_name variable then (Inr None, config)
               else let new = (case pdict_get data (PStr (cp ''value'')) of None \<Rightarrow> PNone | Some v \<Rightarrow> v)
                    in (case bind_r (is_number new) (\<lambda>b. if b then map_sum id PFloat (py_float new) else Inr new) of
                          Inl e \<Rightarrow> (Inl e, config)
                        | Inr v \<Rightarrow>
                            bind_s (update_config_variable listeners variable v) (\<lambda>_ c.
                              (Inr (Some (variable, case dict_get c variable of None \<Rightarrow> PNone | Some x \<Rightarrow> x)), c)) config)
           | None \<Rightarrow> (Inr None, config)
           | Some _ \<Rightarrow> (Inl TypeError, config))
      | _ \<Rightarrow> (Inl AttributeError, config))"

text \<open>The routes of \<open>LocalstackResources\<close>.\<close>

definition default_routes :: "bool \<Rightarrow> string list" where
  "default_routes enable_config_updates =
     [''/_localstack/health'', ''/_localstack/info'', ''/_localstack/plugins'', ''/_localstack/init'', ''/_localstack/init/<stage>'']
     @ (if enable_config_updates then [''/_localstack/config''] else [])"

subsection \<open>Lemmas\<close>

lemma service_values_get:
  "service_values ss = Inr kvs \<Longrightarrow> pdict_get kvs (PStr (cp name)) = map_option (\<lambda>s. PStr (cp (state_value (the s)))) (dict_get ss name)"
  by (induction ss arbitrary: kvs) (auto split: option.splits simp: map_sum_def split: sum.splits)

lemma service_values_proper: "service_values ss = Inr kvs \<Longrightarrow> wf_dict ss \<Longrightarrow> proper_dict kvs"
proof (induction ss arbitrary: kvs)
  case (Cons s ss)
  obtain name state where s: "s = (name, state)" by (cases s)
  obtain x kvs' where x: "state = Some x" "service_values ss = Inr kvs'" "kvs = (PStr (cp name), PStr (cp (state_value x))) # kvs'"
    using Cons.prems(1) s by (auto split: option.splits sum.splits simp: map_sum_def)
  have "dict_get ss name = None" using Cons.prems(2) s by (simp add: wf_dict_def dict_get_None)
  then have "pdict_get kvs' (PStr (cp name)) = None" using service_values_get [OF x(2)] by simp
  then have "list_all (\<lambda>(k', v). \<not> key_eq (PStr (cp name)) k') kvs'"
    by (induction kvs') (auto split: if_splits)
  then show ?case using Cons x s by (simp add: wf_dict_def)
qed simp

lemma proper_services: "proper_dict services \<Longrightarrow> proper_dict [(SERVICES, PDict services)]"
  by simp

text \<open>A report, in terms of the merge behind it.\<close>

lemma health_reportE:
  assumes "health_report version services state = (Inr r, state')"
  obtains d where "merge_items [PNone] False [(SERVICES, PDict services)] (PDict state) = Inr (PDict d)"
    and "r = pdict_set (PStr (cp ''version'')) (PStr version) (pdict_set (PStr (cp ''edition'')) (PStr (cp ''unknown'')) d)"
    and "state' = (case pdict_get state SERVICES of Some (PDict _) \<Rightarrow> pdict_set SERVICES (the (pdict_get d SERVICES)) state | _ \<Rightarrow> state)"
proof -
  obtain m where m: "merge_items [PNone] False [(SERVICES, PDict services)] (PDict state) = Inr m"
    using assms by (auto simp: health_report_def merge_recursive_def split: sum.splits)
  obtain d where "m = PDict d" using merge_items_dict [OF m] by (auto simp: is_dict_def)
  with m assms that show ?thesis by (simp add: health_report_def merge_recursive_def)
qed

lemma report_keys:
  assumes "r = pdict_set (PStr (cp ''version'')) x (pdict_set (PStr (cp ''edition'')) y d)" "k \<notin> {PStr (cp ''version''), PStr (cp ''edition'')}"
  shows "pdict_get r k = pdict_get d k"
  using assms by (simp add: pdict_get_set)

lemma SERVICES_key: "SERVICES \<notin> {PStr (cp ''version''), PStr (cp ''edition'')}"
  by (simp del: cp_simps)

lemma absent_key: "pdict_get d (PStr n) = None \<Longrightarrow> list_all (\<lambda>(k', v). \<not> key_eq (PStr n) k') d"
  by (induction d) (auto split: if_splits)

text \<open>Merging the services into an empty dictionary.\<close>

lemma merge_services:
  assumes "service_values states = Inr services" "wf_dict states" "merge_items [PNone] False services (PDict []) = Inr node"
  shows "lookup_path [PStr (cp name)] node = map_option (\<lambda>s. PStr (cp (state_value (the s)))) (dict_get states name)"
proof -
  obtain d where d: "node = PDict d" using merge_items_dict [OF assms(3)] by (auto simp: is_dict_def)
  note get = service_values_get [OF assms(1), of name]
  show ?thesis
  proof (cases "dict_get states name")
    case None
    then have "pdict_get services (PStr (cp name)) = None" using get by simp
    then have "pdict_get d (PStr (cp name)) = pdict_get [] (PStr (cp name))"
      using merge_items_frame [OF assms(3) [unfolded d]] absent_key by blast
    then show ?thesis using None d by simp
  next
    case (Some state)
    let ?v = "PStr (cp (state_value (the state)))"
    have "lookup_path [PStr (cp name)] node = Some ?v"
      by (rule merge_fills [OF assms(3) service_values_proper [OF assms(1,2)]]) (use get Some in \<open>simp_all add: is_dict_def\<close>)
    then show ?thesis using Some by simp
  qed
qed

subsection \<open>Properties\<close>

text \<open>
  C37: as long as nothing under the key \<open>services\<close> was put into the health state, a report names every service
  with its current state and repeats the rest of the state, and making it changes nothing, so that the next
  report is current again.
\<close>

theorem health_report_current:
  assumes "service_values states = Inr services" "wf_dict states" "pdict_get state SERVICES = None"
    and "health_report version services state = (Inr r, state')"
  shows "state' = state
    \<and> (\<forall>name. lookup_path [SERVICES, PStr (cp name)] (PDict r) = map_option (\<lambda>s. PStr (cp (state_value (the s)))) (dict_get states name))
    \<and> (\<forall>k. k \<notin> {SERVICES, PStr (cp ''version''), PStr (cp ''edition'')} \<longrightarrow> pdict_get r k = pdict_get state k)"
proof -
  obtain d where d: "merge_items [PNone] False [(SERVICES, PDict services)] (PDict state) = Inr (PDict d)"
    and r: "r = pdict_set (PStr (cp ''version'')) (PStr version) (pdict_set (PStr (cp ''edition'')) (PStr (cp ''unknown'')) d)"
    and state': "state' = (case pdict_get state SERVICES of Some (PDict _) \<Rightarrow> pdict_set SERVICES (the (pdict_get d SERVICES)) state | _ \<Rightarrow> state)"
    by (rule health_reportE [OF assms(4)])
  obtain node where node: "merge_items [PNone] False services (PDict []) = Inr node" "d = pdict_set SERVICES node state"
    using d assms(3) by (auto simp: bind_r_eq_Inr)
  have "lookup_path [SERVICES, PStr (cp name)] (PDict r) = lookup_path [PStr (cp name)] node" for name
    using report_keys [OF r SERVICES_key] node(2) by (simp add: pdict_get_set)
  moreover have "pdict_get r k = pdict_get state k" if "k \<notin> {SERVICES, PStr (cp ''version''), PStr (cp ''edition'')}" for k
    using report_keys [OF r, of k] that node(2) by (simp add: pdict_get_set)
  ultimately show ?thesis using state' assms(3) merge_services [OF assms(1,2) node(1)] by simp
qed


text \<open>A client puts something under \<open>services\<close>; afterwards a stopped service is still reported as running.\<close>

lemma put_then_report:
  "fst (health_on_put (str_dict [(cp ''services:x'', PStr (cp ''y''))]) []) = Inr (str_dict [(cp ''status'', PStr (cp ''OK''))])"
  "snd (health_on_put (str_dict [(cp ''services:x'', PStr (cp ''y''))]) []) = [(SERVICES, str_dict [(cp ''x'', PStr (cp ''y''))])]"
  by code_simp+

lemma health_report_current_witness:
  "\<exists>r. health_report (cp ''3.8.1'') [(PStr (cp ''sqs''), PStr (cp ''running''))] [] = (Inr r, [])
    \<and> lookup_path [SERVICES, PStr (cp ''sqs'')] (PDict r) = Some (PStr (cp ''running''))"
proof -
  let ?states = "[(''sqs'', Some Running)]" and ?services = "[(PStr (cp ''sqs''), PStr (cp ''running''))]"
  have vals: "service_values ?states = Inr ?services" "wf_dict ?states" "pdict_get [] SERVICES = None"
    by (simp_all add: wf_dict_def del: cp_simps)
  obtain r state' where report: "health_report (cp ''3.8.1'') ?services [] = (Inr r, state')"
    by (simp add: health_report_def merge_recursive_def py_in_def del: cp_simps)
  from health_report_current [OF vals report] report show ?thesis by (simp del: cp_simps lookup_path.simps)
qed


text \<open>A key with more than two parts does not make a path: the inner part lands at the top.\<close>

lemma put_three_parts:
  "put_path [a, b, c] v [] = Inr (if a = b then [(PStr a, PDict [(PStr c, v)])] else [(PStr a, PDict []), (PStr b, PDict [(PStr c, v)])])"
  by (simp add: put_path_def add_missing_def)

text \<open>An integer beyond the range of floats is not caught.\<close>

lemma is_number_overflow: "int_to_f64 n = Inl OverflowError \<Longrightarrow> is_number (PInt n) = Inl OverflowError"
  by (simp add: is_number_def)

end
