(* ===== verification/TransferApi.thy ===== *)
theory TransferApi
  imports Prelude "HOL-Library.Multiset"
begin

text \<open>
  The generated API of the Transfer service, \<open>aws/api/transfer/__init__.py\<close>: its types, its requests and the
  signatures of its methods as data. Evaluation shows that every method has the fields of its request as
  parameters and that the names of operations and methods are distinct.
\<close>

subsection \<open>Types\<close>

text \<open>
  A field or parameter has a name, the name of its type and a flag whether it may be absent. The classes are
  enumerations, exceptions with their code, sender fault and status, structures and requests.
\<close>

type_synonym field = "string \<times> string \<times> bool"

datatype api_type =
    Alias string
  | ListOf string
  | Enum "(string \<times> string) list"
  | ErrorClass string bool int "field list"
  | Struct "field list"
  | Request "field list"

definition transfer_types_1 :: "(string \<times> api_type) list" where
  "transfer_types_1 =
    [
     (''AddressAllocationId'', Alias ''str''),
     (''AgreementId'', Alias ''str''),
     (''Arn'', Alias ''str''),
     (''As2ConnectorSecretId'', Alias ''str''),
     (''As2Id'', Alias ''str''),
     (''CallbackToken'', Alias ''str''),
     (''CertSerial'', Alias ''str''),
     (''Certificate'', Alias ''str''),
     (''CertificateBodyType'', Alias ''str''),
     (''CertificateChainType'', Alias ''str''),
     (''CertificateId'', Alias ''str''),
     (''ConnectorErrorMessage'', Alias ''str''),
     (''ConnectorId'', Alias ''str''),
     (''ConnectorSecurityPolicyName'', Alias ''str''),
     (''CustomHttpHeaderKeyType'', Alias ''str''),
     (''CustomHttpHeaderValueType'', Alias ''str''),
     (''CustomStepTarget'', Alias ''str''),
     (''CustomStepTimeoutSeconds'', Alias ''int''),
     (''DeleteId'', Alias ''str''),
     (''Description'', Alias ''str''),
     (''DirectoryId'', Alias ''str''),
     (''EfsFileSystemId'', Alias ''str''),
     (''EfsPath'', Alias ''str''),
     (''ExecutionErrorMessage'', Alias ''str''),
     (''ExecutionId'', Alias ''str''),
     (''ExternalId'', Alias ''str''),
     (''FailureCode'', Alias ''str''),
     (''FilePath'', Alias ''str''),
     (''Fips'', Alias ''bool''),
     (''Function'', Alias ''str''),
     (''HomeDirectory'', Alias ''str''),
     (''HostKey'', Alias ''str''),
     (''HostKeyDescription'', Alias ''str''),
     (''HostKeyFingerprint'', Alias ''str''),
     (''HostKeyId'', Alias ''str''),
     (''HostKeyType'', Alias ''str''),
     (''IdentityCenterApplicationArn'', Alias ''str''),
     (''IdentityCenterInstanceArn'', Alias ''str''),
     (''ListingId'', Alias ''str''),
     (''LogGroupName'', Alias ''str''),
     (''MapEntry'', Alias ''str''),
     (''MapTarget'', Alias ''str''),
     (''MaxConcurrentConnections'', Alias ''int''),
     (''MaxItems'', Alias ''int''),
     (''MaxResults'', Alias ''int''),
     (''Message'', Alias ''str''),
     (''MessageSubject'', Alias ''str''),
     (''MoveId'', Alias ''str''),
     (''NextToken'', Alias ''str''),
     (''NullableRole'', Alias ''str''),
     (''OutputFileName'', Alias ''str''),
     (''PassiveIp'', Alias ''str''),
     (''Policy'', Alias ''str''),
     (''PostAuthenticationLoginBanner'', Alias ''str''),
     (''PreAuthenticationLoginBanner'', Alias ''str''),
     (''PrivateKeyType'', Alias ''str''),
     (''ProfileId'', Alias ''str''),
     (''Resource'', Alias ''str''),
     (''ResourceType'', Alias ''str''),
     (''Response'', Alias ''str''),
     (''RetryAfterSeconds'', Alias ''str''),
     (''Role'', Alias ''str''),
     (''S3Bucket'', Alias ''str''),
     (''S3Etag'', Alias ''str''),
     (''S3Key'', Alias ''str''),
     (''S3TagKey'', Alias ''str''),
     (''S3TagValue'', Alias ''str''),
     (''S3VersionId'', Alias ''str''),
     (''SecretId'', Alias ''str''),
     (''SecurityGroupId'', Alias ''str''),
     (''SecurityPolicyName'', Alias ''str''),
     (''SecurityPolicyOption'', Alias ''str''),
     (''ServerId'', Alias ''str''),
     (''ServiceErrorMessage'', Alias ''str''),
     (''ServiceManagedEgressIpAddress'', Alias ''str''),
     (''SessionId'', Alias ''str''),
     (''SftpConnectorHostKey'', Alias ''str''),
     (''SftpConnectorTrustedHostKey'', Alias ''str''),
     (''SftpPort'', Alias ''int''),
     (''SourceFileLocation'', Alias ''str''),
     (''SourceIp'', Alias ''str''),
     (''SshPublicKeyBody'', Alias ''str''),
     (''SshPublicKeyCount'', Alias ''int''),
     (''SshPublicKeyId'', Alias ''str''),
     (''Status'', Alias ''str''),
     (''StatusCode'', Alias ''int''),
     (''StepResultOutputsJson'', Alias ''str''),
     (''SubnetId'', Alias ''str''),
     (''TagKey'', Alias ''str''),
     (''TagValue'', Alias ''str''),
     (''TransferId'', Alias ''str''),
     (''Url'', Alias ''str''),
     (''UserCount'', Alias ''int''),
     (''UserName'', Alias ''str''),
     (''UserPassword'', Alias ''str''),
     (''VpcEndpointId'', Alias ''str''),
     (''VpcId'', Alias ''str''),
     (''VpcLatticeResourceConfigurationArn'', Alias ''str''),
     (''WebAppAccessEndpoint'', Alias ''str''),
     (''WebAppEndpoint'', Alias ''str''),
     (''WebAppId'', Alias ''str''),
     (''WebAppTitle'', Alias ''str''),
     (''WebAppUnitCount'', Alias ''int''),
     (''WorkflowDescription'', Alias ''str''),
     (''WorkflowId'', Alias ''str''),
     (''WorkflowStepName'', Alias ''str''),
     (''AgreementStatusType'', Enum [(''ACTIVE'', ''ACTIVE''), (''INACTIVE'', ''INACTIVE'')]),
     (''As2Transport'', Enum [(''HTTP'', ''HTTP'')]),
     (''CertificateStatusType'', Enum [(''ACTIVE'', ''ACTIVE''), (''PENDING_ROTATION'', ''PENDING_ROTATION''),
       (''INACTIVE'', ''INACTIVE'')]),
     (''CertificateType'', Enum [(''CERTIFICATE'', ''CERTIFICATE''), (''CERTIFICATE_WITH_PRIVATE_KEY'',
       ''CERTIFICATE_WITH_PRIVATE_KEY'')]),
     (''CertificateUsageType'', Enum [(''SIGNING'', ''SIGNING''), (''ENCRYPTION'', ''ENCRYPTION''), (''TLS'',
       ''TLS'')]),
     (''CompressionEnum'', Enum [(''ZLIB'', ''ZLIB''), (''DISABLED'', ''DISABLED'')]),
     (''ConnectorEgressType'', Enum [(''SERVICE_MANAGED'', ''SERVICE_MANAGED''), (''VPC_LATTICE'',
       ''VPC_LATTICE'')]),
     (''ConnectorStatus'', Enum [(''ACTIVE'', ''ACTIVE''), (''ERRORED'', ''ERRORED''), (''PENDING'', ''PENDING'')]),
     (''CustomStepStatus'', Enum [(''SUCCESS'', ''SUCCESS''), (''FAILURE'', ''FAILURE'')]),
     (''DirectoryListingOptimization'', Enum [(''ENABLED'', ''ENABLED''), (''DISABLED'', ''DISABLED'')])]"

definition transfer_types_2 :: "(string \<times> api_type) list" where
  "transfer_types_2 =
    [
     (''Domain'', Enum [(''S3'', ''S3''), (''EFS'', ''EFS'')]),
     (''EncryptionAlg'', Enum [(''AES128_CBC'', ''AES128_CBC''), (''AES192_CBC'', ''AES192_CBC''), (''AES256_CBC'',
       ''AES256_CBC''), (''DES_EDE3_CBC'', ''DES_EDE3_CBC''), (''NONE'', ''NONE'')]),
     (''EncryptionType'', Enum [(''PGP'', ''PGP'')]),
     (''EndpointType'', Enum [(''PUBLIC'', ''PUBLIC''), (''VPC'', ''VPC''), (''VPC_ENDPOINT'', ''VPC_ENDPOINT'')]),
     (''EnforceMessageSigningType'', Enum [(''ENABLED'', ''ENABLED''), (''DISABLED'', ''DISABLED'')]),
     (''ExecutionErrorType'', Enum [(''PERMISSION_DENIED'', ''PERMISSION_DENIED''), (''CUSTOM_STEP_FAILED'',
       ''CUSTOM_STEP_FAILED''), (''THROTTLED'', ''THROTTLED''), (''ALREADY_EXISTS'', ''ALREADY_EXISTS''),
       (''NOT_FOUND'', ''NOT_FOUND''), (''BAD_REQUEST'', ''BAD_REQUEST''), (''TIMEOUT'', ''TIMEOUT''),
       (''INTERNAL_SERVER_ERROR'', ''INTERNAL_SERVER_ERROR'')]),
     (''ExecutionStatus'', Enum [(''IN_PROGRESS'', ''IN_PROGRESS''), (''COMPLETED'', ''COMPLETED''), (''EXCEPTION'',
       ''EXCEPTION''), (''HANDLING_EXCEPTION'', ''HANDLING_EXCEPTION'')]),
     (''HomeDirectoryType'', Enum [(''PATH'', ''PATH''), (''LOGICAL'', ''LOGICAL'')]),
     (''IdentityProviderType'', Enum [(''SERVICE_MANAGED'', ''SERVICE_MANAGED''), (''API_GATEWAY'',
       ''API_GATEWAY''), (''AWS_DIRECTORY_SERVICE'', ''AWS_DIRECTORY_SERVICE''), (''AWS_LAMBDA'', ''AWS_LAMBDA'')]),
     (''IpAddressType'', Enum [(''IPV4'', ''IPV4''), (''DUALSTACK'', ''DUALSTACK'')]),
     (''MapType'', Enum [(''FILE'', ''FILE''), (''DIRECTORY'', ''DIRECTORY'')]),
     (''MdnResponse'', Enum [(''SYNC'', ''SYNC''), (''NONE'', ''NONE''), (''ASYNC'', ''ASYNC'')]),
     (''MdnSigningAlg'', Enum [(''SHA256'', ''SHA256''), (''SHA384'', ''SHA384''), (''SHA512'', ''SHA512''),
       (''SHA1'', ''SHA1''), (''NONE'', ''NONE''), (''DEFAULT'', ''DEFAULT'')]),
     (''OverwriteExisting'', Enum [(''TRUE'', ''TRUE''), (''FALSE'', ''FALSE'')]),
     (''PreserveContentType'', Enum [(''ENABLED'', ''ENABLED''), (''DISABLED'', ''DISABLED'')]),
     (''PreserveFilenameType'', Enum [(''ENABLED'', ''ENABLED''), (''DISABLED'', ''DISABLED'')]),
     (''ProfileType'', Enum [(''LOCAL'', ''LOCAL''), (''PARTNER'', ''PARTNER'')]),
     (''Protocol'', Enum [(''SFTP'', ''SFTP''), (''FTP'', ''FTP''), (''FTPS'', ''FTPS''), (''AS2'', ''AS2'')]),
     (''SecurityPolicyProtocol'', Enum [(''SFTP'', ''SFTP''), (''FTPS'', ''FTPS'')]),
     (''SecurityPolicyResourceType'', Enum [(''SERVER'', ''SERVER''), (''CONNECTOR'', ''CONNECTOR'')]),
     (''SetStatOption'', Enum [(''DEFAULT'', ''DEFAULT''), (''ENABLE_NO_OP'', ''ENABLE_NO_OP'')]),
     (''SftpAuthenticationMethods'', Enum [(''PASSWORD'', ''PASSWORD''), (''PUBLIC_KEY'', ''PUBLIC_KEY''),
       (''PUBLIC_KEY_OR_PASSWORD'', ''PUBLIC_KEY_OR_PASSWORD''), (''PUBLIC_KEY_AND_PASSWORD'',
       ''PUBLIC_KEY_AND_PASSWORD'')]),
     (''SigningAlg'', Enum [(''SHA256'', ''SHA256''), (''SHA384'', ''SHA384''), (''SHA512'', ''SHA512''), (''SHA1'',
       ''SHA1''), (''NONE'', ''NONE'')]),
     (''State'', Enum [(''OFFLINE'', ''OFFLINE''), (''ONLINE'', ''ONLINE''), (''STARTING'', ''STARTING''),
       (''STOPPING'', ''STOPPING''), (''START_FAILED'', ''START_FAILED''), (''STOP_FAILED'', ''STOP_FAILED'')]),
     (''TlsSessionResumptionMode'', Enum [(''DISABLED'', ''DISABLED''), (''ENABLED'', ''ENABLED''), (''ENFORCED'',
       ''ENFORCED'')]),
     (''TransferTableStatus'', Enum [(''QUEUED'', ''QUEUED''), (''IN_PROGRESS'', ''IN_PROGRESS''), (''COMPLETED'',
       ''COMPLETED''), (''FAILED'', ''FAILED'')]),
     (''WebAppEndpointPolicy'', Enum [(''FIPS'', ''FIPS''), (''STANDARD'', ''STANDARD'')]),
     (''WebAppEndpointType'', Enum [(''PUBLIC'', ''PUBLIC''), (''VPC'', ''VPC'')]),
     (''WorkflowStepType'', Enum [(''COPY'', ''COPY''), (''CUSTOM'', ''CUSTOM''), (''TAG'', ''TAG''), (''DELETE'',
       ''DELETE''), (''DECRYPT'', ''DECRYPT'')])]"

definition transfer_types_3 :: "(string \<times> api_type) list" where
  "transfer_types_3 =
    [
     (''AccessDeniedException'', ErrorClass ''AccessDeniedException'' False 400 []),
     (''ConflictException'', ErrorClass ''ConflictException'' False 400 []),
     (''InternalServiceError'', ErrorClass ''InternalServiceError'' False 400 []),
     (''InvalidNextTokenException'', ErrorClass ''InvalidNextTokenException'' False 400 []),
     (''InvalidRequestException'', ErrorClass ''InvalidRequestException'' False 400 []),
     (''ResourceExistsException'', ErrorClass ''ResourceExistsException'' False 400 [(''Resource'', ''Resource'',
       False), (''ResourceType'', ''ResourceType'', False)]),
     (''ResourceNotFoundException'', ErrorClass ''ResourceNotFoundException'' False 400 [(''Resource'',
       ''Resource'', False), (''ResourceType'', ''ResourceType'', False)]),
     (''ServiceUnavailableException'', ErrorClass ''ServiceUnavailableException'' False 400 []),
     (''ThrottlingException'', ErrorClass ''ThrottlingException'' False 400 [(''RetryAfterSeconds'',
       ''RetryAfterSeconds'', True)]),
     (''AddressAllocationIds'', ListOf ''AddressAllocationId''),
     (''As2AsyncMdnServerIds'', ListOf ''ServerId''),
     (''As2AsyncMdnConnectorConfig'', Struct [(''Url'', ''Url'', True), (''ServerIds'', ''As2AsyncMdnServerIds'',
       True)]),
     (''As2ConnectorConfig'', Struct [(''LocalProfileId'', ''ProfileId'', True), (''PartnerProfileId'',
       ''ProfileId'', True), (''MessageSubject'', ''MessageSubject'', True), (''Compression'', ''CompressionEnum'',
       True), (''EncryptionAlgorithm'', ''EncryptionAlg'', True), (''SigningAlgorithm'', ''SigningAlg'', True),
       (''MdnSigningAlgorithm'', ''MdnSigningAlg'', True), (''MdnResponse'', ''MdnResponse'', True),
       (''BasicAuthSecretId'', ''As2ConnectorSecretId'', True), (''PreserveContentType'', ''PreserveContentType'',
       True), (''AsyncMdnConfig'', ''As2AsyncMdnConnectorConfig'', True)]),
     (''As2Transports'', ListOf ''As2Transport''),
     (''CertDate'', Alias ''datetime''),
     (''CertificateIds'', ListOf ''CertificateId''),
     (''ConnectorVpcLatticeEgressConfig'', Struct [(''ResourceConfigurationArn'',
       ''VpcLatticeResourceConfigurationArn'', False), (''PortNumber'', ''SftpPort'', True)]),
     (''ConnectorEgressConfig'', Struct [(''VpcLattice'', ''ConnectorVpcLatticeEgressConfig'', True)]),
     (''ConnectorFileTransferResult'', Struct [(''FilePath'', ''FilePath'', False), (''StatusCode'',
       ''TransferTableStatus'', False), (''FailureCode'', ''FailureCode'', True), (''FailureMessage'', ''Message'',
       True)]),
     (''ConnectorFileTransferResults'', ListOf ''ConnectorFileTransferResult''),
     (''EfsFileLocation'', Struct [(''FileSystemId'', ''EfsFileSystemId'', True), (''Path'', ''EfsPath'', True)])]"

definition transfer_types_4 :: "(string \<times> api_type) list" where
  "transfer_types_4 =
    [
     (''S3InputFileLocation'', Struct [(''Bucket'', ''S3Bucket'', True), (''Key'', ''S3Key'', True)]),
     (''InputFileLocation'', Struct [(''S3FileLocation'', ''S3InputFileLocation'', True), (''EfsFileLocation'',
       ''EfsFileLocation'', True)]),
     (''CopyStepDetails'', Struct [(''Name'', ''WorkflowStepName'', True), (''DestinationFileLocation'',
       ''InputFileLocation'', True), (''OverwriteExisting'', ''OverwriteExisting'', True), (''SourceFileLocation'',
       ''SourceFileLocation'', True)]),
     (''PosixId'', Alias ''int''),
     (''SecondaryGids'', ListOf ''PosixId''),
     (''PosixProfile'', Struct [(''Uid'', ''PosixId'', False), (''Gid'', ''PosixId'', False), (''SecondaryGids'',
       ''SecondaryGids'', True)]),
     (''HomeDirectoryMapEntry'', Struct [(''Entry'', ''MapEntry'', False), (''Target'', ''MapTarget'', False),
       (''Type'', ''MapType'', True)]),
     (''HomeDirectoryMappings'', ListOf ''HomeDirectoryMapEntry''),
     (''CreateAccessRequest'', Request [(''HomeDirectory'', ''HomeDirectory'', True), (''HomeDirectoryType'',
       ''HomeDirectoryType'', True), (''HomeDirectoryMappings'', ''HomeDirectoryMappings'', True), (''Policy'',
       ''Policy'', True), (''PosixProfile'', ''PosixProfile'', True), (''Role'', ''Role'', False), (''ServerId'',
       ''ServerId'', False), (''ExternalId'', ''ExternalId'', False)]),
     (''CreateAccessResponse'', Struct [(''ServerId'', ''ServerId'', False), (''ExternalId'', ''ExternalId'',
       False)]),
     (''CustomDirectoriesType'', Struct [(''FailedFilesDirectory'', ''HomeDirectory'', False),
       (''MdnFilesDirectory'', ''HomeDirectory'', False), (''PayloadFilesDirectory'', ''HomeDirectory'', False),
       (''StatusFilesDirectory'', ''HomeDirectory'', False), (''TemporaryFilesDirectory'', ''HomeDirectory'',
       False)]),
     (''Tag'', Struct [(''Key'', ''TagKey'', False), (''Value'', ''TagValue'', False)]),
     (''Tags'', ListOf ''Tag''),
     (''CreateAgreementRequest'', Request [(''Description'', ''Description'', True), (''ServerId'', ''ServerId'',
       False), (''LocalProfileId'', ''ProfileId'', False), (''PartnerProfileId'', ''ProfileId'', False),
       (''BaseDirectory'', ''HomeDirectory'', True), (''AccessRole'', ''Role'', False), (''Status'',
       ''AgreementStatusType'', True), (''Tags'', ''Tags'', True), (''PreserveFilename'', ''PreserveFilenameType'',
       True), (''EnforceMessageSigning'', ''EnforceMessageSigningType'', True), (''CustomDirectories'',
       ''CustomDirectoriesType'', True)]),
     (''CreateAgreementResponse'', Struct [(''AgreementId'', ''AgreementId'', False)]),
     (''SftpConnectorTrustedHostKeyList'', ListOf ''SftpConnectorTrustedHostKey''),
     (''SftpConnectorConfig'', Struct [(''UserSecretId'', ''SecretId'', True), (''TrustedHostKeys'',
       ''SftpConnectorTrustedHostKeyList'', True), (''MaxConcurrentConnections'', ''MaxConcurrentConnections'',
       True)]),
     (''CreateConnectorRequest'', Request [(''Url'', ''Url'', True), (''As2Config'', ''As2ConnectorConfig'', True),
       (''AccessRole'', ''Role'', False), (''LoggingRole'', ''Role'', True), (''Tags'', ''Tags'', True),
       (''SftpConfig'', ''SftpConnectorConfig'', True), (''SecurityPolicyName'', ''ConnectorSecurityPolicyName'',
       True), (''EgressConfig'', ''ConnectorEgressConfig'', True)]),
     (''CreateConnectorResponse'', Struct [(''ConnectorId'', ''ConnectorId'', False)]),
     (''CreateProfileRequest'', Request [(''As2Id'', ''As2Id'', False), (''ProfileType'', ''ProfileType'', False),
       (''CertificateIds'', ''CertificateIds'', True), (''Tags'', ''Tags'', True)]),
     (''CreateProfileResponse'', Struct [(''ProfileId'', ''ProfileId'', False)])]"

definition transfer_types_5 :: "(string \<times> api_type) list" where
  "transfer_types_5 =
    [
     (''S3StorageOptions'', Struct [(''DirectoryListingOptimization'', ''DirectoryListingOptimization'', True)]),
     (''StructuredLogDestinations'', ListOf ''Arn''),
     (''WorkflowDetail'', Struct [(''WorkflowId'', ''WorkflowId'', False), (''ExecutionRole'', ''Role'', False)]),
     (''OnPartialUploadWorkflowDetails'', ListOf ''WorkflowDetail''),
     (''OnUploadWorkflowDetails'', ListOf ''WorkflowDetail''),
     (''WorkflowDetails'', Struct [(''OnUpload'', ''OnUploadWorkflowDetails'', True), (''OnPartialUpload'',
       ''OnPartialUploadWorkflowDetails'', True)]),
     (''ProtocolDetails'', Struct [(''PassiveIp'', ''PassiveIp'', True), (''TlsSessionResumptionMode'',
       ''TlsSessionResumptionMode'', True), (''SetStatOption'', ''SetStatOption'', True), (''As2Transports'',
       ''As2Transports'', True)]),
     (''Protocols'', ListOf ''Protocol''),
     (''IdentityProviderDetails'', Struct [(''Url'', ''Url'', True), (''InvocationRole'', ''Role'', True),
       (''DirectoryId'', ''DirectoryId'', True), (''Function'', ''Function'', True), (''SftpAuthenticationMethods'',
       ''SftpAuthenticationMethods'', True)]),
     (''SecurityGroupIds'', ListOf ''SecurityGroupId''),
     (''SubnetIds'', ListOf ''SubnetId''),
     (''EndpointDetails'', Struct [(''AddressAllocationIds'', ''AddressAllocationIds'', True), (''SubnetIds'',
       ''SubnetIds'', True), (''VpcEndpointId'', ''VpcEndpointId'', True), (''VpcId'', ''VpcId'', True),
       (''SecurityGroupIds'', ''SecurityGroupIds'', True)]),
     (''CreateServerRequest'', Request [(''Certificate'', ''Certificate'', True), (''Domain'', ''Domain'', True),
       (''EndpointDetails'', ''EndpointDetails'', True), (''EndpointType'', ''EndpointType'', True), (''HostKey'',
       ''HostKey'', True), (''IdentityProviderDetails'', ''IdentityProviderDetails'', True),
       (''IdentityProviderType'', ''IdentityProviderType'', True), (''LoggingRole'', ''NullableRole'', True),
       (''PostAuthenticationLoginBanner'', ''PostAuthenticationLoginBanner'', True),
       (''PreAuthenticationLoginBanner'', ''PreAuthenticationLoginBanner'', True), (''Protocols'', ''Protocols'',
       True), (''ProtocolDetails'', ''ProtocolDetails'', True), (''SecurityPolicyName'', ''SecurityPolicyName'',
       True), (''Tags'', ''Tags'', True), (''WorkflowDetails'', ''WorkflowDetails'', True),
       (''StructuredLogDestinations'', ''StructuredLogDestinations'', True), (''S3StorageOptions'',
       ''S3StorageOptions'', True), (''IpAddressType'', ''IpAddressType'', True)]),
     (''CreateServerResponse'', Struct [(''ServerId'', ''ServerId'', False)]),
     (''CreateUserRequest'', Request [(''HomeDirectory'', ''HomeDirectory'', True), (''HomeDirectoryType'',
       ''HomeDirectoryType'', True), (''HomeDirectoryMappings'', ''HomeDirectoryMappings'', True), (''Policy'',
       ''Policy'', True), (''PosixProfile'', ''PosixProfile'', True), (''Role'', ''Role'', False), (''ServerId'',
       ''ServerId'', False), (''SshPublicKeyBody'', ''SshPublicKeyBody'', True), (''Tags'', ''Tags'', True),
       (''UserName'', ''UserName'', False)]),
     (''CreateUserResponse'', Struct [(''ServerId'', ''ServerId'', False), (''UserName'', ''UserName'', False)]),
     (''WebAppVpcConfig'', Struct [(''SubnetIds'', ''SubnetIds'', True), (''VpcId'', ''VpcId'', True),
       (''SecurityGroupIds'', ''SecurityGroupIds'', True)]),
     (''WebAppEndpointDetails'', Struct [(''Vpc'', ''WebAppVpcConfig'', True)]),
     (''WebAppUnits'', Struct [(''Provisioned'', ''WebAppUnitCount'', True)]),
     (''IdentityCenterConfig'', Struct [(''InstanceArn'', ''IdentityCenterInstanceArn'', True), (''Role'', ''Role'',
       True)])]"

definition transfer_types_6 :: "(string \<times> api_type) list" where
  "transfer_types_6 =
    [
     (''WebAppIdentityProviderDetails'', Struct [(''IdentityCenterConfig'', ''IdentityCenterConfig'', True)]),
     (''CreateWebAppRequest'', Request [(''IdentityProviderDetails'', ''WebAppIdentityProviderDetails'', False),
       (''AccessEndpoint'', ''WebAppAccessEndpoint'', True), (''WebAppUnits'', ''WebAppUnits'', True), (''Tags'',
       ''Tags'', True), (''WebAppEndpointPolicy'', ''WebAppEndpointPolicy'', True), (''EndpointDetails'',
       ''WebAppEndpointDetails'', True)]),
     (''CreateWebAppResponse'', Struct [(''WebAppId'', ''WebAppId'', False)]),
     (''DecryptStepDetails'', Struct [(''Name'', ''WorkflowStepName'', True), (''Type'', ''EncryptionType'', False),
       (''SourceFileLocation'', ''SourceFileLocation'', True), (''OverwriteExisting'', ''OverwriteExisting'', True),
       (''DestinationFileLocation'', ''InputFileLocation'', False)]),
     (''S3Tag'', Struct [(''Key'', ''S3TagKey'', False), (''Value'', ''S3TagValue'', False)]),
     (''S3Tags'', ListOf ''S3Tag''),
     (''TagStepDetails'', Struct [(''Name'', ''WorkflowStepName'', True), (''Tags'', ''S3Tags'', True),
       (''SourceFileLocation'', ''SourceFileLocation'', True)]),
     (''DeleteStepDetails'', Struct [(''Name'', ''WorkflowStepName'', True), (''SourceFileLocation'',
       ''SourceFileLocation'', True)]),
     (''CustomStepDetails'', Struct [(''Name'', ''WorkflowStepName'', True), (''Target'', ''CustomStepTarget'',
       True), (''TimeoutSeconds'', ''CustomStepTimeoutSeconds'', True), (''SourceFileLocation'',
       ''SourceFileLocation'', True)]),
     (''WorkflowStep'', Struct [(''Type'', ''WorkflowStepType'', True), (''CopyStepDetails'', ''CopyStepDetails'',
       True), (''CustomStepDetails'', ''CustomStepDetails'', True), (''DeleteStepDetails'', ''DeleteStepDetails'',
       True), (''TagStepDetails'', ''TagStepDetails'', True), (''DecryptStepDetails'', ''DecryptStepDetails'',
       True)]),
     (''WorkflowSteps'', ListOf ''WorkflowStep''),
     (''CreateWorkflowRequest'', Request [(''Description'', ''WorkflowDescription'', True), (''Steps'',
       ''WorkflowSteps'', False), (''OnExceptionSteps'', ''WorkflowSteps'', True), (''Tags'', ''Tags'', True)]),
     (''CreateWorkflowResponse'', Struct [(''WorkflowId'', ''WorkflowId'', False)]),
     (''CustomHttpHeader'', Struct [(''Key'', ''CustomHttpHeaderKeyType'', True), (''Value'',
       ''CustomHttpHeaderValueType'', True)]),
     (''CustomHttpHeaders'', ListOf ''CustomHttpHeader''),
     (''DateImported'', Alias ''datetime''),
     (''DeleteAccessRequest'', Request [(''ServerId'', ''ServerId'', False), (''ExternalId'', ''ExternalId'',
       False)]),
     (''DeleteAgreementRequest'', Request [(''AgreementId'', ''AgreementId'', False), (''ServerId'', ''ServerId'',
       False)]),
     (''DeleteCertificateRequest'', Request [(''CertificateId'', ''CertificateId'', False)]),
     (''DeleteConnectorRequest'', Request [(''ConnectorId'', ''ConnectorId'', False)]),
     (''DeleteHostKeyRequest'', Request [(''ServerId'', ''ServerId'', False), (''HostKeyId'', ''HostKeyId'',
       False)]),
     (''DeleteProfileRequest'', Request [(''ProfileId'', ''ProfileId'', False)]),
     (''DeleteServerRequest'', Request [(''ServerId'', ''ServerId'', False)]),
     (''DeleteSshPublicKeyRequest'', Request [(''ServerId'', ''ServerId'', False), (''SshPublicKeyId'',
       ''SshPublicKeyId'', False), (''UserName'', ''UserName'', False)]),
     (''DeleteUserRequest'', Request [(''ServerId'', ''ServerId'', False), (''UserName'', ''UserName'', False)]),
     (''DeleteWebAppCustomizationRequest'', Request [(''WebAppId'', ''WebAppId'', False)]),
     (''DeleteWebAppRequest'', Request [(''WebAppId'', ''WebAppId'', False)]),
     (''DeleteWorkflowRequest'', Request [(''WorkflowId'', ''WorkflowId'', False)]),
     (''DescribeAccessRequest'', Request [(''ServerId'', ''ServerId'', False), (''ExternalId'', ''ExternalId'',
       False)]),
     (''DescribedAccess'', Struct [(''HomeDirectory'', ''HomeDirectory'', True), (''HomeDirectoryMappings'',
       ''HomeDirectoryMappings'', True), (''HomeDirectoryType'', ''HomeDirectoryType'', True), (''Policy'',
       ''Policy'', True), (''PosixProfile'', ''PosixProfile'', True), (''Role'', ''Role'', True), (''ExternalId'',
       ''ExternalId'', True)]),
     (''DescribeAccessResponse'', Struct [(''ServerId'', ''ServerId'', False), (''Access'', ''DescribedAccess'',
       False)]),
     (''DescribeAgreementRequest'', Request [(''AgreementId'', ''AgreementId'', False), (''ServerId'', ''ServerId'',
       False)])]"

definition transfer_types_7 :: "(string \<times> api_type) list" where
  "transfer_types_7 =
    [
     (''DescribedAgreement'', Struct [(''Arn'', ''Arn'', False), (''AgreementId'', ''AgreementId'', True),
       (''Description'', ''Description'', True), (''Status'', ''AgreementStatusType'', True), (''ServerId'',
       ''ServerId'', True), (''LocalProfileId'', ''ProfileId'', True), (''PartnerProfileId'', ''ProfileId'', True),
       (''BaseDirectory'', ''HomeDirectory'', True), (''AccessRole'', ''Role'', True), (''Tags'', ''Tags'', True),
       (''PreserveFilename'', ''PreserveFilenameType'', True), (''EnforceMessageSigning'',
       ''EnforceMessageSigningType'', True), (''CustomDirectories'', ''CustomDirectoriesType'', True)]),
     (''DescribeAgreementResponse'', Struct [(''Agreement'', ''DescribedAgreement'', False)]),
     (''DescribeCertificateRequest'', Request [(''CertificateId'', ''CertificateId'', False)]),
     (''DescribedCertificate'', Struct [(''Arn'', ''Arn'', False), (''CertificateId'', ''CertificateId'', True),
       (''Usage'', ''CertificateUsageType'', True), (''Status'', ''CertificateStatusType'', True), (''Certificate'',
       ''CertificateBodyType'', True), (''CertificateChain'', ''CertificateChainType'', True), (''ActiveDate'',
       ''CertDate'', True), (''InactiveDate'', ''CertDate'', True), (''Serial'', ''CertSerial'', True),
       (''NotBeforeDate'', ''CertDate'', True), (''NotAfterDate'', ''CertDate'', True), (''Type'',
       ''CertificateType'', True), (''Description'', ''Description'', True), (''Tags'', ''Tags'', True)]),
     (''DescribeCertificateResponse'', Struct [(''Certificate'', ''DescribedCertificate'', False)]),
     (''DescribeConnectorRequest'', Request [(''ConnectorId'', ''ConnectorId'', False)]),
     (''DescribedConnectorVpcLatticeEgressConfig'', Struct [(''ResourceConfigurationArn'',
       ''VpcLatticeResourceConfigurationArn'', False), (''PortNumber'', ''SftpPort'', True)]),
     (''DescribedConnectorEgressConfig'', Struct [(''VpcLattice'', ''DescribedConnectorVpcLatticeEgressConfig'',
       True)]),
     (''ServiceManagedEgressIpAddresses'', ListOf ''ServiceManagedEgressIpAddress''),
     (''DescribedConnector'', Struct [(''Arn'', ''Arn'', False), (''ConnectorId'', ''ConnectorId'', True), (''Url'',
       ''Url'', True), (''As2Config'', ''As2ConnectorConfig'', True), (''AccessRole'', ''Role'', True),
       (''LoggingRole'', ''Role'', True), (''Tags'', ''Tags'', True), (''SftpConfig'', ''SftpConnectorConfig'',
       True), (''ServiceManagedEgressIpAddresses'', ''ServiceManagedEgressIpAddresses'', True),
       (''SecurityPolicyName'', ''ConnectorSecurityPolicyName'', True), (''EgressConfig'',
       ''DescribedConnectorEgressConfig'', True), (''EgressType'', ''ConnectorEgressType'', False),
       (''ErrorMessage'', ''ConnectorErrorMessage'', True), (''Status'', ''ConnectorStatus'', False)]),
     (''DescribeConnectorResponse'', Struct [(''Connector'', ''DescribedConnector'', False)]),
     (''DescribeExecutionRequest'', Request [(''ExecutionId'', ''ExecutionId'', False), (''WorkflowId'',
       ''WorkflowId'', False)]),
     (''ExecutionError'', Struct [(''Type'', ''ExecutionErrorType'', False), (''Message'',
       ''ExecutionErrorMessage'', False)]),
     (''ExecutionStepResult'', Struct [(''StepType'', ''WorkflowStepType'', True), (''Outputs'',
       ''StepResultOutputsJson'', True), (''Error'', ''ExecutionError'', True)]),
     (''ExecutionStepResults'', ListOf ''ExecutionStepResult''),
     (''ExecutionResults'', Struct [(''Steps'', ''ExecutionStepResults'', True), (''OnExceptionSteps'',
       ''ExecutionStepResults'', True)]),
     (''LoggingConfiguration'', Struct [(''LoggingRole'', ''Role'', True), (''LogGroupName'', ''LogGroupName'',
       True)]),
     (''UserDetails'', Struct [(''UserName'', ''UserName'', False), (''ServerId'', ''ServerId'', False),
       (''SessionId'', ''SessionId'', True)]),
     (''ServiceMetadata'', Struct [(''UserDetails'', ''UserDetails'', False)]),
     (''S3FileLocation'', Struct [(''Bucket'', ''S3Bucket'', True), (''Key'', ''S3Key'', True), (''VersionId'',
       ''S3VersionId'', True), (''Etag'', ''S3Etag'', True)]),
     (''FileLocation'', Struct [(''S3FileLocation'', ''S3FileLocation'', True), (''EfsFileLocation'',
       ''EfsFileLocation'', True)])]"

definition transfer_types_8 :: "(string \<times> api_type) list" where
  "transfer_types_8 =
    [
     (''DescribedExecution'', Struct [(''ExecutionId'', ''ExecutionId'', True), (''InitialFileLocation'',
       ''FileLocation'', True), (''ServiceMetadata'', ''ServiceMetadata'', True), (''ExecutionRole'', ''Role'',
       True), (''LoggingConfiguration'', ''LoggingConfiguration'', True), (''PosixProfile'', ''PosixProfile'',
       True), (''Status'', ''ExecutionStatus'', True), (''Results'', ''ExecutionResults'', True)]),
     (''DescribeExecutionResponse'', Struct [(''WorkflowId'', ''WorkflowId'', False), (''Execution'',
       ''DescribedExecution'', False)]),
     (''DescribeHostKeyRequest'', Request [(''ServerId'', ''ServerId'', False), (''HostKeyId'', ''HostKeyId'',
       False)]),
     (''DescribedHostKey'', Struct [(''Arn'', ''Arn'', False), (''HostKeyId'', ''HostKeyId'', True),
       (''HostKeyFingerprint'', ''HostKeyFingerprint'', True), (''Description'', ''HostKeyDescription'', True),
       (''Type'', ''HostKeyType'', True), (''DateImported'', ''DateImported'', True), (''Tags'', ''Tags'', True)]),
     (''DescribeHostKeyResponse'', Struct [(''HostKey'', ''DescribedHostKey'', False)]),
     (''DescribeProfileRequest'', Request [(''ProfileId'', ''ProfileId'', False)]),
     (''DescribedProfile'', Struct [(''Arn'', ''Arn'', False), (''ProfileId'', ''ProfileId'', True),
       (''ProfileType'', ''ProfileType'', True), (''As2Id'', ''As2Id'', True), (''CertificateIds'',
       ''CertificateIds'', True), (''Tags'', ''Tags'', True)]),
     (''DescribeProfileResponse'', Struct [(''Profile'', ''DescribedProfile'', False)]),
     (''DescribeSecurityPolicyRequest'', Request [(''SecurityPolicyName'', ''SecurityPolicyName'', False)]),
     (''SecurityPolicyProtocols'', ListOf ''SecurityPolicyProtocol''),
     (''SecurityPolicyOptions'', ListOf ''SecurityPolicyOption''),
     (''DescribedSecurityPolicy'', Struct [(''Fips'', ''Fips'', True), (''SecurityPolicyName'',
       ''SecurityPolicyName'', False), (''SshCiphers'', ''SecurityPolicyOptions'', True), (''SshKexs'',
       ''SecurityPolicyOptions'', True), (''SshMacs'', ''SecurityPolicyOptions'', True), (''TlsCiphers'',
       ''SecurityPolicyOptions'', True), (''SshHostKeyAlgorithms'', ''SecurityPolicyOptions'', True), (''Type'',
       ''SecurityPolicyResourceType'', True), (''Protocols'', ''SecurityPolicyProtocols'', True)]),
     (''DescribeSecurityPolicyResponse'', Struct [(''SecurityPolicy'', ''DescribedSecurityPolicy'', False)]),
     (''DescribeServerRequest'', Request [(''ServerId'', ''ServerId'', False)]),
     (''DescribedServer'', Struct [(''Arn'', ''Arn'', False), (''Certificate'', ''Certificate'', True),
       (''ProtocolDetails'', ''ProtocolDetails'', True), (''Domain'', ''Domain'', True), (''EndpointDetails'',
       ''EndpointDetails'', True), (''EndpointType'', ''EndpointType'', True), (''HostKeyFingerprint'',
       ''HostKeyFingerprint'', True), (''IdentityProviderDetails'', ''IdentityProviderDetails'', True),
       (''IdentityProviderType'', ''IdentityProviderType'', True), (''LoggingRole'', ''NullableRole'', True),
       (''PostAuthenticationLoginBanner'', ''PostAuthenticationLoginBanner'', True),
       (''PreAuthenticationLoginBanner'', ''PreAuthenticationLoginBanner'', True), (''Protocols'', ''Protocols'',
       True), (''SecurityPolicyName'', ''SecurityPolicyName'', True), (''ServerId'', ''ServerId'', True),
       (''State'', ''State'', True), (''Tags'', ''Tags'', True), (''UserCount'', ''UserCount'', True),
       (''WorkflowDetails'', ''WorkflowDetails'', True), (''StructuredLogDestinations'',
       ''StructuredLogDestinations'', True), (''S3StorageOptions'', ''S3StorageOptions'', True),
       (''As2ServiceManagedEgressIpAddresses'', ''ServiceManagedEgressIpAddresses'', True), (''IpAddressType'',
       ''IpAddressType'', True)]),
     (''DescribeServerResponse'', Struct [(''Server'', ''DescribedServer'', False)]),
     (''DescribeUserRequest'', Request [(''ServerId'', ''ServerId'', False), (''UserName'', ''UserName'', False)]),
     (''SshPublicKey'', Struct [(''DateImported'', ''DateImported'', False), (''SshPublicKeyBody'',
       ''SshPublicKeyBody'', False), (''SshPublicKeyId'', ''SshPublicKeyId'', False)]),
     (''SshPublicKeys'', ListOf ''SshPublicKey''),
     (''DescribedUser'', Struct [(''Arn'', ''Arn'', False), (''HomeDirectory'', ''HomeDirectory'', True),
       (''HomeDirectoryMappings'', ''HomeDirectoryMappings'', True), (''HomeDirectoryType'', ''HomeDirectoryType'',
       True), (''Policy'', ''Policy'', True), (''PosixProfile'', ''PosixProfile'', True), (''Role'', ''Role'',
       True), (''SshPublicKeys'', ''SshPublicKeys'', True), (''Tags'', ''Tags'', True), (''UserName'', ''UserName'',
       True)]),
     (''DescribeUserResponse'', Struct [(''ServerId'', ''ServerId'', False), (''User'', ''DescribedUser'', False)]),
     (''DescribeWebAppCustomizationRequest'', Request [(''WebAppId'', ''WebAppId'', False)]),
     (''WebAppFaviconFile'', Alias ''bytes''),
     (''WebAppLogoFile'', Alias ''bytes'')]"

definition transfer_types_9 :: "(string \<times> api_type) list" where
  "transfer_types_9 =
    [
     (''DescribedWebAppCustomization'', Struct [(''Arn'', ''Arn'', False), (''WebAppId'', ''WebAppId'', False),
       (''Title'', ''WebAppTitle'', True), (''LogoFile'', ''WebAppLogoFile'', True), (''FaviconFile'',
       ''WebAppFaviconFile'', True)]),
     (''DescribeWebAppCustomizationResponse'', Struct [(''WebAppCustomization'', ''DescribedWebAppCustomization'',
       False)]),
     (''DescribeWebAppRequest'', Request [(''WebAppId'', ''WebAppId'', False)]),
     (''DescribedWebAppVpcConfig'', Struct [(''SubnetIds'', ''SubnetIds'', True), (''VpcId'', ''VpcId'', True),
       (''VpcEndpointId'', ''VpcEndpointId'', True)]),
     (''DescribedWebAppEndpointDetails'', Struct [(''Vpc'', ''DescribedWebAppVpcConfig'', True)]),
     (''DescribedIdentityCenterConfig'', Struct [(''ApplicationArn'', ''IdentityCenterApplicationArn'', True),
       (''InstanceArn'', ''IdentityCenterInstanceArn'', True), (''Role'', ''Role'', True)]),
     (''DescribedWebAppIdentityProviderDetails'', Struct [(''IdentityCenterConfig'',
       ''DescribedIdentityCenterConfig'', True)]),
     (''DescribedWebApp'', Struct [(''Arn'', ''Arn'', False), (''WebAppId'', ''WebAppId'', False),
       (''DescribedIdentityProviderDetails'', ''DescribedWebAppIdentityProviderDetails'', True),
       (''AccessEndpoint'', ''WebAppAccessEndpoint'', True), (''WebAppEndpoint'', ''WebAppEndpoint'', True),
       (''WebAppUnits'', ''WebAppUnits'', True), (''Tags'', ''Tags'', True), (''WebAppEndpointPolicy'',
       ''WebAppEndpointPolicy'', True), (''EndpointType'', ''WebAppEndpointType'', True),
       (''DescribedEndpointDetails'', ''DescribedWebAppEndpointDetails'', True)]),
     (''DescribeWebAppResponse'', Struct [(''WebApp'', ''DescribedWebApp'', False)]),
     (''DescribeWorkflowRequest'', Request [(''WorkflowId'', ''WorkflowId'', False)]),
     (''DescribedWorkflow'', Struct [(''Arn'', ''Arn'', False), (''Description'', ''WorkflowDescription'', True),
       (''Steps'', ''WorkflowSteps'', True), (''OnExceptionSteps'', ''WorkflowSteps'', True), (''WorkflowId'',
       ''WorkflowId'', True), (''Tags'', ''Tags'', True)]),
     (''DescribeWorkflowResponse'', Struct [(''Workflow'', ''DescribedWorkflow'', False)]),
     (''FilePaths'', ListOf ''FilePath''),
     (''ImportCertificateRequest'', Request [(''Usage'', ''CertificateUsageType'', False), (''Certificate'',
       ''CertificateBodyType'', False), (''CertificateChain'', ''CertificateChainType'', True), (''PrivateKey'',
       ''PrivateKeyType'', True), (''ActiveDate'', ''CertDate'', True), (''InactiveDate'', ''CertDate'', True),
       (''Description'', ''Description'', True), (''Tags'', ''Tags'', True)]),
     (''ImportCertificateResponse'', Struct [(''CertificateId'', ''CertificateId'', False)]),
     (''ImportHostKeyRequest'', Request [(''ServerId'', ''ServerId'', False), (''HostKeyBody'', ''HostKey'', False),
       (''Description'', ''HostKeyDescription'', True), (''Tags'', ''Tags'', True)]),
     (''ImportHostKeyResponse'', Struct [(''ServerId'', ''ServerId'', False), (''HostKeyId'', ''HostKeyId'',
       False)]),
     (''ImportSshPublicKeyRequest'', Request [(''ServerId'', ''ServerId'', False), (''SshPublicKeyBody'',
       ''SshPublicKeyBody'', False), (''UserName'', ''UserName'', False)]),
     (''ImportSshPublicKeyResponse'', Struct [(''ServerId'', ''ServerId'', False), (''SshPublicKeyId'',
       ''SshPublicKeyId'', False), (''UserName'', ''UserName'', False)]),
     (''ListAccessesRequest'', Request [(''MaxResults'', ''MaxResults'', True), (''NextToken'', ''NextToken'',
       True), (''ServerId'', ''ServerId'', False)]),
     (''ListedAccess'', Struct [(''HomeDirectory'', ''HomeDirectory'', True), (''HomeDirectoryType'',
       ''HomeDirectoryType'', True), (''Role'', ''Role'', True), (''ExternalId'', ''ExternalId'', True)]),
     (''ListedAccesses'', ListOf ''ListedAccess''),
     (''ListAccessesResponse'', Struct [(''NextToken'', ''NextToken'', True), (''ServerId'', ''ServerId'', False),
       (''Accesses'', ''ListedAccesses'', False)]),
     (''ListAgreementsRequest'', Request [(''MaxResults'', ''MaxResults'', True), (''NextToken'', ''NextToken'',
       True), (''ServerId'', ''ServerId'', False)])]"

definition transfer_types_10 :: "(string \<times> api_type) list" where
  "transfer_types_10 =
    [
     (''ListedAgreement'', Struct [(''Arn'', ''Arn'', True), (''AgreementId'', ''AgreementId'', True),
       (''Description'', ''Description'', True), (''Status'', ''AgreementStatusType'', True), (''ServerId'',
       ''ServerId'', True), (''LocalProfileId'', ''ProfileId'', True), (''PartnerProfileId'', ''ProfileId'', True)]),
     (''ListedAgreements'', ListOf ''ListedAgreement''),
     (''ListAgreementsResponse'', Struct [(''NextToken'', ''NextToken'', True), (''Agreements'',
       ''ListedAgreements'', False)]),
     (''ListCertificatesRequest'', Request [(''MaxResults'', ''MaxResults'', True), (''NextToken'', ''NextToken'',
       True)]),
     (''ListedCertificate'', Struct [(''Arn'', ''Arn'', True), (''CertificateId'', ''CertificateId'', True),
       (''Usage'', ''CertificateUsageType'', True), (''Status'', ''CertificateStatusType'', True), (''ActiveDate'',
       ''CertDate'', True), (''InactiveDate'', ''CertDate'', True), (''Type'', ''CertificateType'', True),
       (''Description'', ''Description'', True)]),
     (''ListedCertificates'', ListOf ''ListedCertificate''),
     (''ListCertificatesResponse'', Struct [(''NextToken'', ''NextToken'', True), (''Certificates'',
       ''ListedCertificates'', False)]),
     (''ListConnectorsRequest'', Request [(''MaxResults'', ''MaxResults'', True), (''NextToken'', ''NextToken'',
       True)]),
     (''ListedConnector'', Struct [(''Arn'', ''Arn'', True), (''ConnectorId'', ''ConnectorId'', True), (''Url'',
       ''Url'', True)]),
     (''ListedConnectors'', ListOf ''ListedConnector''),
     (''ListConnectorsResponse'', Struct [(''NextToken'', ''NextToken'', True), (''Connectors'',
       ''ListedConnectors'', False)]),
     (''ListExecutionsRequest'', Request [(''MaxResults'', ''MaxResults'', True), (''NextToken'', ''NextToken'',
       True), (''WorkflowId'', ''WorkflowId'', False)]),
     (''ListedExecution'', Struct [(''ExecutionId'', ''ExecutionId'', True), (''InitialFileLocation'',
       ''FileLocation'', True), (''ServiceMetadata'', ''ServiceMetadata'', True), (''Status'', ''ExecutionStatus'',
       True)]),
     (''ListedExecutions'', ListOf ''ListedExecution''),
     (''ListExecutionsResponse'', Struct [(''NextToken'', ''NextToken'', True), (''WorkflowId'', ''WorkflowId'',
       False), (''Executions'', ''ListedExecutions'', False)]),
     (''ListFileTransferResultsRequest'', Request [(''ConnectorId'', ''ConnectorId'', False), (''TransferId'',
       ''TransferId'', False), (''NextToken'', ''NextToken'', True), (''MaxResults'', ''MaxResults'', True)]),
     (''ListFileTransferResultsResponse'', Struct [(''FileTransferResults'', ''ConnectorFileTransferResults'',
       False), (''NextToken'', ''NextToken'', True)]),
     (''ListHostKeysRequest'', Request [(''MaxResults'', ''MaxResults'', True), (''NextToken'', ''NextToken'',
       True), (''ServerId'', ''ServerId'', False)]),
     (''ListedHostKey'', Struct [(''Arn'', ''Arn'', False), (''HostKeyId'', ''HostKeyId'', True), (''Fingerprint'',
       ''HostKeyFingerprint'', True), (''Description'', ''HostKeyDescription'', True), (''Type'', ''HostKeyType'',
       True), (''DateImported'', ''DateImported'', True)]),
     (''ListedHostKeys'', ListOf ''ListedHostKey''),
     (''ListHostKeysResponse'', Struct [(''NextToken'', ''NextToken'', True), (''ServerId'', ''ServerId'', False),
       (''HostKeys'', ''ListedHostKeys'', False)]),
     (''ListProfilesRequest'', Request [(''MaxResults'', ''MaxResults'', True), (''NextToken'', ''NextToken'',
       True), (''ProfileType'', ''ProfileType'', True)]),
     (''ListedProfile'', Struct [(''Arn'', ''Arn'', True), (''ProfileId'', ''ProfileId'', True), (''As2Id'',
       ''As2Id'', True), (''ProfileType'', ''ProfileType'', True)]),
     (''ListedProfiles'', ListOf ''ListedProfile''),
     (''ListProfilesResponse'', Struct [(''NextToken'', ''NextToken'', True), (''Profiles'', ''ListedProfiles'',
       False)]),
     (''ListSecurityPoliciesRequest'', Request [(''MaxResults'', ''MaxResults'', True), (''NextToken'',
       ''NextToken'', True)]),
     (''SecurityPolicyNames'', ListOf ''SecurityPolicyName''),
     (''ListSecurityPoliciesResponse'', Struct [(''NextToken'', ''NextToken'', True), (''SecurityPolicyNames'',
       ''SecurityPolicyNames'', False)]),
     (''ListServersRequest'', Request [(''MaxResults'', ''MaxResults'', True), (''NextToken'', ''NextToken'',
       True)]),
     (''ListedServer'', Struct [(''Arn'', ''Arn'', False), (''Domain'', ''Domain'', True),
       (''IdentityProviderType'', ''IdentityProviderType'', True), (''EndpointType'', ''EndpointType'', True),
       (''LoggingRole'', ''Role'', True), (''ServerId'', ''ServerId'', True), (''State'', ''State'', True),
       (''UserCount'', ''UserCount'', True)]),
     (''ListedServers'', ListOf ''ListedServer'')]"

definition transfer_types_11 :: "(string \<times> api_type) list" where
  "transfer_types_11 =
    [
     (''ListServersResponse'', Struct [(''NextToken'', ''NextToken'', True), (''Servers'', ''ListedServers'',
       False)]),
     (''ListTagsForResourceRequest'', Request [(''Arn'', ''Arn'', False), (''MaxResults'', ''MaxResults'', True),
       (''NextToken'', ''NextToken'', True)]),
     (''ListTagsForResourceResponse'', Struct [(''Arn'', ''Arn'', True), (''NextToken'', ''NextToken'', True),
       (''Tags'', ''Tags'', True)]),
     (''ListUsersRequest'', Request [(''MaxResults'', ''MaxResults'', True), (''NextToken'', ''NextToken'', True),
       (''ServerId'', ''ServerId'', False)]),
     (''ListedUser'', Struct [(''Arn'', ''Arn'', False), (''HomeDirectory'', ''HomeDirectory'', True),
       (''HomeDirectoryType'', ''HomeDirectoryType'', True), (''Role'', ''Role'', True), (''SshPublicKeyCount'',
       ''SshPublicKeyCount'', True), (''UserName'', ''UserName'', True)]),
     (''ListedUsers'', ListOf ''ListedUser''),
     (''ListUsersResponse'', Struct [(''NextToken'', ''NextToken'', True), (''ServerId'', ''ServerId'', False),
       (''Users'', ''ListedUsers'', False)]),
     (''ListWebAppsRequest'', Request [(''MaxResults'', ''MaxResults'', True), (''NextToken'', ''NextToken'',
       True)]),
     (''ListedWebApp'', Struct [(''Arn'', ''Arn'', False), (''WebAppId'', ''WebAppId'', False), (''AccessEndpoint'',
       ''WebAppAccessEndpoint'', True), (''WebAppEndpoint'', ''WebAppEndpoint'', True), (''EndpointType'',
       ''WebAppEndpointType'', True)]),
     (''ListedWebApps'', ListOf ''ListedWebApp''),
     (''ListWebAppsResponse'', Struct [(''NextToken'', ''NextToken'', True), (''WebApps'', ''ListedWebApps'',
       False)]),
     (''ListWorkflowsRequest'', Request [(''MaxResults'', ''MaxResults'', True), (''NextToken'', ''NextToken'',
       True)]),
     (''ListedWorkflow'', Struct [(''WorkflowId'', ''WorkflowId'', True), (''Description'', ''WorkflowDescription'',
       True), (''Arn'', ''Arn'', True)]),
     (''ListedWorkflows'', ListOf ''ListedWorkflow''),
     (''ListWorkflowsResponse'', Struct [(''NextToken'', ''NextToken'', True), (''Workflows'', ''ListedWorkflows'',
       False)]),
     (''SendWorkflowStepStateRequest'', Request [(''WorkflowId'', ''WorkflowId'', False), (''ExecutionId'',
       ''ExecutionId'', False), (''Token'', ''CallbackToken'', False), (''Status'', ''CustomStepStatus'', False)]),
     (''SendWorkflowStepStateResponse'', Struct []),
     (''SftpConnectorConnectionDetails'', Struct [(''HostKey'', ''SftpConnectorHostKey'', True)]),
     (''StartDirectoryListingRequest'', Request [(''ConnectorId'', ''ConnectorId'', False),
       (''RemoteDirectoryPath'', ''FilePath'', False), (''MaxItems'', ''MaxItems'', True), (''OutputDirectoryPath'',
       ''FilePath'', False)]),
     (''StartDirectoryListingResponse'', Struct [(''ListingId'', ''ListingId'', False), (''OutputFileName'',
       ''OutputFileName'', False)]),
     (''StartFileTransferRequest'', Request [(''ConnectorId'', ''ConnectorId'', False), (''SendFilePaths'',
       ''FilePaths'', True), (''RetrieveFilePaths'', ''FilePaths'', True), (''LocalDirectoryPath'', ''FilePath'',
       True), (''RemoteDirectoryPath'', ''FilePath'', True), (''CustomHttpHeaders'', ''CustomHttpHeaders'', True)]),
     (''StartFileTransferResponse'', Struct [(''TransferId'', ''TransferId'', False)]),
     (''StartRemoteDeleteRequest'', Request [(''ConnectorId'', ''ConnectorId'', False), (''DeletePath'',
       ''FilePath'', False)]),
     (''StartRemoteDeleteResponse'', Struct [(''DeleteId'', ''DeleteId'', False)]),
     (''StartRemoteMoveRequest'', Request [(''ConnectorId'', ''ConnectorId'', False), (''SourcePath'', ''FilePath'',
       False), (''TargetPath'', ''FilePath'', False)]),
     (''StartRemoteMoveResponse'', Struct [(''MoveId'', ''MoveId'', False)]),
     (''StartServerRequest'', Request [(''ServerId'', ''ServerId'', False)]),
     (''StopServerRequest'', Request [(''ServerId'', ''ServerId'', False)]),
     (''TagKeys'', ListOf ''TagKey''),
     (''TagResourceRequest'', Request [(''Arn'', ''Arn'', False), (''Tags'', ''Tags'', False)]),
     (''TestConnectionRequest'', Request [(''ConnectorId'', ''ConnectorId'', False)]),
     (''TestConnectionResponse'', Struct [(''ConnectorId'', ''ConnectorId'', True), (''Status'', ''Status'', True),
       (''StatusMessage'', ''Message'', True), (''SftpConnectionDetails'', ''SftpConnectorConnectionDetails'',
       True)]),
     (''TestIdentityProviderRequest'', Request [(''ServerId'', ''ServerId'', False), (''ServerProtocol'',
       ''Protocol'', True), (''SourceIp'', ''SourceIp'', True), (''UserName'', ''UserName'', False),
       (''UserPassword'', ''UserPassword'', True)])]"

definition transfer_types_12 :: "(string \<times> api_type) list" where
  "transfer_types_12 =
    [
     (''TestIdentityProviderResponse'', Struct [(''Response'', ''Response'', True), (''StatusCode'', ''StatusCode'',
       False), (''Message'', ''Message'', True), (''Url'', ''Url'', False)]),
     (''UntagResourceRequest'', Request [(''Arn'', ''Arn'', False), (''TagKeys'', ''TagKeys'', False)]),
     (''UpdateAccessRequest'', Request [(''HomeDirectory'', ''HomeDirectory'', True), (''HomeDirectoryType'',
       ''HomeDirectoryType'', True), (''HomeDirectoryMappings'', ''HomeDirectoryMappings'', True), (''Policy'',
       ''Policy'', True), (''PosixProfile'', ''PosixProfile'', True), (''Role'', ''Role'', True), (''ServerId'',
       ''ServerId'', False), (''ExternalId'', ''ExternalId'', False)]),
     (''UpdateAccessResponse'', Struct [(''ServerId'', ''ServerId'', False), (''ExternalId'', ''ExternalId'',
       False)]),
     (''UpdateAgreementRequest'', Request [(''AgreementId'', ''AgreementId'', False), (''ServerId'', ''ServerId'',
       False), (''Description'', ''Description'', True), (''Status'', ''AgreementStatusType'', True),
       (''LocalProfileId'', ''ProfileId'', True), (''PartnerProfileId'', ''ProfileId'', True), (''BaseDirectory'',
       ''HomeDirectory'', True), (''AccessRole'', ''Role'', True), (''PreserveFilename'', ''PreserveFilenameType'',
       True), (''EnforceMessageSigning'', ''EnforceMessageSigningType'', True), (''CustomDirectories'',
       ''CustomDirectoriesType'', True)]),
     (''UpdateAgreementResponse'', Struct [(''AgreementId'', ''AgreementId'', False)]),
     (''UpdateCertificateRequest'', Request [(''CertificateId'', ''CertificateId'', False), (''ActiveDate'',
       ''CertDate'', True), (''InactiveDate'', ''CertDate'', True), (''Description'', ''Description'', True)]),
     (''UpdateCertificateResponse'', Struct [(''CertificateId'', ''CertificateId'', False)]),
     (''UpdateConnectorVpcLatticeEgressConfig'', Struct [(''ResourceConfigurationArn'',
       ''VpcLatticeResourceConfigurationArn'', True), (''PortNumber'', ''SftpPort'', True)]),
     (''UpdateConnectorEgressConfig'', Struct [(''VpcLattice'', ''UpdateConnectorVpcLatticeEgressConfig'', True)]),
     (''UpdateConnectorRequest'', Request [(''ConnectorId'', ''ConnectorId'', False), (''Url'', ''Url'', True),
       (''As2Config'', ''As2ConnectorConfig'', True), (''AccessRole'', ''Role'', True), (''LoggingRole'', ''Role'',
       True), (''SftpConfig'', ''SftpConnectorConfig'', True), (''SecurityPolicyName'',
       ''ConnectorSecurityPolicyName'', True), (''EgressConfig'', ''UpdateConnectorEgressConfig'', True)]),
     (''UpdateConnectorResponse'', Struct [(''ConnectorId'', ''ConnectorId'', False)]),
     (''UpdateHostKeyRequest'', Request [(''ServerId'', ''ServerId'', False), (''HostKeyId'', ''HostKeyId'', False),
       (''Description'', ''HostKeyDescription'', False)]),
     (''UpdateHostKeyResponse'', Struct [(''ServerId'', ''ServerId'', False), (''HostKeyId'', ''HostKeyId'',
       False)]),
     (''UpdateProfileRequest'', Request [(''ProfileId'', ''ProfileId'', False), (''CertificateIds'',
       ''CertificateIds'', True)]),
     (''UpdateProfileResponse'', Struct [(''ProfileId'', ''ProfileId'', False)]),
     (''UpdateServerRequest'', Request [(''Certificate'', ''Certificate'', True), (''ProtocolDetails'',
       ''ProtocolDetails'', True), (''EndpointDetails'', ''EndpointDetails'', True), (''EndpointType'',
       ''EndpointType'', True), (''HostKey'', ''HostKey'', True), (''IdentityProviderDetails'',
       ''IdentityProviderDetails'', True), (''LoggingRole'', ''NullableRole'', True),
       (''PostAuthenticationLoginBanner'', ''PostAuthenticationLoginBanner'', True),
       (''PreAuthenticationLoginBanner'', ''PreAuthenticationLoginBanner'', True), (''Protocols'', ''Protocols'',
       True), (''SecurityPolicyName'', ''SecurityPolicyName'', True), (''ServerId'', ''ServerId'', False),
       (''WorkflowDetails'', ''WorkflowDetails'', True), (''StructuredLogDestinations'',
       ''StructuredLogDestinations'', True), (''S3StorageOptions'', ''S3StorageOptions'', True), (''IpAddressType'',
       ''IpAddressType'', True), (''IdentityProviderType'', ''IdentityProviderType'', True)]),
     (''UpdateServerResponse'', Struct [(''ServerId'', ''ServerId'', False)]),
     (''UpdateUserRequest'', Request [(''HomeDirectory'', ''HomeDirectory'', True), (''HomeDirectoryType'',
       ''HomeDirectoryType'', True), (''HomeDirectoryMappings'', ''HomeDirectoryMappings'', True), (''Policy'',
       ''Policy'', True), (''PosixProfile'', ''PosixProfile'', True), (''Role'', ''Role'', True), (''ServerId'',
       ''ServerId'', False), (''UserName'', ''UserName'', False)]),
     (''UpdateUserResponse'', Struct [(''ServerId'', ''ServerId'', False), (''UserName'', ''UserName'', False)]),
     (''UpdateWebAppCustomizationRequest'', Request [(''WebAppId'', ''WebAppId'', False), (''Title'',
       ''WebAppTitle'', True), (''LogoFile'', ''WebAppLogoFile'', True), (''FaviconFile'', ''WebAppFaviconFile'',
       True)]),
     (''UpdateWebAppCustomizationResponse'', Struct [(''WebAppId'', ''WebAppId'', False)]),
     (''UpdateWebAppVpcConfig'', Struct [(''SubnetIds'', ''SubnetIds'', True)])]"

definition transfer_types_13 :: "(string \<times> api_type) list" where
  "transfer_types_13 =
    [
     (''UpdateWebAppEndpointDetails'', Struct [(''Vpc'', ''UpdateWebAppVpcConfig'', True)]),
     (''UpdateWebAppIdentityCenterConfig'', Struct [(''Role'', ''Role'', True)]),
     (''UpdateWebAppIdentityProviderDetails'', Struct [(''IdentityCenterConfig'',
       ''UpdateWebAppIdentityCenterConfig'', True)]),
     (''UpdateWebAppRequest'', Request [(''WebAppId'', ''WebAppId'', False), (''IdentityProviderDetails'',
       ''UpdateWebAppIdentityProviderDetails'', True), (''AccessEndpoint'', ''WebAppAccessEndpoint'', True),
       (''WebAppUnits'', ''WebAppUnits'', True), (''EndpointDetails'', ''UpdateWebAppEndpointDetails'', True)]),
     (''UpdateWebAppResponse'', Struct [(''WebAppId'', ''WebAppId'', False)])]"

definition transfer_types :: "(string \<times> api_type) list" where
  "transfer_types = transfer_types_1 @ transfer_types_2 @ transfer_types_3 @ transfer_types_4 @ transfer_types_5 @ transfer_types_6 @ transfer_types_7 @ transfer_types_8 @ transfer_types_9 @ transfer_types_10 @ transfer_types_11 @ transfer_types_12 @ transfer_types_13"

subsection \<open>Methods\<close>

text \<open>The parameters behind \<open>self\<close> and \<open>context\<close>; every method also takes further keyword arguments.\<close>

record api_method =
  am_operation :: string
  am_name :: string
  am_params :: "field list"
  am_result :: string

definition transfer_methods_1 :: "api_method list" where
  "transfer_methods_1 =
    [
     \<lparr>am_operation = ''CreateAccess'', am_name = ''create_access'', am_params = [(''role'', ''Role'', False),
       (''server_id'', ''ServerId'', False), (''external_id'', ''ExternalId'', False), (''home_directory'',
       ''HomeDirectory'', True), (''home_directory_type'', ''HomeDirectoryType'', True),
       (''home_directory_mappings'', ''HomeDirectoryMappings'', True), (''policy'', ''Policy'', True),
       (''posix_profile'', ''PosixProfile'', True)], am_result = ''CreateAccessResponse''\<rparr>,
     \<lparr>am_operation = ''CreateAgreement'', am_name = ''create_agreement'', am_params = [(''server_id'',
       ''ServerId'', False), (''local_profile_id'', ''ProfileId'', False), (''partner_profile_id'', ''ProfileId'',
       False), (''access_role'', ''Role'', False), (''description'', ''Description'', True), (''base_directory'',
       ''HomeDirectory'', True), (''status'', ''AgreementStatusType'', True), (''tags'', ''Tags'', True),
       (''preserve_filename'', ''PreserveFilenameType'', True), (''enforce_message_signing'',
       ''EnforceMessageSigningType'', True), (''custom_directories'', ''CustomDirectoriesType'', True)], am_result =
       ''CreateAgreementResponse''\<rparr>,
     \<lparr>am_operation = ''CreateConnector'', am_name = ''create_connector'', am_params = [(''access_role'',
       ''Role'', False), (''url'', ''Url'', True), (''as2_config'', ''As2ConnectorConfig'', True),
       (''logging_role'', ''Role'', True), (''tags'', ''Tags'', True), (''sftp_config'', ''SftpConnectorConfig'',
       True), (''security_policy_name'', ''ConnectorSecurityPolicyName'', True), (''egress_config'',
       ''ConnectorEgressConfig'', True)], am_result = ''CreateConnectorResponse''\<rparr>,
     \<lparr>am_operation = ''CreateProfile'', am_name = ''create_profile'', am_params = [(''as2_id'', ''As2Id'',
       False), (''profile_type'', ''ProfileType'', False), (''certificate_ids'', ''CertificateIds'', True),
       (''tags'', ''Tags'', True)], am_result = ''CreateProfileResponse''\<rparr>]"

definition transfer_methods_2 :: "api_method list" where
  "transfer_methods_2 =
    [
     \<lparr>am_operation = ''CreateServer'', am_name = ''create_server'', am_params = [(''certificate'',
       ''Certificate'', True), (''domain'', ''Domain'', True), (''endpoint_details'', ''EndpointDetails'', True),
       (''endpoint_type'', ''EndpointType'', True), (''host_key'', ''HostKey'', True),
       (''identity_provider_details'', ''IdentityProviderDetails'', True), (''identity_provider_type'',
       ''IdentityProviderType'', True), (''logging_role'', ''NullableRole'', True),
       (''post_authentication_login_banner'', ''PostAuthenticationLoginBanner'', True),
       (''pre_authentication_login_banner'', ''PreAuthenticationLoginBanner'', True), (''protocols'', ''Protocols'',
       True), (''protocol_details'', ''ProtocolDetails'', True), (''security_policy_name'', ''SecurityPolicyName'',
       True), (''tags'', ''Tags'', True), (''workflow_details'', ''WorkflowDetails'', True),
       (''structured_log_destinations'', ''StructuredLogDestinations'', True), (''s3_storage_options'',
       ''S3StorageOptions'', True), (''ip_address_type'', ''IpAddressType'', True)], am_result =
       ''CreateServerResponse''\<rparr>,
     \<lparr>am_operation = ''CreateUser'', am_name = ''create_user'', am_params = [(''role'', ''Role'', False),
       (''server_id'', ''ServerId'', False), (''user_name'', ''UserName'', False), (''home_directory'',
       ''HomeDirectory'', True), (''home_directory_type'', ''HomeDirectoryType'', True),
       (''home_directory_mappings'', ''HomeDirectoryMappings'', True), (''policy'', ''Policy'', True),
       (''posix_profile'', ''PosixProfile'', True), (''ssh_public_key_body'', ''SshPublicKeyBody'', True),
       (''tags'', ''Tags'', True)], am_result = ''CreateUserResponse''\<rparr>,
     \<lparr>am_operation = ''CreateWebApp'', am_name = ''create_web_app'', am_params =
       [(''identity_provider_details'', ''WebAppIdentityProviderDetails'', False), (''access_endpoint'',
       ''WebAppAccessEndpoint'', True), (''web_app_units'', ''WebAppUnits'', True), (''tags'', ''Tags'', True),
       (''web_app_endpoint_policy'', ''WebAppEndpointPolicy'', True), (''endpoint_details'',
       ''WebAppEndpointDetails'', True)], am_result = ''CreateWebAppResponse''\<rparr>,
     \<lparr>am_operation = ''CreateWorkflow'', am_name = ''create_workflow'', am_params = [(''steps'',
       ''WorkflowSteps'', False), (''description'', ''WorkflowDescription'', True), (''on_exception_steps'',
       ''WorkflowSteps'', True), (''tags'', ''Tags'', True)], am_result = ''CreateWorkflowResponse''\<rparr>]"

definition transfer_methods_3 :: "api_method list" where
  "transfer_methods_3 =
    [
     \<lparr>am_operation = ''DeleteAccess'', am_name = ''delete_access'', am_params = [(''server_id'',
       ''ServerId'', False), (''external_id'', ''ExternalId'', False)], am_result = ''None''\<rparr>,
     \<lparr>am_operation = ''DeleteAgreement'', am_name = ''delete_agreement'', am_params = [(''agreement_id'',
       ''AgreementId'', False), (''server_id'', ''ServerId'', False)], am_result = ''None''\<rparr>,
     \<lparr>am_operation = ''DeleteCertificate'', am_name = ''delete_certificate'', am_params =
       [(''certificate_id'', ''CertificateId'', False)], am_result = ''None''\<rparr>,
     \<lparr>am_operation = ''DeleteConnector'', am_name = ''delete_connector'', am_params = [(''connector_id'',
       ''ConnectorId'', False)], am_result = ''None''\<rparr>,
     \<lparr>am_operation = ''DeleteHostKey'', am_name = ''delete_host_key'', am_params = [(''server_id'',
       ''ServerId'', False), (''host_key_id'', ''HostKeyId'', False)], am_result = ''None''\<rparr>,
     \<lparr>am_operation = ''DeleteProfile'', am_name = ''delete_profile'', am_params = [(''profile_id'',
       ''ProfileId'', False)], am_result = ''None''\<rparr>,
     \<lparr>am_operation = ''DeleteServer'', am_name = ''delete_server'', am_params = [(''server_id'',
       ''ServerId'', False)], am_result = ''None''\<rparr>,
     \<lparr>am_operation = ''DeleteSshPublicKey'', am_name = ''delete_ssh_public_key'', am_params =
       [(''server_id'', ''ServerId'', False), (''ssh_public_key_id'', ''SshPublicKeyId'', False), (''user_name'',
       ''UserName'', False)], am_result = ''None''\<rparr>,
     \<lparr>am_operation = ''DeleteUser'', am_name = ''delete_user'', am_params = [(''server_id'', ''ServerId'',
       False), (''user_name'', ''UserName'', False)], am_result = ''None''\<rparr>,
     \<lparr>am_operation = ''DeleteWebApp'', am_name = ''delete_web_app'', am_params = [(''web_app_id'',
       ''WebAppId'', False)], am_result = ''None''\<rparr>]"

definition transfer_methods_4 :: "api_method list" where
  "transfer_methods_4 =
    [
     \<lparr>am_operation = ''DeleteWebAppCustomization'', am_name = ''delete_web_app_customization'', am_params =
       [(''web_app_id'', ''WebAppId'', False)], am_result = ''None''\<rparr>,
     \<lparr>am_operation = ''DeleteWorkflow'', am_name = ''delete_workflow'', am_params = [(''workflow_id'',
       ''WorkflowId'', False)], am_result = ''None''\<rparr>,
     \<lparr>am_operation = ''DescribeAccess'', am_name = ''describe_access'', am_params = [(''server_id'',
       ''ServerId'', False), (''external_id'', ''ExternalId'', False)], am_result =
       ''DescribeAccessResponse''\<rparr>,
     \<lparr>am_operation = ''DescribeAgreement'', am_name = ''describe_agreement'', am_params = [(''agreement_id'',
       ''AgreementId'', False), (''server_id'', ''ServerId'', False)], am_result =
       ''DescribeAgreementResponse''\<rparr>,
     \<lparr>am_operation = ''DescribeCertificate'', am_name = ''describe_certificate'', am_params =
       [(''certificate_id'', ''CertificateId'', False)], am_result = ''DescribeCertificateResponse''\<rparr>,
     \<lparr>am_operation = ''DescribeConnector'', am_name = ''describe_connector'', am_params = [(''connector_id'',
       ''ConnectorId'', False)], am_result = ''DescribeConnectorResponse''\<rparr>,
     \<lparr>am_operation = ''DescribeExecution'', am_name = ''describe_execution'', am_params = [(''execution_id'',
       ''ExecutionId'', False), (''workflow_id'', ''WorkflowId'', False)], am_result =
       ''DescribeExecutionResponse''\<rparr>,
     \<lparr>am_operation = ''DescribeHostKey'', am_name = ''describe_host_key'', am_params = [(''server_id'',
       ''ServerId'', False), (''host_key_id'', ''HostKeyId'', False)], am_result =
       ''DescribeHostKeyResponse''\<rparr>,
     \<lparr>am_operation = ''DescribeProfile'', am_name = ''describe_profile'', am_params = [(''profile_id'',
       ''ProfileId'', False)], am_result = ''DescribeProfileResponse''\<rparr>]"

definition transfer_methods_5 :: "api_method list" where
  "transfer_methods_5 =
    [
     \<lparr>am_operation = ''DescribeSecurityPolicy'', am_name = ''describe_security_policy'', am_params =
       [(''security_policy_name'', ''SecurityPolicyName'', False)], am_result =
       ''DescribeSecurityPolicyResponse''\<rparr>,
     \<lparr>am_operation = ''DescribeServer'', am_name = ''describe_server'', am_params = [(''server_id'',
       ''ServerId'', False)], am_result = ''DescribeServerResponse''\<rparr>,
     \<lparr>am_operation = ''DescribeUser'', am_name = ''describe_user'', am_params = [(''server_id'',
       ''ServerId'', False), (''user_name'', ''UserName'', False)], am_result = ''DescribeUserResponse''\<rparr>,
     \<lparr>am_operation = ''DescribeWebApp'', am_name = ''describe_web_app'', am_params = [(''web_app_id'',
       ''WebAppId'', False)], am_result = ''DescribeWebAppResponse''\<rparr>,
     \<lparr>am_operation = ''DescribeWebAppCustomization'', am_name = ''describe_web_app_customization'', am_params
       = [(''web_app_id'', ''WebAppId'', False)], am_result = ''DescribeWebAppCustomizationResponse''\<rparr>,
     \<lparr>am_operation = ''DescribeWorkflow'', am_name = ''describe_workflow'', am_params = [(''workflow_id'',
       ''WorkflowId'', False)], am_result = ''DescribeWorkflowResponse''\<rparr>]"

definition transfer_methods_6 :: "api_method list" where
  "transfer_methods_6 =
    [
     \<lparr>am_operation = ''ImportCertificate'', am_name = ''import_certificate'', am_params = [(''usage'',
       ''CertificateUsageType'', False), (''certificate'', ''CertificateBodyType'', False), (''certificate_chain'',
       ''CertificateChainType'', True), (''private_key'', ''PrivateKeyType'', True), (''active_date'', ''CertDate'',
       True), (''inactive_date'', ''CertDate'', True), (''description'', ''Description'', True), (''tags'',
       ''Tags'', True)], am_result = ''ImportCertificateResponse''\<rparr>,
     \<lparr>am_operation = ''ImportHostKey'', am_name = ''import_host_key'', am_params = [(''server_id'',
       ''ServerId'', False), (''host_key_body'', ''HostKey'', False), (''description'', ''HostKeyDescription'',
       True), (''tags'', ''Tags'', True)], am_result = ''ImportHostKeyResponse''\<rparr>,
     \<lparr>am_operation = ''ImportSshPublicKey'', am_name = ''import_ssh_public_key'', am_params =
       [(''server_id'', ''ServerId'', False), (''ssh_public_key_body'', ''SshPublicKeyBody'', False),
       (''user_name'', ''UserName'', False)], am_result = ''ImportSshPublicKeyResponse''\<rparr>,
     \<lparr>am_operation = ''ListAccesses'', am_name = ''list_accesses'', am_params = [(''server_id'',
       ''ServerId'', False), (''max_results'', ''MaxResults'', True), (''next_token'', ''NextToken'', True)],
       am_result = ''ListAccessesResponse''\<rparr>,
     \<lparr>am_operation = ''ListAgreements'', am_name = ''list_agreements'', am_params = [(''server_id'',
       ''ServerId'', False), (''max_results'', ''MaxResults'', True), (''next_token'', ''NextToken'', True)],
       am_result = ''ListAgreementsResponse''\<rparr>]"

definition transfer_methods_7 :: "api_method list" where
  "transfer_methods_7 =
    [
     \<lparr>am_operation = ''ListCertificates'', am_name = ''list_certificates'', am_params = [(''max_results'',
       ''MaxResults'', True), (''next_token'', ''NextToken'', True)], am_result =
       ''ListCertificatesResponse''\<rparr>,
     \<lparr>am_operation = ''ListConnectors'', am_name = ''list_connectors'', am_params = [(''max_results'',
       ''MaxResults'', True), (''next_token'', ''NextToken'', True)], am_result = ''ListConnectorsResponse''\<rparr>,
     \<lparr>am_operation = ''ListExecutions'', am_name = ''list_executions'', am_params = [(''workflow_id'',
       ''WorkflowId'', False), (''max_results'', ''MaxResults'', True), (''next_token'', ''NextToken'', True)],
       am_result = ''ListExecutionsResponse''\<rparr>,
     \<lparr>am_operation = ''ListFileTransferResults'', am_name = ''list_file_transfer_results'', am_params =
       [(''connector_id'', ''ConnectorId'', False), (''transfer_id'', ''TransferId'', False), (''next_token'',
       ''NextToken'', True), (''max_results'', ''MaxResults'', True)], am_result =
       ''ListFileTransferResultsResponse''\<rparr>,
     \<lparr>am_operation = ''ListHostKeys'', am_name = ''list_host_keys'', am_params = [(''server_id'',
       ''ServerId'', False), (''max_results'', ''MaxResults'', True), (''next_token'', ''NextToken'', True)],
       am_result = ''ListHostKeysResponse''\<rparr>,
     \<lparr>am_operation = ''ListProfiles'', am_name = ''list_profiles'', am_params = [(''max_results'',
       ''MaxResults'', True), (''next_token'', ''NextToken'', True), (''profile_type'', ''ProfileType'', True)],
       am_result = ''ListProfilesResponse''\<rparr>,
     \<lparr>am_operation = ''ListSecurityPolicies'', am_name = ''list_security_policies'', am_params =
       [(''max_results'', ''MaxResults'', True), (''next_token'', ''NextToken'', True)], am_result =
       ''ListSecurityPoliciesResponse''\<rparr>]"

definition transfer_methods_8 :: "api_method list" where
  "transfer_methods_8 =
    [
     \<lparr>am_operation = ''ListServers'', am_name = ''list_servers'', am_params = [(''max_results'',
       ''MaxResults'', True), (''next_token'', ''NextToken'', True)], am_result = ''ListServersResponse''\<rparr>,
     \<lparr>am_operation = ''ListTagsForResource'', am_name = ''list_tags_for_resource'', am_params = [(''arn'',
       ''Arn'', False), (''max_results'', ''MaxResults'', True), (''next_token'', ''NextToken'', True)], am_result =
       ''ListTagsForResourceResponse''\<rparr>,
     \<lparr>am_operation = ''ListUsers'', am_name = ''list_users'', am_params = [(''server_id'', ''ServerId'',
       False), (''max_results'', ''MaxResults'', True), (''next_token'', ''NextToken'', True)], am_result =
       ''ListUsersResponse''\<rparr>,
     \<lparr>am_operation = ''ListWebApps'', am_name = ''list_web_apps'', am_params = [(''max_results'',
       ''MaxResults'', True), (''next_token'', ''NextToken'', True)], am_result = ''ListWebAppsResponse''\<rparr>,
     \<lparr>am_operation = ''ListWorkflows'', am_name = ''list_workflows'', am_params = [(''max_results'',
       ''MaxResults'', True), (''next_token'', ''NextToken'', True)], am_result = ''ListWorkflowsResponse''\<rparr>,
     \<lparr>am_operation = ''SendWorkflowStepState'', am_name = ''send_workflow_step_state'', am_params =
       [(''workflow_id'', ''WorkflowId'', False), (''execution_id'', ''ExecutionId'', False), (''token'',
       ''CallbackToken'', False), (''status'', ''CustomStepStatus'', False)], am_result =
       ''SendWorkflowStepStateResponse''\<rparr>]"

definition transfer_methods_9 :: "api_method list" where
  "transfer_methods_9 =
    [
     \<lparr>am_operation = ''StartDirectoryListing'', am_name = ''start_directory_listing'', am_params =
       [(''connector_id'', ''ConnectorId'', False), (''remote_directory_path'', ''FilePath'', False),
       (''output_directory_path'', ''FilePath'', False), (''max_items'', ''MaxItems'', True)], am_result =
       ''StartDirectoryListingResponse''\<rparr>,
     \<lparr>am_operation = ''StartFileTransfer'', am_name = ''start_file_transfer'', am_params =
       [(''connector_id'', ''ConnectorId'', False), (''send_file_paths'', ''FilePaths'', True),
       (''retrieve_file_paths'', ''FilePaths'', True), (''local_directory_path'', ''FilePath'', True),
       (''remote_directory_path'', ''FilePath'', True), (''custom_http_headers'', ''CustomHttpHeaders'', True)],
       am_result = ''StartFileTransferResponse''\<rparr>,
     \<lparr>am_operation = ''StartRemoteDelete'', am_name = ''start_remote_delete'', am_params =
       [(''connector_id'', ''ConnectorId'', False), (''delete_path'', ''FilePath'', False)], am_result =
       ''StartRemoteDeleteResponse''\<rparr>,
     \<lparr>am_operation = ''StartRemoteMove'', am_name = ''start_remote_move'', am_params = [(''connector_id'',
       ''ConnectorId'', False), (''source_path'', ''FilePath'', False), (''target_path'', ''FilePath'', False)],
       am_result = ''StartRemoteMoveResponse''\<rparr>]"

definition transfer_methods_10 :: "api_method list" where
  "transfer_methods_10 =
    [
     \<lparr>am_operation = ''StartServer'', am_name = ''start_server'', am_params = [(''server_id'', ''ServerId'',
       False)], am_result = ''None''\<rparr>,
     \<lparr>am_operation = ''StopServer'', am_name = ''stop_server'', am_params = [(''server_id'', ''ServerId'',
       False)], am_result = ''None''\<rparr>,
     \<lparr>am_operation = ''TagResource'', am_name = ''tag_resource'', am_params = [(''arn'', ''Arn'', False),
       (''tags'', ''Tags'', False)], am_result = ''None''\<rparr>,
     \<lparr>am_operation = ''TestConnection'', am_name = ''test_connection'', am_params = [(''connector_id'',
       ''ConnectorId'', False)], am_result = ''TestConnectionResponse''\<rparr>,
     \<lparr>am_operation = ''TestIdentityProvider'', am_name = ''test_identity_provider'', am_params =
       [(''server_id'', ''ServerId'', False), (''user_name'', ''UserName'', False), (''server_protocol'',
       ''Protocol'', True), (''source_ip'', ''SourceIp'', True), (''user_password'', ''UserPassword'', True)],
       am_result = ''TestIdentityProviderResponse''\<rparr>]"

definition transfer_methods_11 :: "api_method list" where
  "transfer_methods_11 =
    [
     \<lparr>am_operation = ''UntagResource'', am_name = ''untag_resource'', am_params = [(''arn'', ''Arn'', False),
       (''tag_keys'', ''TagKeys'', False)], am_result = ''None''\<rparr>,
     \<lparr>am_operation = ''UpdateAccess'', am_name = ''update_access'', am_params = [(''server_id'',
       ''ServerId'', False), (''external_id'', ''ExternalId'', False), (''home_directory'', ''HomeDirectory'',
       True), (''home_directory_type'', ''HomeDirectoryType'', True), (''home_directory_mappings'',
       ''HomeDirectoryMappings'', True), (''policy'', ''Policy'', True), (''posix_profile'', ''PosixProfile'',
       True), (''role'', ''Role'', True)], am_result = ''UpdateAccessResponse''\<rparr>,
     \<lparr>am_operation = ''UpdateAgreement'', am_name = ''update_agreement'', am_params = [(''agreement_id'',
       ''AgreementId'', False), (''server_id'', ''ServerId'', False), (''description'', ''Description'', True),
       (''status'', ''AgreementStatusType'', True), (''local_profile_id'', ''ProfileId'', True),
       (''partner_profile_id'', ''ProfileId'', True), (''base_directory'', ''HomeDirectory'', True),
       (''access_role'', ''Role'', True), (''preserve_filename'', ''PreserveFilenameType'', True),
       (''enforce_message_signing'', ''EnforceMessageSigningType'', True), (''custom_directories'',
       ''CustomDirectoriesType'', True)], am_result = ''UpdateAgreementResponse''\<rparr>,
     \<lparr>am_operation = ''UpdateCertificate'', am_name = ''update_certificate'', am_params =
       [(''certificate_id'', ''CertificateId'', False), (''active_date'', ''CertDate'', True), (''inactive_date'',
       ''CertDate'', True), (''description'', ''Description'', True)], am_result =
       ''UpdateCertificateResponse''\<rparr>,
     \<lparr>am_operation = ''UpdateConnector'', am_name = ''update_connector'', am_params = [(''connector_id'',
       ''ConnectorId'', False), (''url'', ''Url'', True), (''as2_config'', ''As2ConnectorConfig'', True),
       (''access_role'', ''Role'', True), (''logging_role'', ''Role'', True), (''sftp_config'',
       ''SftpConnectorConfig'', True), (''security_policy_name'', ''ConnectorSecurityPolicyName'', True),
       (''egress_config'', ''UpdateConnectorEgressConfig'', True)], am_result = ''UpdateConnectorResponse''\<rparr>]"

definition transfer_methods_12 :: "api_method list" where
  "transfer_methods_12 =
    [
     \<lparr>am_operation = ''UpdateHostKey'', am_name = ''update_host_key'', am_params = [(''server_id'',
       ''ServerId'', False), (''host_key_id'', ''HostKeyId'', False), (''description'', ''HostKeyDescription'',
       False)], am_result = ''UpdateHostKeyResponse''\<rparr>,
     \<lparr>am_operation = ''UpdateProfile'', am_name = ''update_profile'', am_params = [(''profile_id'',
       ''ProfileId'', False), (''certificate_ids'', ''CertificateIds'', True)], am_result =
       ''UpdateProfileResponse''\<rparr>,
     \<lparr>am_operation = ''UpdateServer'', am_name = ''update_server'', am_params = [(''server_id'',
       ''ServerId'', False), (''certificate'', ''Certificate'', True), (''protocol_details'', ''ProtocolDetails'',
       True), (''endpoint_details'', ''EndpointDetails'', True), (''endpoint_type'', ''EndpointType'', True),
       (''host_key'', ''HostKey'', True), (''identity_provider_details'', ''IdentityProviderDetails'', True),
       (''logging_role'', ''NullableRole'', True), (''post_authentication_login_banner'',
       ''PostAuthenticationLoginBanner'', True), (''pre_authentication_login_banner'',
       ''PreAuthenticationLoginBanner'', True), (''protocols'', ''Protocols'', True), (''security_policy_name'',
       ''SecurityPolicyName'', True), (''workflow_details'', ''WorkflowDetails'', True),
       (''structured_log_destinations'', ''StructuredLogDestinations'', True), (''s3_storage_options'',
       ''S3StorageOptions'', True), (''ip_address_type'', ''IpAddressType'', True), (''identity_provider_type'',
       ''IdentityProviderType'', True)], am_result = ''UpdateServerResponse''\<rparr>,
     \<lparr>am_operation = ''UpdateUser'', am_name = ''update_user'', am_params = [(''server_id'', ''ServerId'',
       False), (''user_name'', ''UserName'', False), (''home_directory'', ''HomeDirectory'', True),
       (''home_directory_type'', ''HomeDirectoryType'', True), (''home_directory_mappings'',
       ''HomeDirectoryMappings'', True), (''policy'', ''Policy'', True), (''posix_profile'', ''PosixProfile'',
       True), (''role'', ''Role'', True)], am_result = ''UpdateUserResponse''\<rparr>]"

definition transfer_methods_13 :: "api_method list" where
  "transfer_methods_13 =
    [
     \<lparr>am_operation = ''UpdateWebApp'', am_name = ''update_web_app'', am_params = [(''web_app_id'',
       ''WebAppId'', False), (''identity_provider_details'', ''UpdateWebAppIdentityProviderDetails'', True),
       (''access_endpoint'', ''WebAppAccessEndpoint'', True), (''web_app_units'', ''WebAppUnits'', True),
       (''endpoint_details'', ''UpdateWebAppEndpointDetails'', True)], am_result = ''UpdateWebAppResponse''\<rparr>,
     \<lparr>am_operation = ''UpdateWebAppCustomization'', am_name = ''update_web_app_customization'', am_params =
       [(''web_app_id'', ''WebAppId'', False), (''title'', ''WebAppTitle'', True), (''logo_file'',
       ''WebAppLogoFile'', True), (''favicon_file'', ''WebAppFaviconFile'', True)], am_result =
       ''UpdateWebAppCustomizationResponse''\<rparr>]"

definition transfer_methods :: "api_method list" where
  "transfer_methods = transfer_methods_1 @ transfer_methods_2 @ transfer_methods_3 @ transfer_methods_4 @ transfer_methods_5 @ transfer_methods_6 @ transfer_methods_7 @ transfer_methods_8 @ transfer_methods_9 @ transfer_methods_10 @ transfer_methods_11 @ transfer_methods_12 @ transfer_methods_13"

text \<open>The requests, by the name of their operation.\<close>

fun requests_of :: "(string \<times> api_type) list \<Rightarrow> (string \<times> field list) list" where
  "requests_of [] = []"
| "requests_of ((name, Request fs) # ds) = (name, fs) # requests_of ds"
| "requests_of (d # ds) = requests_of ds"

definition transfer_requests :: "(string \<times> field list) list" where
  "transfer_requests = requests_of transfer_types"

text \<open>
  What \<open>xform_name\<close> makes of the names of fields here: an underscore before every capital that follows a
  small letter or a digit, or comes before a small letter, and small letters throughout.
\<close>

fun is_upper :: "char \<Rightarrow> bool" where
  "is_upper (Char b0 b1 b2 b3 b4 b5 b6 b7) \<longleftrightarrow>
     \<not> b7 \<and> b6 \<and> \<not> b5 \<and> (b0 \<or> b1 \<or> b2 \<or> b3 \<or> b4) \<and> \<not> (b4 \<and> b3 \<and> (b2 \<or> b1 \<and> b0))"

fun small_letter :: "char \<Rightarrow> char" where
  "small_letter (Char b0 b1 b2 b3 b4 b5 b6 b7) =
     (if is_upper (Char b0 b1 b2 b3 b4 b5 b6 b7) then Char b0 b1 b2 b3 b4 True b6 b7 else Char b0 b1 b2 b3 b4 b5 b6 b7)"

fun snake_from :: "char option \<Rightarrow> string \<Rightarrow> string" where
  "snake_from before [] = []"
| "snake_from before (c # s) =
     (if is_upper c \<and> before \<noteq> None \<and> (\<not> is_upper (the before) \<or> (s \<noteq> [] \<and> \<not> is_upper (hd s)))
      then CHR ''_'' # small_letter c # snake_from (Some c) s else small_letter c # snake_from (Some c) s)"

definition snake :: "string \<Rightarrow> string" where
  "snake s = snake_from None s"

text \<open>A method fits its request: its parameters are the fields of the request, up to the order.\<close>

fun same_fields :: "field list \<Rightarrow> field list \<Rightarrow> bool" where
  "same_fields [] ps = (ps = [])"
| "same_fields (f # fs) ps = (f \<in> set ps \<and> same_fields fs (remove1 f ps))"

definition method_typed :: "(string \<times> field list) list \<Rightarrow> api_method \<Rightarrow> bool" where
  "method_typed requests m =
     (case map_of requests (am_operation m @ ''Request'') of
        None \<Rightarrow> False
      | Some fs \<Rightarrow> same_fields (map (\<lambda>(n, t, opt). (snake n, t, opt)) fs) (am_params m))"

text \<open>The parameters a caller has to bind, with their names and whether they have a default.\<close>

definition signature :: "api_method \<Rightarrow> (string \<times> bool) list" where
  "signature m = (''context'', False) # map (\<lambda>(n, t, opt). (n, opt)) (am_params m)"

subsection \<open>Checks of the tables\<close>

lemma methods_typed_1: "list_all (method_typed transfer_requests) transfer_methods_1"
  by code_simp

lemma methods_typed_2: "list_all (method_typed transfer_requests) transfer_methods_2"
  by code_simp

lemma methods_typed_3: "list_all (method_typed transfer_requests) transfer_methods_3"
  by code_simp

lemma methods_typed_4: "list_all (method_typed transfer_requests) transfer_methods_4"
  by code_simp

lemma methods_typed_5: "list_all (method_typed transfer_requests) transfer_methods_5"
  by code_simp

lemma methods_typed_6: "list_all (method_typed transfer_requests) transfer_methods_6"
  by code_simp

lemma methods_typed_7: "list_all (method_typed transfer_requests) transfer_methods_7"
  by code_simp

lemma methods_typed_8: "list_all (method_typed transfer_requests) transfer_methods_8"
  by code_simp

lemma methods_typed_9: "list_all (method_typed transfer_requests) transfer_methods_9"
  by code_simp

lemma methods_typed_10: "list_all (method_typed transfer_requests) transfer_methods_10"
  by code_simp

lemma methods_typed_11: "list_all (method_typed transfer_requests) transfer_methods_11"
  by code_simp

lemma methods_typed_12: "list_all (method_typed transfer_requests) transfer_methods_12"
  by code_simp

lemma methods_typed_13: "list_all (method_typed transfer_requests) transfer_methods_13"
  by code_simp

lemma methods_typed: "list_all (method_typed transfer_requests) transfer_methods"
  by (simp add: transfer_methods_def methods_typed_1 methods_typed_2 methods_typed_3 methods_typed_4 methods_typed_5 methods_typed_6 methods_typed_7 methods_typed_8 methods_typed_9 methods_typed_10 methods_typed_11 methods_typed_12 methods_typed_13)

lemma parameters_distinct: "list_all (\<lambda>m. distinct (map fst (signature m))) transfer_methods"
  by code_simp

text \<open>Names are told apart by their bits in increasing order.\<close>

fun char_bits :: "char \<Rightarrow> bool list" where
  "char_bits (Char b0 b1 b2 b3 b4 b5 b6 b7) = [b7, b6, b5, b4, b3, b2, b1, b0]"

fun bits_less :: "bool list \<Rightarrow> bool list \<Rightarrow> bool" where
  "bits_less [] ys = (ys \<noteq> [])"
| "bits_less (x # xs) [] = False"
| "bits_less (x # xs) (y # ys) = (if x = y then bits_less xs ys else y)"

fun increasing :: "bool list list \<Rightarrow> bool" where
  "increasing (x # y # xs) = (bits_less x y \<and> increasing (y # xs))"
| "increasing xs = True"

lemma bits_less_lexord: "bits_less xs ys \<longleftrightarrow> (xs, ys) \<in> lexord {(False, True)}"
  by (induction xs ys rule: bits_less.induct) (auto simp: neq_Nil_conv)

lemma increasing_distinct:
  assumes "increasing xs"
  shows "distinct xs"
proof -
  have "trans (lexord {(False, True)})" by (rule lexord_transI) (auto intro: transI)
  then have "transp bits_less" by (metis bits_less_lexord transD transpI)
  moreover have "successively bits_less xs" using assms by (induction xs rule: increasing.induct) auto
  ultimately have sorted: "sorted_wrt bits_less xs" by (simp add: successively_conv_sorted_wrt)
  have "\<not> bits_less x x" for x by (induction x) auto
  with sorted show ?thesis by (induction xs) auto
qed

definition name_bits :: "string \<Rightarrow> bool list" where
  "name_bits s = concat (map char_bits s)"

lemma operations_distinct: "distinct (map am_operation transfer_methods)" "distinct (map am_name transfer_methods)"
proof -
  have "increasing (map name_bits (map am_operation transfer_methods))" "increasing (map name_bits (map am_name transfer_methods))"
    by code_simp+
  then show "distinct (map am_operation transfer_methods)" "distinct (map am_name transfer_methods)"
    using increasing_distinct distinct_map by blast+
qed

subsection \<open>Lemmas\<close>

lemma same_fields_mset: "same_fields fs ps \<Longrightarrow> mset fs = mset ps"
proof (induction fs arbitrary: ps)
  case (Cons f fs)
  then have "mset fs = mset ps - {#f#}" "f \<in> set ps" by auto
  then show ?case by (simp add: insert_DiffM)
qed simp

lemma method_fields:
  assumes "m \<in> set transfer_methods"
  obtains fs where "map_of transfer_requests (am_operation m @ ''Request'') = Some fs"
    and "mset (map (\<lambda>(n, t, opt). (snake n, t, opt)) fs) = mset (am_params m)"
    and "distinct (''context'' # map (\<lambda>(n, t, opt). snake n) fs)"
proof -
  have "method_typed transfer_requests m" using methods_typed assms by (simp add: list_all_iff)
  then obtain fs where fs: "map_of transfer_requests (am_operation m @ ''Request'') = Some fs"
      "same_fields (map (\<lambda>(n, t, opt). (snake n, t, opt)) fs) (am_params m)"
    by (auto simp: method_typed_def split: option.splits)
  have perm: "mset (map (\<lambda>(n, t, opt). (snake n, t, opt)) fs) = mset (am_params m)" by (rule same_fields_mset [OF fs(2)])
  have "mset (map (\<lambda>(n, t, opt). snake n) fs) = image_mset fst (mset (map (\<lambda>(n, t, opt). (snake n, t, opt)) fs))"
    by (simp add: image_mset.compositionality comp_def split_def)
  also have "\<dots> = mset (map fst (am_params m))" unfolding perm by simp
  finally have names: "mset (map (\<lambda>(n, t, opt). snake n) fs) = mset (map fst (am_params m))" .
  have "distinct (map fst (signature m))" using parameters_distinct assms by (simp add: list_all_iff)
  then have "distinct (''context'' # map fst (am_params m))" by (simp add: signature_def comp_def split_def)
  then have "distinct (''context'' # map (\<lambda>(n, t, opt). snake n) fs)"
    using names by (metis distinct.simps(2) mset_eq_imp_distinct_iff mset_eq_setD)
  with fs(1) perm that show ?thesis by blast
qed

end
