(* ===== verification/TransferDispatch.thy ===== *)
theory TransferDispatch
  imports TransferApi Dispatch
begin

text \<open>
  Calls of the methods of the Transfer API through the dispatch table that the skeleton creates for the
  provider. The property: every request that has the fields of its type is a well-typed call of the method
  of its operation, and each field arrives at the parameter of its name.
\<close>

subsection \<open>Calls\<close>

text \<open>
  The binding of arguments to the parameters of a method that also takes further keyword arguments, and a
  method as the dispatcher calls it.
\<close>

fun bind_arguments :: "(string \<times> bool) list \<Rightarrow> call_arg list \<Rightarrow> (ustr \<times> call_arg) list \<Rightarrow> (string \<times> call_arg) list result" where
  "bind_arguments [] [] kwargs = Inr []"
| "bind_arguments [] (a # args) kwargs = Inl TypeError"
| "bind_arguments ((n, opt) # ps) (a # args) kwargs =
     (if dict_get kwargs (cp n) \<noteq> None then Inl TypeError else map_sum id (Cons (n, a)) (bind_arguments ps args kwargs))"
| "bind_arguments ((n, opt) # ps) [] kwargs =
     (case dict_get kwargs (cp n) of
        Some a \<Rightarrow> map_sum id (Cons (n, a)) (bind_arguments ps [] kwargs)
      | None \<Rightarrow> if opt then map_sum id (Cons (n, ValueArg PNone)) (bind_arguments ps [] kwargs) else Inl TypeError)"

type_synonym 'w method_body = "(string \<times> call_arg) list \<Rightarrow> 'w \<Rightarrow> service_outcome \<times> 'w"

definition call_method :: "api_method \<Rightarrow> 'w method_body \<Rightarrow> 'w provider_fn" where
  "call_method m body args kwargs w =
     (case bind_arguments (signature m) args kwargs of Inl e \<Rightarrow> (RaisedOther e, w) | Inr bound \<Rightarrow> body bound w)"

definition method_dispatcher :: "api_method \<Rightarrow> 'w method_body \<Rightarrow> 'w dispatcher" where
  "method_dispatcher m body =
     \<lparr>sd_fn = call_method m body, sd_operation = cp (am_operation m), sd_pass_context = True, sd_expand_parameters = True\<rparr>"

text \<open>
  The provider: it overrides five methods, which have the signature of the API but no marker of their own;
  the others raise NotImplementedError.
\<close>

definition IMPLEMENTED :: "string list" where
  "IMPLEMENTED = [''create_server'', ''create_user'', ''delete_user'', ''describe_server'', ''list_users'']"

definition transfer_body :: "(string \<Rightarrow> 'w method_body) \<Rightarrow> api_method \<Rightarrow> 'w method_body" where
  "transfer_body provider m =
     (if am_name m \<in> set IMPLEMENTED then provider (am_name m) else (\<lambda>_ w. (RaisedNotImplemented None, w)))"

definition marker :: "api_method \<Rightarrow> (ustr \<times> bool \<times> bool) option" where
  "marker m = Some (cp (am_operation m), True, True)"

definition transfer_delegate :: "(string \<Rightarrow> 'w method_body) \<Rightarrow> 'w delegate" where
  "transfer_delegate provider =
     \<lparr>dg_classes =
        [map (\<lambda>m. \<lparr>mf_name = am_name m, mf_marker = marker m\<rparr>) transfer_methods,
         map (\<lambda>m. \<lparr>mf_name = am_name m, mf_marker = (if am_name m \<in> set IMPLEMENTED then None else marker m)\<rparr>) transfer_methods],
      dg_attribute = (\<lambda>name. map_option (\<lambda>m. call_method m (transfer_body provider m)) (find (\<lambda>m. am_name m = name) transfer_methods))\<rparr>"

subsection \<open>Lemmas\<close>

lemma keyword_arguments_fields:
  assumes "distinct (map fst acc @ map (\<lambda>(n, v). cp (snake n)) kvs)" "\<forall>(n, v) \<in> set kvs. xform (cp n) = cp (snake n)"
  shows "keyword_arguments xform (map (\<lambda>(n, v). (PStr (cp n), v)) kvs) acc = Inr (acc @ map (\<lambda>(n, v). (cp (snake n), ValueArg v)) kvs)"
  using assms
proof (induction kvs arbitrary: acc)
  case (Cons kv kvs)
  obtain n v where kv: "kv = (n, v)" by (cases kv)
  have "dict_set (cp (snake n)) (ValueArg v) acc = acc @ [(cp (snake n), ValueArg v)]"
    using Cons.prems(1) kv by (intro dict_set_new) auto
  then show ?case using Cons kv by (auto simp del: cp_simps)
qed simp

lemma bind_keywords:
  "(\<And>n. (n, False) \<in> set ps \<Longrightarrow> dict_get kwargs (cp n) \<noteq> None) \<Longrightarrow>
     bind_arguments ps [] kwargs = Inr (map (\<lambda>(n, opt). (n, case dict_get kwargs (cp n) of Some a \<Rightarrow> a | None \<Rightarrow> ValueArg PNone)) ps)"
proof (induction ps)
  case (Cons p ps)
  obtain n opt where p: "p = (n, opt)" by (cases p)
  have "bind_arguments ps [] kwargs = Inr (map (\<lambda>(n, opt). (n, case dict_get kwargs (cp n) of Some a \<Rightarrow> a | None \<Rightarrow> ValueArg PNone)) ps)"
    using Cons by simp
  then show ?case using Cons.prems [of n] p by (cases "dict_get kwargs (cp n)"; cases opt) auto
qed simp

text \<open>The dispatch table of the provider.\<close>

lemma dict_set_same: "dict_get d k = Some v \<Longrightarrow> dict_set k v d = d"
  by (induction d) (auto split: if_splits)

definition attributes_of :: "api_method \<Rightarrow> handler_attributes" where
  "attributes_of m = \<lparr>ha_function_name = am_name m, ha_operation = cp (am_operation m), ha_pass_context = True, ha_expand_parameters = True\<rparr>"

lemma attributes_of_simps:
  "ha_function_name (attributes_of m) = am_name m" "ha_operation (attributes_of m) = cp (am_operation m)"
  "ha_pass_context (attributes_of m)" "ha_expand_parameters (attributes_of m)"
  by (simp_all add: attributes_of_def)

lemma collect_api:
  assumes "distinct (map am_operation ms)" "\<forall>m \<in> set ms. cp (am_operation m) \<notin> fst ` set handlers"
  shows "fold collect_handler (map (\<lambda>m. \<lparr>mf_name = am_name m, mf_marker = marker m\<rparr>) ms) handlers
    = handlers @ map (\<lambda>m. (cp (am_operation m), attributes_of m)) ms"
  using assms
proof (induction ms arbitrary: handlers)
  case (Cons m ms)
  have "collect_handler \<lparr>mf_name = am_name m, mf_marker = marker m\<rparr> handlers = handlers @ [(cp (am_operation m), attributes_of m)]"
    using Cons.prems(2) by (simp add: collect_handler_def marker_def attributes_of_def dict_set_new)
  moreover have "fold collect_handler (map (\<lambda>m. \<lparr>mf_name = am_name m, mf_marker = marker m\<rparr>) ms) (handlers @ [(cp (am_operation m), attributes_of m)])
      = (handlers @ [(cp (am_operation m), attributes_of m)]) @ map (\<lambda>m. (cp (am_operation m), attributes_of m)) ms"
    using Cons.prems by (intro Cons.IH) (auto simp: image_iff)
  ultimately show ?case by simp
qed simp

lemma collect_provider:
  assumes "\<forall>m \<in> set ms. dict_get handlers (cp (am_operation m)) = Some (attributes_of m)"
  shows "fold collect_handler (map (\<lambda>m. \<lparr>mf_name = am_name m, mf_marker = (if P m then None else marker m)\<rparr>) ms) handlers = handlers"
  using assms
proof (induction ms)
  case (Cons m ms)
  have "collect_handler \<lparr>mf_name = am_name m, mf_marker = (if P m then None else marker m)\<rparr> handlers = handlers"
    using Cons.prems dict_set_same [of handlers "cp (am_operation m)" "attributes_of m"]
    by (simp add: collect_handler_def marker_def attributes_of_def)
  then show ?case using Cons by simp
qed simp

lemma find_name: "distinct (map am_name ms) \<Longrightarrow> m \<in> set ms \<Longrightarrow> find (\<lambda>m'. am_name m' = am_name m) ms = Some m"
  by (induction ms) auto

lemma bind_api:
  assumes "\<forall>m \<in> set ms. attribute (am_name m) = Some (call_method m (body m))"
    and "distinct (map am_operation ms)" "\<forall>m \<in> set ms. cp (am_operation m) \<notin> fst ` set table"
  shows "bind_handlers attribute (map attributes_of ms) table = Inr (table @ map (\<lambda>m. (cp (am_operation m), method_dispatcher m (body m))) ms)"
  using assms
proof (induction ms arbitrary: table)
  case (Cons m ms)
  have "dict_set (cp (am_operation m)) (method_dispatcher m (body m)) table = table @ [(cp (am_operation m), method_dispatcher m (body m))]"
    using Cons.prems(3) by (simp add: dict_set_new)
  moreover have "bind_handlers attribute (map attributes_of ms) (table @ [(cp (am_operation m), method_dispatcher m (body m))])
      = Inr ((table @ [(cp (am_operation m), method_dispatcher m (body m))]) @ map (\<lambda>m. (cp (am_operation m), method_dispatcher m (body m))) ms)"
    using Cons.prems by (intro Cons.IH) (auto simp: image_iff)
  ultimately show ?case using Cons.prems(1) by (simp add: attributes_of_simps method_dispatcher_def)
qed simp

definition transfer_table :: "(string \<Rightarrow> 'w method_body) \<Rightarrow> 'w dispatch_table" where
  "transfer_table provider = map (\<lambda>m. (cp (am_operation m), method_dispatcher m (transfer_body provider m))) transfer_methods"

lemma operations_map_of:
  assumes "m \<in> set transfer_methods"
  shows "dict_get (map (\<lambda>m. (cp (am_operation m), f m)) transfer_methods) (cp (am_operation m)) = Some (f m)"
proof -
  have "distinct (map fst (map (\<lambda>m. (cp (am_operation m), f m)) transfer_methods))"
    using operations_distinct(1) by (simp add: comp_def distinct_map inj_on_def)
  then show ?thesis using assms by (intro map_of_is_SomeI) auto
qed

lemma transfer_table_created: "create_dispatch_table (transfer_delegate provider) = Inr (transfer_table provider)"
proof -
  let ?h = "map (\<lambda>m. (cp (am_operation m), attributes_of m)) transfer_methods"
  have api: "fold collect_handler (map (\<lambda>m. \<lparr>mf_name = am_name m, mf_marker = marker m\<rparr>) transfer_methods) [] = ?h"
    using collect_api [OF operations_distinct(1), of "[]"] by simp
  have "fold collect_handler (map (\<lambda>m. \<lparr>mf_name = am_name m, mf_marker = (if am_name m \<in> set IMPLEMENTED then None else marker m)\<rparr>) transfer_methods) ?h = ?h"
    by (rule collect_provider) (use operations_map_of in blast)
  then have "fold collect_handler (concat (dg_classes (transfer_delegate provider))) [] = ?h"
    using api by (simp add: transfer_delegate_def)
  moreover have "bind_handlers (dg_attribute (transfer_delegate provider)) (map attributes_of transfer_methods) [] = Inr (transfer_table provider)"
    using bind_api [of transfer_methods "dg_attribute (transfer_delegate provider)" "transfer_body provider" "[]"]
      operations_distinct find_name [OF operations_distinct(2)]
    by (simp add: transfer_delegate_def transfer_table_def)
  ultimately show ?thesis by (simp add: create_dispatch_table_def comp_def)
qed

text \<open>The keyword arguments a parameter is looked up in.\<close>

lemma keyword_lookup:
  assumes "\<And>n'. n' \<in> fst ` set kvs \<Longrightarrow> snake n' = snake n \<Longrightarrow> n' = n"
  shows "dict_get (map (\<lambda>(n, v). (cp (snake n), ValueArg v)) kvs) (cp (snake n)) = map_option ValueArg (dict_get kvs n)"
  using assms
proof (induction kvs)
  case (Cons kv kvs)
  obtain n' v where kv: "kv = (n', v)" by (cases kv)
  have "dict_get (map (\<lambda>(n, v). (cp (snake n), ValueArg v)) kvs) (cp (snake n)) = map_option ValueArg (dict_get kvs n)"
    by (rule Cons.IH) (use Cons.prems in simp)
  moreover have "snake n = snake n' \<longleftrightarrow> n = n'" using Cons.prems [of n'] kv by auto
  ultimately show ?case using kv by simp
qed simp

lemma bound_lookup: "dict_get (map (\<lambda>(n, opt). (n, f n)) ps) p = (if p \<in> fst ` set ps then Some (f p) else None)"
  by (induction ps) auto

subsection \<open>Property\<close>

text \<open>
  C40: the methods of the generated API fit their requests. The dispatch table of the provider has every
  operation, and a request of the operation's type, with all required fields and none but its fields, is
  a well-typed call: it reaches the method of the operation, or the stub that is not implemented, with the
  context and with every field at the parameter of its name, None for the fields that are absent.
\<close>

theorem transfer_requests_well_typed:
  assumes "m \<in> set transfer_methods"
  shows "\<exists>fs table d. map_of transfer_requests (am_operation m @ ''Request'') = Some fs
    \<and> create_dispatch_table (transfer_delegate provider) = Inr table \<and> dict_get table (cp (am_operation m)) = Some d
    \<and> (\<forall>kvs xform ctx w. distinct (map fst kvs) \<and> fst ` set kvs \<subseteq> fst ` set fs \<and> (\<forall>(n, t, opt) \<in> set fs. \<not> opt \<longrightarrow> n \<in> fst ` set kvs)
        \<and> (\<forall>n \<in> fst ` set fs. xform (cp n) = cp (snake n)) \<longrightarrow>
        (\<exists>bound. dispatch_call xform d ctx (PDict (map (\<lambda>(n, v). (PStr (cp n), v)) kvs)) w = transfer_body provider m bound w
          \<and> dict_get bound ''context'' = Some (ContextArg ctx)
          \<and> (\<forall>n \<in> fst ` set fs. dict_get bound (snake n) = Some (ValueArg (case dict_get kvs n of Some v \<Rightarrow> v | None \<Rightarrow> PNone)))))"
proof -
  obtain fs where fs: "map_of transfer_requests (am_operation m @ ''Request'') = Some fs"
    and perm: "mset (map (\<lambda>(n, t, opt). (snake n, t, opt)) fs) = mset (am_params m)"
    and names: "distinct (''context'' # map (\<lambda>(n, t, opt). snake n) fs)"
    by (rule method_fields [OF assms])
  have params: "(p, t, opt) \<in> set (am_params m) \<longleftrightarrow> (\<exists>n. (n, t, opt) \<in> set fs \<and> p = snake n)" for p t opt
  proof -
    have "set (am_params m) = (\<lambda>(n, t, opt). (snake n, t, opt)) ` set fs" using mset_eq_setD [OF perm] by simp
    then show ?thesis by force
  qed
  have inj: "inj_on snake (fst ` set fs)"
    using names by (auto simp: distinct_map inj_on_def split_def)
  have no_context: "snake n \<noteq> ''context''" if "n \<in> fst ` set fs" for n
    using names that by force
  let ?d = "method_dispatcher m (transfer_body provider m)"
  have call: "\<exists>bound. dispatch_call xform ?d ctx (PDict (map (\<lambda>(n, v). (PStr (cp n), v)) kvs)) w = transfer_body provider m bound w
      \<and> dict_get bound ''context'' = Some (ContextArg ctx)
      \<and> (\<forall>n \<in> fst ` set fs. dict_get bound (snake n) = Some (ValueArg (case dict_get kvs n of Some v \<Rightarrow> v | None \<Rightarrow> PNone)))"
    if kvs: "distinct (map fst kvs)" "fst ` set kvs \<subseteq> fst ` set fs" "\<forall>(n, t, opt) \<in> set fs. \<not> opt \<longrightarrow> n \<in> fst ` set kvs"
      and xform: "\<forall>n \<in> fst ` set fs. xform (cp n) = cp (snake n)" for kvs xform ctx w
  proof -
    let ?kw = "map (\<lambda>(n, v). (cp (snake n), ValueArg v)) kvs"
    let ?kwargs = "dict_set (cp ''context'') (ContextArg ctx) ?kw"
    have "inj_on (\<lambda>n. cp (snake n)) (set (map fst kvs))"
      using inj_on_subset [OF inj kvs(2)] by (simp add: inj_on_def)
    then have "distinct (map (\<lambda>n. cp (snake n)) (map fst kvs))" using kvs(1) by (simp only: distinct_map)
    then have "distinct (map (\<lambda>(n, v). cp (snake n)) kvs)" by (simp add: comp_def split_def)
    then have kw: "keyword_arguments xform (map (\<lambda>(n, v). (PStr (cp n), v)) kvs) [] = Inr ?kw"
      using keyword_arguments_fields [of "[]" kvs xform] kvs(2) xform by force
    have get: "dict_get ?kwargs (cp (snake n)) = map_option ValueArg (dict_get kvs n)" if "n \<in> fst ` set fs" for n
    proof -
      have "snake n' = snake n \<Longrightarrow> n' = n" if "n' \<in> fst ` set kvs" for n'
        using inj_onD [OF inj] that kvs(2) \<open>n \<in> fst ` set fs\<close> by blast
      then show ?thesis using keyword_lookup [of kvs n] no_context [OF that] by (simp add: dict_get_set del: cp_simps)
    qed
    have context_arg: "dict_get ?kwargs (cp ''context'') = Some (ContextArg ctx)" by (simp add: dict_get_set del: cp_simps)
    let ?bound = "map (\<lambda>(n, opt). (n, case dict_get ?kwargs (cp n) of Some a \<Rightarrow> a | None \<Rightarrow> ValueArg PNone)) (signature m)"
    have "bind_arguments (signature m) [] ?kwargs = Inr ?bound"
    proof (rule bind_keywords)
      fix p assume "(p, False) \<in> set (signature m)"
      then consider "p = ''context''" | n t where "(n, t, False) \<in> set fs" "p = snake n"
        using params by (auto simp: signature_def)
      then show "dict_get ?kwargs (cp p) \<noteq> None"
      proof cases
        case 2
        then have "n \<in> fst ` set kvs" "n \<in> fst ` set fs" using kvs(3) by force+
        then show ?thesis using get [of n] 2(2) by (auto simp: dict_get_None)
      qed (use context_arg in simp)
    qed
    then have calls: "dispatch_call xform ?d ctx (PDict (map (\<lambda>(n, v). (PStr (cp n), v)) kvs)) w = transfer_body provider m ?bound w"
      using kw by (simp add: dispatch_call_def py_items_def method_dispatcher_def call_method_def del: cp_simps)
    have "''context'' \<in> fst ` set (signature m)" by (simp add: signature_def)
    then have "dict_get ?bound ''context'' = Some (ContextArg ctx)"
      unfolding bound_lookup context_arg by simp
    moreover have "dict_get ?bound (snake n) = Some (ValueArg (case dict_get kvs n of Some v \<Rightarrow> v | None \<Rightarrow> PNone))"
      if n: "n \<in> fst ` set fs" for n
    proof -
      obtain t opt where "(n, t, opt) \<in> set fs" using n by auto
      then have "(snake n, t, opt) \<in> set (am_params m)" using params by blast
      then have "snake n \<in> fst ` set (signature m)" by (force simp: signature_def)
      then show ?thesis unfolding bound_lookup get [OF n] by (simp split: option.split)
    qed
    ultimately show ?thesis using calls by blast
  qed
  have table: "dict_get (transfer_table provider) (cp (am_operation m)) = Some ?d"
    unfolding transfer_table_def by (rule operations_map_of [OF assms])
  show ?thesis
    by (rule exI [of _ fs], rule exI [of _ "transfer_table provider"], rule exI [of _ ?d],
        intro conjI allI impI, rule fs, rule transfer_table_created, rule table, elim conjE, rule call)
qed

lemma transfer_requests_well_typed_witness:
  "\<exists>table d. create_dispatch_table (transfer_delegate (\<lambda>name bound w. (Returned PNone, w))) = Inr table
     \<and> dict_get table (cp ''CreateAccess'') = Some d
     \<and> (\<forall>ctx. \<exists>bound. dispatch_call (\<lambda>n. cp (snake (map char_of n))) d ctx
         (PDict [(PStr (cp ''Role''), PNone), (PStr (cp ''ServerId''), PNone), (PStr (cp ''ExternalId''), PStr [1])]) ()
         = (RaisedNotImplemented None, ())
     \<and> dict_get bound ''external_id'' = Some (ValueArg (PStr [1])) \<and> dict_get bound ''policy'' = Some (ValueArg PNone))"
proof -
  let ?m = "hd transfer_methods_1" and ?provider = "\<lambda>name bound w. (Returned PNone, w :: unit)"
  let ?kvs = "[(''Role'', PNone), (''ServerId'', PNone), (''ExternalId'', PStr [1])]"
  have m: "?m \<in> set transfer_methods" by (simp add: transfer_methods_def transfer_methods_1_def)
  have op: "am_operation ?m = ''CreateAccess''" "am_name ?m = ''create_access''" by (simp_all add: transfer_methods_1_def)
  have request: "map_of transfer_requests (am_operation ?m @ ''Request'')
      = Some [(''HomeDirectory'', ''HomeDirectory'', True), (''HomeDirectoryType'', ''HomeDirectoryType'', True), (''HomeDirectoryMappings'', ''HomeDirectoryMappings'', True), (''Policy'', ''Policy'', True), (''PosixProfile'', ''PosixProfile'', True), (''Role'', ''Role'', False), (''ServerId'', ''ServerId'', False), (''ExternalId'', ''ExternalId'', False)]"
    by code_simp
  have stub: "transfer_body ?provider ?m bound () = (RaisedNotImplemented None, ())" for bound
    by (simp add: transfer_body_def op IMPLEMENTED_def)
  have names: "snake ''ExternalId'' = ''external_id''" "snake ''Policy'' = ''policy''" by code_simp+
  have xform: "(\<lambda>n. cp (snake (map char_of n))) (cp s) = cp (snake s)" for s by (simp add: cp_def comp_def)
  obtain fs table d where found: "map_of transfer_requests (am_operation ?m @ ''Request'') = Some fs"
      "create_dispatch_table (transfer_delegate ?provider) = Inr table" "dict_get table (cp (am_operation ?m)) = Some d"
    and calls: "\<And>kvs xform ctx w. distinct (map fst kvs) \<and> fst ` set kvs \<subseteq> fst ` set fs \<and> (\<forall>(n, t, opt) \<in> set fs. \<not> opt \<longrightarrow> n \<in> fst ` set kvs)
        \<and> (\<forall>n \<in> fst ` set fs. xform (cp n) = cp (snake n)) \<Longrightarrow>
        (\<exists>bound. dispatch_call xform d ctx (PDict (map (\<lambda>(n, v). (PStr (cp n), v)) kvs)) w = transfer_body ?provider ?m bound w
          \<and> dict_get bound ''context'' = Some (ContextArg ctx)
          \<and> (\<forall>n \<in> fst ` set fs. dict_get bound (snake n) = Some (ValueArg (case dict_get kvs n of Some v \<Rightarrow> v | None \<Rightarrow> PNone))))"
    using transfer_requests_well_typed [OF m, of ?provider] by blast
  have fs: "fs = [(''HomeDirectory'', ''HomeDirectory'', True), (''HomeDirectoryType'', ''HomeDirectoryType'', True), (''HomeDirectoryMappings'', ''HomeDirectoryMappings'', True), (''Policy'', ''Policy'', True), (''PosixProfile'', ''PosixProfile'', True), (''Role'', ''Role'', False), (''ServerId'', ''ServerId'', False), (''ExternalId'', ''ExternalId'', False)]"
    using found(1) request by simp
  have "distinct (map fst ?kvs) \<and> fst ` set ?kvs \<subseteq> fst ` set fs \<and> (\<forall>(n, t, opt) \<in> set fs. \<not> opt \<longrightarrow> n \<in> fst ` set ?kvs)
      \<and> (\<forall>n \<in> fst ` set fs. (\<lambda>n. cp (snake (map char_of n))) (cp n) = cp (snake n))"
    unfolding xform by (simp add: fs)
  note call = calls [OF this]
  have "\<exists>bound. dispatch_call (\<lambda>n. cp (snake (map char_of n))) d ctx (PDict (map (\<lambda>(n, v). (PStr (cp n), v)) ?kvs)) () = (RaisedNotImplemented None, ())
      \<and> dict_get bound ''external_id'' = Some (ValueArg (PStr [1])) \<and> dict_get bound ''policy'' = Some (ValueArg PNone)" for ctx
  proof -
    obtain bound where bound:
      "dispatch_call (\<lambda>n. cp (snake (map char_of n))) d ctx (PDict (map (\<lambda>(n, v). (PStr (cp n), v)) ?kvs)) () = (RaisedNotImplemented None, ())"
      "\<forall>n \<in> fst ` set fs. dict_get bound (snake n) = Some (ValueArg (case dict_get ?kvs n of Some v \<Rightarrow> v | None \<Rightarrow> PNone))"
      using call [of ctx "()"] unfolding stub by blast
    have "''ExternalId'' \<in> fst ` set fs" "''Policy'' \<in> fst ` set fs" by (simp_all add: fs)
    then have "dict_get bound ''external_id'' = Some (ValueArg (PStr [1]))" "dict_get bound ''policy'' = Some (ValueArg PNone)"
      using bound(2) names by force+
    with bound(1) show ?thesis by blast
  qed
  with found(2,3) show ?thesis unfolding op by (auto simp del: cp_simps)
qed

end
