(* ===== verification/Spec2Isabelle.thy ===== *)
theory Spec2Isabelle
  imports RpcV2Cbor ServiceRouter Accounts Stores TransferProvider ServiceLoader Arns QueryParser OpRouter RestParser EdgeConfig Settings Batching Collections JsonSerializer Cors ContextHandlers InitScripts Runtime InternalResources Dispatch TransferDispatch
begin

text \<open>
  LocalStack emulates AWS services. All paths below are under \<open>src/localstack-core/localstack/\<close>.

  \<^bold>\<open>The program.\<close> A gateway (\<open>aws/app.py\<close>) runs every HTTP request through a chain of handlers. The
  chain finds the service and protocol of the request, checks cross-origin rules, parses the body with
  the parser of the protocol, makes sure that the service is loaded and running, looks up the provider
  function of the operation, calls it with the parameters and the request context, and serializes its
  result or exception into a response. Providers keep their state in stores, one per account and region.

  \<^bold>\<open>Conventions.\<close> A Python exception is a value of \<open>exn\<close>, a fallible function returns \<open>exn + 'a\<close>
  (\<open>result\<close>). Stateful code is a state transformer: \<open>('s, 'a) prog\<close> yields a result or an exception and
  the state it leaves. ASCII identifiers are \<open>string\<close>, Unicode text is a list of code points (\<open>ustr\<close>,
  literals \<open>cp ''text''\<close>), bytes are 8-bit words, Python integers are \<open>int\<close>, floats are their IEEE 754 bit
  patterns (\<open>Floats\<close>). An ordered dictionary is an association list with the operations \<open>dict_get\<close>,
  \<open>dict_set\<close> and \<open>dict_del\<close>; a dictionary keyed by arbitrary values compares keys as Python does. Code of
  libraries (botocore, werkzeug, dateutil, \<open>json\<close>, \<open>cbor2\<close>, the plugin framework) is an argument of the
  definitions that use it; where a property relies on it, the documented behaviour is a hypothesis.

  \<^bold>\<open>Foundations.\<close> \<open>Prelude\<close>: exceptions, programs over a state, strings, dictionaries, header collections.
  \<open>Utf8\<close>: UTF-8 and big-endian integers with their round trips. \<open>Floats\<close>: half, single and double
  precision. \<open>PyValue\<close>: values, shapes of botocore (a codatatype: shapes may be recursive) and the
  conversions \<open>int\<close>, \<open>float\<close> and truth.

  \<^bold>\<open>Requests.\<close>
  \<^item> \<open>CborParser\<close>, \<open>ShapeParser\<close>: \<open>aws/protocol/parser.py\<close>, the CBOR reader (one definition per method of
    \<open>BaseCBORRequestParser\<close>) and the parsers of the JSON, CBOR and RPC v2 protocols. \<open>RpcV2Cbor\<close> has their
    properties: termination of the reader, what RPC v2 accepts, the round trip with the encoder.
  \<^item> \<open>QueryParser\<close>: the query, EC2 and SQS parsers. \<open>RestParser\<close>: the REST parsers and \<open>create_parser\<close>.
  \<^item> \<open>OpRouter\<close>: \<open>aws/protocol/op_router.py\<close> and \<open>routing.py\<close>, from a method and path to an operation.
  \<^item> \<open>ServiceCatalog\<close>, \<open>ServiceRouter\<close>: \<open>aws/spec.py\<close> and \<open>aws/protocol/service_router.py\<close>, from a request to
    the service and protocol.
  \<^item> \<open>Accounts\<close>: \<open>aws/accounts.py\<close> and \<open>utils/aws/request_context.py\<close>, the account and region of a request.
  \<^item> \<open>ContextHandlers\<close>: the handlers that put account and region into the context, the fallbacks, and
    the shutdown handlers of \<open>runtime/shutdown.py\<close>.
  \<^item> \<open>Cors\<close>: \<open>aws/handlers/cors.py\<close>; the regular expressions are shown equivalent to a declarative rule.

  \<^bold>\<open>Responses.\<close> \<open>CborSerializer\<close>, \<open>SerializerCore\<close>, \<open>XmlSerializer\<close>, \<open>JsonSerializer\<close> and \<open>Responses\<close> are
  \<open>aws/protocol/serializer.py\<close>: the values of each protocol, event streams, errors, and the assembly of
  the HTTP response. \<open>CborRoundtrip\<close>, \<open>XmlRoundtrip\<close> and \<open>JsonSerializer\<close> show, by induction on conforming
  values, that what a serializer writes the parser of the same protocol reads back.

  \<^bold>\<open>Dispatch and lifecycle.\<close>
  \<^item> \<open>Dispatch\<close>: \<open>aws/skeleton.py\<close> and \<open>aws/handlers/service.py\<close>. It composes the parser, the dispatch
    table and the serializer into one call, from the client's bytes to the client's bytes.
  \<^item> \<open>ServiceLifecycle\<close>: \<open>services/plugins.py\<close>. Every operation of the manager moves a container along the
    relation \<open>container_step\<close>; the invariants hold in all reachable states.
  \<^item> \<open>ServiceLoader\<close>: \<open>aws/handlers/service_plugin.py\<close> on top of both, with \<open>loader_step\<close> for several threads.
  \<^item> \<open>ApiResolution\<close>: the enabled APIs of \<open>utils/bootstrap.py\<close> and the providers of \<open>config.py\<close>.
  \<^item> \<open>Runtime\<close>: \<open>runtime/runtime.py\<close>, its hooks and its singleton; the threads of a runtime from start to exit
    are steps of \<open>runtime_step\<close>. \<open>InitScripts\<close>: the scripts of \<open>runtime/init.py\<close> and the resources reporting them.
    \<open>InternalResources\<close>: the health and configuration endpoints of \<open>services/internal.py\<close>.
  \<^item> \<open>Sync\<close>: \<open>utils/sync.py\<close> and \<open>utils/functions.py\<close>; what other threads do meanwhile is an argument.

  \<^bold>\<open>State.\<close> \<open>Stores\<close>: \<open>services/stores.py\<close> over an explicit heap, since attributes of different scopes share
  dictionaries. \<open>TransferProvider\<close>: \<open>services/transfer\<close>, a provider on these stores, refines an abstract
  specification with one map per region. \<open>TransferApi\<close> has the generated types and signatures of this service
  (\<open>aws/api/transfer\<close>) as data, \<open>TransferDispatch\<close> calls them through the dispatch table. \<open>Arns\<close>:
  \<open>utils/aws/arns.py\<close>, the names resources are known by.

  \<^bold>\<open>Configuration.\<close> \<open>EdgeConfig\<close>: the addresses of \<open>config.py\<close>, from the environment to the bindings.
  \<open>Settings\<close>: its directories, profiles, the detection of Docker and the URLs of services.

  \<^bold>\<open>Utilities.\<close> \<open>Batching\<close>: \<open>utils/batching.py\<close>, with the flush loop of \<open>AsyncBatcher\<close> as a step relation.
  \<open>Collections\<close>: the functions of \<open>utils/collections.py\<close>, with pagination and recursive merges.
  \<^bold>\<open>Bounds and fuel.\<close> Python's recursion limit is the argument \<open>limit\<close> of the recursive readers and writers
  (\<open>slim\<close>, \<open>plim\<close> and \<open>en_limit\<close> in the properties); the round trips ask for a limit above the nesting depth
  \<open>pv_depth\<close> of the value, and at the limit the model raises \<open>RecursionError\<close> as Python does. Loops over a
  byte stream get its length as fuel, which each iteration shortens; the \<open>while True\<close> loops of the query
  parser get a bound computed from the keys of the request, proved to be enough. Polling and retries run
  on their number of attempts; the search of \<open>resolve_apis\<close> may fail to end (None) and is shown to end.
  \<^bold>\<open>Locales.\<close> Each locale states what a client relies on and is interpreted on the model's own
  definitions in the theory that provides them.

  \<^bold>\<open>Not modelled.\<close> The text of
  JSON and XML documents, which libraries read and write; the other handlers, servers and clients of
  \<open>aws/\<close>, which wrap library calls; process, file, network, TLS and container utilities of \<open>utils/\<close>,
  \<open>http/\<close>, \<open>logging/\<close> and the test helpers of \<open>testing/\<close>, whose effects are the operating
  system's. Locks of single objects, whose operations they serialise, are left out; where interleaving
  matters it is modelled by steps.
\<close>

end
